(* ===== verification/Prelude.thy ===== *)
theory Prelude
  imports Main "HOL-Library.Word" "HOL-Library.AList"
begin

text \<open>
  Shared vocabulary of the development.

  \<^item> Go's integers: \<open>uint8\<close>, \<open>uint16\<close>, \<open>uint32\<close>, \<open>int64\<close> are words of that width; \<open>int\<close>
    (lengths, sizes, slice indices) is HOL's \<open>int\<close> or \<open>nat\<close>.
  \<^item> Errors: \<open>libol.NewErr\<close> (\<open>src/pkg/libol/error.go\<close>) makes an error value from a format
    string; the model keeps the format string. A run-time panic of Go (slice bounds, index,
    nil dereference) is an error value of its own, so that a theorem can say it never occurs.
  \<^item> Byte slices are lists of bytes. \<open>reslice\<close>, \<open>copy_into\<close> and the big-endian operations of
    \<open>encoding/binary\<close> are the operations the code uses on them.
  \<^item> A Go map is an association list with distinct keys (\<open>AList\<close>), so that \<open>len\<close> and
    iteration compute; Go leaves the iteration order open, the list fixes one.
\<close>

unbundle bit_operations_syntax

named_theorems go_defs \<open>definitions that models of plain data code unfold\<close>
named_theorems bytes_simps \<open>rewrite rules on byte slices\<close>

type_synonym byte = "8 word"
type_synonym u16 = "16 word"
type_synonym u32 = "32 word"
type_synonym i64 = "64 word"

section \<open>Errors\<close>

datatype error =
    NewErr string
  | Panic string

type_synonym 'a result = "error + 'a"

text \<open>A method that mutates its receiver and returns an \<open>error\<close>: the new receiver and \<open>nil\<close>
  (\<open>None\<close>) or the error.\<close>

type_synonym 'a upd = "'a \<times> error option"

fun is_panic :: "error \<Rightarrow> bool" where
  "is_panic (Panic _) = True"
| "is_panic (NewErr _) = False"

text \<open>The text that \<open>Error()\<close> gives, without its arguments.\<close>

fun error_text :: "error \<Rightarrow> string" where
  "error_text (NewErr m) = m"
| "error_text (Panic m) = m"

definition oor :: error where
  "oor = Panic ''slice bounds out of range''"

definition nil_deref :: error where
  "nil_deref = Panic ''nil pointer dereference''"

lemma is_panic_oor [simp]: "is_panic oor"
  by (simp add: oor_def)

lemma is_panic_nil_deref [simp]: "is_panic nil_deref"
  by (simp add: nil_deref_def)

lemma oor_not_NewErr [simp]: "oor \<noteq> NewErr m" "NewErr m \<noteq> oor"
  by (simp_all add: oor_def)

section \<open>Byte slices\<close>

text \<open>\<open>s[lo:hi]\<close>: bounds are checked, a violation panics.\<close>

definition slice :: "nat \<Rightarrow> nat \<Rightarrow> 'a list \<Rightarrow> 'a list" where
  "slice lo hi xs = take (hi - lo) (drop lo xs)"

definition reslice :: "int \<Rightarrow> int \<Rightarrow> 'a list \<Rightarrow> 'a list result" where
  "reslice lo hi xs =
     (if 0 \<le> lo \<and> lo \<le> hi \<and> hi \<le> int (length xs)
      then Inr (slice (nat lo) (nat hi) xs) else Inl oor)"

definition reslice_from :: "int \<Rightarrow> 'a list \<Rightarrow> 'a list result" where
  "reslice_from lo xs = reslice lo (int (length xs)) xs"

text \<open>\<open>copy(dst[lo:hi], src)\<close> with \<open>lo \<le> hi \<le> len(dst)\<close>: copies as many elements as both hold.\<close>

definition copy_into :: "nat \<Rightarrow> nat \<Rightarrow> 'a list \<Rightarrow> 'a list \<Rightarrow> 'a list" where
  "copy_into lo hi src dst =
     take lo dst @ take (hi - lo) src @ drop (lo + min (hi - lo) (length src)) dst"

lemma length_slice [simp]: "length (slice lo hi xs) = min (hi - lo) (length xs - lo)"
  by (simp add: slice_def)

lemma nth_slice [simp]:
  "i < hi - lo \<Longrightarrow> lo + i < length xs \<Longrightarrow> slice lo hi xs ! i = xs ! (lo + i)"
  by (simp add: slice_def)

lemma slice_full [simp]: "slice 0 (length xs) xs = xs"
  by (simp add: slice_def)

lemma slice_append_left [bytes_simps]:
  "hi \<le> length xs \<Longrightarrow> slice lo hi (xs @ ys) = slice lo hi xs"
  by (cases "lo \<le> hi") (simp_all add: slice_def)

lemma slice_append_mid [bytes_simps]:
  "length xs = lo \<Longrightarrow> lo + length ys = hi \<Longrightarrow> slice lo hi (xs @ ys @ zs) = ys"
  by (auto simp: slice_def)

lemma reslice_ok: "lo \<le> hi \<Longrightarrow> hi \<le> length xs \<Longrightarrow> reslice (int lo) (int hi) xs = Inr (slice lo hi xs)"
  by (simp add: reslice_def)

lemma reslice_from_ok: "lo \<le> length xs \<Longrightarrow> reslice_from (int lo) xs = Inr (drop lo xs)"
  by (simp add: reslice_from_def reslice_ok slice_def)

lemma reslice_from_numeral [simp]:
  "numeral n \<le> length xs \<Longrightarrow> reslice_from (numeral n) xs = Inr (drop (numeral n) xs)"
  using reslice_from_ok [of "numeral n" xs] by simp

lemma reslice_Inl: "reslice lo hi xs = Inl e \<longleftrightarrow> e = oor \<and> \<not> (0 \<le> lo \<and> lo \<le> hi \<and> hi \<le> int (length xs))"
  by (auto simp: reslice_def)

lemma reslice_from_Inl: "reslice_from lo xs = Inl e \<longleftrightarrow> e = oor \<and> \<not> (0 \<le> lo \<and> lo \<le> int (length xs))"
  by (auto simp: reslice_from_def reslice_Inl)

lemma reslice_from_Inr: "reslice_from lo xs = Inr ys \<longleftrightarrow> 0 \<le> lo \<and> lo \<le> int (length xs) \<and> ys = drop (nat lo) xs"
  by (auto simp: reslice_from_def reslice_def slice_def)

lemma length_copy_into [simp]:
  "lo \<le> hi \<Longrightarrow> hi \<le> length dst \<Longrightarrow> length (copy_into lo hi src dst) = length dst"
  by (auto simp: copy_into_def)

text \<open>Filling a fresh buffer from the left: the buffers of every \<open>Encode\<close> are written this way.\<close>

lemma copy_into_fill [bytes_simps]:
  assumes "length pre = lo" and "length src = hi - lo" and "lo \<le> hi" and "hi \<le> lo + n"
  shows "copy_into lo hi src (pre @ replicate n x) = (pre @ src) @ replicate (n - (hi - lo)) x"
  using assms by (auto simp: copy_into_def)

lemma copy_into_fill_0 [bytes_simps]:
  assumes "length src = hi" and "hi \<le> n"
  shows "copy_into 0 hi src (replicate n x) = src @ replicate (n - hi) x"
  using assms by (auto simp: copy_into_def)

section \<open>Big-endian integers of encoding/binary\<close>

definition Uint16 :: "byte list \<Rightarrow> u16" where
  "Uint16 b = push_bit 8 (ucast (b ! 0)) OR ucast (b ! 1)"

definition PutUint16 :: "u16 \<Rightarrow> byte list" where
  "PutUint16 v = [ucast (drop_bit 8 v), ucast v]"

definition Uint32 :: "byte list \<Rightarrow> u32" where
  "Uint32 b = push_bit 24 (ucast (b ! 0)) OR push_bit 16 (ucast (b ! 1))
     OR push_bit 8 (ucast (b ! 2)) OR ucast (b ! 3)"

definition PutUint32 :: "u32 \<Rightarrow> byte list" where
  "PutUint32 v = [ucast (drop_bit 24 v), ucast (drop_bit 16 v), ucast (drop_bit 8 v), ucast v]"

lemma length_PutUint16 [simp]: "length (PutUint16 v) = 2"
  by (simp add: PutUint16_def)

lemma length_PutUint32 [simp]: "length (PutUint32 v) = 4"
  by (simp add: PutUint32_def)

lemma Uint16_Put [simp]: "Uint16 (PutUint16 v) = v"
  by (rule bit_word_eqI)
     (auto simp: Uint16_def PutUint16_def bit_or_iff bit_push_bit_iff bit_ucast_iff bit_drop_bit_eq)

lemma Uint32_Put [simp]: "Uint32 (PutUint32 v) = v"
proof (rule bit_word_eqI)
  fix n
  assume "n < LENGTH(32)"
  then have "n < 8 \<or> (8 \<le> n \<and> n < 16) \<or> (16 \<le> n \<and> n < 24) \<or> (24 \<le> n \<and> n < 32)" by simp arith
  then show "bit (Uint32 (PutUint32 v)) n = bit v n"
    by (elim disjE)
       (auto simp: Uint32_def PutUint32_def bit_or_iff bit_push_bit_iff bit_ucast_iff bit_drop_bit_eq)
qed

lemma Put_Uint16: "length b = 2 \<Longrightarrow> PutUint16 (Uint16 b) = b"
proof -
  assume "length b = 2"
  then obtain x y where b: "b = [x, y]"
    by (auto simp: numeral_2_eq_2 length_Suc_conv)
  have "ucast (drop_bit 8 (push_bit 8 (ucast x) OR ucast y :: u16)) = x"
    by (rule bit_word_eqI) (auto simp: bit_ucast_iff bit_drop_bit_eq bit_or_iff bit_push_bit_iff
        dest: bit_imp_le_length)
  moreover have "ucast (push_bit 8 (ucast x) OR ucast y :: u16) = y"
    by (rule bit_word_eqI) (auto simp: bit_ucast_iff bit_or_iff bit_push_bit_iff)
  ultimately show ?thesis by (simp add: b Uint16_def PutUint16_def)
qed

section \<open>Maps with distinct keys\<close>

abbreviation keys_distinct :: "('k \<times> 'v) list \<Rightarrow> bool" where
  "keys_distinct m \<equiv> distinct (map fst m)"

lemmas map_of_upd_del = AList.update_conv' AList.delete_conv'

lemma length_update_new: "map_of m k = None \<Longrightarrow> length (AList.update k v m) = Suc (length m)"
  by (induction m) (auto split: if_splits)

lemma length_update_old: "map_of m k = Some w \<Longrightarrow> length (AList.update k v m) = length m"
  by (induction m) (auto split: if_splits)

lemma length_delete_old:
  "keys_distinct m \<Longrightarrow> map_of m k = Some w \<Longrightarrow> Suc (length (AList.delete k m)) = length m"
proof (induction m)
  case (Cons p m)
  obtain k' v' where p: "p = (k', v')" by (cases p)
  show ?case
  proof (cases "k' = k")
    case True
    with Cons.prems p have "k \<notin> fst ` set m" by auto
    with True p show ?thesis by simp
  next
    case False
    with Cons p show ?thesis by simp
  qed
qed simp

text \<open>Two ways of cutting a byte stream in two.\<close>

lemma append_split_ge:
  assumes "a @ b = w @ r" and "length w \<le> length a"
  shows "\<exists>t. a = w @ t \<and> t @ b = r"
proof -
  have "take (length w) a = w" using arg_cong [OF assms(1), of "take (length w)"] assms(2) by simp
  then have "a = w @ drop (length w) a" by (metis append_take_drop_id)
  with assms(1) show ?thesis by (metis append.assoc same_append_eq)
qed

lemma append_split_lt:
  assumes "a @ b = w @ r" and "length a < length w"
  shows "\<exists>q. w = a @ q \<and> q \<noteq> [] \<and> q @ r = b"
  using append_split_ge [OF assms(1) [symmetric]] assms(2) by force

lemma update_new_keys: "map_of m k = None \<Longrightarrow> map fst (AList.update k v m) = map fst m @ [k]"
  by (induction m) (auto split: if_splits)

lemma delete_keys: "map fst (AList.delete k m) = filter (\<lambda>x. x \<noteq> k) (map fst m)"
  by (induction m) auto

end
