(* ===== verification/Safe.thy ===== *)
theory Safe
  imports Prelude
begin

text \<open>
  The locked containers of \<open>src/pkg/libol/safe.go\<close>: \<open>SafeStrStr\<close>, \<open>SafeStrMap\<close>, \<open>SafeVar\<close> and
  \<open>SafeStrInt64\<close>. Every method takes the container's lock for its whole body, so one method is one
  atomic step of the model. \<open>str_store\<close> is the contract the two bounded maps share (first
  writer wins, a full store refuses every write); the caches of the switch rest on its
  interpretations \<open>ss\<close> and \<open>sm\<close>.
\<close>

section \<open>SafeStrStr\<close>

record SafeStrStr =
  sss_size :: int
  sss_data :: "(string \<times> string) list"

definition NewSafeStrStr :: "int \<Rightarrow> SafeStrStr" where
  "NewSafeStrStr n = \<lparr>sss_size = n, sss_data = []\<rparr>"

definition SafeStrStr_Len :: "SafeStrStr \<Rightarrow> int" where
  "SafeStrStr_Len sm = int (length (sss_data sm))"

definition SafeStrStr_full :: "SafeStrStr \<Rightarrow> bool" where
  "SafeStrStr_full sm \<longleftrightarrow> sss_size sm \<noteq> 0 \<and> int (length (sss_data sm)) \<ge> sss_size sm"

definition SafeStrStr_Reset :: "string \<Rightarrow> string \<Rightarrow> SafeStrStr \<Rightarrow> SafeStrStr upd" where
  "SafeStrStr_Reset k v sm =
     (if SafeStrStr_full sm then (sm, Some (NewErr ''SafeStrStr.Set already full''))
      else (sm\<lparr>sss_data := AList.update k v (sss_data sm)\<rparr>, None))"

definition SafeStrStr_Set :: "string \<Rightarrow> string \<Rightarrow> SafeStrStr \<Rightarrow> SafeStrStr upd" where
  "SafeStrStr_Set k v sm =
     (if SafeStrStr_full sm then (sm, Some (NewErr ''SafeStrStr.Set already full''))
      else case map_of (sss_data sm) k of
        None \<Rightarrow> (sm\<lparr>sss_data := AList.update k v (sss_data sm)\<rparr>, None)
      | Some _ \<Rightarrow> (sm, None))"

definition SafeStrStr_Del :: "string \<Rightarrow> SafeStrStr \<Rightarrow> SafeStrStr" where
  "SafeStrStr_Del k sm =
     (case map_of (sss_data sm) k of
        Some _ \<Rightarrow> sm\<lparr>sss_data := AList.delete k (sss_data sm)\<rparr>
      | None \<Rightarrow> sm)"

text \<open>Reading a missing key of a Go map gives the zero value, here the empty string.\<close>

definition SafeStrStr_Get :: "string \<Rightarrow> SafeStrStr \<Rightarrow> string" where
  "SafeStrStr_Get k sm = (case map_of (sss_data sm) k of Some v \<Rightarrow> v | None \<Rightarrow> [])"

definition SafeStrStr_GetEx :: "string \<Rightarrow> SafeStrStr \<Rightarrow> string \<times> bool" where
  "SafeStrStr_GetEx k sm = (case map_of (sss_data sm) k of Some v \<Rightarrow> (v, True) | None \<Rightarrow> ([], False))"

fun SafeStrStr_Iter :: "(string \<Rightarrow> string \<Rightarrow> 's \<Rightarrow> 's) \<Rightarrow> (string \<times> string) list \<Rightarrow> 's \<Rightarrow> int \<Rightarrow> 's \<times> int" where
  "SafeStrStr_Iter proc [] s count = (s, count)"
| "SafeStrStr_Iter proc ((k, u) # rest) s count =
     (if k \<noteq> [] then SafeStrStr_Iter proc rest (proc k u s) (count + 1)
      else SafeStrStr_Iter proc rest s count)"

section \<open>SafeStrMap\<close>

text \<open>The values have type \<open>interface{}\<close>, which may be \<open>nil\<close>: \<open>'v option\<close>.\<close>

record 'v SafeStrMap =
  ssm_size :: int
  ssm_data :: "(string \<times> 'v option) list"

definition NewSafeStrMap :: "int \<Rightarrow> 'v SafeStrMap" where
  "NewSafeStrMap n = \<lparr>ssm_size = n, ssm_data = []\<rparr>"

definition SafeStrMap_Len :: "'v SafeStrMap \<Rightarrow> int" where
  "SafeStrMap_Len sm = int (length (ssm_data sm))"

definition SafeStrMap_full :: "'v SafeStrMap \<Rightarrow> bool" where
  "SafeStrMap_full sm \<longleftrightarrow> ssm_size sm \<noteq> 0 \<and> int (length (ssm_data sm)) \<ge> ssm_size sm"

definition SafeStrMap_add :: "string \<Rightarrow> 'v option \<Rightarrow> 'v SafeStrMap \<Rightarrow> 'v SafeStrMap upd" where
  "SafeStrMap_add k v sm =
     (if SafeStrMap_full sm then (sm, Some (NewErr ''SafeStrMap.Set already full''))
      else case map_of (ssm_data sm) k of
        None \<Rightarrow> (sm\<lparr>ssm_data := AList.update k v (ssm_data sm)\<rparr>, None)
      | Some _ \<Rightarrow> (sm, None))"

definition SafeStrMap_Set :: "string \<Rightarrow> 'v option \<Rightarrow> 'v SafeStrMap \<Rightarrow> 'v SafeStrMap upd" where
  "SafeStrMap_Set k v sm = SafeStrMap_add k v sm"

definition SafeStrMap_Mod :: "string \<Rightarrow> 'v option \<Rightarrow> 'v SafeStrMap \<Rightarrow> 'v SafeStrMap upd" where
  "SafeStrMap_Mod k v sm =
     (case map_of (ssm_data sm) k of
        None \<Rightarrow> SafeStrMap_add k v sm
      | Some _ \<Rightarrow> (sm\<lparr>ssm_data := AList.update k v (ssm_data sm)\<rparr>, None))"

definition SafeStrMap_Del :: "string \<Rightarrow> 'v SafeStrMap \<Rightarrow> 'v SafeStrMap" where
  "SafeStrMap_Del k sm =
     (case map_of (ssm_data sm) k of
        Some _ \<Rightarrow> sm\<lparr>ssm_data := AList.delete k (ssm_data sm)\<rparr>
      | None \<Rightarrow> sm)"

definition SafeStrMap_Clear :: "'v SafeStrMap \<Rightarrow> 'v SafeStrMap" where
  "SafeStrMap_Clear sm = sm\<lparr>ssm_data := []\<rparr>"

definition SafeStrMap_Get :: "string \<Rightarrow> 'v SafeStrMap \<Rightarrow> 'v option" where
  "SafeStrMap_Get k sm = (case map_of (ssm_data sm) k of Some v \<Rightarrow> v | None \<Rightarrow> None)"

definition SafeStrMap_GetEx :: "string \<Rightarrow> 'v SafeStrMap \<Rightarrow> 'v option \<times> bool" where
  "SafeStrMap_GetEx k sm = (case map_of (ssm_data sm) k of Some v \<Rightarrow> (v, True) | None \<Rightarrow> (None, False))"

fun SafeStrMap_Iter :: "(string \<Rightarrow> 'v \<Rightarrow> 's \<Rightarrow> 's) \<Rightarrow> (string \<times> 'v option) list \<Rightarrow> 's \<Rightarrow> int \<Rightarrow> 's \<times> int" where
  "SafeStrMap_Iter proc [] s count = (s, count)"
| "SafeStrMap_Iter proc ((k, Some u) # rest) s count = SafeStrMap_Iter proc rest (proc k u s) (count + 1)"
| "SafeStrMap_Iter proc ((k, None) # rest) s count = SafeStrMap_Iter proc rest s count"

section \<open>SafeVar\<close>

record 'v SafeVar =
  sv_data :: "'v option"

definition NewSafeVar :: "'v SafeVar" where
  "NewSafeVar = \<lparr>sv_data = None\<rparr>"

definition SafeVar_Set :: "'v option \<Rightarrow> 'v SafeVar \<Rightarrow> 'v SafeVar" where
  "SafeVar_Set v sv = sv\<lparr>sv_data := v\<rparr>"

definition SafeVar_Get :: "'v SafeVar \<Rightarrow> 'v option" where
  "SafeVar_Get sv = sv_data sv"

definition SafeVar_GetWithFunc :: "('v option \<Rightarrow> 's \<Rightarrow> 's) \<Rightarrow> 'v SafeVar \<Rightarrow> 's \<Rightarrow> 's" where
  "SafeVar_GetWithFunc proc sv s = proc (sv_data sv) s"

section \<open>SafeStrInt64\<close>

record SafeStrInt64 =
  ssi_data :: "(string \<times> i64) list"

definition NewSafeStrInt64 :: SafeStrInt64 where
  "NewSafeStrInt64 = \<lparr>ssi_data = []\<rparr>"

definition SafeStrInt64_Get :: "string \<Rightarrow> SafeStrInt64 \<Rightarrow> i64" where
  "SafeStrInt64_Get k s = (case map_of (ssi_data s) k of Some v \<Rightarrow> v | None \<Rightarrow> 0)"

definition SafeStrInt64_Set :: "string \<Rightarrow> i64 \<Rightarrow> SafeStrInt64 \<Rightarrow> SafeStrInt64" where
  "SafeStrInt64_Set k v s = s\<lparr>ssi_data := AList.update k v (ssi_data s)\<rparr>"

definition SafeStrInt64_Add :: "string \<Rightarrow> i64 \<Rightarrow> SafeStrInt64 \<Rightarrow> SafeStrInt64" where
  "SafeStrInt64_Add k v s =
     (case map_of (ssi_data s) k of
        Some w \<Rightarrow> s\<lparr>ssi_data := AList.update k (w + v) (ssi_data s)\<rparr>
      | None \<Rightarrow> s\<lparr>ssi_data := AList.update k v (ssi_data s)\<rparr>)"

definition SafeStrInt64_Copy :: "(string \<times> i64) list \<Rightarrow> SafeStrInt64 \<Rightarrow> (string \<times> i64) list" where
  "SafeStrInt64_Copy dst s = fold (\<lambda>(k, v) d. AList.update k v d) (ssi_data s) dst"

definition SafeStrInt64_Data :: "SafeStrInt64 \<Rightarrow> (string \<times> i64) list" where
  "SafeStrInt64_Data s = SafeStrInt64_Copy [] s"

section \<open>Runs of operations and their abstract specification\<close>

datatype 'v smap_op =
    SmSet string "'v option"
  | SmMod string "'v option"
  | SmDel string
  | SmClear

fun smap_step :: "'v smap_op \<Rightarrow> 'v SafeStrMap \<Rightarrow> 'v SafeStrMap" where
  "smap_step (SmSet k v) m = fst (SafeStrMap_Set k v m)"
| "smap_step (SmMod k v) m = fst (SafeStrMap_Mod k v m)"
| "smap_step (SmDel k) m = SafeStrMap_Del k m"
| "smap_step SmClear m = SafeStrMap_Clear m"

fun smap_run :: "'v smap_op list \<Rightarrow> 'v SafeStrMap \<Rightarrow> 'v SafeStrMap" where
  "smap_run [] m = m"
| "smap_run (op # ops) m = smap_run ops (smap_step op m)"

text \<open>The specification: a partial function with room for \<open>n\<close> keys (\<open>n = 0\<close>: no bound).\<close>

definition spec_full :: "int \<Rightarrow> (string \<rightharpoonup> 'w) \<Rightarrow> bool" where
  "spec_full n f \<longleftrightarrow> n \<noteq> 0 \<and> int (card (dom f)) \<ge> n"

fun spec_step :: "int \<Rightarrow> 'v smap_op \<Rightarrow> (string \<rightharpoonup> 'v option) \<Rightarrow> (string \<rightharpoonup> 'v option)" where
  "spec_step n (SmSet k v) f = (if spec_full n f \<or> k \<in> dom f then f else f(k \<mapsto> v))"
| "spec_step n (SmMod k v) f = (if k \<notin> dom f \<and> spec_full n f then f else f(k \<mapsto> v))"
| "spec_step n (SmDel k) f = f(k := None)"
| "spec_step n SmClear f = Map.empty"

fun spec_run :: "int \<Rightarrow> 'v smap_op list \<Rightarrow> (string \<rightharpoonup> 'v option) \<Rightarrow> (string \<rightharpoonup> 'v option)" where
  "spec_run n [] f = f"
| "spec_run n (op # ops) f = spec_run n ops (spec_step n op f)"

fun stats_run :: "(string \<times> i64) list \<Rightarrow> SafeStrInt64 \<Rightarrow> SafeStrInt64" where
  "stats_run [] s = s"
| "stats_run ((k, v) # adds) s = stats_run adds (SafeStrInt64_Add k v s)"

section \<open>The contract of the bounded maps\<close>

locale str_store =
  fixes invar :: "'s \<Rightarrow> bool"
    and lookup :: "'s \<Rightarrow> string \<Rightarrow> 'v option"
    and full :: "'s \<Rightarrow> bool"
    and store_set :: "string \<Rightarrow> 'v \<Rightarrow> 's \<Rightarrow> 's upd"
    and store_del :: "string \<Rightarrow> 's \<Rightarrow> 's"
  assumes set_full: "full s \<Longrightarrow> fst (store_set k v s) = s \<and> snd (store_set k v s) \<noteq> None"
    and set_new: "\<not> full s \<Longrightarrow> lookup s k = None \<Longrightarrow>
      lookup (fst (store_set k v s)) = (lookup s)(k \<mapsto> v) \<and> snd (store_set k v s) = None"
    and set_old: "\<not> full s \<Longrightarrow> lookup s k \<noteq> None \<Longrightarrow> store_set k v s = (s, None)"
    and del_lookup: "lookup (store_del k s) = (lookup s)(k := None)"
    and invar_set: "invar s \<Longrightarrow> invar (fst (store_set k v s))"
    and invar_del: "invar s \<Longrightarrow> invar (store_del k s)"
begin

lemma set_other: "k' \<noteq> k \<Longrightarrow> lookup (fst (store_set k v s)) k' = lookup s k'"
  using set_full [of s k v] set_new [of s k v] set_old [of s k v]
  by (cases "full s"; cases "lookup s k") auto

lemma set_keeps_old: "lookup s k = Some w \<Longrightarrow> lookup (fst (store_set k v s)) k = Some w"
  using set_full [of s k v] set_old [of s k v] by (cases "full s") auto

lemma set_then_get:
  "snd (store_set k v s) = None \<Longrightarrow> lookup s k = None \<Longrightarrow> lookup (fst (store_set k v s)) k = Some v"
  using set_full [of s k v] set_new [of s k v] by (cases "full s") auto

lemma set_error_iff_full: "snd (store_set k v s) \<noteq> None \<longleftrightarrow> full s"
  using set_full [of s k v] set_new [of s k v] set_old [of s k v]
  by (cases "full s"; cases "lookup s k") auto

lemma set_range: "lookup (fst (store_set k v s)) k' = Some w \<Longrightarrow> w = v \<or> lookup s k' = Some w"
  using set_full [of s k v] set_new [of s k v] set_old [of s k v]
  by (cases "full s"; cases "lookup s k"; cases "k' = k") auto

lemma del_gone: "lookup (store_del k s) k = None"
  by (simp add: del_lookup)

lemma del_other: "k' \<noteq> k \<Longrightarrow> lookup (store_del k s) k' = lookup s k'"
  by (simp add: del_lookup)

lemma set_after_del:
  "\<not> full (store_del k s) \<Longrightarrow> lookup (fst (store_set k v (store_del k s))) = (lookup s)(k \<mapsto> v)"
  using set_new [of "store_del k s" k v] by (simp add: del_lookup)

end

section \<open>Interpretations\<close>

definition SafeStrStr_inv :: "SafeStrStr \<Rightarrow> bool" where
  "SafeStrStr_inv sm \<longleftrightarrow> keys_distinct (sss_data sm) \<and>
     (sss_size sm \<le> 0 \<or> int (length (sss_data sm)) \<le> sss_size sm)"

definition SafeStrMap_inv :: "'v SafeStrMap \<Rightarrow> bool" where
  "SafeStrMap_inv sm \<longleftrightarrow> keys_distinct (ssm_data sm) \<and>
     (ssm_size sm \<le> 0 \<or> int (length (ssm_data sm)) \<le> ssm_size sm)"

abbreviation sss_lookup :: "SafeStrStr \<Rightarrow> string \<Rightarrow> string option" where
  "sss_lookup sm \<equiv> map_of (sss_data sm)"

abbreviation ssm_lookup :: "'v SafeStrMap \<Rightarrow> string \<Rightarrow> 'v option option" where
  "ssm_lookup sm \<equiv> map_of (ssm_data sm)"

lemma length_delete_bound: "int (length m) \<le> n \<Longrightarrow> int (length (AList.delete k m)) \<le> n"
  using length_delete_le [of k m] by linarith

lemmas store_unfold =
  SafeStrStr_Set_def SafeStrStr_Reset_def SafeStrStr_Del_def SafeStrStr_full_def SafeStrStr_inv_def
  SafeStrMap_Set_def SafeStrMap_add_def SafeStrMap_Mod_def SafeStrMap_Del_def SafeStrMap_Clear_def
  SafeStrMap_full_def SafeStrMap_inv_def

interpretation ss: str_store SafeStrStr_inv sss_lookup SafeStrStr_full SafeStrStr_Set SafeStrStr_Del
  by unfold_locales
     (auto simp: store_unfold map_of_upd_del AList.distinct_update AList.distinct_delete
       length_update_new length_delete_bound split: option.splits if_splits)

interpretation sm: str_store SafeStrMap_inv ssm_lookup SafeStrMap_full SafeStrMap_Set SafeStrMap_Del
  by unfold_locales
     (auto simp: store_unfold map_of_upd_del AList.distinct_update AList.distinct_delete
       length_update_new length_delete_bound split: option.splits if_splits)

section \<open>Properties\<close>

lemma smap_step_size [simp]: "ssm_size (smap_step op m) = ssm_size m"
  by (cases op) (auto simp: store_unfold split: option.splits)

lemma SafeStrMap_Mod_inv: "SafeStrMap_inv m \<Longrightarrow> SafeStrMap_inv (fst (SafeStrMap_Mod k v m))"
  using sm.invar_set [of m k v]
  by (auto simp: SafeStrMap_Mod_def SafeStrMap_Set_def SafeStrMap_inv_def AList.distinct_update
      length_update_old split: option.splits)

lemma SafeStrMap_Clear_inv: "SafeStrMap_inv (SafeStrMap_Clear m)"
  unfolding SafeStrMap_Clear_def SafeStrMap_inv_def by (simp, linarith)

lemma smap_step_inv: "SafeStrMap_inv m \<Longrightarrow> SafeStrMap_inv (smap_step op m)"
  by (cases op) (auto intro: sm.invar_set sm.invar_del SafeStrMap_Mod_inv SafeStrMap_Clear_inv)

lemma smap_run_inv: "SafeStrMap_inv m \<Longrightarrow> SafeStrMap_inv (smap_run ops m)"
  by (induction ops arbitrary: m) (auto intro: smap_step_inv)

lemma smap_run_size [simp]: "ssm_size (smap_run ops m) = ssm_size m"
  by (induction ops arbitrary: m) auto

lemma NewSafeStrMap_inv: "SafeStrMap_inv (NewSafeStrMap n)"
  unfolding SafeStrMap_inv_def NewSafeStrMap_def by (simp, linarith)

lemma full_spec: "SafeStrMap_inv m \<Longrightarrow> SafeStrMap_full m \<longleftrightarrow> spec_full (ssm_size m) (ssm_lookup m)"
proof -
  assume "SafeStrMap_inv m"
  then have d: "keys_distinct (ssm_data m)" by (simp add: SafeStrMap_inv_def)
  have "card (dom (ssm_lookup m)) = length (ssm_data m)"
    using d by (simp add: dom_map_of_conv_image_fst distinct_card [symmetric])
      (metis distinct_card length_map list.set_map)
  then show ?thesis by (simp add: SafeStrMap_full_def spec_full_def)
qed

lemma smap_step_refines:
  "SafeStrMap_inv m \<Longrightarrow> ssm_lookup (smap_step op m) = spec_step (ssm_size m) op (ssm_lookup m)"
  by (cases op)
     (auto simp: full_spec [symmetric] SafeStrMap_Set_def SafeStrMap_Mod_def SafeStrMap_add_def
       SafeStrMap_Del_def SafeStrMap_Clear_def map_of_upd_del domIff fun_upd_idem
       split: option.splits)

lemma smap_run_refines:
  "SafeStrMap_inv m \<Longrightarrow> ssm_lookup (smap_run ops m) = spec_run (ssm_size m) ops (ssm_lookup m)"
  by (induction ops arbitrary: m) (simp_all add: smap_step_refines smap_step_inv)

lemma SafeStrInt64_Get_Add:
  "SafeStrInt64_Get k (SafeStrInt64_Add k' v s) = SafeStrInt64_Get k s + (if k = k' then v else 0)"
  by (auto simp: SafeStrInt64_Get_def SafeStrInt64_Add_def map_of_upd_del split: option.splits)

lemma SafeStrInt64_Get_Set:
  "SafeStrInt64_Get k (SafeStrInt64_Set k' v s) = (if k = k' then v else SafeStrInt64_Get k s)"
  by (simp add: SafeStrInt64_Get_def SafeStrInt64_Set_def map_of_upd_del)

lemma stats_run_Get:
  "SafeStrInt64_Get k (stats_run adds s) =
     SafeStrInt64_Get k s + sum_list (map snd (filter (\<lambda>p. fst p = k) adds))"
  by (induction adds s rule: stats_run.induct) (auto simp: SafeStrInt64_Get_Add)

lemma SafeStrInt64_Copy_lookup:
  "keys_distinct (ssi_data s) \<Longrightarrow> map_of (SafeStrInt64_Copy dst s) = map_of dst ++ map_of (ssi_data s)"
proof -
  have "keys_distinct xs \<Longrightarrow> map_of (fold (\<lambda>(k, v) d. AList.update k v d) xs d) = map_of d ++ map_of xs"
    for xs :: "(string \<times> i64) list" and d
  proof (induction xs arbitrary: d)
    case (Cons p xs)
    obtain k v where p: "p = (k, v)" by (cases p)
    with Cons have "k \<notin> dom (map_of xs)" by (auto simp: dom_map_of_conv_image_fst)
    with Cons p show ?case by (auto simp: map_of_upd_del map_add_def fun_eq_iff split: option.splits)
  qed simp
  then show "keys_distinct (ssi_data s) \<Longrightarrow> map_of (SafeStrInt64_Copy dst s) = map_of dst ++ map_of (ssi_data s)"
    by (simp add: SafeStrInt64_Copy_def)
qed


text \<open>Whatever the operations, a \<open>SafeStrMap\<close> made with a positive size never holds more keys
  than that size, and never the same key twice.\<close>

theorem SafeStrMap_bounded:
  "keys_distinct (ssm_data (smap_run ops (NewSafeStrMap n))) \<and>
   (n \<le> 0 \<or> SafeStrMap_Len (smap_run ops (NewSafeStrMap n)) \<le> n)"
  using smap_run_inv [OF NewSafeStrMap_inv, of ops n]
  by (simp add: SafeStrMap_inv_def SafeStrMap_Len_def NewSafeStrMap_def)

text \<open>After any sequence of \<open>SafeStrInt64.Add\<close> calls on a fresh counter table the value read for
  a key is the sum of the amounts added to that key, in 64-bit wrap-around arithmetic.\<close>

theorem SafeStrInt64_counts:
  "SafeStrInt64_Get k (stats_run adds NewSafeStrInt64) = sum_list (map snd (filter (\<lambda>p. fst p = k) adds))"
  by (simp add: stats_run_Get) (simp add: SafeStrInt64_Get_def NewSafeStrInt64_def)

end
