(* ===== verification/Protocol.thy ===== *)
theory Protocol
  imports Prelude
begin

text \<open>
  The packet headers of \<open>src/pkg/libol/protocol.go\<close>: Ethernet, 802.1Q, ARP, IPv4, TCP and UDP, each
  with its constructor, its \<open>Decode\<close> (which mutates the receiver and returns an error) and its
  \<open>Encode\<close>. The field widths are Go's; shifts, masks and the \<open>uint8\<close> cursor of ARP are word
  operations. The locale \<open>codec\<close> is the contract every header type meets and the frame decoder of
  theory \<open>Message\<close> relies on; it is interpreted once per header.
\<close>

section \<open>Constants\<close>

definition EthZero :: "byte list" where
  "EthZero = [0, 0, 0, 0, 0, 0]"

definition EthAll :: "byte list" where
  "EthAll = [0xff, 0xff, 0xff, 0xff, 0xff, 0xff]"

abbreviation (input) EthArp :: u16 where "EthArp \<equiv> 0x0806"
abbreviation (input) EthIp4 :: u16 where "EthIp4 \<equiv> 0x0800"
abbreviation (input) EthIp6 :: u16 where "EthIp6 \<equiv> 0x86DD"
abbreviation (input) EthVlan :: u16 where "EthVlan \<equiv> 0x8100"
abbreviation (input) ArpRequest :: u16 where "ArpRequest \<equiv> 1"
abbreviation (input) ArpReply :: u16 where "ArpReply \<equiv> 2"
abbreviation (input) IpTcp :: byte where "IpTcp \<equiv> 0x06"
abbreviation (input) IpUdp :: byte where "IpUdp \<equiv> 0x11"

section \<open>Ethernet\<close>

record Ether =
  eth_Dst :: "byte list"
  eth_Src :: "byte list"
  eth_Type :: u16
  eth_Len :: int

definition NewEther :: "u16 \<Rightarrow> Ether" where
  "NewEther t = \<lparr>eth_Dst = replicate 6 0, eth_Src = replicate 6 0, eth_Type = t, eth_Len = 14\<rparr>"

definition NewEtherArp :: Ether where
  "NewEtherArp = NewEther EthArp"

definition NewEtherIP4 :: Ether where
  "NewEtherIP4 = NewEther EthIp4"

definition Ether_Decode :: "byte list \<Rightarrow> Ether \<Rightarrow> Ether upd" where
  "Ether_Decode frame e =
     (if length frame < 14 then (e, Some (NewErr ''Ether.Decode too small header: %d''))
      else if length (eth_Dst e) < 6 \<or> length (eth_Src e) < 6 then (e, Some oor)
      else (e\<lparr>eth_Dst := copy_into 0 6 (slice 0 6 frame) (eth_Dst e),
              eth_Src := copy_into 0 6 (slice 6 12 frame) (eth_Src e),
              eth_Type := Uint16 (slice 12 14 frame),
              eth_Len := 14\<rparr>, None))"

definition NewEtherFromFrame :: "byte list \<Rightarrow> Ether upd" where
  "NewEtherFromFrame frame = Ether_Decode frame (NewEther 0)"

definition Ether_Encode :: "Ether \<Rightarrow> byte list result" where
  "Ether_Encode e =
     (if length (eth_Dst e) < 6 \<or> length (eth_Src e) < 6 then Inl oor
      else let b = replicate 14 0;
               b = copy_into 0 6 (slice 0 6 (eth_Dst e)) b;
               b = copy_into 6 12 (slice 0 6 (eth_Src e)) b;
               b = copy_into 12 14 (PutUint16 (eth_Type e)) b
           in Inr (slice 0 14 b))"

definition Ether_IsVlan :: "Ether \<Rightarrow> bool" where
  "Ether_IsVlan e \<longleftrightarrow> eth_Type e = EthVlan"

definition Ether_IsArp :: "Ether \<Rightarrow> bool" where
  "Ether_IsArp e \<longleftrightarrow> eth_Type e = EthArp"

definition Ether_IsIP4 :: "Ether \<Rightarrow> bool" where
  "Ether_IsIP4 e \<longleftrightarrow> eth_Type e = EthIp4"

section \<open>802.1Q\<close>

record Vlan =
  vlan_Tci :: u16
  vlan_Vid :: u16
  vlan_Pro :: u16
  vlan_Len :: int

definition NewVlan :: "u16 \<Rightarrow> u16 \<Rightarrow> Vlan" where
  "NewVlan tci vid = \<lparr>vlan_Tci = tci, vlan_Vid = vid, vlan_Pro = 0, vlan_Len = 4\<rparr>"

definition Vlan_Decode :: "byte list \<Rightarrow> Vlan \<Rightarrow> Vlan upd" where
  "Vlan_Decode frame n =
     (if length frame < 4 then (n, Some (NewErr ''Vlan.Decode: too small header''))
      else let v = Uint16 (slice 0 2 frame)
           in (n\<lparr>vlan_Tci := drop_bit 12 v, vlan_Vid := 0x0fff AND v,
                 vlan_Pro := Uint16 (slice 2 4 frame)\<rparr>, None))"

definition NewVlanFromFrame :: "byte list \<Rightarrow> Vlan upd" where
  "NewVlanFromFrame frame =
     Vlan_Decode frame \<lparr>vlan_Tci = 0, vlan_Vid = 0, vlan_Pro = 0, vlan_Len = 4\<rparr>"

definition Vlan_Encode :: "Vlan \<Rightarrow> byte list result" where
  "Vlan_Encode n =
     (let b = replicate 16 0;
          v = push_bit 12 (vlan_Tci n) OR vlan_Vid n;
          b = copy_into 0 2 (PutUint16 v) b;
          b = copy_into 2 4 (PutUint16 (vlan_Pro n)) b
      in Inr (slice 0 4 b))"

section \<open>ARP\<close>

record Arp =
  arp_HrdCode :: u16
  arp_ProCode :: u16
  arp_HrdLen :: byte
  arp_ProLen :: byte
  arp_OpCode :: u16
  arp_SHwAddr :: "byte list"
  arp_SIpAddr :: "byte list"
  arp_THwAddr :: "byte list"
  arp_TIpAddr :: "byte list"
  arp_Len :: int

definition NewArp :: Arp where
  "NewArp = \<lparr>arp_HrdCode = 1, arp_ProCode = EthIp4, arp_HrdLen = 6, arp_ProLen = 4,
     arp_OpCode = ArpRequest, arp_SHwAddr = replicate 6 0, arp_SIpAddr = replicate 4 0,
     arp_THwAddr = replicate 6 0, arp_TIpAddr = replicate 4 0, arp_Len = 0\<rparr>"

text \<open>The header fields are stored before the address lengths are checked, as in the code. After
  that check the cursor \<open>p\<close> runs 8, 14, 18, 24, 28 and does not wrap.\<close>

definition Arp_Decode :: "byte list \<Rightarrow> Arp \<Rightarrow> Arp upd" where
  "Arp_Decode frame a =
     (if length frame < 8 then (a, Some (NewErr ''Arp.Decode: too small header: %d''))
      else let a = a\<lparr>arp_HrdCode := Uint16 (slice 0 2 frame), arp_ProCode := Uint16 (slice 2 4 frame),
                     arp_HrdLen := frame ! 4, arp_ProLen := frame ! 5\<rparr>
           in if arp_HrdLen a \<noteq> 6 \<or> arp_ProLen a \<noteq> 4
              then (a, Some (NewErr ''Arp.Decode: AddrLen: %d,%d''))
              else let a = a\<lparr>arp_OpCode := Uint16 (slice 6 8 frame)\<rparr>;
                       p = (8 :: byte)
                   in if length frame < unat (p + 2 * (arp_HrdLen a + arp_ProLen a))
                      then (a, Some (NewErr ''Arp.Decode: too small frame: %d''))
                      else if length (arp_SHwAddr a) < 6 \<or> length (arp_SIpAddr a) < 4 \<or>
                              length (arp_THwAddr a) < 6 \<or> length (arp_TIpAddr a) < 4
                      then (a, Some oor)
                      else let sh = copy_into 0 6 (slice (unat p) (unat (p + 6)) frame) (arp_SHwAddr a);
                               p = p + arp_HrdLen a;
                               si = copy_into 0 4 (slice (unat p) (unat (p + 4)) frame) (arp_SIpAddr a);
                               p = p + arp_ProLen a;
                               th = copy_into 0 6 (slice (unat p) (unat (p + 6)) frame) (arp_THwAddr a);
                               p = p + arp_HrdLen a;
                               ti = copy_into 0 4 (slice (unat p) (unat (p + 4)) frame) (arp_TIpAddr a);
                               p = p + arp_ProLen a
                           in (a\<lparr>arp_SHwAddr := sh, arp_SIpAddr := si, arp_THwAddr := th,
                                 arp_TIpAddr := ti, arp_Len := int (unat p)\<rparr>, None))"

definition NewArpFromFrame :: "byte list \<Rightarrow> Arp upd" where
  "NewArpFromFrame frame = Arp_Decode frame NewArp"

text \<open>\<open>copy(buffer[p:p+n], src[0:n])\<close> with \<open>uint8\<close> cursors: the upper bound wraps around, and the
  slice expressions panic when it does or when \<open>src\<close> is shorter than \<open>n\<close>.\<close>

definition arp_put :: "byte \<Rightarrow> byte \<Rightarrow> byte list \<Rightarrow> byte list \<Rightarrow> byte list result" where
  "arp_put p n src b =
     (if unat p \<le> unat (p + n) \<and> unat n \<le> length src
      then Inr (copy_into (unat p) (unat (p + n)) (slice 0 (unat n) src) b) else Inl oor)"

definition Arp_Encode :: "Arp \<Rightarrow> (Arp \<times> byte list) result" where
  "Arp_Encode a =
     (let b = replicate 1024 0;
          b = copy_into 0 2 (PutUint16 (arp_HrdCode a)) b;
          b = copy_into 2 4 (PutUint16 (arp_ProCode a)) b;
          b = copy_into 4 5 [arp_HrdLen a] b;
          b = copy_into 5 6 [arp_ProLen a] b;
          b = copy_into 6 8 (PutUint16 (arp_OpCode a)) b;
          h = arp_HrdLen a; n = arp_ProLen a; p = (8 :: byte)
      in case arp_put p h (arp_SHwAddr a) b of Inl e \<Rightarrow> Inl e | Inr b \<Rightarrow>
         (case arp_put (p + h) n (arp_SIpAddr a) b of Inl e \<Rightarrow> Inl e | Inr b \<Rightarrow>
         (case arp_put (p + h + n) h (arp_THwAddr a) b of Inl e \<Rightarrow> Inl e | Inr b \<Rightarrow>
         (case arp_put (p + h + n + h) n (arp_TIpAddr a) b of Inl e \<Rightarrow> Inl e | Inr b \<Rightarrow>
            let q = p + h + n + h + n
            in Inr (a\<lparr>arp_Len := int (unat q)\<rparr>, slice 0 (unat q) b)))))"

definition Arp_IsIP4 :: "Arp \<Rightarrow> bool" where
  "Arp_IsIP4 a \<longleftrightarrow> arp_ProCode a = EthIp4"

definition Arp_IsReply :: "Arp \<Rightarrow> bool" where
  "Arp_IsReply a \<longleftrightarrow> arp_OpCode a = ArpReply"

definition Arp_IsRequest :: "Arp \<Rightarrow> bool" where
  "Arp_IsRequest a \<longleftrightarrow> arp_OpCode a = ArpRequest"

section \<open>IPv4\<close>

definition hex_digit :: "nat \<Rightarrow> char" where
  "hex_digit n = ''0123456789abcdef'' ! n"

definition IpProto2Str :: "byte \<Rightarrow> string" where
  "IpProto2Str proto =
     (if proto = 0x01 then ''icmp'' else if proto = 0x02 then ''igmp''
      else if proto = 0x04 then ''ipip'' else if proto = 0x32 then ''esp''
      else if proto = 0x33 then ''ah'' else if proto = 0x59 then ''ospf''
      else if proto = 0x7c then ''isis'' else if proto = IpUdp then ''udp''
      else if proto = IpTcp then ''tcp'' else if proto = 0x67 then ''pim''
      else if proto = 0x70 then ''vrrp''
      else [hex_digit (unat proto div 16), hex_digit (unat proto mod 16)])"

record Ipv4 =
  ip4_Version :: byte
  ip4_HeaderLen :: byte
  ip4_ToS :: byte
  ip4_TotalLen :: u16
  ip4_Identifier :: u16
  ip4_Flag :: u16
  ip4_Offset :: u16
  ip4_ToL :: byte
  ip4_Protocol :: byte
  ip4_HeaderChecksum :: u16
  ip4_Source :: "byte list"
  ip4_Destination :: "byte list"
  ip4_Options :: u32
  ip4_Len :: int

definition NewIpv4 :: Ipv4 where
  "NewIpv4 = \<lparr>ip4_Version = 4, ip4_HeaderLen = 5, ip4_ToS = 0, ip4_TotalLen = 0, ip4_Identifier = 0,
     ip4_Flag = 0, ip4_Offset = 0, ip4_ToL = 0xff, ip4_Protocol = 0, ip4_HeaderChecksum = 0,
     ip4_Source = replicate 4 0, ip4_Destination = replicate 4 0, ip4_Options = 0, ip4_Len = 20\<rparr>"

definition Ipv4_IsIP4 :: "Ipv4 \<Rightarrow> bool" where
  "Ipv4_IsIP4 i \<longleftrightarrow> ip4_Version i = 0x04"

definition Ipv4_Decode :: "byte list \<Rightarrow> Ipv4 \<Rightarrow> Ipv4 upd" where
  "Ipv4_Decode frame i =
     (if length frame < 20 then (i, Some (NewErr ''Ipv4.Decode: too small header: %d''))
      else let h = frame ! 0; f = Uint16 (slice 6 8 frame);
               i = i\<lparr>ip4_Version := drop_bit 4 h, ip4_HeaderLen := h AND 0x0f,
                     ip4_ToS := frame ! 1, ip4_TotalLen := Uint16 (slice 2 4 frame),
                     ip4_Identifier := Uint16 (slice 4 6 frame),
                     ip4_Offset := f AND 0x1fff, ip4_Flag := drop_bit 13 f,
                     ip4_ToL := frame ! 8, ip4_Protocol := frame ! 9,
                     ip4_HeaderChecksum := Uint16 (slice 10 12 frame)\<rparr>
           in if \<not> Ipv4_IsIP4 i then (i, Some (NewErr ''Ipv4.Decode: not right ipv4 version: 0x%x''))
              else if length (ip4_Source i) < 4 \<or> length (ip4_Destination i) < 4 then (i, Some oor)
              else (i\<lparr>ip4_Source := copy_into 0 4 (slice 12 16 frame) (ip4_Source i),
                      ip4_Destination := copy_into 0 4 (slice 16 20 frame) (ip4_Destination i)\<rparr>, None))"

definition NewIpv4FromFrame :: "byte list \<Rightarrow> Ipv4 upd" where
  "NewIpv4FromFrame frame = Ipv4_Decode frame NewIpv4"

definition Ipv4_Encode :: "Ipv4 \<Rightarrow> byte list result" where
  "Ipv4_Encode i =
     (if length (ip4_Source i) < 4 \<or> length (ip4_Destination i) < 4 then Inl oor
      else let b = replicate 32 0;
               h = push_bit 4 (ip4_Version i) OR ip4_HeaderLen i;
               b = copy_into 0 1 [h] b;
               b = copy_into 1 2 [ip4_ToS i] b;
               b = copy_into 2 4 (PutUint16 (ip4_TotalLen i)) b;
               b = copy_into 4 6 (PutUint16 (ip4_Identifier i)) b;
               f = push_bit 13 (ip4_Flag i) OR ip4_Offset i;
               b = copy_into 6 8 (PutUint16 f) b;
               b = copy_into 8 9 [ip4_ToL i] b;
               b = copy_into 9 10 [ip4_Protocol i] b;
               b = copy_into 10 12 (PutUint16 (ip4_HeaderChecksum i)) b;
               b = copy_into 12 16 (slice 0 4 (ip4_Source i)) b;
               b = copy_into 16 20 (slice 0 4 (ip4_Destination i)) b
           in reslice 0 (ip4_Len i) b)"

section \<open>TCP\<close>

record Tcp =
  tcp_Source :: u16
  tcp_Destination :: u16
  tcp_Sequence :: u32
  tcp_Acknowledgment :: u32
  tcp_DataOffset :: byte
  tcp_ControlBits :: byte
  tcp_Window :: u16
  tcp_Checksum :: u16
  tcp_UrgentPointer :: u16
  tcp_Options :: "byte list"
  tcp_Padding :: "byte list"
  tcp_Len :: int

definition NewTcp :: Tcp where
  "NewTcp = \<lparr>tcp_Source = 0, tcp_Destination = 0, tcp_Sequence = 0, tcp_Acknowledgment = 0,
     tcp_DataOffset = 0, tcp_ControlBits = 0, tcp_Window = 0, tcp_Checksum = 0,
     tcp_UrgentPointer = 0, tcp_Options = [], tcp_Padding = [], tcp_Len = 20\<rparr>"

definition Tcp_Decode :: "byte list \<Rightarrow> Tcp \<Rightarrow> Tcp upd" where
  "Tcp_Decode frame t =
     (if length frame < 20 then (t, Some (NewErr ''Tcp.Decode: too small header: %d''))
      else (t\<lparr>tcp_Source := Uint16 (slice 0 2 frame), tcp_Destination := Uint16 (slice 2 4 frame),
              tcp_Sequence := Uint32 (slice 4 8 frame), tcp_Acknowledgment := Uint32 (slice 8 12 frame),
              tcp_DataOffset := frame ! 12, tcp_ControlBits := frame ! 13,
              tcp_Window := Uint16 (slice 14 16 frame), tcp_Checksum := Uint16 (slice 16 18 frame),
              tcp_UrgentPointer := Uint16 (slice 18 20 frame)\<rparr>, None))"

definition NewTcpFromFrame :: "byte list \<Rightarrow> Tcp upd" where
  "NewTcpFromFrame frame = Tcp_Decode frame NewTcp"

definition Tcp_Encode :: "Tcp \<Rightarrow> byte list result" where
  "Tcp_Encode t =
     (let b = replicate 32 0;
          b = copy_into 0 2 (PutUint16 (tcp_Source t)) b;
          b = copy_into 2 4 (PutUint16 (tcp_Destination t)) b;
          b = copy_into 4 8 (PutUint32 (tcp_Sequence t)) b;
          b = copy_into 8 12 (PutUint32 (tcp_Acknowledgment t)) b;
          b = copy_into 12 13 [tcp_DataOffset t] b;
          b = copy_into 13 14 [tcp_ControlBits t] b;
          b = copy_into 14 16 (PutUint16 (tcp_Window t)) b;
          b = copy_into 16 18 (PutUint16 (tcp_Checksum t)) b;
          b = copy_into 18 20 (PutUint16 (tcp_UrgentPointer t)) b
      in reslice 0 (tcp_Len t) b)"

definition Tcp_HasFlag :: "byte \<Rightarrow> Tcp \<Rightarrow> bool" where
  "Tcp_HasFlag flag t \<longleftrightarrow> tcp_ControlBits t AND flag = flag"

section \<open>UDP\<close>

record Udp =
  udp_Source :: u16
  udp_Destination :: u16
  udp_Length :: u16
  udp_Checksum :: u16
  udp_Len :: int

definition NewUdp :: Udp where
  "NewUdp = \<lparr>udp_Source = 0, udp_Destination = 0, udp_Length = 0, udp_Checksum = 0, udp_Len = 8\<rparr>"

definition Udp_Decode :: "byte list \<Rightarrow> Udp \<Rightarrow> Udp upd" where
  "Udp_Decode frame u =
     (if length frame < 8 then (u, Some (NewErr ''Udp.Decode: too small header: %d''))
      else (u\<lparr>udp_Source := Uint16 (slice 0 2 frame), udp_Destination := Uint16 (slice 2 4 frame),
              udp_Length := Uint16 (slice 4 6 frame), udp_Checksum := Uint16 (slice 6 8 frame)\<rparr>, None))"

definition NewUdpFromFrame :: "byte list \<Rightarrow> Udp upd" where
  "NewUdpFromFrame frame = Udp_Decode frame NewUdp"

definition Udp_Encode :: "Udp \<Rightarrow> byte list result" where
  "Udp_Encode u =
     (let b = replicate 32 0;
          b = copy_into 0 2 (PutUint16 (udp_Source u)) b;
          b = copy_into 2 4 (PutUint16 (udp_Destination u)) b;
          b = copy_into 4 6 (PutUint16 (udp_Length u)) b;
          b = copy_into 6 8 (PutUint16 (udp_Checksum u)) b
      in reslice 0 (udp_Len u) b)"

section \<open>The contract of a header type\<close>

locale codec =
  fixes ok :: "'a \<Rightarrow> bool"
    and enc :: "'a \<Rightarrow> byte list result"
    and dec :: "byte list \<Rightarrow> 'a upd"
    and hlen :: nat
    and len_of :: "'a \<Rightarrow> int"
  assumes enc_ok: "ok x \<Longrightarrow> \<exists>bs. enc x = Inr bs \<and> length bs = hlen"
    and dec_enc: "ok x \<Longrightarrow> enc x = Inr bs \<Longrightarrow> dec (bs @ rest) = (x, None)"
    and dec_short: "length frame < hlen \<Longrightarrow> snd (dec frame) \<noteq> None"
    and dec_no_panic: "snd (dec frame) = Some e \<Longrightarrow> \<not> is_panic e"
    and dec_len: "snd (dec frame) = None \<Longrightarrow> len_of (fst (dec frame)) = int hlen"
begin

lemma enc_bytes:
  assumes "ok x"
  obtains bs where "enc x = Inr bs" "length bs = hlen" "\<And>rest. dec (bs @ rest) = (x, None)"
  using enc_ok [OF assms] dec_enc [OF assms] by blast

lemma enc_inj: "ok x \<Longrightarrow> ok y \<Longrightarrow> enc x = enc y \<Longrightarrow> x = y"
  using enc_ok [of x] dec_enc [of x _ "[]"] dec_enc [of y _ "[]"] by auto

lemma dec_consumed:
  "snd (dec frame) = None \<Longrightarrow> reslice_from (len_of (fst (dec frame))) frame = Inr (drop hlen frame)"
  using dec_len [of frame] dec_short [of frame] reslice_from_ok [of hlen frame] by (cases "length frame < hlen") auto

lemma dec_NewErr: "snd (dec frame) = Some e \<Longrightarrow> \<exists>m. e = NewErr m"
  using dec_no_panic [of frame e] by (cases e) auto

end

section \<open>Encoded headers, byte by byte\<close>

lemma bit_above: "unat (w :: 'a::len word) < 2 ^ n \<Longrightarrow> n \<le> m \<Longrightarrow> \<not> bit w m"
proof
  assume w: "unat w < 2 ^ n" and m: "n \<le> m" and b: "bit w m"
  have "(2::nat) ^ n \<le> 2 ^ m" using m by (simp add: power_increasing)
  with w have "unat w div 2 ^ m = 0" by (intro div_less) linarith
  moreover from b have "bit (unat w) m" by (simp add: bit_unsigned_iff bit_imp_le_length)
  ultimately show False by (simp add: bit_iff_odd)
qed

lemma unpack_fields:
  fixes hi lo :: "'a::len word"
  assumes "unat hi < 2 ^ (LENGTH('a) - n)" and "unat lo < 2 ^ n" and "n \<le> LENGTH('a)"
  shows "drop_bit n (push_bit n hi OR lo) = hi" and "(push_bit n hi OR lo) AND mask n = lo"
proof -
  have *: "n + m < LENGTH('a)" if "bit hi m" for m
  proof -
    from that bit_above [OF assms(1), of m] have "m < LENGTH('a) - n" by (meson not_le)
    then show ?thesis by simp
  qed
  show "drop_bit n (push_bit n hi OR lo) = hi"
    using bit_above [OF assms(2)]
    by (intro bit_word_eqI) (auto simp: bit_drop_bit_eq bit_or_iff bit_push_bit_iff dest: *)
  show "(push_bit n hi OR lo) AND mask n = lo"
    using bit_above [OF assms(2)] not_le
    by (intro bit_word_eqI) (auto simp: bit_and_iff bit_or_iff bit_push_bit_iff bit_mask_iff)
qed

lemma Uint16_pair [simp]: "Uint16 [ucast (drop_bit 8 v), ucast v] = v"
  using Uint16_Put [of v] by (simp only: PutUint16_def)

lemma Uint32_quad [simp]:
  "Uint32 [ucast (drop_bit 24 v), ucast (drop_bit 16 v), ucast (drop_bit 8 v), ucast v] = v"
  using Uint32_Put [of v] by (simp only: PutUint32_def)

lemma length_4: "length xs = 4 \<longleftrightarrow> (\<exists>a b c d. xs = [a, b, c, d])"
  by (auto simp: numeral_eq_Suc length_Suc_conv)

lemma length_6: "length xs = 6 \<longleftrightarrow> (\<exists>a b c d e f. xs = [a, b, c, d, e, f])"
  by (auto simp: numeral_eq_Suc length_Suc_conv)

lemma slice_exact [simp]: "length xs = n \<Longrightarrow> slice 0 n xs = xs"
  by (simp add: slice_def)

lemma slice_prefix: "length xs = n \<Longrightarrow> slice 0 n (xs @ ys) = xs"
  by (simp add: slice_def)

definition Ether_ok :: "Ether \<Rightarrow> bool" where
  "Ether_ok e \<longleftrightarrow> length (eth_Dst e) = 6 \<and> length (eth_Src e) = 6 \<and> eth_Len e = 14"

definition Vlan_ok :: "Vlan \<Rightarrow> bool" where
  "Vlan_ok n \<longleftrightarrow> unat (vlan_Tci n) < 2 ^ 4 \<and> unat (vlan_Vid n) < 2 ^ 12 \<and> vlan_Len n = 4"

definition Arp_ok :: "Arp \<Rightarrow> bool" where
  "Arp_ok a \<longleftrightarrow> arp_HrdLen a = 6 \<and> arp_ProLen a = 4 \<and> length (arp_SHwAddr a) = 6 \<and>
     length (arp_SIpAddr a) = 4 \<and> length (arp_THwAddr a) = 6 \<and> length (arp_TIpAddr a) = 4 \<and>
     arp_Len a = 28"

definition Ipv4_ok :: "Ipv4 \<Rightarrow> bool" where
  "Ipv4_ok i \<longleftrightarrow> ip4_Version i = 4 \<and> unat (ip4_HeaderLen i) < 2 ^ 4 \<and> unat (ip4_Flag i) < 2 ^ 3 \<and>
     unat (ip4_Offset i) < 2 ^ 13 \<and> length (ip4_Source i) = 4 \<and> length (ip4_Destination i) = 4 \<and>
     ip4_Options i = 0 \<and> ip4_Len i = 20"

definition Tcp_ok :: "Tcp \<Rightarrow> bool" where
  "Tcp_ok t \<longleftrightarrow> tcp_Options t = [] \<and> tcp_Padding t = [] \<and> tcp_Len t = 20"

definition Udp_ok :: "Udp \<Rightarrow> bool" where
  "Udp_ok u \<longleftrightarrow> udp_Len u = 8"

lemma Ether_Encode_bytes:
  "Ether_ok e \<Longrightarrow> Ether_Encode e = Inr (eth_Dst e @ eth_Src e @ PutUint16 (eth_Type e))"
  by (simp add: Ether_ok_def Ether_Encode_def Let_def bytes_simps slice_prefix
      del: append_assoc, simp?)

lemma Vlan_Encode_bytes:
  "Vlan_Encode n = Inr (PutUint16 (push_bit 12 (vlan_Tci n) OR vlan_Vid n) @ PutUint16 (vlan_Pro n))"
  by (simp add: Vlan_Encode_def Let_def bytes_simps slice_prefix
      del: append_assoc, simp?)

lemma Arp_Encode_bytes:
  "Arp_ok a \<Longrightarrow> Arp_Encode a = Inr (a, PutUint16 (arp_HrdCode a) @ PutUint16 (arp_ProCode a) @
     [6, 4] @ PutUint16 (arp_OpCode a) @ arp_SHwAddr a @ arp_SIpAddr a @ arp_THwAddr a @ arp_TIpAddr a)"
  by (simp add: Arp_ok_def Arp_Encode_def arp_put_def Let_def bytes_simps slice_prefix
      del: append_assoc, simp?)

lemma Ipv4_Encode_bytes:
  "Ipv4_ok i \<Longrightarrow> Ipv4_Encode i = Inr ([push_bit 4 (ip4_Version i) OR ip4_HeaderLen i, ip4_ToS i] @
     PutUint16 (ip4_TotalLen i) @ PutUint16 (ip4_Identifier i) @
     PutUint16 (push_bit 13 (ip4_Flag i) OR ip4_Offset i) @ [ip4_ToL i, ip4_Protocol i] @
     PutUint16 (ip4_HeaderChecksum i) @ ip4_Source i @ ip4_Destination i)"
  by (simp add: Ipv4_ok_def Ipv4_Encode_def Let_def bytes_simps reslice_def slice_prefix
      del: append_assoc append.simps, simp?)

lemma Tcp_Encode_bytes:
  "Tcp_ok t \<Longrightarrow> Tcp_Encode t = Inr (PutUint16 (tcp_Source t) @ PutUint16 (tcp_Destination t) @
     PutUint32 (tcp_Sequence t) @ PutUint32 (tcp_Acknowledgment t) @
     [tcp_DataOffset t, tcp_ControlBits t] @ PutUint16 (tcp_Window t) @
     PutUint16 (tcp_Checksum t) @ PutUint16 (tcp_UrgentPointer t))"
  by (simp add: Tcp_ok_def Tcp_Encode_def Let_def bytes_simps reslice_def slice_prefix
      del: append_assoc, simp?)

lemma Udp_Encode_bytes:
  "Udp_ok u \<Longrightarrow> Udp_Encode u = Inr (PutUint16 (udp_Source u) @ PutUint16 (udp_Destination u) @
     PutUint16 (udp_Length u) @ PutUint16 (udp_Checksum u))"
  by (simp add: Udp_ok_def Udp_Encode_def Let_def bytes_simps reslice_def slice_prefix
      del: append_assoc, simp?)

section \<open>Every header type meets the contract\<close>

definition Arp_bytes :: "Arp \<Rightarrow> byte list result" where
  "Arp_bytes a = map_sum id snd (Arp_Encode a)"

lemmas Ether_defs = NewEtherFromFrame_def Ether_Decode_def NewEther_def
lemmas Vlan_defs = NewVlanFromFrame_def Vlan_Decode_def
lemmas Arp_defs = NewArpFromFrame_def Arp_Decode_def NewArp_def
lemmas Ipv4_defs = NewIpv4FromFrame_def Ipv4_Decode_def NewIpv4_def Ipv4_IsIP4_def
lemmas Tcp_defs = NewTcpFromFrame_def Tcp_Decode_def NewTcp_def
lemmas Udp_defs = NewUdpFromFrame_def Udp_Decode_def NewUdp_def

lemma Vlan_fields:
  assumes "Vlan_ok n"
  shows "drop_bit 12 (push_bit 12 (vlan_Tci n) OR vlan_Vid n) = vlan_Tci n"
    and "(push_bit 12 (vlan_Tci n) OR vlan_Vid n) AND mask 12 = vlan_Vid n"
  using unpack_fields [of "vlan_Tci n" 12 "vlan_Vid n"] assms unfolding Vlan_ok_def by simp_all

lemma Ipv4_fields:
  assumes "Ipv4_ok i"
  shows "drop_bit 4 (push_bit 4 (ip4_Version i) OR ip4_HeaderLen i) = ip4_Version i"
    and "(push_bit 4 (ip4_Version i) OR ip4_HeaderLen i) AND mask 4 = ip4_HeaderLen i"
    and "drop_bit 13 (push_bit 13 (ip4_Flag i) OR ip4_Offset i) = ip4_Flag i"
    and "(push_bit 13 (ip4_Flag i) OR ip4_Offset i) AND mask 13 = ip4_Offset i"
  using unpack_fields [of "ip4_Version i" 4 "ip4_HeaderLen i"]
    unpack_fields [of "ip4_Flag i" 13 "ip4_Offset i"] assms
  unfolding Ipv4_ok_def by simp_all

interpretation eth: codec Ether_ok Ether_Encode NewEtherFromFrame 14 eth_Len
proof (unfold_locales, goal_cases)
  case (2 x bs rest)
  then show ?case
    by (cases x) (auto simp: Ether_Encode_bytes Ether_ok_def length_6 Ether_defs slice_def
        copy_into_def PutUint16_def)
qed (auto simp: Ether_Encode_bytes Ether_ok_def Ether_defs split: if_splits)

interpretation vlan: codec Vlan_ok Vlan_Encode NewVlanFromFrame 4 vlan_Len
proof (unfold_locales, goal_cases)
  case (2 x bs rest)
  define v where "v = push_bit 12 (vlan_Tci x) OR vlan_Vid x"
  have bs: "bs = PutUint16 v @ PutUint16 (vlan_Pro x)"
    using 2(2) by (simp add: Vlan_Encode_bytes v_def)
  have f: "drop_bit 12 v = vlan_Tci x" "v AND mask 12 = vlan_Vid x"
    unfolding v_def by (rule Vlan_fields [OF 2(1)])+
  from 2(1) bs f show ?case
    by (cases x) (auto simp: Vlan_ok_def Vlan_defs slice_def PutUint16_def Let_def
        mask_eq_exp_minus_1 and.commute)
qed (auto simp: Vlan_Encode_bytes Vlan_ok_def Vlan_defs Let_def split: if_splits)

interpretation arp: codec Arp_ok Arp_bytes NewArpFromFrame 28 arp_Len
proof (unfold_locales, goal_cases)
  case (2 x bs rest)
  then show ?case
    by (cases x) (auto simp: Arp_Encode_bytes Arp_bytes_def Arp_ok_def length_4 length_6 Arp_defs
        slice_def copy_into_def PutUint16_def Let_def)
qed (auto simp: Arp_Encode_bytes Arp_bytes_def Arp_ok_def Arp_defs Let_def split: if_splits)

interpretation ip4: codec Ipv4_ok Ipv4_Encode NewIpv4FromFrame 20 ip4_Len
proof (unfold_locales, goal_cases)
  case (2 x bs rest)
  define v where "v = push_bit 4 (ip4_Version x) OR ip4_HeaderLen x"
  define w where "w = push_bit 13 (ip4_Flag x) OR ip4_Offset x"
  have bs: "bs = [v, ip4_ToS x] @ PutUint16 (ip4_TotalLen x) @ PutUint16 (ip4_Identifier x) @
      PutUint16 w @ [ip4_ToL x, ip4_Protocol x] @ PutUint16 (ip4_HeaderChecksum x) @
      ip4_Source x @ ip4_Destination x"
    using 2(2) unfolding Ipv4_Encode_bytes [OF 2(1)] v_def w_def by simp
  have f: "drop_bit 4 v = ip4_Version x" "v AND mask 4 = ip4_HeaderLen x"
    "drop_bit 13 w = ip4_Flag x" "w AND mask 13 = ip4_Offset x"
    unfolding v_def w_def by (rule Ipv4_fields [OF 2(1)])+
  from 2(1) bs f show ?case
    by (cases x) (auto simp: Ipv4_ok_def length_4 Ipv4_defs slice_def
        copy_into_def PutUint16_def Let_def mask_eq_exp_minus_1)
qed (auto simp: Ipv4_Encode_bytes Ipv4_ok_def Ipv4_defs Let_def split: if_splits)

interpretation tcp: codec Tcp_ok Tcp_Encode NewTcpFromFrame 20 tcp_Len
proof (unfold_locales, goal_cases)
  case (2 x bs rest)
  then show ?case
    by (cases x) (auto simp: Tcp_Encode_bytes Tcp_ok_def Tcp_defs slice_def PutUint16_def PutUint32_def)
qed (auto simp: Tcp_Encode_bytes Tcp_ok_def Tcp_defs split: if_splits)

interpretation udp: codec Udp_ok Udp_Encode NewUdpFromFrame 8 udp_Len
proof (unfold_locales, goal_cases)
  case (2 x bs rest)
  then show ?case
    by (cases x) (auto simp: Udp_Encode_bytes Udp_ok_def Udp_defs slice_def PutUint16_def)
qed (auto simp: Udp_Encode_bytes Udp_ok_def Udp_defs split: if_splits)

end
