(* ===== verification/Message.thy ===== *)
theory Message
  imports Protocol
begin

text \<open>
  \<open>src/pkg/libol/message.go\<close>: the frame decoder \<open>FrameProto\<close>, the frame buffer \<open>FrameMessage\<close>, control
  messages, and the two messagers that put frames on a stream (\<open>StreamMessagerImpl\<close>, TCP, KCP,
  web socket) and on datagrams (\<open>PacketMessagerImpl\<close>, UDP).

  A \<open>FrameMessage\<close> owns one buffer; its \<open>frame\<close> slice is a window \<open>[flo, fhi)\<close> of that buffer, so that
  \<open>Append\<close> writes through to what \<open>Send\<close> puts on the wire. A \<open>net.Conn\<close> is not part of the
  repository: its four operations are the fields of \<open>conn\<close>, over an abstract connection state. The
  block cipher is a parameter too (\<open>crypt\<close>). The loops that read and write until a message is
  complete may run for ever, so they are \<open>partial_function (option)\<close>s.
\<close>

section \<open>Strings and bytes\<close>

definition str_of :: "byte list \<Rightarrow> string" where
  "str_of bs = map (\<lambda>b. char_of (unat b)) bs"

definition bytes_of :: "string \<Rightarrow> byte list" where
  "bytes_of s = map (\<lambda>c. of_nat (of_char c)) s"

section \<open>FrameProto\<close>

record FrameProto =
  fp_Eth :: "Ether option"
  fp_Vlan :: "Vlan option"
  fp_Arp :: "Arp option"
  fp_Ip4 :: "Ipv4 option"
  fp_Udp :: "Udp option"
  fp_Tcp :: "Tcp option"
  fp_Err :: "error option"
  fp_Frame :: "byte list"

definition NewFrameProto :: "byte list \<Rightarrow> FrameProto" where
  "NewFrameProto frame = \<lparr>fp_Eth = None, fp_Vlan = None, fp_Arp = None, fp_Ip4 = None, fp_Udp = None,
     fp_Tcp = None, fp_Err = None, fp_Frame = frame\<rparr>"

text \<open>The transport switch inside the \<open>EthIp4\<close> case.\<close>

definition FrameProto_l4 :: "Ipv4 \<Rightarrow> byte list \<Rightarrow> FrameProto \<Rightarrow> FrameProto upd" where
  "FrameProto_l4 ip data i =
     (if ip4_Protocol ip = IpTcp then
        (let (t, err) = NewTcpFromFrame data in (i\<lparr>fp_Tcp := Some t, fp_Err := err\<rparr>, err))
      else if ip4_Protocol ip = IpUdp then
        (let (u, err) = NewUdpFromFrame data in (i\<lparr>fp_Udp := Some u, fp_Err := err\<rparr>, err))
      else (i, None))"

text \<open>The switch on \<open>i.Eth.Type\<close>.\<close>

definition FrameProto_l3 :: "Ether \<Rightarrow> byte list \<Rightarrow> FrameProto \<Rightarrow> FrameProto upd" where
  "FrameProto_l3 e data i =
     (if eth_Type e = EthIp4 then
        (let (ip, err) = NewIpv4FromFrame data;
             i = i\<lparr>fp_Ip4 := Some ip, fp_Err := err\<rparr>
         in case err of Some x \<Rightarrow> (i, Some x)
            | None \<Rightarrow> (case reslice_from (ip4_Len ip) data of
                Inl p \<Rightarrow> (i, Some p)
              | Inr data \<Rightarrow> FrameProto_l4 ip data i))
      else if eth_Type e = EthArp then
        (let (a, err) = NewArpFromFrame data in (i\<lparr>fp_Arp := Some a, fp_Err := err\<rparr>, err))
      else (i, None))"

text \<open>The optional 802.1Q header: what is left to decode, or the error.\<close>

definition FrameProto_vlan :: "Ether \<Rightarrow> byte list \<Rightarrow> FrameProto \<Rightarrow> FrameProto \<times> byte list result" where
  "FrameProto_vlan e data i =
     (if Ether_IsVlan e then
        (let (v, err) = NewVlanFromFrame data;
             i = i\<lparr>fp_Vlan := Some v, fp_Err := err\<rparr>
         in case err of Some x \<Rightarrow> (i, Inl x)
            | None \<Rightarrow> (i, reslice_from (vlan_Len v) data))
      else (i, Inr data))"

definition FrameProto_Decode :: "FrameProto \<Rightarrow> FrameProto upd" where
  "FrameProto_Decode i =
     (let data = fp_Frame i;
          (e, err) = NewEtherFromFrame data;
          i = i\<lparr>fp_Eth := Some e, fp_Err := err\<rparr>
      in case err of Some x \<Rightarrow> (i, Some x)
         | None \<Rightarrow> (case reslice_from (eth_Len e) data of
             Inl p \<Rightarrow> (i, Some p)
           | Inr data \<Rightarrow> (case FrameProto_vlan e data i of
               (i, Inl x) \<Rightarrow> (i, Some x)
             | (i, Inr data) \<Rightarrow> FrameProto_l3 e data i)))"

section \<open>FrameMessage\<close>

abbreviation (input) MaxBuf :: int where "MaxBuf \<equiv> 4096"
abbreviation (input) MaxMsg :: int where "MaxMsg \<equiv> 1600 * 8"

definition MAGIC :: "byte list" where
  "MAGIC = [0xff, 0xff]"

definition LoginReq :: string where "LoginReq = ''logi= ''"
definition LoginResp :: string where "LoginResp = ''logi: ''"
definition NeighborReq :: string where "NeighborReq = ''neig= ''"
definition NeighborResp :: string where "NeighborResp = ''neig: ''"
definition IpAddrReq :: string where "IpAddrReq = ''ipad= ''"
definition IpAddrResp :: string where "IpAddrResp = ''ipad: ''"
definition LeftReq :: string where "LeftReq = ''left= ''"
definition SignReq :: string where "SignReq = ''sign= ''"
definition PingReq :: string where "PingReq = ''ping= ''"
definition PongResp :: string where "PongResp = ''pong: ''"

definition isControl :: "byte list \<Rightarrow> bool" where
  "isControl data \<longleftrightarrow> \<not> length data < 6 \<and> slice 0 6 data = slice 0 6 EthZero"

record FrameMessage =
  fm_control :: bool
  fm_action :: string
  fm_params :: "byte list"
  fm_buffer :: "byte list"
  fm_flo :: nat
  fm_fhi :: nat
  fm_size :: int
  fm_total :: int
  fm_proto :: "FrameProto option"

definition FrameMessage_Frame :: "FrameMessage \<Rightarrow> byte list" where
  "FrameMessage_Frame m = slice (fm_flo m) (fm_fhi m) (fm_buffer m)"

definition NewFrameMessage :: "int \<Rightarrow> FrameMessage" where
  "NewFrameMessage maxSize =
     (let maxSize = (if maxSize \<le> 0 then MaxBuf else maxSize) + (4 + 6)
      in \<lparr>fm_control = False, fm_action = [], fm_params = [], fm_buffer = replicate (nat maxSize) 0,
          fm_flo = 4, fm_fhi = nat maxSize, fm_size = 0, fm_total = maxSize - 4, fm_proto = None\<rparr>)"

definition NewFrameMessageFromBytes :: "byte list \<Rightarrow> FrameMessage result" where
  "NewFrameMessageFromBytes buf =
     (if length buf < 4 then Inl oor
      else Inr \<lparr>fm_control = False, fm_action = [], fm_params = [], fm_buffer = buf,
          fm_flo = 4, fm_fhi = length buf, fm_size = int (length buf) - 4,
          fm_total = int (length buf) - 4, fm_proto = None\<rparr>)"

definition FrameMessage_Decode :: "FrameMessage \<Rightarrow> FrameMessage \<times> bool" where
  "FrameMessage_Decode m =
     (let frame = FrameMessage_Frame m;
          m = m\<lparr>fm_control := isControl frame\<rparr>;
          m = (if fm_control m \<and> \<not> length frame < 2 * 6
               then m\<lparr>fm_action := str_of (slice 6 12 frame), fm_params := drop 12 frame\<rparr> else m)
      in (m, fm_control m))"

definition FrameMessage_IsEthernet :: "FrameMessage \<Rightarrow> bool" where
  "FrameMessage_IsEthernet m \<longleftrightarrow> \<not> fm_control m"

definition FrameMessage_IsControl :: "FrameMessage \<Rightarrow> bool" where
  "FrameMessage_IsControl m \<longleftrightarrow> fm_control m"

definition FrameMessage_Action :: "FrameMessage \<Rightarrow> string" where
  "FrameMessage_Action m = fm_action m"

definition FrameMessage_CmdAndParams :: "FrameMessage \<Rightarrow> string \<times> byte list" where
  "FrameMessage_CmdAndParams m = (fm_action m, fm_params m)"

text \<open>\<open>copy(m.frame[m.size:], data)\<close> panics when \<open>m.size\<close> lies outside the frame.\<close>

definition FrameMessage_Append :: "byte list \<Rightarrow> FrameMessage \<Rightarrow> FrameMessage result" where
  "FrameMessage_Append data m =
     (let add = int (length data)
      in if fm_total m - fm_size m \<ge> add
         then if 0 \<le> fm_size m \<and> fm_size m \<le> int (fm_fhi m) - int (fm_flo m)
              then Inr (m\<lparr>fm_buffer := copy_into (fm_flo m + nat (fm_size m)) (fm_fhi m) data (fm_buffer m),
                          fm_size := fm_size m + add\<rparr>)
              else Inl oor
         else Inr m)"

definition FrameMessage_Size :: "FrameMessage \<Rightarrow> int" where
  "FrameMessage_Size m = fm_size m"

definition FrameMessage_SetSize :: "int \<Rightarrow> FrameMessage \<Rightarrow> FrameMessage" where
  "FrameMessage_SetSize v m = m\<lparr>fm_size := v\<rparr>"

text \<open>The decoded protocol headers are computed once and kept; later calls return the kept value.\<close>

definition FrameMessage_Proto :: "FrameMessage \<Rightarrow> FrameMessage \<times> FrameProto \<times> error option" where
  "FrameMessage_Proto m =
     (case fm_proto m of
        None \<Rightarrow> (let p = fst (FrameProto_Decode (NewFrameProto (FrameMessage_Frame m)))
                in (m\<lparr>fm_proto := Some p\<rparr>, p, fp_Err p))
      | Some p \<Rightarrow> (m, p, fp_Err p))"

section \<open>Control messages\<close>

record ControlMessage =
  cm_control :: bool
  cm_operator :: string
  cm_action :: string
  cm_params :: "byte list"

definition NewControlMessage :: "string \<Rightarrow> string \<Rightarrow> byte list \<Rightarrow> ControlMessage" where
  "NewControlMessage action opr body =
     \<lparr>cm_control = True, cm_operator = opr, cm_action = action, cm_params = body\<rparr>"

definition ControlMessage_Encode :: "ControlMessage \<Rightarrow> FrameMessage result" where
  "ControlMessage_Encode c =
     (case (reslice 0 4 (cm_action c), reslice 0 2 (cm_operator c)) of
        (Inr a, Inr opr) \<Rightarrow>
          (let p = bytes_of a @ bytes_of opr @ cm_params c;
               frame = NewFrameMessage (int (length p));
               frame = frame\<lparr>fm_control := cm_control c, fm_action := cm_action c @ cm_operator c,
                             fm_params := cm_params c\<rparr>
           in case FrameMessage_Append (slice 0 6 EthZero) frame of Inl e \<Rightarrow> Inl e
              | Inr frame \<Rightarrow> FrameMessage_Append p frame)
      | _ \<Rightarrow> Inl oor)"

definition NewControlFrame :: "string \<Rightarrow> byte list \<Rightarrow> FrameMessage result" where
  "NewControlFrame action body =
     (case (reslice 0 4 action, reslice_from 4 action) of
        (Inr a, Inr opr) \<Rightarrow> ControlMessage_Encode (NewControlMessage a opr body)
      | _ \<Rightarrow> Inl oor)"

section \<open>Connections and ciphers\<close>

record 'c conn =
  conn_Read :: "'c \<Rightarrow> nat \<Rightarrow> 'c \<times> byte list result"
  conn_Write :: "'c \<Rightarrow> byte list \<Rightarrow> 'c \<times> int result"
  conn_SetReadDeadline :: "'c \<Rightarrow> 'c \<times> error option"
  conn_SetWriteDeadline :: "'c \<Rightarrow> 'c \<times> error option"

record crypt =
  crypt_Encrypt :: "byte list \<Rightarrow> byte list"
  crypt_Decrypt :: "byte list \<Rightarrow> byte list"

definition encrypt_opt :: "crypt option \<Rightarrow> byte list \<Rightarrow> byte list" where
  "encrypt_opt block bs = (case block of None \<Rightarrow> bs | Some c \<Rightarrow> crypt_Encrypt c bs)"

definition decrypt_opt :: "crypt option \<Rightarrow> byte list \<Rightarrow> byte list" where
  "decrypt_opt block bs = (case block of None \<Rightarrow> bs | Some c \<Rightarrow> crypt_Decrypt c bs)"

section \<open>StreamMessagerImpl\<close>

record StreamMessagerImpl =
  smi_timeout :: int
  smi_block :: "crypt option"
  smi_buffer :: "byte list"
  smi_bufSize :: int

definition StreamMessagerImpl_Flush :: "StreamMessagerImpl \<Rightarrow> StreamMessagerImpl" where
  "StreamMessagerImpl_Flush s = s\<lparr>smi_buffer := []\<rparr>"

definition StreamMessagerImpl_write ::
    "'c conn \<Rightarrow> StreamMessagerImpl \<Rightarrow> byte list \<Rightarrow> 'c \<Rightarrow> 'c \<times> int result" where
  "StreamMessagerImpl_write ops s tmp c =
     (let (c, err) = (if smi_timeout s \<noteq> 0 then conn_SetWriteDeadline ops c else (c, None))
      in case err of Some e \<Rightarrow> (c, Inl e) | None \<Rightarrow> conn_Write ops c tmp)"

text \<open>The loop of \<open>writeX\<close>: \<open>offset\<close> bytes are out; \<open>None\<close> when it never ends.\<close>

partial_function (option) writeX_loop ::
    "'c conn \<Rightarrow> StreamMessagerImpl \<Rightarrow> byte list \<Rightarrow> int \<Rightarrow> 'c \<Rightarrow> ('c \<times> error option) option" where
  "writeX_loop ops s buf offset c =
     (if int (length buf) - offset > 0
      then (case reslice_from offset buf of
              Inl e \<Rightarrow> Some (c, Some e)
            | Inr tmp \<Rightarrow> (case StreamMessagerImpl_write ops s tmp c of
                (c, Inl e) \<Rightarrow> Some (c, Some e)
              | (c, Inr n) \<Rightarrow> writeX_loop ops s buf (offset + n) c))
      else Some (c, None))"

definition StreamMessagerImpl_writeX ::
    "'c conn \<Rightarrow> StreamMessagerImpl \<Rightarrow> byte list \<Rightarrow> 'c \<Rightarrow> ('c \<times> error option) option" where
  "StreamMessagerImpl_writeX ops s buf c = writeX_loop ops s buf 0 c"

text \<open>The header of both messagers: magic and the size as a 16-bit integer (\<open>uint16(frame.size)\<close>
  wraps), then encryption of the whole frame window in place.\<close>

definition put_header :: "crypt option \<Rightarrow> FrameMessage \<Rightarrow> FrameMessage result" where
  "put_header block frame =
     (if length (fm_buffer frame) < 4 then Inl oor
      else let b = copy_into 0 1 [MAGIC ! 0] (fm_buffer frame);
               b = copy_into 1 2 [MAGIC ! 1] b;
               b = copy_into 2 4 (PutUint16 (of_int (fm_size frame))) b;
               b = copy_into (fm_flo frame) (fm_fhi frame)
                     (encrypt_opt block (slice (fm_flo frame) (fm_fhi frame) b)) b
           in Inr (frame\<lparr>fm_buffer := b\<rparr>))"

definition StreamMessagerImpl_encode :: "StreamMessagerImpl \<Rightarrow> FrameMessage \<Rightarrow> FrameMessage result" where
  "StreamMessagerImpl_encode s frame = put_header (smi_block s) frame"

definition StreamMessagerImpl_Send ::
    "'c conn \<Rightarrow> StreamMessagerImpl \<Rightarrow> FrameMessage \<Rightarrow> 'c \<Rightarrow> ('c \<times> int result) option" where
  "StreamMessagerImpl_Send ops s frame c =
     (case StreamMessagerImpl_encode s frame of
        Inl e \<Rightarrow> Some (c, Inl e)
      | Inr frame \<Rightarrow>
          (let fs = fm_size frame + 4
           in case reslice 0 fs (fm_buffer frame) of
                Inl e \<Rightarrow> Some (c, Inl e)
              | Inr buf \<Rightarrow> (case StreamMessagerImpl_writeX ops s buf c of
                  None \<Rightarrow> None
                | Some (c, Some e) \<Rightarrow> Some (c, Inl e)
                | Some (c, None) \<Rightarrow> Some (c, Inr fs))))"

definition StreamMessagerImpl_read ::
    "'c conn \<Rightarrow> StreamMessagerImpl \<Rightarrow> nat \<Rightarrow> 'c \<Rightarrow> 'c \<times> byte list result" where
  "StreamMessagerImpl_read ops s n c =
     (let (c, err) = (if smi_timeout s \<noteq> 0 then conn_SetReadDeadline ops c else (c, None))
      in case err of Some e \<Rightarrow> (c, Inl e) | None \<Rightarrow> conn_Read ops c n)"

text \<open>\<open>readX\<close> fills a buffer of \<open>left\<close> bytes (it has no caller in the repository).\<close>

partial_function (option) StreamMessagerImpl_readX ::
    "'c conn \<Rightarrow> StreamMessagerImpl \<Rightarrow> nat \<Rightarrow> byte list \<Rightarrow> 'c \<Rightarrow> ('c \<times> byte list result) option" where
  "StreamMessagerImpl_readX ops s left acc c =
     (if left > 0
      then (case StreamMessagerImpl_read ops s left c of
              (c, Inl e) \<Rightarrow> Some (c, Inl e)
            | (c, Inr bs) \<Rightarrow> StreamMessagerImpl_readX ops s (left - length bs) (acc @ bs) c)
      else Some (c, Inr acc))"

text \<open>\<open>decode\<close> returns \<open>nil\<close> (\<open>None\<close>) when the message is not complete yet.\<close>

definition StreamMessagerImpl_decode ::
    "byte list \<Rightarrow> int \<Rightarrow> StreamMessagerImpl \<Rightarrow> StreamMessagerImpl \<times> FrameMessage option result" where
  "StreamMessagerImpl_decode tmp minSz s =
     (let ts = int (length tmp)
      in if ts < minSz then (s, Inr None)
         else if ts < 4 then (s, Inl oor)
         else if slice 0 2 tmp \<noteq> slice 0 2 MAGIC then (s, Inl (NewErr ''wrong magic''))
         else let fs = unat (Uint16 (slice 2 4 tmp)) + 4
              in if length tmp \<ge> fs
                 then let s = s\<lparr>smi_buffer := drop fs tmp\<rparr>;
                          buf = slice 0 4 tmp @ decrypt_opt (smi_block s) (slice 4 fs tmp)
                      in (case NewFrameMessageFromBytes buf of
                            Inl e \<Rightarrow> (s, Inl e) | Inr m \<Rightarrow> (s, Inr (Some m)))
                 else (s, Inr None))"

text \<open>The endless loop of \<open>Receive\<close>: \<open>acc\<close> is \<open>tmp[:bs]\<close>, the bytes read so far, and each read gets
  the free part of the \<open>cap\<close> bytes long array.\<close>

partial_function (option) Receive_loop ::
    "'c conn \<Rightarrow> nat \<Rightarrow> int \<Rightarrow> byte list \<Rightarrow> StreamMessagerImpl \<Rightarrow> 'c
     \<Rightarrow> ('c \<times> StreamMessagerImpl \<times> FrameMessage result) option" where
  "Receive_loop ops cap minSz acc s c =
     (case StreamMessagerImpl_read ops s (cap - length acc) c of
        (c, Inl e) \<Rightarrow> Some (c, s, Inl e)
      | (c, Inr bs) \<Rightarrow>
          (case StreamMessagerImpl_decode (acc @ bs) minSz s of
             (s, Inl e) \<Rightarrow> Some (c, s, Inl e)
           | (s, Inr (Some m)) \<Rightarrow> Some (c, s, Inr m)
           | (s, Inr None) \<Rightarrow> Receive_loop ops cap minSz (acc @ bs) s c))"

text \<open>\<open>copy(tmp[:bs], \<dots>)\<close> panics when the buffered bytes do not fit the array.\<close>

definition StreamMessagerImpl_Receive ::
    "'c conn \<Rightarrow> int \<Rightarrow> int \<Rightarrow> StreamMessagerImpl \<Rightarrow> 'c
     \<Rightarrow> ('c \<times> StreamMessagerImpl \<times> FrameMessage result) option" where
  "StreamMessagerImpl_Receive ops maxSz minSz s c =
     (case StreamMessagerImpl_decode (smi_buffer s) minSz s of
        (s, Inl e) \<Rightarrow> Some (c, s, Inl e)
      | (s, Inr (Some m)) \<Rightarrow> Some (c, s, Inr m)
      | (s, Inr None) \<Rightarrow>
          (let s = (if smi_bufSize s = 0 then s\<lparr>smi_bufSize := MaxMsg\<rparr> else s)
           in if smi_bufSize s < 0 \<or> int (length (smi_buffer s)) > smi_bufSize s then Some (c, s, Inl oor)
              else Receive_loop ops (nat (smi_bufSize s)) minSz (smi_buffer s) s c))"

section \<open>PacketMessagerImpl\<close>

record PacketMessagerImpl =
  pmi_timeout :: int
  pmi_block :: "crypt option"
  pmi_bufSize :: int

definition PacketMessagerImpl_Flush :: "PacketMessagerImpl \<Rightarrow> PacketMessagerImpl" where
  "PacketMessagerImpl_Flush s = s"

definition PacketMessagerImpl_Send ::
    "'c conn \<Rightarrow> PacketMessagerImpl \<Rightarrow> FrameMessage \<Rightarrow> 'c \<Rightarrow> 'c \<times> int result" where
  "PacketMessagerImpl_Send ops s frame c =
     (case put_header (pmi_block s) frame of
        Inl e \<Rightarrow> (c, Inl e)
      | Inr frame \<Rightarrow>
          (let (c, err) = (if pmi_timeout s \<noteq> 0 then conn_SetWriteDeadline ops c else (c, None))
           in case err of Some e \<Rightarrow> (c, Inl e)
              | None \<Rightarrow> (case reslice 0 (4 + fm_size frame) (fm_buffer frame) of
                  Inl e \<Rightarrow> (c, Inl e)
                | Inr buf \<Rightarrow> (case conn_Write ops c buf of
                    (c, Inl e) \<Rightarrow> (c, Inl e)
                  | (c, Inr n) \<Rightarrow> (c, Inr (fm_size frame))))))"

text \<open>What \<open>Receive\<close> does with the \<open>n\<close> bytes read into \<open>frame.buffer\<close>.\<close>

definition packet_parse :: "crypt option \<Rightarrow> int \<Rightarrow> int \<Rightarrow> nat \<Rightarrow> FrameMessage \<Rightarrow> FrameMessage result" where
  "packet_parse block maxSz minSz n frame =
     (if n \<le> 4 then Inl (NewErr ''%s: small frame'')
      else if slice 0 2 (fm_buffer frame) \<noteq> slice 0 2 MAGIC then Inl (NewErr ''%s: wrong magic'')
      else let sz = int (unat (Uint16 (slice 2 4 (fm_buffer frame))))
           in if sz > maxSz \<or> sz < minSz then Inl (NewErr ''%s: wrong size %d'')
              else case reslice 4 (4 + sz) (fm_buffer frame) of
                Inl e \<Rightarrow> Inl e
              | Inr tmp \<Rightarrow> Inr (frame\<lparr>fm_buffer := copy_into 4 (4 + nat sz) (decrypt_opt block tmp) (fm_buffer frame),
                                     fm_size := sz, fm_flo := 4, fm_fhi := 4 + nat sz\<rparr>))"

definition PacketMessagerImpl_Receive ::
    "'c conn \<Rightarrow> int \<Rightarrow> int \<Rightarrow> PacketMessagerImpl \<Rightarrow> 'c \<Rightarrow> 'c \<times> PacketMessagerImpl \<times> FrameMessage result" where
  "PacketMessagerImpl_Receive ops maxSz minSz s c =
     (let s = (if pmi_bufSize s = 0 then s\<lparr>pmi_bufSize := MaxMsg\<rparr> else s);
          frame = NewFrameMessage (pmi_bufSize s);
          (c, err) = (if pmi_timeout s \<noteq> 0 then conn_SetReadDeadline ops c else (c, None))
      in case err of Some e \<Rightarrow> (c, s, Inl e)
         | None \<Rightarrow> (case conn_Read ops c (length (fm_buffer frame)) of
             (c, Inl e) \<Rightarrow> (c, s, Inl e)
           | (c, Inr bs) \<Rightarrow>
               (c, s, packet_parse (pmi_block s) maxSz minSz (length bs)
                  (frame\<lparr>fm_buffer := copy_into 0 (length (fm_buffer frame)) bs (fm_buffer frame)\<rparr>))))"

section \<open>Frame decoding\<close>

lemma str_of_bytes_of [simp]: "str_of (bytes_of s) = s"
proof -
  have "unat (of_nat (of_char c) :: byte) = of_char c" for c
    by (simp add: unat_of_nat)
  then show ?thesis by (simp add: str_of_def bytes_of_def comp_def)
qed

lemma length_bytes_of [simp]: "length (bytes_of s) = length s"
  by (simp add: bytes_of_def)

lemma bytes_of_append: "bytes_of (s @ t) = bytes_of s @ bytes_of t"
  by (simp add: bytes_of_def)

text \<open>The outcome of a decoding step: the error is recorded in the message and is no panic.\<close>

definition decode_sound :: "FrameProto upd \<Rightarrow> bool" where
  "decode_sound r \<longleftrightarrow> fp_Err (fst r) = snd r \<and> (case snd r of None \<Rightarrow> True | Some e \<Rightarrow> \<not> is_panic e)"

lemma decode_soundI [intro]:
  "fp_Err i = err \<Longrightarrow> (\<And>e. err = Some e \<Longrightarrow> \<not> is_panic e) \<Longrightarrow> decode_sound (i, err)"
  by (cases err) (auto simp: decode_sound_def)

lemma codec_pair_no_panic:
  "NewTcpFromFrame data = (t, Some e) \<Longrightarrow> \<not> is_panic e"
  "NewUdpFromFrame data = (u, Some e) \<Longrightarrow> \<not> is_panic e"
  "NewArpFromFrame data = (a, Some e) \<Longrightarrow> \<not> is_panic e"
  "NewIpv4FromFrame data = (i, Some e) \<Longrightarrow> \<not> is_panic e"
  "NewVlanFromFrame data = (v, Some e) \<Longrightarrow> \<not> is_panic e"
  "NewEtherFromFrame data = (eth, Some e) \<Longrightarrow> \<not> is_panic e"
  using tcp.dec_no_panic [of data e] udp.dec_no_panic [of data e] arp.dec_no_panic [of data e]
    ip4.dec_no_panic [of data e] vlan.dec_no_panic [of data e] eth.dec_no_panic [of data e]
  by auto

lemma codec_pair_consumed:
  "NewIpv4FromFrame data = (i, None) \<Longrightarrow> reslice_from (ip4_Len i) data = Inr (drop 20 data)"
  "NewVlanFromFrame data = (v, None) \<Longrightarrow> reslice_from (vlan_Len v) data = Inr (drop 4 data)"
  "NewEtherFromFrame data = (e, None) \<Longrightarrow> reslice_from (eth_Len e) data = Inr (drop 14 data)"
  using ip4.dec_consumed [of data] vlan.dec_consumed [of data] eth.dec_consumed [of data] by auto

lemma FrameProto_l4_sound: "fp_Err i = None \<Longrightarrow> decode_sound (FrameProto_l4 ip data i)"
  by (auto simp: FrameProto_l4_def Let_def dest: codec_pair_no_panic split: prod.splits)

lemma FrameProto_l3_sound: "fp_Err i = None \<Longrightarrow> decode_sound (FrameProto_l3 e data i)"
  by (auto simp: FrameProto_l3_def Let_def codec_pair_consumed
      dest: codec_pair_no_panic intro!: FrameProto_l4_sound split: prod.splits option.splits)

lemma FrameProto_vlan_cases:
  assumes "fp_Err i = None"
  obtains (fail) i' x where "FrameProto_vlan e data i = (i', Inl x)" "fp_Err i' = Some x" "\<not> is_panic x"
  | (pass) i' data' where "FrameProto_vlan e data i = (i', Inr data')" "fp_Err i' = None"
proof (cases "NewVlanFromFrame data")
  case (Pair v err)
  with assms that show ?thesis
    by (cases err; cases "Ether_IsVlan e")
       (auto simp: FrameProto_vlan_def Let_def codec_pair_consumed dest: codec_pair_no_panic)
qed

lemma FrameProto_Decode_sound: "decode_sound (FrameProto_Decode (NewFrameProto frame))"
proof (cases "NewEtherFromFrame frame")
  case (Pair e err)
  show ?thesis
  proof (cases err)
    case None
    let ?i = "(NewFrameProto frame)\<lparr>fp_Eth := Some e, fp_Err := None\<rparr>"
    have "fp_Err ?i = None" by simp
    then show ?thesis
    proof (cases rule: FrameProto_vlan_cases [where e = e and data = "drop 14 frame"])
      case (fail i' x)
      with Pair None show ?thesis
        by (auto simp: FrameProto_Decode_def NewFrameProto_def Let_def codec_pair_consumed)
    next
      case (pass i' data')
      with Pair None show ?thesis
        by (auto simp: FrameProto_Decode_def NewFrameProto_def Let_def codec_pair_consumed
            intro: FrameProto_l3_sound)
    qed
  next
    case (Some x)
    with Pair show ?thesis
      by (auto simp: FrameProto_Decode_def NewFrameProto_def Let_def dest: codec_pair_no_panic)
  qed
qed


lemma FrameProto_Decode_eth:
  assumes "NewEtherFromFrame frame = (e, None)" and "\<not> Ether_IsVlan e"
  shows "FrameProto_Decode (NewFrameProto frame) =
     FrameProto_l3 e (drop 14 frame) ((NewFrameProto frame)\<lparr>fp_Eth := Some e\<rparr>)"
  using assms by (simp add: FrameProto_Decode_def NewFrameProto_def Let_def codec_pair_consumed
      FrameProto_vlan_def)

lemma EthTypes_not_vlan: "eth_Type e = EthIp4 \<or> eth_Type e = EthArp \<Longrightarrow> \<not> Ether_IsVlan e"
  by (auto simp: Ether_IsVlan_def)

text \<open>A frame built from encoded Ethernet, IPv4 and TCP headers and any payload decodes to exactly
  these headers.\<close>

theorem FrameProto_Decode_tcp:
  assumes "Ether_ok e" and "eth_Type e = EthIp4" and "Ipv4_ok ip" and "ip4_Protocol ip = IpTcp"
    and "Tcp_ok t"
    and "Ether_Encode e = Inr eb" and "Ipv4_Encode ip = Inr ib" and "Tcp_Encode t = Inr tb"
  shows "FrameProto_Decode (NewFrameProto (eb @ ib @ tb @ payload)) =
    ((NewFrameProto (eb @ ib @ tb @ payload))\<lparr>fp_Eth := Some e, fp_Ip4 := Some ip, fp_Tcp := Some t\<rparr>, None)"
proof -
  have E: "NewEtherFromFrame (eb @ ib @ tb @ payload) = (e, None)" "length eb = 14"
    using assms(1,6) eth.dec_enc eth.enc_ok by fastforce+
  have I: "NewIpv4FromFrame (ib @ tb @ payload) = (ip, None)" "length ib = 20"
    using assms(3,7) ip4.dec_enc ip4.enc_ok by fastforce+
  have T: "NewTcpFromFrame (tb @ payload) = (t, None)"
    using assms(5,8) tcp.dec_enc by blast
  show ?thesis
    using FrameProto_Decode_eth [OF E(1)] EthTypes_not_vlan [of e] assms(2,4) E(2) I T
      codec_pair_consumed(1) [OF I(1)]
    by (simp add: FrameProto_l3_def FrameProto_l4_def NewFrameProto_def)
qed

text \<open>Concrete headers of the witnesses.\<close>

definition ex_eth :: "u16 \<Rightarrow> Ether" where
  "ex_eth t = \<lparr>eth_Dst = [1, 2, 3, 4, 5, 6], eth_Src = [2, 2, 3, 4, 5, 7], eth_Type = t, eth_Len = 14\<rparr>"

definition ex_ip4 :: "byte \<Rightarrow> Ipv4" where
  "ex_ip4 proto = \<lparr>ip4_Version = 4, ip4_HeaderLen = 5, ip4_ToS = 0, ip4_TotalLen = 43, ip4_Identifier = 1,
     ip4_Flag = 2, ip4_Offset = 0, ip4_ToL = 64, ip4_Protocol = proto, ip4_HeaderChecksum = 0,
     ip4_Source = [10, 0, 0, 1], ip4_Destination = [10, 0, 0, 2], ip4_Options = 0, ip4_Len = 20\<rparr>"

definition ex_tcp :: Tcp where
  "ex_tcp = \<lparr>tcp_Source = 80, tcp_Destination = 4660, tcp_Sequence = 5, tcp_Acknowledgment = 0,
     tcp_DataOffset = 0x50, tcp_ControlBits = 2, tcp_Window = 1024, tcp_Checksum = 0,
     tcp_UrgentPointer = 0, tcp_Options = [], tcp_Padding = [], tcp_Len = 20\<rparr>"

lemma ex_eth_ok: "Ether_ok (ex_eth t)" "eth_Type (ex_eth t) = t"
  by (simp_all add: ex_eth_def Ether_ok_def)

lemma ex_ip4_ok: "Ipv4_ok (ex_ip4 p)" "ip4_Protocol (ex_ip4 p) = p"
  by (simp_all add: ex_ip4_def Ipv4_ok_def)

lemma ex_tcp_ok: "Tcp_ok ex_tcp"
  by (simp add: ex_tcp_def Tcp_ok_def)

lemma ex_eth_bytes: "Ether_Encode (ex_eth 0x0800) = Inr [1, 2, 3, 4, 5, 6, 2, 2, 3, 4, 5, 7, 8, 0]"
  unfolding Ether_Encode_bytes [OF ex_eth_ok(1)] by (simp add: ex_eth_def PutUint16_def)

lemma ex_ip4_bytes: "Ipv4_Encode (ex_ip4 6) =
    Inr [0x45, 0, 0, 43, 0, 1, 0x40, 0, 64, 6, 0, 0, 10, 0, 0, 1, 10, 0, 0, 2]"
  unfolding Ipv4_Encode_bytes [OF ex_ip4_ok(1)] by (simp add: ex_ip4_def PutUint16_def)

lemma ex_tcp_bytes: "Tcp_Encode ex_tcp =
    Inr [0, 80, 0x12, 0x34, 0, 0, 0, 5, 0, 0, 0, 0, 0x50, 2, 4, 0, 0, 0, 0, 0]"
  unfolding Tcp_Encode_bytes [OF ex_tcp_ok] by (simp add: ex_tcp_def PutUint16_def PutUint32_def)

theorem FrameProto_Decode_tcp_witness:
  "let f = [1, 2, 3, 4, 5, 6, 2, 2, 3, 4, 5, 7, 8, 0] @
      [0x45, 0, 0, 43, 0, 1, 0x40, 0, 64, 6, 0, 0, 10, 0, 0, 1, 10, 0, 0, 2] @
      [0, 80, 0x12, 0x34, 0, 0, 0, 5, 0, 0, 0, 0, 0x50, 2, 4, 0, 0, 0, 0, 0] @ [7, 7, 7]
   in FrameProto_Decode (NewFrameProto f) =
     ((NewFrameProto f)\<lparr>fp_Eth := Some (ex_eth 0x0800), fp_Ip4 := Some (ex_ip4 6), fp_Tcp := Some ex_tcp\<rparr>, None)"
  unfolding Let_def
  by (rule FrameProto_Decode_tcp
      [OF ex_eth_ok(1) ex_eth_ok(2) ex_ip4_ok(1) ex_ip4_ok(2) ex_tcp_ok ex_eth_bytes ex_ip4_bytes ex_tcp_bytes])

text \<open>A frame with an 802.1Q tag is never looked into: whatever follows the tag, no ARP, IPv4, TCP
  or UDP header is decoded (the switch is on the outer \<open>Eth.Type\<close>, not on \<open>Vlan.Pro\<close>).\<close>

theorem FrameProto_Decode_vlan_opaque:
  assumes "14 \<le> length frame" and "Uint16 (slice 12 14 frame) = EthVlan"
  shows "let p = fst (FrameProto_Decode (NewFrameProto frame))
         in fp_Arp p = None \<and> fp_Ip4 p = None \<and> fp_Tcp p = None \<and> fp_Udp p = None"
proof -
  obtain e where e: "NewEtherFromFrame frame = (e, None)" "eth_Type e = EthVlan"
    using assms by (auto simp: NewEtherFromFrame_def Ether_Decode_def NewEther_def)
  then show ?thesis
    by (auto simp: FrameProto_Decode_def FrameProto_vlan_def FrameProto_l3_def NewFrameProto_def Let_def
        codec_pair_consumed split: prod.splits option.splits sum.splits)
qed

theorem FrameProto_Decode_vlan_opaque_witness:
  "let p = fst (FrameProto_Decode (NewFrameProto
     ([1, 2, 3, 4, 5, 6, 2, 2, 3, 4, 5, 7, 0x81, 0, 0, 1, 8, 6] @ replicate 28 0)))
   in fp_Arp p = None \<and> fp_Ip4 p = None \<and> fp_Tcp p = None \<and> fp_Udp p = None"
  by (rule FrameProto_Decode_vlan_opaque) (simp_all add: slice_def Uint16_def)

section \<open>Control frames\<close>

lemma copy_into_short:
  "lo + length src \<le> hi \<Longrightarrow> copy_into lo hi src dst = take lo dst @ src @ drop (lo + length src) dst"
  by (simp add: copy_into_def)

lemma EthZero_slice [simp]: "slice 0 6 EthZero = EthZero" and length_EthZero [simp]: "length EthZero = 6"
  by (simp_all add: EthZero_def slice_def)

lemma NewControlFrame_eq:
  assumes "length action = 6"
  shows "NewControlFrame action body = Inr \<lparr>fm_control = True, fm_action = action, fm_params = body,
     fm_buffer = replicate 4 0 @ EthZero @ bytes_of action @ body, fm_flo = 4,
     fm_fhi = 16 + length body, fm_size = 12 + int (length body), fm_total = 12 + int (length body),
     fm_proto = None\<rparr>"
proof -
  have a: "take 4 action @ drop 4 action = action" by simp
  then have b: "bytes_of (take 4 action) @ bytes_of (drop 4 action) = bytes_of action"
    by (simp flip: bytes_of_append)
  have n: "nat (16 + int (length body)) = 16 + length body" by simp
  have ne: "bytes_of action \<noteq> []" using assms by (auto simp: bytes_of_def)
  show ?thesis
    using assms a b ne
    by (simp add: NewControlFrame_def NewControlMessage_def ControlMessage_Encode_def reslice_def
        reslice_from_def slice_def NewFrameMessage_def FrameMessage_Append_def Let_def copy_into_short n
        nat_add_distrib flip: append_assoc)
qed

lemma FrameMessage_Decode_control:
  assumes "FrameMessage_Frame m = EthZero @ bytes_of action @ body" and "length action = 6"
  shows "FrameMessage_Decode m = (m\<lparr>fm_control := True, fm_action := action, fm_params := body\<rparr>, True)"
  using assms
  by (simp add: FrameMessage_Decode_def Let_def isControl_def slice_prefix slice_append_mid)

text \<open>A control frame for a six-letter action carries the zero address, the action and the body, its
  size is the length of the frame, and the receiver's \<open>Decode\<close> recovers the action and the body.\<close>

theorem NewControlFrame_roundtrip:
  assumes "length action = 6"
  shows "case NewControlFrame action body of Inl _ \<Rightarrow> False
    | Inr m \<Rightarrow> FrameMessage_Frame m = EthZero @ bytes_of action @ body \<and>
        fm_size m = int (length (FrameMessage_Frame m)) \<and>
        FrameMessage_CmdAndParams (fst (FrameMessage_Decode m)) = (action, body) \<and>
        snd (FrameMessage_Decode m)"
proof -
  obtain m where m: "NewControlFrame action body = Inr m"
    and f: "FrameMessage_Frame m = EthZero @ bytes_of action @ body"
    and sz: "fm_size m = 12 + int (length body)"
    using NewControlFrame_eq [OF assms, of body] assms by (simp add: FrameMessage_Frame_def slice_def)
  from FrameMessage_Decode_control [OF f assms] m f sz assms show ?thesis
    by (simp add: FrameMessage_CmdAndParams_def)
qed

theorem NewControlFrame_roundtrip_witness:
  "case NewControlFrame LoginReq [0x7b, 0x7d] of Inl _ \<Rightarrow> False
    | Inr m \<Rightarrow> FrameMessage_Frame m = EthZero @ bytes_of LoginReq @ [0x7b, 0x7d] \<and>
        fm_size m = int (length (FrameMessage_Frame m)) \<and>
        FrameMessage_CmdAndParams (fst (FrameMessage_Decode m)) = (LoginReq, [0x7b, 0x7d]) \<and>
        snd (FrameMessage_Decode m)"
  by (rule NewControlFrame_roundtrip) (simp add: LoginReq_def)

section \<open>The stream messager\<close>

text \<open>A connection as a byte stream: the state is the list of segments under way. A read takes the
  first segment, or as much of it as the buffer holds; a write adds a segment; reading with nothing
  under way is an error. Every segmentation of a byte stream is a state of this connection.\<close>

definition pipe :: "byte list list conn" where
  "pipe = \<lparr>
     conn_Read = (\<lambda>cs n. case cs of [] \<Rightarrow> ([], Inl (NewErr ''EOF''))
        | c # cs \<Rightarrow> if length c \<le> n then (cs, Inr c) else (drop n c # cs, Inr (take n c))),
     conn_Write = (\<lambda>cs b. (cs @ [b], Inr (int (length b)))),
     conn_SetReadDeadline = (\<lambda>cs. (cs, None)),
     conn_SetWriteDeadline = (\<lambda>cs. (cs, None))\<rparr>"

text \<open>What the code relies on from a block cipher: it keeps the length, and a prefix of the ciphertext
  decrypts to the prefix of the plaintext (the sender encrypts the whole buffer but sends only the
  used part of it).\<close>

definition crypt_ok :: "crypt option \<Rightarrow> bool" where
  "crypt_ok block \<longleftrightarrow> (\<forall>x. length (encrypt_opt block x) = length x) \<and>
     (\<forall>x n. n \<le> length x \<longrightarrow> decrypt_opt block (take n (encrypt_opt block x)) = take n x)"

text \<open>A frame that can be sent: the window starts after the header, the size lies in the window and
  fits the 16-bit length field.\<close>

definition sendable :: "FrameMessage \<Rightarrow> bool" where
  "sendable m \<longleftrightarrow> fm_flo m = 4 \<and> fm_fhi m = length (fm_buffer m) \<and> 4 \<le> length (fm_buffer m) \<and>
     0 \<le> fm_size m \<and> fm_size m \<le> int (length (fm_buffer m)) - 4 \<and> fm_size m < 65536"

definition payload :: "FrameMessage \<Rightarrow> byte list" where
  "payload m = take (nat (fm_size m)) (FrameMessage_Frame m)"

definition wire :: "crypt option \<Rightarrow> FrameMessage \<Rightarrow> byte list" where
  "wire block m = MAGIC @ PutUint16 (of_int (fm_size m)) @
     take (nat (fm_size m)) (encrypt_opt block (FrameMessage_Frame m))"

lemma crypt_ok_None [simp]: "crypt_ok None"
  by (simp add: crypt_ok_def encrypt_opt_def decrypt_opt_def)

lemma length_payload: "sendable m \<Longrightarrow> length (payload m) = nat (fm_size m)"
  by (auto simp: sendable_def payload_def FrameMessage_Frame_def)

lemma length_wire: "sendable m \<Longrightarrow> crypt_ok block \<Longrightarrow> length (wire block m) = 4 + nat (fm_size m)"
  by (auto simp: sendable_def wire_def FrameMessage_Frame_def crypt_ok_def MAGIC_def)

lemma put_header_wire:
  assumes "sendable m" and "crypt_ok block"
  shows "\<exists>m'. put_header block m = Inr m' \<and> fm_size m' = fm_size m \<and>
    reslice 0 (fm_size m + 4) (fm_buffer m') = Inr (wire block m)"
proof -
  obtain h f where b: "fm_buffer m = h @ f" "length h = 4"
    using assms(1) by (metis append_take_drop_id length_take min.absorb2 sendable_def)
  then obtain w x y z where h: "h = [w, x, y, z]" by (auto simp: length_4)
  have f: "FrameMessage_Frame m = f" using assms(1) b by (simp add: FrameMessage_Frame_def sendable_def slice_def)
  have l: "length (encrypt_opt block f) = length f" using assms(2) by (simp add: crypt_ok_def)
  have buf: "fm_buffer m = w # x # y # z # f" using b h by simp
  have fl: "fm_flo m = 4" "fm_fhi m = 4 + length f" using assms(1) b by (simp_all add: sendable_def)
  have "put_header block m = Inr (m\<lparr>fm_buffer := MAGIC @ PutUint16 (of_int (fm_size m)) @ encrypt_opt block f\<rparr>)"
    using buf fl l by (simp add: put_header_def Let_def copy_into_def slice_def MAGIC_def PutUint16_def)
  moreover have "take (n + 4) (MAGIC @ PutUint16 x @ y) = MAGIC @ PutUint16 x @ take n y" for n x y
    by (simp add: MAGIC_def PutUint16_def eval_nat_numeral)
  ultimately show ?thesis
    using assms(1) b f l
    by (auto simp: reslice_def slice_def wire_def sendable_def nat_add_distrib MAGIC_def [THEN arg_cong [where f = length]])
qed

lemma Uint16_size: "0 \<le> n \<Longrightarrow> n < 65536 \<Longrightarrow> unat (of_int n :: u16) = nat n"
  by (simp add: unat_eq_nat_uint uint_word_of_int_eq take_bit_int_eq_self)

lemma wire_header:
  assumes "sendable m"
  shows "slice 0 2 (wire block m @ rest) = slice 0 2 MAGIC"
    and "unat (Uint16 (slice 2 4 (wire block m @ rest))) = nat (fm_size m)"
  using assms by (simp_all add: wire_def MAGIC_def slice_def sendable_def PutUint16_def Uint16_size)

definition received :: "FrameMessage \<Rightarrow> byte list \<Rightarrow> bool" where
  "received m' p \<longleftrightarrow> FrameMessage_Frame m' = p \<and> fm_size m' = int (length p)"

lemma received_from_bytes:
  assumes "length h = 4"
  shows "\<exists>m'. NewFrameMessageFromBytes (h @ p) = Inr m' \<and> received m' p"
  using assms by (simp add: NewFrameMessageFromBytes_def received_def FrameMessage_Frame_def slice_def)

lemma decode_wire:
  assumes "sendable m" and "crypt_ok (smi_block s)" and "minSz \<le> int (length (wire (smi_block s) m @ rest))"
  shows "\<exists>m'. StreamMessagerImpl_decode (wire (smi_block s) m @ rest) minSz s =
      (s\<lparr>smi_buffer := rest\<rparr>, Inr (Some m')) \<and> received m' (payload m)"
proof -
  let ?w = "wire (smi_block s) m" and ?n = "nat (fm_size m)"
  have l: "length ?w = 4 + ?n" using assms length_wire by blast
  have body: "slice 4 (?n + 4) (?w @ rest) =
      take ?n (encrypt_opt (smi_block s) (FrameMessage_Frame m))"
    using l by (simp add: wire_def MAGIC_def slice_def PutUint16_def)
  have plain: "decrypt_opt (smi_block s) (take ?n (encrypt_opt (smi_block s) (FrameMessage_Frame m))) = payload m"
    using assms(1,2) by (auto simp: crypt_ok_def payload_def sendable_def FrameMessage_Frame_def)
  have "length (slice 0 4 (?w @ rest)) = 4" using l by simp
  then obtain m' where m': "NewFrameMessageFromBytes (slice 0 4 (?w @ rest) @ payload m) = Inr m'"
      "received m' (payload m)"
    using received_from_bytes by blast
  have dr: "drop (?n + 4) (?w @ rest) = rest" using l by simp
  have "StreamMessagerImpl_decode (?w @ rest) minSz s = (s\<lparr>smi_buffer := rest\<rparr>, Inr (Some m'))"
    using assms(3) l m'(1)
    unfolding StreamMessagerImpl_decode_def Let_def wire_header [OF assms(1)] dr body
    by (simp add: plain)
  with m'(2) show ?thesis by blast
qed

lemma decode_partial:
  assumes "sendable m" and "crypt_ok (smi_block s)" and "4 \<le> minSz"
    and "wire (smi_block s) m = p @ q" and "q \<noteq> []"
  shows "StreamMessagerImpl_decode p minSz s = (s, Inr None)"
proof (cases "int (length p) < minSz")
  case False
  then have p4: "4 \<le> length p" using assms(3) by linarith
  have "length p < length (wire (smi_block s) m)" using assms(4,5) by simp
  then have short: "length p < 4 + nat (fm_size m)" using length_wire [OF assms(1,2)] by simp
  have sl: "slice i j (p @ q) = slice i j p" if "j \<le> 4" for i j
    using that p4 by (intro slice_append_left) simp
  have "slice 0 2 p = slice 0 2 MAGIC" "unat (Uint16 (slice 2 4 p)) = nat (fm_size m)"
    using wire_header [OF assms(1), of "smi_block s" "[]"] unfolding assms(4) by (simp_all add: sl)
  with False p4 short show ?thesis by (simp add: StreamMessagerImpl_decode_def Let_def)
qed (simp add: StreamMessagerImpl_decode_def)

lemma pipe_read:
  "StreamMessagerImpl_read pipe s n (c # cs) = ((if length c \<le> n then cs else drop n c # cs), Inr (take n c))"
  "StreamMessagerImpl_read pipe s n [] = ([], Inl (NewErr ''EOF''))"
  by (simp_all add: StreamMessagerImpl_read_def pipe_def)

text \<open>The loop of \<open>Receive\<close> ends with the first message of the stream, however it is cut into segments,
  and keeps the bytes that follow it.\<close>

lemma Receive_loop_one:
  assumes "sendable m" and "crypt_ok (smi_block s)" and "4 \<le> minSz" and "minSz \<le> int (length (wire (smi_block s) m))"
    and "length (wire (smi_block s) m) \<le> cap"
    and "acc @ concat cs = wire (smi_block s) m @ rest" and "length acc < length (wire (smi_block s) m)"
  shows "\<exists>cs' buf m'. Receive_loop pipe cap minSz acc s cs = Some (cs', s\<lparr>smi_buffer := buf\<rparr>, Inr m') \<and>
      received m' (payload m) \<and> buf @ concat cs' = rest \<and> length buf \<le> cap"
  using assms(6,7)
proof (induction "length (concat cs) + length cs" arbitrary: acc cs rule: less_induct)
  case less
  let ?w = "wire (smi_block s) m"
  obtain c cs0 where cs: "cs = c # cs0" using less.prems by (cases cs) auto
  define n where "n = cap - length acc"
  define cs1 where "cs1 = (if length c \<le> n then cs0 else drop n c # cs0)"
  let ?acc = "acc @ take n c"
  have n: "0 < n" "length ?acc \<le> cap" using less.prems(2) assms(5) by (auto simp: n_def)
  have td: "take n c @ drop n c @ x = c @ x" for x by (metis append.assoc append_take_drop_id)
  have all: "?acc @ concat cs1 = ?w @ rest" using less.prems(1) by (simp add: cs cs1_def td)
  have rd: "Receive_loop pipe cap minSz acc s cs = (case StreamMessagerImpl_decode ?acc minSz s of
      (s, Inl e) \<Rightarrow> Some (cs1, s, Inl e) | (s, Inr (Some m)) \<Rightarrow> Some (cs1, s, Inr m)
      | (s, Inr None) \<Rightarrow> Receive_loop pipe cap minSz ?acc s cs1)"
    by (subst Receive_loop.simps) (simp add: cs pipe_read n_def cs1_def)
  show ?case
  proof (cases "length ?w \<le> length ?acc")
    case True
    then obtain r where r: "?acc = ?w @ r" "r @ concat cs1 = rest"
      using append_split_ge [OF all] by blast
    have "minSz \<le> int (length (?w @ r))" using assms(4) by simp
    then obtain m' where "StreamMessagerImpl_decode ?acc minSz s = (s\<lparr>smi_buffer := r\<rparr>, Inr (Some m'))"
        "received m' (payload m)"
      unfolding r(1) using decode_wire [OF assms(1,2)] by blast
    with r n(2) show ?thesis unfolding rd by (auto simp: r(1))
  next
    case False
    then obtain q where q: "?w = ?acc @ q" "q \<noteq> []"
      using append_split_lt [OF all] by auto
    have "length (concat cs1) + length cs1 < length (concat cs) + length cs" using n(1) by (auto simp: cs cs1_def)
    from less.hyps [OF this all] False decode_partial [OF assms(1-3) q] show ?thesis
      unfolding rd by auto
  qed
qed

definition smi_cap :: "StreamMessagerImpl \<Rightarrow> int" where
  "smi_cap s = (if smi_bufSize s = 0 then MaxMsg else smi_bufSize s)"

lemma Receive_one:
  assumes "sendable m" and "crypt_ok (smi_block s)" and "4 \<le> minSz" and "minSz \<le> 4 + fm_size m"
    and "4 + fm_size m \<le> smi_cap s" and "int (length (smi_buffer s)) \<le> smi_cap s"
    and "smi_buffer s @ concat cs = wire (smi_block s) m @ rest"
  shows "\<exists>cs' s' m'. StreamMessagerImpl_Receive pipe maxSz minSz s cs = Some (cs', s', Inr m') \<and>
      received m' (payload m) \<and> smi_buffer s' @ concat cs' = rest \<and> int (length (smi_buffer s')) \<le> smi_cap s' \<and>
      smi_block s' = smi_block s \<and> smi_cap s' = smi_cap s"
proof -
  let ?w = "wire (smi_block s) m" and ?b = "smi_buffer s"
  have sz: "0 \<le> fm_size m" using assms(1) by (simp add: sendable_def)
  have l: "int (length ?w) = 4 + fm_size m" using length_wire [OF assms(1,2)] sz by simp
  show ?thesis
  proof (cases "length ?w \<le> length ?b")
    case True
    then obtain r where r: "?b = ?w @ r" "r @ concat cs = rest"
      using append_split_ge [OF assms(7)] by blast
    have "minSz \<le> int (length (?w @ r))" using assms(4) l by simp
    then obtain m' where "StreamMessagerImpl_decode ?b minSz s = (s\<lparr>smi_buffer := r\<rparr>, Inr (Some m'))"
        "received m' (payload m)"
      unfolding r(1) using decode_wire [OF assms(1,2)] by blast
    with r assms(6) show ?thesis by (auto simp: StreamMessagerImpl_Receive_def smi_cap_def r(1))
  next
    case False
    then obtain q where q: "?w = ?b @ q" "q \<noteq> []"
      using append_split_lt [OF assms(7)] by auto
    define s1 where "s1 = s\<lparr>smi_bufSize := smi_cap s\<rparr>"
    have s1: "smi_block s1 = smi_block s" "smi_bufSize s1 = smi_cap s" "smi_cap s1 = smi_cap s"
      by (auto simp: s1_def smi_cap_def)
    have pos: "\<not> smi_cap s < 0" "length ?w \<le> nat (smi_cap s)" using assms(5) sz l by linarith+
    have "\<exists>cs' buf m'. Receive_loop pipe (nat (smi_cap s)) minSz ?b s1 cs =
        Some (cs', s1\<lparr>smi_buffer := buf\<rparr>, Inr m') \<and>
        received m' (payload m) \<and> buf @ concat cs' = rest \<and> length buf \<le> nat (smi_cap s)"
      by (rule Receive_loop_one) (use assms l pos False s1 in auto)
    moreover have "StreamMessagerImpl_Receive pipe maxSz minSz s cs = Receive_loop pipe (nat (smi_cap s)) minSz ?b s1 cs"
      using decode_partial [OF assms(1-3) q] assms(6) pos
      by (auto simp: StreamMessagerImpl_Receive_def s1_def smi_cap_def)
    moreover have "smi_cap (s1\<lparr>smi_buffer := buf\<rparr>) = smi_cap s" for buf using s1(2) by (simp add: smi_cap_def)
    ultimately show ?thesis using s1(1) pos(1) by fastforce
  qed
qed

text \<open>Several calls of \<open>Receive\<close> in a row, the way the read loops of the sockets make them.\<close>

fun receive_n :: "'c conn \<Rightarrow> int \<Rightarrow> int \<Rightarrow> nat \<Rightarrow> StreamMessagerImpl \<Rightarrow> 'c
     \<Rightarrow> ('c \<times> StreamMessagerImpl \<times> FrameMessage list) option" where
  "receive_n ops maxSz minSz 0 s c = Some (c, s, [])"
| "receive_n ops maxSz minSz (Suc n) s c =
     (case StreamMessagerImpl_Receive ops maxSz minSz s c of
        Some (c, s, Inr m) \<Rightarrow> (case receive_n ops maxSz minSz n s c of
            Some (c, s, ms) \<Rightarrow> Some (c, s, m # ms) | None \<Rightarrow> None)
      | _ \<Rightarrow> None)"

definition fits :: "StreamMessagerImpl \<Rightarrow> int \<Rightarrow> FrameMessage \<Rightarrow> bool" where
  "fits s minSz m \<longleftrightarrow> sendable m \<and> minSz \<le> 4 + fm_size m \<and> 4 + fm_size m \<le> smi_cap s"

lemma receive_n_all:
  assumes "crypt_ok (smi_block s)" and "4 \<le> minSz" and "\<forall>m \<in> set ms. fits s minSz m"
    and "int (length (smi_buffer s)) \<le> smi_cap s"
    and "smi_buffer s @ concat cs = concat (map (wire (smi_block s)) ms) @ rest"
  shows "\<exists>cs' s' out. receive_n pipe maxSz minSz (length ms) s cs = Some (cs', s', out) \<and>
     list_all2 received out (map payload ms) \<and> smi_buffer s' @ concat cs' = rest"
  using assms
proof (induction ms arbitrary: s cs)
  case (Cons m ms)
  then have m: "sendable m" "minSz \<le> 4 + fm_size m" "4 + fm_size m \<le> smi_cap s" by (auto simp: fits_def)
  from Cons.prems(5) have "smi_buffer s @ concat cs =
      wire (smi_block s) m @ (concat (map (wire (smi_block s)) ms) @ rest)" by simp
  from Receive_one [OF m(1) Cons.prems(1,2) m(2,3) Cons.prems(4) this] obtain cs1 s1 m1 where one:
    "StreamMessagerImpl_Receive pipe maxSz minSz s cs = Some (cs1, s1, Inr m1)" "received m1 (payload m)"
    "smi_buffer s1 @ concat cs1 = concat (map (wire (smi_block s)) ms) @ rest"
    "int (length (smi_buffer s1)) \<le> smi_cap s1" "smi_block s1 = smi_block s" "smi_cap s1 = smi_cap s" by blast
  have "\<forall>m \<in> set ms. fits s1 minSz m" using Cons.prems(3) one(6) by (simp add: fits_def)
  with Cons.IH [of s1 cs1] Cons.prems(1,2) one show ?case by auto
qed auto

text \<open>C5. Reassembly: whatever way the network cuts the bytes of the messages \<open>ms\<close> into segments, the same
  number of calls of \<open>Receive\<close> returns their payloads in order, each with its own size, and leaves nothing
  buffered, as long as every message fits the receive buffer and is not shorter than the minimum.\<close>

theorem stream_reassembly:
  assumes "crypt_ok (smi_block s)" and "4 \<le> minSz" and "\<forall>m \<in> set ms. fits s minSz m"
    and "smi_buffer s = []" and "0 \<le> smi_bufSize s"
    and "concat cs = concat (map (wire (smi_block s)) ms)"
  shows "\<exists>cs' s' out. receive_n pipe maxSz minSz (length ms) s cs = Some (cs', s', out) \<and>
     map FrameMessage_Frame out = map payload ms \<and> map fm_size out = map fm_size ms \<and>
     smi_buffer s' = [] \<and> concat cs' = []"
proof -
  have cap: "int (length (smi_buffer s)) \<le> smi_cap s" using assms(4,5) by (simp add: smi_cap_def)
  have st: "smi_buffer s @ concat cs = concat (map (wire (smi_block s)) ms) @ []" using assms(4,6) by simp
  from receive_n_all [OF assms(1-3) cap st] obtain cs' s' out where
    r: "receive_n pipe maxSz minSz (length ms) s cs = Some (cs', s', out)"
      "list_all2 received out (map payload ms)" "smi_buffer s' @ concat cs' = []" by blast
  have "fm_size m = int (length (payload m))" if "m \<in> set ms" for m
    using assms(3) that length_payload [of m] by (auto simp: fits_def sendable_def)
  then have "map fm_size out = map fm_size ms" "map FrameMessage_Frame out = map payload ms"
    using r(2) by (auto simp: list_eq_iff_nth_eq list_all2_conv_all_nth received_def)
  with r(1,3) show ?thesis by auto
qed

definition ex_frame :: "byte list \<Rightarrow> FrameMessage" where
  "ex_frame p = \<lparr>fm_control = False, fm_action = [], fm_params = [], fm_buffer = [0, 0, 0, 0] @ p, fm_flo = 4,
     fm_fhi = 4 + length p, fm_size = int (length p), fm_total = int (length p), fm_proto = None\<rparr>"

definition ex_stream :: StreamMessagerImpl where
  "ex_stream = \<lparr>smi_timeout = 0, smi_block = None, smi_buffer = [], smi_bufSize = 0\<rparr>"

text \<open>Two messages of two and three bytes arrive in three segments, none of them at a message boundary.\<close>

theorem stream_reassembly_witness:
  "\<exists>cs' s' out. receive_n pipe 1514 5 (length [ex_frame [1, 2], ex_frame [3, 4, 5]]) ex_stream
       [[255, 255, 0], [2, 1, 2, 255, 255], [0, 3, 3, 4, 5]] = Some (cs', s', out) \<and>
     map FrameMessage_Frame out = map payload [ex_frame [1, 2], ex_frame [3, 4, 5]] \<and>
     map fm_size out = map fm_size [ex_frame [1, 2], ex_frame [3, 4, 5]] \<and> smi_buffer s' = [] \<and> concat cs' = []"
  by (rule stream_reassembly)
    (simp_all add: ex_stream_def ex_frame_def fits_def sendable_def smi_cap_def wire_def MAGIC_def PutUint16_def
      FrameMessage_Frame_def encrypt_opt_def slice_def)

subsection \<open>Sending\<close>

text \<open>What \<open>Send\<close> relies on from the connection (\<open>io.Writer\<close>): a write takes a non-empty part of the bytes
  from the front, or fails after some of them; \<open>sent\<close> is the stream of bytes the connection has taken.
  Setting a deadline sends nothing.\<close>

definition write_ok :: "('c \<Rightarrow> byte list) \<Rightarrow> 'c conn \<Rightarrow> bool" where
  "write_ok sent ops \<longleftrightarrow>
     (\<forall>c b. b \<noteq> [] \<longrightarrow> (case conn_Write ops c b of
        (c', Inr n) \<Rightarrow> 0 < n \<and> n \<le> int (length b) \<and> sent c' = sent c @ take (nat n) b
      | (c', Inl e) \<Rightarrow> \<exists>k. sent c' = sent c @ take k b)) \<and>
     (\<forall>c. sent (fst (conn_SetWriteDeadline ops c)) = sent c)"

lemma write_ok_write:
  assumes "write_ok sent ops" and "b \<noteq> []"
  shows "case StreamMessagerImpl_write ops s b c of
      (c', Inr n) \<Rightarrow> 0 < n \<and> n \<le> int (length b) \<and> sent c' = sent c @ take (nat n) b
    | (c', Inl e) \<Rightarrow> \<exists>k. sent c' = sent c @ take k b"
proof -
  obtain c1 err where d: "(if smi_timeout s \<noteq> 0 then conn_SetWriteDeadline ops c else (c, None)) = (c1, err)"
    by fastforce
  have c1: "sent c1 = sent c" using d assms(1) unfolding write_ok_def by (metis fst_conv)
  have w: "case conn_Write ops c1 b of
      (c', Inr n) \<Rightarrow> 0 < n \<and> n \<le> int (length b) \<and> sent c' = sent c1 @ take (nat n) b
    | (c', Inl e) \<Rightarrow> \<exists>k. sent c' = sent c1 @ take k b"
    by (rule assms(1) [unfolded write_ok_def, THEN conjunct1, rule_format, OF assms(2)])
  have "\<exists>k. sent c = sent c @ take k b" by (rule exI [of _ 0]) simp
  with w [unfolded c1] c1 show ?thesis
    by (cases err) (simp_all add: StreamMessagerImpl_write_def d)
qed

lemma writeX_loop_sends:
  assumes "write_ok sent ops" and "0 \<le> offset" and "offset \<le> int (length buf)"
    and "sent c = pre @ take (nat offset) buf"
  shows "\<exists>c' err k. writeX_loop ops s buf offset c = Some (c', err) \<and> sent c' = pre @ take k buf \<and>
     (err = None \<longrightarrow> sent c' = pre @ buf)"
  using assms(2-4)
proof (induction "nat (int (length buf) - offset)" arbitrary: offset c rule: less_induct)
  case less
  show ?case
  proof (cases "int (length buf) - offset > 0")
    case False
    with less.prems have "sent c = pre @ take (length buf) buf" by simp
    with False show ?thesis by (subst writeX_loop.simps) (auto intro: exI [of _ "length buf"])
  next
    case True
    let ?tmp = "drop (nat offset) buf"
    have ne: "?tmp \<noteq> []" using True less.prems by auto
    have rs: "reslice_from offset buf = Inr ?tmp" using less.prems by (simp add: reslice_from_def reslice_def slice_def)
    obtain c1 r where w: "StreamMessagerImpl_write ops s ?tmp c = (c1, r)" by fastforce
    have step: "writeX_loop ops s buf offset c = (case r of Inl e \<Rightarrow> Some (c1, Some e)
        | Inr n \<Rightarrow> writeX_loop ops s buf (offset + n) c1)"
      using True by (subst writeX_loop.simps) (simp add: rs w)
    have j: "take (nat offset) buf @ take k ?tmp = take (nat offset + k) buf" for k by (simp add: take_add)
    show ?thesis
    proof (cases r)
      case (Inl e)
      with write_ok_write [OF assms(1) ne, where s = s and c = c] w obtain k where "sent c1 = sent c @ take k ?tmp" by auto
      with less.prems(3) have "sent c1 = pre @ take (nat offset + k) buf" by (simp add: j)
      then show ?thesis unfolding step Inl by auto
    next
      case (Inr n)
      with write_ok_write [OF assms(1) ne, where s = s and c = c] w
      have n: "0 < n" "n \<le> int (length ?tmp)" "sent c1 = sent c @ take (nat n) ?tmp" by auto
      have "sent c1 = pre @ take (nat (offset + n)) buf"
        using n less.prems by (simp add: j nat_add_distrib)
      with less.hyps [of "offset + n" c1] n True less.prems show ?thesis unfolding step Inr by auto
    qed
  qed
qed

text \<open>\<open>Send\<close> always returns, on every connection that meets the contract of \<open>io.Writer\<close>, also when it
  takes only part of the bytes at a time: on success exactly the header and the encrypted payload were
  appended to the stream and the number of bytes is returned, on an error a prefix of them.\<close>

theorem StreamMessagerImpl_Send_complete:
  assumes "sendable m" and "crypt_ok (smi_block s)" and "write_ok sent ops"
  shows "\<exists>c' r k. StreamMessagerImpl_Send ops s m c = Some (c', r) \<and>
     sent c' = sent c @ take k (wire (smi_block s) m) \<and>
     (\<forall>n. r = Inr n \<longrightarrow> n = 4 + fm_size m \<and> sent c' = sent c @ wire (smi_block s) m)"
proof -
  obtain m' where m': "put_header (smi_block s) m = Inr m'" "fm_size m' = fm_size m"
    "reslice 0 (fm_size m + 4) (fm_buffer m') = Inr (wire (smi_block s) m)"
    using put_header_wire [OF assms(1,2)] by blast
  have "sent c = sent c @ take (nat 0) (wire (smi_block s) m)" by simp
  from writeX_loop_sends [OF assms(3) order_refl of_nat_0_le_iff this]
  obtain c' err k where "writeX_loop ops s (wire (smi_block s) m) 0 c = Some (c', err)"
    "sent c' = sent c @ take k (wire (smi_block s) m)" "err = None \<longrightarrow> sent c' = sent c @ wire (smi_block s) m"
    by blast
  then show ?thesis
    using m' by (cases err) (auto simp: StreamMessagerImpl_Send_def StreamMessagerImpl_encode_def
        StreamMessagerImpl_writeX_def Let_def)
qed

text \<open>A connection that takes at most three bytes at a time.\<close>

definition ex_slow :: "byte list conn" where
  "ex_slow = \<lparr>conn_Read = (\<lambda>c n. (drop n c, Inr (take n c))),
     conn_Write = (\<lambda>c b. (c @ take 3 b, Inr (min 3 (int (length b))))),
     conn_SetReadDeadline = (\<lambda>c. (c, None)), conn_SetWriteDeadline = (\<lambda>c. (c, None))\<rparr>"

lemma ex_slow_write_ok: "write_ok (\<lambda>c. c) ex_slow"
  by (auto simp: write_ok_def ex_slow_def min_def nat_le_iff)

lemma ex_frame_sendable: "length p < 65536 \<Longrightarrow> sendable (ex_frame p)"
  by (simp add: ex_frame_def sendable_def)

theorem StreamMessagerImpl_Send_complete_witness:
  "\<exists>c' r k. StreamMessagerImpl_Send ex_slow ex_stream (ex_frame [7, 8, 9]) [] = Some (c', r) \<and>
     c' = [] @ take k (wire (smi_block ex_stream) (ex_frame [7, 8, 9]))"
proof -
  have "crypt_ok (smi_block ex_stream)" "length [7, 8, 9 :: byte] < 65536" by (simp_all add: ex_stream_def)
  then show ?thesis using StreamMessagerImpl_Send_complete [OF ex_frame_sendable _ ex_slow_write_ok, of "[7, 8, 9]" ex_stream "[]"] by blast
qed

subsection \<open>Messages larger than the receive buffer\<close>

text \<open>Once the array is full, a read gets an empty slice and returns no byte, so an incomplete message
  makes the loop turn forever. \<open>alive\<close> are the states of the connection in which such reads succeed.\<close>

lemma Receive_loop_full:
  assumes "\<And>c. alive c \<Longrightarrow> \<exists>c'. StreamMessagerImpl_read ops s 0 c = (c', Inr []) \<and> alive c'"
    and "alive c" and "length acc = cap" and "StreamMessagerImpl_decode acc minSz s = (s, Inr None)"
  shows "Receive_loop ops cap minSz acc s c = None"
proof (rule ccontr)
  assume "Receive_loop ops cap minSz acc s c \<noteq> None"
  then obtain r where r: "Receive_loop ops cap minSz acc s c = Some r" by blast
  let ?P = "\<lambda>ops' cap' minSz' acc' s' c r. \<not> (ops' = ops \<and> cap' = cap \<and> minSz' = minSz \<and> acc' = acc \<and> s' = s \<and> alive c)"
  have "?P ops cap minSz acc s c r"
  proof (rule Receive_loop.raw_induct [where P = ?P, OF _ r], rule notI, elim conjE)
    fix rec ops' cap' minSz' acc' s' c r
    assume IH: "\<And>ops' cap' minSz' acc' s' c r. rec ops' cap' minSz' acc' s' c = Some r \<Longrightarrow> ?P ops' cap' minSz' acc' s' c r"
      and body: "(case StreamMessagerImpl_read ops' s' (cap' - length acc') c of
         (c, Inl e) \<Rightarrow> Some (c, s', Inl e)
       | (c, Inr bs) \<Rightarrow> (case StreamMessagerImpl_decode (acc' @ bs) minSz' s' of
           (s, Inl e) \<Rightarrow> Some (c, s, Inl e) | (s, Inr (Some m)) \<Rightarrow> Some (c, s, Inr m)
         | (s, Inr None) \<Rightarrow> rec ops' cap' minSz' (acc' @ bs) s c)) = Some r"
      and eqs: "ops' = ops" "cap' = cap" "minSz' = minSz" "acc' = acc" "s' = s" "alive c"
    obtain c' where "StreamMessagerImpl_read ops s 0 c = (c', Inr [])" "alive c'" using assms(1) eqs(6) by blast
    with body eqs assms(3,4) IH show False by auto
  qed
  with assms(2) show False by blast
qed

lemma decode_incomplete:
  assumes "4 \<le> length p" and "slice 0 2 p = slice 0 2 MAGIC" and "length p < unat (Uint16 (slice 2 4 p)) + 4"
  shows "StreamMessagerImpl_decode p minSz s = (s, Inr None)"
  using assms by (simp add: StreamMessagerImpl_decode_def Let_def)

text \<open>\<open>Receive\<close> does not check the announced length against the size of its buffer: a header that
  announces more than the buffer can hold, followed by enough bytes, makes \<open>Receive\<close> spin forever with
  empty reads, it neither returns a message nor an error.\<close>

theorem StreamMessagerImpl_Receive_stuck:
  assumes "smi_buffer s = []" and "4 \<le> minSz" and "int (length p) = smi_cap s" and "4 \<le> length p"
    and "slice 0 2 p = slice 0 2 MAGIC" and "length p < unat (Uint16 (slice 2 4 p)) + 4" and "q \<noteq> []"
  shows "StreamMessagerImpl_Receive pipe maxSz minSz s [p @ q] = None"
proof -
  define s1 where "s1 = s\<lparr>smi_bufSize := smi_cap s\<rparr>"
  have dec: "StreamMessagerImpl_decode p minSz s1 = (s1, Inr None)" by (rule decode_incomplete) (use assms in auto)
  have full: "Receive_loop pipe (length p) minSz p s1 [q] = None"
    by (rule Receive_loop_full [where alive = "\<lambda>cs. cs = [q]"]) (use dec assms(7) in \<open>auto simp: pipe_read\<close>)
  have first: "Receive_loop pipe (length p) minSz [] s1 [p @ q] = Receive_loop pipe (length p) minSz p s1 [q]"
    using assms(7) by (subst Receive_loop.simps) (simp add: pipe_read dec)
  have cap: "nat (smi_cap s) = length p" "\<not> smi_cap s < 0" using assms(3) by linarith+
  have "StreamMessagerImpl_Receive pipe maxSz minSz s [p @ q] = Receive_loop pipe (nat (smi_cap s)) minSz [] s1 [p @ q]"
    using assms(1,2) cap(2) by (auto simp: StreamMessagerImpl_Receive_def StreamMessagerImpl_decode_def s1_def smi_cap_def)
  then show ?thesis using first full cap(1) by simp
qed

text \<open>With the default buffer of 12800 bytes and a header that announces 65535 bytes.\<close>

theorem StreamMessagerImpl_Receive_stuck_witness:
  "StreamMessagerImpl_Receive pipe 1514 15 ex_stream [([255, 255, 255, 255] @ replicate 12796 0) @ [0]] = None"
  by (rule StreamMessagerImpl_Receive_stuck)
    (simp_all add: ex_stream_def smi_cap_def slice_def MAGIC_def Uint16_def)

section \<open>The packet messager\<close>

definition pmi_cap :: "PacketMessagerImpl \<Rightarrow> int" where
  "pmi_cap s = (if pmi_bufSize s = 0 then MaxMsg else pmi_bufSize s)"

lemma packet_parse_wire:
  assumes "sendable m" and "crypt_ok block" and "0 < fm_size m" and "minSz \<le> fm_size m" and "fm_size m \<le> maxSz"
    and "fm_buffer f = wire block m @ rest"
  shows "\<exists>m'. packet_parse block maxSz minSz (length (wire block m)) f = Inr m' \<and> received m' (payload m)"
proof -
  let ?w = "wire block m" and ?n = "nat (fm_size m)"
  have l: "length ?w = 4 + ?n" using length_wire [OF assms(1,2)] .
  have sz: "int (unat (Uint16 (slice 2 4 (?w @ rest)))) = fm_size m"
    using wire_header(2) [OF assms(1)] assms(3) by simp
  have body: "slice 4 (nat (4 + fm_size m)) (?w @ rest) = take ?n (encrypt_opt block (FrameMessage_Frame m))"
    using l assms(3) by (simp add: wire_def MAGIC_def slice_def PutUint16_def nat_add_distrib)
  have plain: "decrypt_opt block (take ?n (encrypt_opt block (FrameMessage_Frame m))) = payload m"
    using assms(1,2) by (auto simp: crypt_ok_def payload_def sendable_def FrameMessage_Frame_def)
  have rs: "reslice 4 (4 + fm_size m) (?w @ rest) = Inr (take ?n (encrypt_opt block (FrameMessage_Frame m)))"
    using body l assms(3) by (simp add: reslice_def)
  have lp: "length (payload m) = ?n" using length_payload [OF assms(1)] .
  have "slice 4 (4 + ?n) (copy_into 4 (4 + ?n) (payload m) (?w @ rest)) = payload m"
    using l lp by (simp add: copy_into_def slice_def)
  with assms(3-5) l lp show ?thesis
    unfolding packet_parse_def assms(6) wire_header(1) [OF assms(1)] Let_def sz rs
    by (simp add: plain, simp add: received_def FrameMessage_Frame_def)
qed

text \<open>C30. A datagram sent by \<open>PacketMessagerImpl.Send\<close> is received by \<open>PacketMessagerImpl.Receive\<close> with the
  payload and size of the sent frame, when the size lies between the receiver's bounds and fits its buffer.\<close>

theorem packet_roundtrip:
  assumes "sendable m" and "crypt_ok (pmi_block s)" and "pmi_block r = pmi_block s" and "0 < fm_size m"
    and "minSz \<le> fm_size m" and "fm_size m \<le> maxSz" and "fm_size m \<le> pmi_cap r"
  shows "\<exists>c. PacketMessagerImpl_Send pipe s m [] = (c, Inr (fm_size m)) \<and>
     (\<exists>r' m'. PacketMessagerImpl_Receive pipe maxSz minSz r c = ([], r', Inr m') \<and>
        FrameMessage_Frame m' = payload m \<and> fm_size m' = fm_size m)"
proof -
  let ?w = "wire (pmi_block s) m"
  obtain m1 where m1: "put_header (pmi_block s) m = Inr m1" "fm_size m1 = fm_size m"
      "reslice 0 (4 + fm_size m) (fm_buffer m1) = Inr ?w"
    using put_header_wire [OF assms(1,2)] by (auto simp: add.commute)
  have send: "PacketMessagerImpl_Send pipe s m [] = ([?w], Inr (fm_size m))"
    using m1 by (simp add: PacketMessagerImpl_Send_def pipe_def Let_def)
  have lw: "int (length ?w) = 4 + fm_size m" using length_wire [OF assms(1,2)] assms(4) by simp
  let ?f = "NewFrameMessage (pmi_cap r)"
  have cap: "0 < pmi_cap r" using assms(4,7) by linarith
  then have lf: "int (length (fm_buffer ?f)) = pmi_cap r + 10" by (simp add: NewFrameMessage_def Let_def)
  then have fits: "length ?w \<le> length (fm_buffer ?f)" using lw assms(7) by linarith
  let ?g = "?f\<lparr>fm_buffer := copy_into 0 (length (fm_buffer ?f)) ?w (fm_buffer ?f)\<rparr>"
  have "fm_buffer ?g = ?w @ drop (length ?w) (fm_buffer ?f)" using fits by (simp add: copy_into_short)
  from packet_parse_wire [OF assms(1,2,4-6) this] obtain m' where m':
    "packet_parse (pmi_block r) maxSz minSz (length ?w) ?g = Inr m'" "received m' (payload m)"
    using assms(3) by auto
  have "\<exists>r'. PacketMessagerImpl_Receive pipe maxSz minSz r [?w] = ([], r', Inr m')"
    using m'(1) fits
    by (cases "pmi_bufSize r = 0") (auto simp: PacketMessagerImpl_Receive_def pipe_def Let_def pmi_cap_def)
  with send m'(2) show ?thesis
    using length_payload [OF assms(1)] assms(4) by (auto simp: received_def)
qed

definition ex_packet :: PacketMessagerImpl where
  "ex_packet = \<lparr>pmi_timeout = 0, pmi_block = None, pmi_bufSize = 0\<rparr>"

theorem packet_roundtrip_witness:
  "\<exists>c. PacketMessagerImpl_Send pipe ex_packet (ex_frame (replicate 20 9)) [] = (c, Inr (fm_size (ex_frame (replicate 20 9)))) \<and>
     (\<exists>r' m'. PacketMessagerImpl_Receive pipe 1514 15 ex_packet c = ([], r', Inr m') \<and>
        FrameMessage_Frame m' = payload (ex_frame (replicate 20 9)) \<and> fm_size m' = fm_size (ex_frame (replicate 20 9)))"
  by (rule packet_roundtrip [OF ex_frame_sendable]) (simp_all add: ex_packet_def ex_frame_def pmi_cap_def)

end
