(* ===== verification/Socket.thy ===== *)
theory Socket
  imports Safe Message
begin

text \<open>Sockets (\<open>src/pkg/libol/socket.go\<close>, \<open>tcpsocket.go\<close>, \<open>udpsocket.go\<close>, \<open>kcpsocket.go\<close>, \<open>websocket.go\<close>,
  \<open>promise.go\<close>): the client with its status, connection and counters, the four transports, and the server
  with its admission control, client table and the two queues of its main loop.

  The state type \<open>'c\<close> of a connection and its operations are parameters, as in \<^verbatim>\<open>Message\<close>; \<open>'p\<close> is the type
  of the private data a user of the client attaches to it. The callbacks of a listener are events: an
  operation returns the list of the callbacks it makes, in order. The clock is an argument. Every operation
  that holds the lock is one step.\<close>

section \<open>Client status and messager\<close>

datatype SocketStatus = ClInit | ClConnected | ClUnAuth | ClAuth | ClConnecting | ClTerminal | ClClosed

fun SocketStatus_String :: "SocketStatus \<Rightarrow> string" where
  "SocketStatus_String ClInit = ''initialized''"
| "SocketStatus_String ClConnected = ''connected''"
| "SocketStatus_String ClUnAuth = ''unauthenticated''"
| "SocketStatus_String ClAuth = ''authenticated''"
| "SocketStatus_String ClClosed = ''closed''"
| "SocketStatus_String ClConnecting = ''connecting''"
| "SocketStatus_String ClTerminal = ''terminal''"

definition CsSendOkay :: string where "CsSendOkay = ''send''"
definition CsRecvOkay :: string where "CsRecvOkay = ''recv''"
definition CsSendError :: string where "CsSendError = ''error''"
definition CsDropped :: string where "CsDropped = ''dropped''"

datatype Messager = Stream StreamMessagerImpl | Packet PacketMessagerImpl

definition zero_stream :: StreamMessagerImpl where
  "zero_stream = \<lparr>smi_timeout = 0, smi_block = None, smi_buffer = [], smi_bufSize = 0\<rparr>"

fun Messager_Send :: "'c conn \<Rightarrow> Messager \<Rightarrow> FrameMessage \<Rightarrow> 'c \<Rightarrow> ('c \<times> int result) option" where
  "Messager_Send ops (Stream s) frame c = StreamMessagerImpl_Send ops s frame c"
| "Messager_Send ops (Packet s) frame c = Some (PacketMessagerImpl_Send ops s frame c)"

fun Messager_Receive :: "'c conn \<Rightarrow> int \<Rightarrow> int \<Rightarrow> Messager \<Rightarrow> 'c \<Rightarrow> ('c \<times> Messager \<times> FrameMessage result) option" where
  "Messager_Receive ops maxSz minSz (Stream s) c =
     (case StreamMessagerImpl_Receive ops maxSz minSz s c of
        None \<Rightarrow> None | Some (c, s, r) \<Rightarrow> Some (c, Stream s, r))"
| "Messager_Receive ops maxSz minSz (Packet s) c =
     (case PacketMessagerImpl_Receive ops maxSz minSz s c of (c, s, r) \<Rightarrow> Some (c, Packet s, r))"

fun Messager_Flush :: "Messager \<Rightarrow> Messager" where
  "Messager_Flush (Stream s) = Stream (StreamMessagerImpl_Flush s)"
| "Messager_Flush (Packet s) = Packet (PacketMessagerImpl_Flush s)"

section \<open>StreamSocket\<close>

record 'c StreamSocket =
  ss_message :: "Messager option"
  ss_connection :: "'c option"
  ss_statistics :: SafeStrInt64
  ss_maxSize :: int
  ss_minSize :: int
  ss_remoteAddr :: string
  ss_localAddr :: string
  ss_address :: string

definition StreamSocket_LocalAddr :: "('c, 'm) StreamSocket_scheme \<Rightarrow> string" where
  "StreamSocket_LocalAddr t = ss_localAddr t"

definition StreamSocket_RemoteAddr :: "('c, 'm) StreamSocket_scheme \<Rightarrow> string" where
  "StreamSocket_RemoteAddr t = ss_remoteAddr t"

definition StreamSocket_String :: "('c, 'm) StreamSocket_scheme \<Rightarrow> string" where
  "StreamSocket_String t = ss_address t"

definition StreamSocket_IsOk :: "('c, 'm) StreamSocket_scheme \<Rightarrow> bool" where
  "StreamSocket_IsOk t \<longleftrightarrow> ss_connection t \<noteq> None"

abbreviation stat_add :: "string \<Rightarrow> i64 \<Rightarrow> ('c, 'm) StreamSocket_scheme \<Rightarrow> ('c, 'm) StreamSocket_scheme" where
  "stat_add k v t \<equiv> t\<lparr>ss_statistics := SafeStrInt64_Add k v (ss_statistics t)\<rparr>"

text \<open>The result is \<open>None\<close> when the write does not return. A missing messager is replaced by a stream
  messager with zero fields first.\<close>

definition StreamSocket_WriteMsg ::
    "'c conn \<Rightarrow> FrameMessage \<Rightarrow> ('c, 'm) StreamSocket_scheme \<Rightarrow> (('c, 'm) StreamSocket_scheme \<times> error option) option" where
  "StreamSocket_WriteMsg ops frame t =
     (case ss_connection t of
        None \<Rightarrow> Some (stat_add CsDropped 1 t, Some (NewErr ''%s not okay''))
      | Some c \<Rightarrow>
          (let msg = (case ss_message t of None \<Rightarrow> Stream zero_stream | Some msg \<Rightarrow> msg);
               t = t\<lparr>ss_message := Some msg\<rparr>
           in case Messager_Send ops msg frame c of
                None \<Rightarrow> None
              | Some (c, Inl e) \<Rightarrow> Some (stat_add CsSendError 1 (t\<lparr>ss_connection := Some c\<rparr>), Some e)
              | Some (c, Inr n) \<Rightarrow>
                  Some (stat_add CsSendOkay (of_int n) (t\<lparr>ss_connection := Some c\<rparr>), None)))"

definition StreamSocket_ReadMsg ::
    "'c conn \<Rightarrow> ('c, 'm) StreamSocket_scheme \<Rightarrow> (('c, 'm) StreamSocket_scheme \<times> FrameMessage result) option" where
  "StreamSocket_ReadMsg ops t =
     (case ss_connection t of
        None \<Rightarrow> Some (t, Inl (NewErr ''%s not okay''))
      | Some c \<Rightarrow>
          (let msg = (case ss_message t of None \<Rightarrow> Stream zero_stream | Some msg \<Rightarrow> msg)
           in case Messager_Receive ops (ss_maxSize t) (ss_minSize t) msg c of
                None \<Rightarrow> None
              | Some (c, msg, r) \<Rightarrow>
                  (let t = t\<lparr>ss_message := Some msg, ss_connection := Some c\<rparr>
                   in case r of
                        Inl e \<Rightarrow> Some (t, Inl e)
                      | Inr frame \<Rightarrow>
                          Some (stat_add CsRecvOkay (of_nat (length (FrameMessage_Frame frame))) t, Inr frame))))"

section \<open>SocketClientImpl\<close>

text \<open>Which callbacks of the listener are set.\<close>

record ClientListener =
  cl_OnClose :: bool
  cl_OnConnected :: bool
  cl_OnStatus :: bool

datatype client_event = EvClose | EvConnected | EvStatus SocketStatus SocketStatus

record ('c, 'p) SocketClientImpl = "'c StreamSocket" +
  sc_listener :: ClientListener
  sc_newTime :: int
  sc_connectedTime :: int
  sc_private :: "'p option"
  sc_status :: SocketStatus
  sc_timeout :: int

definition NewSocketClient :: "int \<Rightarrow> string \<Rightarrow> Messager \<Rightarrow> ('c, 'p) SocketClientImpl" where
  "NewSocketClient now address message =
     \<lparr>ss_message = Some message, ss_connection = None, ss_statistics = NewSafeStrInt64, ss_maxSize = 1514,
      ss_minSize = 15, ss_remoteAddr = address, ss_localAddr = [], ss_address = address,
      sc_listener = \<lparr>cl_OnClose = False, cl_OnConnected = False, cl_OnStatus = False\<rparr>,
      sc_newTime = now, sc_connectedTime = 0, sc_private = None, sc_status = ClInit, sc_timeout = 0\<rparr>"

definition SocketClientImpl_Retry :: "('c, 'p) SocketClientImpl \<Rightarrow> ('c, 'p) SocketClientImpl \<times> bool" where
  "SocketClientImpl_Retry s =
     (if ss_connection s \<noteq> None \<or> sc_status s = ClTerminal \<or> sc_status s = ClUnAuth then (s, False)
      else (s\<lparr>sc_status := ClConnecting\<rparr>, True))"

definition SocketClientImpl_Status :: "('c, 'p) SocketClientImpl \<Rightarrow> SocketStatus" where
  "SocketClientImpl_Status s = sc_status s"

definition SocketClientImpl_UpTime :: "int \<Rightarrow> ('c, 'p) SocketClientImpl \<Rightarrow> int" where
  "SocketClientImpl_UpTime now s = now - sc_newTime s"

definition SocketClientImpl_AliveTime :: "int \<Rightarrow> ('c, 'p) SocketClientImpl \<Rightarrow> int" where
  "SocketClientImpl_AliveTime now s = (if sc_connectedTime s = 0 then 0 else now - sc_connectedTime s)"

definition SocketClientImpl_Private :: "('c, 'p) SocketClientImpl \<Rightarrow> 'p option" where
  "SocketClientImpl_Private s = sc_private s"

definition SocketClientImpl_SetPrivate :: "'p option \<Rightarrow> ('c, 'p) SocketClientImpl \<Rightarrow> ('c, 'p) SocketClientImpl" where
  "SocketClientImpl_SetPrivate v s = s\<lparr>sc_private := v\<rparr>"

definition SocketClientImpl_MaxSize :: "('c, 'p) SocketClientImpl \<Rightarrow> int" where
  "SocketClientImpl_MaxSize s = ss_maxSize s"

definition SocketClientImpl_SetMaxSize :: "int \<Rightarrow> ('c, 'p) SocketClientImpl \<Rightarrow> ('c, 'p) SocketClientImpl" where
  "SocketClientImpl_SetMaxSize v s = s\<lparr>ss_maxSize := v\<rparr>"

definition SocketClientImpl_MinSize :: "('c, 'p) SocketClientImpl \<Rightarrow> int" where
  "SocketClientImpl_MinSize s = ss_minSize s"

definition SocketClientImpl_Have :: "SocketStatus \<Rightarrow> ('c, 'p) SocketClientImpl \<Rightarrow> bool" where
  "SocketClientImpl_Have v s \<longleftrightarrow> SocketClientImpl_Status s = v"

definition SocketClientImpl_Statistics :: "('c, 'p) SocketClientImpl \<Rightarrow> (string \<times> i64) list" where
  "SocketClientImpl_Statistics s = SafeStrInt64_Copy [] (ss_statistics s)"

definition SocketClientImpl_SetListener :: "ClientListener \<Rightarrow> ('c, 'p) SocketClientImpl \<Rightarrow> ('c, 'p) SocketClientImpl" where
  "SocketClientImpl_SetListener l s = s\<lparr>sc_listener := l\<rparr>"

definition SocketClientImpl_SetTimeout :: "int \<Rightarrow> ('c, 'p) SocketClientImpl \<Rightarrow> ('c, 'p) SocketClientImpl" where
  "SocketClientImpl_SetTimeout v s = s\<lparr>sc_timeout := v\<rparr>"

text \<open>The addresses a connection reports.\<close>

record 'c addrs =
  na_Local :: "'c \<Rightarrow> string"
  na_Remote :: "'c \<Rightarrow> string"

text \<open>Dropping the connection flushes the messager, a nil messager panics there.\<close>

definition SocketClientImpl_updateConn ::
    "'c addrs \<Rightarrow> int \<Rightarrow> 'c option \<Rightarrow> ('c, 'p) SocketClientImpl \<Rightarrow> ('c, 'p) SocketClientImpl result" where
  "SocketClientImpl_updateConn na now conn s =
     (case conn of
        Some c \<Rightarrow> Inr (s\<lparr>ss_connection := Some c, sc_connectedTime := now,
                       ss_localAddr := na_Local na c, ss_remoteAddr := na_Remote na c\<rparr>)
      | None \<Rightarrow>
          (let s = s\<lparr>ss_connection := None, ss_localAddr := [], ss_remoteAddr := []\<rparr>
           in case ss_message s of
                None \<Rightarrow> Inl nil_deref
              | Some msg \<Rightarrow> Inr (s\<lparr>ss_message := Some (Messager_Flush msg)\<rparr>)))"

definition SocketClientImpl_SetConnection ::
    "'c addrs \<Rightarrow> int \<Rightarrow> 'c option \<Rightarrow> ('c, 'p) SocketClientImpl \<Rightarrow> ('c, 'p) SocketClientImpl result" where
  "SocketClientImpl_SetConnection na now conn s =
     (case SocketClientImpl_updateConn na now conn s of
        Inl e \<Rightarrow> Inl e | Inr s \<Rightarrow> Inr (s\<lparr>sc_status := ClConnected\<rparr>))"

section \<open>Transports\<close>

text \<open>The configurations keep their source names; the durations are in nanoseconds.\<close>

record TcpConfig =
  tcpc_Tls :: bool
  tcpc_Block :: "crypt option"
  tcpc_Timeout :: int
  tcpc_RdQus :: int
  tcpc_WrQus :: int

record UdpConfig =
  udpc_Block :: "crypt option"
  udpc_Timeout :: int
  udpc_Clients :: int
  udpc_RdQus :: int
  udpc_WrQus :: int

record KcpConfig =
  kcpc_Block :: "crypt option"
  kcpc_WinSize :: int
  kcpc_DataShards :: int
  kcpc_ParityShards :: int
  kcpc_Timeout :: int
  kcpc_RdQus :: int
  kcpc_WrQus :: int

record WebConfig =
  webc_Cert :: bool
  webc_Block :: "crypt option"
  webc_Timeout :: int
  webc_RdQus :: int
  webc_WrQus :: int

definition defaultUdpConfig :: UdpConfig where
  "defaultUdpConfig = \<lparr>udpc_Block = None, udpc_Timeout = 120 * 10 ^ 9, udpc_Clients = 1024, udpc_RdQus = 0,
     udpc_WrQus = 0\<rparr>"

definition defaultKcpConfig :: KcpConfig where
  "defaultKcpConfig = \<lparr>kcpc_Block = None, kcpc_WinSize = 1024, kcpc_DataShards = 10, kcpc_ParityShards = 3,
     kcpc_Timeout = 120 * 10 ^ 9, kcpc_RdQus = 0, kcpc_WrQus = 0\<rparr>"

definition NewTcpClient :: "int \<Rightarrow> string \<Rightarrow> TcpConfig \<Rightarrow> ('c, 'p) SocketClientImpl" where
  "NewTcpClient now addr cfg = NewSocketClient now addr (Stream
     \<lparr>smi_timeout = tcpc_Timeout cfg, smi_block = tcpc_Block cfg, smi_buffer = [], smi_bufSize = tcpc_RdQus cfg * 1600\<rparr>)"

definition NewUdpClient :: "int \<Rightarrow> string \<Rightarrow> UdpConfig option \<Rightarrow> ('c, 'p) SocketClientImpl" where
  "NewUdpClient now addr cfg =
     (let cfg = (case cfg of None \<Rightarrow> defaultUdpConfig | Some cfg \<Rightarrow> cfg)
      in NewSocketClient now addr (Packet
           \<lparr>pmi_timeout = udpc_Timeout cfg, pmi_block = udpc_Block cfg, pmi_bufSize = udpc_RdQus cfg * 1600\<rparr>))"

text \<open>The cipher of KCP is applied by the transport itself, not by the messager.\<close>

definition NewKcpClient :: "int \<Rightarrow> string \<Rightarrow> KcpConfig option \<Rightarrow> ('c, 'p) SocketClientImpl" where
  "NewKcpClient now addr cfg =
     (let cfg = (case cfg of None \<Rightarrow> defaultKcpConfig | Some cfg \<Rightarrow> cfg)
      in NewSocketClient now addr (Stream
           \<lparr>smi_timeout = kcpc_Timeout cfg, smi_block = None, smi_buffer = [], smi_bufSize = kcpc_RdQus cfg * 1600\<rparr>))"

definition NewTcpClientFromConn :: "'c addrs \<Rightarrow> int \<Rightarrow> 'c \<Rightarrow> TcpConfig \<Rightarrow> ('c, 'p) SocketClientImpl result" where
  "NewTcpClientFromConn na now conn cfg =
     SocketClientImpl_updateConn na now (Some conn) (NewTcpClient now (na_Remote na conn) cfg)"

definition NewUdpClientFromConn :: "'c addrs \<Rightarrow> int \<Rightarrow> 'c \<Rightarrow> UdpConfig option \<Rightarrow> ('c, 'p) SocketClientImpl result" where
  "NewUdpClientFromConn na now conn cfg =
     SocketClientImpl_updateConn na now (Some conn) (NewUdpClient now (na_Remote na conn) cfg)"

definition NewKcpClientFromConn :: "'c addrs \<Rightarrow> int \<Rightarrow> 'c \<Rightarrow> KcpConfig option \<Rightarrow> ('c, 'p) SocketClientImpl result" where
  "NewKcpClientFromConn na now conn cfg =
     SocketClientImpl_updateConn na now (Some conn) (NewKcpClient now (na_Remote na conn) cfg)"

text \<open>\<open>Connect\<close> of a transport: \<open>dial\<close> is the outcome of dialling the peer.\<close>

definition connect_with ::
    "'c addrs \<Rightarrow> int \<Rightarrow> 'c result \<Rightarrow> ('c, 'p) SocketClientImpl
     \<Rightarrow> (('c, 'p) SocketClientImpl \<times> client_event list \<times> error option) result" where
  "connect_with na now dial t =
     (case SocketClientImpl_Retry t of
        (t, False) \<Rightarrow> Inr (t, [], None)
      | (t, True) \<Rightarrow>
          (case dial of
             Inl e \<Rightarrow> Inr (t, [], Some e)
           | Inr c \<Rightarrow> (case SocketClientImpl_SetConnection na now (Some c) t of
               Inl e \<Rightarrow> Inl e
             | Inr t \<Rightarrow> Inr (t, (if cl_OnConnected (sc_listener t) then [EvConnected] else []), None))))"

definition TcpClient_Connect where
  "TcpClient_Connect na now cfg dialTls dialTcp t =
     connect_with na now (if tcpc_Tls cfg then dialTls (ss_address t) else dialTcp (ss_address t)) t"

definition UdpClient_Connect where
  "UdpClient_Connect na now dial t = connect_with na now (dial (ss_address t)) t"

text \<open>Both shard arguments of the dialled session are \<open>DataShards\<close>.\<close>

definition KcpClient_Connect where
  "KcpClient_Connect na now cfg dial t =
     connect_with na now (dial (ss_address t) (kcpc_Block cfg) (kcpc_DataShards cfg) (kcpc_DataShards cfg)) t"

text \<open>The common body of \<open>Close\<close>: the status becomes \<open>ClClosed\<close> unless it is terminal, the connection and
  the private data go, then the listener is told. A client without connection is left as it is.\<close>

definition TcpClient_Close ::
    "'c addrs \<Rightarrow> int \<Rightarrow> ('c, 'p) SocketClientImpl \<Rightarrow> (('c, 'p) SocketClientImpl \<times> client_event list) result" where
  "TcpClient_Close na now t =
     (if ss_connection t \<noteq> None
      then let t = (if sc_status t \<noteq> ClTerminal then t\<lparr>sc_status := ClClosed\<rparr> else t)
           in case SocketClientImpl_updateConn na now None t of
                Inl e \<Rightarrow> Inl e
              | Inr t \<Rightarrow> Inr (t\<lparr>sc_private := None\<rparr>, if cl_OnClose (sc_listener t) then [EvClose] else [])
      else Inr (t, []))"

definition UdpClient_Close ::
    "'c addrs \<Rightarrow> int \<Rightarrow> ('c, 'p) SocketClientImpl \<Rightarrow> (('c, 'p) SocketClientImpl \<times> client_event list) result" where
  "UdpClient_Close na now c = TcpClient_Close na now c"

definition KcpClient_Close ::
    "'c addrs \<Rightarrow> int \<Rightarrow> ('c, 'p) SocketClientImpl \<Rightarrow> (('c, 'p) SocketClientImpl \<times> client_event list) result" where
  "KcpClient_Close na now c = TcpClient_Close na now c"

definition TcpClient_SetStatus :: "SocketStatus \<Rightarrow> ('c, 'p) SocketClientImpl \<Rightarrow> ('c, 'p) SocketClientImpl \<times> client_event list" where
  "TcpClient_SetStatus v t =
     (if sc_status t \<noteq> v
      then (t\<lparr>sc_status := v\<rparr>, if cl_OnStatus (sc_listener t) then [EvStatus (sc_status t) v] else [])
      else (t, []))"

definition UdpClient_SetStatus :: "SocketStatus \<Rightarrow> ('c, 'p) SocketClientImpl \<Rightarrow> ('c, 'p) SocketClientImpl \<times> client_event list" where
  "UdpClient_SetStatus v c = TcpClient_SetStatus v c"

definition KcpClient_SetStatus :: "SocketStatus \<Rightarrow> ('c, 'p) SocketClientImpl \<Rightarrow> ('c, 'p) SocketClientImpl \<times> client_event list" where
  "KcpClient_SetStatus v c = TcpClient_SetStatus v c"

definition TcpClient_Terminal ::
    "'c addrs \<Rightarrow> int \<Rightarrow> ('c, 'p) SocketClientImpl \<Rightarrow> (('c, 'p) SocketClientImpl \<times> client_event list) result" where
  "TcpClient_Terminal na now t =
     (let (t, ev) = TcpClient_SetStatus ClTerminal t
      in case TcpClient_Close na now t of Inl e \<Rightarrow> Inl e | Inr (t, ev') \<Rightarrow> Inr (t, ev @ ev'))"

definition UdpClient_Terminal ::
    "'c addrs \<Rightarrow> int \<Rightarrow> ('c, 'p) SocketClientImpl \<Rightarrow> (('c, 'p) SocketClientImpl \<times> client_event list) result" where
  "UdpClient_Terminal na now c =
     (let (c, ev) = UdpClient_SetStatus ClTerminal c
      in case UdpClient_Close na now c of Inl e \<Rightarrow> Inl e | Inr (c, ev') \<Rightarrow> Inr (c, ev @ ev'))"

definition KcpClient_Terminal ::
    "'c addrs \<Rightarrow> int \<Rightarrow> ('c, 'p) SocketClientImpl \<Rightarrow> (('c, 'p) SocketClientImpl \<times> client_event list) result" where
  "KcpClient_Terminal na now c =
     (let (c, ev) = KcpClient_SetStatus ClTerminal c
      in case KcpClient_Close na now c of Inl e \<Rightarrow> Inl e | Inr (c, ev') \<Rightarrow> Inr (c, ev @ ev'))"

subsection \<open>The web client\<close>

text \<open>A web client also has a channel \<open>done\<close> with room for two tokens (\<open>wc_done\<close> is the number it holds),
  which only the handler of a server connection empties.\<close>

record ('c, 'p) WebClient =
  wc_impl :: "('c, 'p) SocketClientImpl"
  wc_done :: nat

definition NewWebClient :: "int \<Rightarrow> string \<Rightarrow> WebConfig \<Rightarrow> ('c, 'p) WebClient" where
  "NewWebClient now addr cfg =
     \<lparr>wc_impl = NewSocketClient now addr (Stream
        \<lparr>smi_timeout = webc_Timeout cfg, smi_block = webc_Block cfg, smi_buffer = [], smi_bufSize = webc_RdQus cfg * 1600\<rparr>),
      wc_done = 0\<rparr>"

definition NewWebClientFromConn :: "'c addrs \<Rightarrow> int \<Rightarrow> 'c \<Rightarrow> WebConfig \<Rightarrow> ('c, 'p) WebClient result" where
  "NewWebClientFromConn na now conn cfg =
     (let t = NewWebClient now (na_Remote na conn) cfg
      in case SocketClientImpl_updateConn na now (Some conn) (wc_impl t) of
           Inl e \<Rightarrow> Inl e | Inr s \<Rightarrow> Inr (t\<lparr>wc_impl := s\<rparr>))"

text \<open>The URL is checked before dialling, both failures are returned.\<close>

definition WebClient_Connect ::
    "'c addrs \<Rightarrow> int \<Rightarrow> WebConfig \<Rightarrow> (string \<Rightarrow> error option) \<Rightarrow> (string \<Rightarrow> bool \<Rightarrow> 'c result) \<Rightarrow> ('c, 'p) WebClient
     \<Rightarrow> (('c, 'p) WebClient \<times> client_event list \<times> error option) result" where
  "WebClient_Connect na now cfg newConfig dial t =
     (let url = (if webc_Cert cfg then ''wss://'' else ''ws://'') @ ss_address (wc_impl t);
          r = (case newConfig url of Some e \<Rightarrow> Inl e | None \<Rightarrow> dial url (webc_Cert cfg))
      in case connect_with na now r (wc_impl t) of
           Inl e \<Rightarrow> Inl e
         | Inr (s, ev, err) \<Rightarrow> Inr (t\<lparr>wc_impl := s\<rparr>, ev, err))"

text \<open>\<open>Close\<close> puts a token into \<open>done\<close> while it holds the lock: with no room left it never returns
  (\<open>None\<close>).\<close>

definition WebClient_Close ::
    "'c addrs \<Rightarrow> int \<Rightarrow> ('c, 'p) WebClient \<Rightarrow> (('c, 'p) WebClient \<times> client_event list) result option" where
  "WebClient_Close na now t =
     (let s = wc_impl t
      in if ss_connection s \<noteq> None
         then let s = (if sc_status s \<noteq> ClTerminal then s\<lparr>sc_status := ClClosed\<rparr> else s)
              in case SocketClientImpl_updateConn na now None s of
                   Inl e \<Rightarrow> Some (Inl e)
                 | Inr s \<Rightarrow> if wc_done t \<ge> 2 then None
                     else Some (Inr (\<lparr>wc_impl = s\<lparr>sc_private := None\<rparr>, wc_done = wc_done t + 1\<rparr>,
                                if cl_OnClose (sc_listener s) then [EvClose] else []))
         else Some (Inr (t, [])))"

definition WebClient_SetStatus :: "SocketStatus \<Rightarrow> ('c, 'p) WebClient \<Rightarrow> ('c, 'p) WebClient \<times> client_event list" where
  "WebClient_SetStatus v t =
     (let s = wc_impl t
      in if sc_status s \<noteq> v
         then (t\<lparr>wc_impl := s\<lparr>sc_status := v\<rparr>\<rparr>, if cl_OnStatus (sc_listener s) then [EvStatus (sc_status s) v] else [])
         else (t, []))"

definition WebClient_Terminal ::
    "'c addrs \<Rightarrow> int \<Rightarrow> ('c, 'p) WebClient \<Rightarrow> (('c, 'p) WebClient \<times> client_event list) result option" where
  "WebClient_Terminal na now t =
     (let (t, ev) = WebClient_SetStatus ClTerminal t
      in case WebClient_Close na now t of
           None \<Rightarrow> None | Some (Inl e) \<Rightarrow> Some (Inl e) | Some (Inr (t, ev')) \<Rightarrow> Some (Inr (t, ev @ ev')))"

section \<open>SocketServerImpl\<close>

definition SsRecv :: string where "SsRecv = ''recv''"
definition SsDeny :: string where "SsDeny = ''deny''"
definition SsAlive :: string where "SsAlive = ''alive''"
definition SsAccept :: string where "SsAccept = ''accept''"
definition SsClose :: string where "SsClose = ''closed''"

text \<open>Clients are shared between the table, the queues and the goroutines that read them, so they live in
  a store \<open>nat \<rightharpoonup> client\<close> and everything else holds their number. The two channels are lists with room for
  1024 entries.\<close>

record SocketServerImpl =
  srv_statistics :: SafeStrInt64
  srv_address :: string
  srv_maxClient :: int
  srv_clients :: "nat SafeStrMap"
  srv_onClients :: "nat list"
  srv_offClients :: "nat list"
  srv_timeout :: int
  srv_WrQus :: int
  srv_error :: "error option"

record ('c, 'p) system =
  sys_srv :: SocketServerImpl
  sys_heap :: "nat \<Rightarrow> ('c, 'p) SocketClientImpl option"
  sys_next :: nat

text \<open>The callbacks of the server's listener that are set, and the callbacks and goroutines a step starts.\<close>

record ServerListener =
  sl_OnClient :: bool
  sl_OnClose :: bool
  sl_ReadAt :: bool

datatype server_event = SvOnClient nat | SvRead nat | SvOnClose nat | SvClient nat client_event

definition NewSocketServer :: "string \<Rightarrow> SocketServerImpl" where
  "NewSocketServer listen = \<lparr>srv_statistics = NewSafeStrInt64, srv_address = listen, srv_maxClient = 128,
     srv_clients = NewSafeStrMap 1024, srv_onClients = [], srv_offClients = [], srv_timeout = 0,
     srv_WrQus = 1024, srv_error = None\<rparr>"

abbreviation srv_add :: "string \<Rightarrow> i64 \<Rightarrow> SocketServerImpl \<Rightarrow> SocketServerImpl" where
  "srv_add k v t \<equiv> t\<lparr>srv_statistics := SafeStrInt64_Add k v (srv_statistics t)\<rparr>"

abbreviation srv_get :: "string \<Rightarrow> SocketServerImpl \<Rightarrow> i64" where
  "srv_get k t \<equiv> SafeStrInt64_Get k (srv_statistics t)"

definition SocketServerImpl_TotalClient :: "SocketServerImpl \<Rightarrow> int" where
  "SocketServerImpl_TotalClient t = SafeStrMap_Len (srv_clients t)"

definition SocketServerImpl_ListClient :: "SocketServerImpl \<Rightarrow> nat list" where
  "SocketServerImpl_ListClient t =
     fst (SafeStrMap_Iter (\<lambda>k client acc. acc @ [client]) (ssm_data (srv_clients t)) [] 0)"

definition SocketServerImpl_Statistics :: "SocketServerImpl \<Rightarrow> (string \<times> i64) list" where
  "SocketServerImpl_Statistics t = SafeStrInt64_Copy [] (srv_statistics t)"

definition SocketServerImpl_SetTimeout :: "int \<Rightarrow> SocketServerImpl \<Rightarrow> SocketServerImpl" where
  "SocketServerImpl_SetTimeout v t = t\<lparr>srv_timeout := v\<rparr>"

text \<open>\<open>None\<close> means that the sender waits for room in the channel.\<close>

definition SocketServerImpl_OffClient :: "nat option \<Rightarrow> SocketServerImpl \<Rightarrow> SocketServerImpl option" where
  "SocketServerImpl_OffClient client t =
     (case client of
        None \<Rightarrow> Some t
      | Some i \<Rightarrow> if length (srv_offClients t) < 1024
                  then Some (t\<lparr>srv_offClients := srv_offClients t @ [i]\<rparr>) else None)"

definition SocketServerImpl_doOnClient ::
    "ServerListener \<Rightarrow> nat \<Rightarrow> ('c, 'p) system \<Rightarrow> (('c, 'p) system \<times> server_event list) result" where
  "SocketServerImpl_doOnClient call i sys =
     (case sys_heap sys i of
        None \<Rightarrow> Inl nil_deref
      | Some client \<Rightarrow>
          (let t = sys_srv sys;
               t = t\<lparr>srv_clients := fst (SafeStrMap_Set (StreamSocket_RemoteAddr client) (Some i) (srv_clients t))\<rparr>;
               ev = (if sl_OnClient call then SvOnClient i # (if sl_ReadAt call then [SvRead i] else []) else [])
           in Inr (sys\<lparr>sys_srv := t\<rparr>, ev)))"

definition SocketServerImpl_doOffClient ::
    "'c addrs \<Rightarrow> int \<Rightarrow> ServerListener \<Rightarrow> nat \<Rightarrow> ('c, 'p) system \<Rightarrow> (('c, 'p) system \<times> server_event list) result" where
  "SocketServerImpl_doOffClient na now call i sys =
     (case sys_heap sys i of
        None \<Rightarrow> Inl nil_deref
      | Some client \<Rightarrow>
          (let t = sys_srv sys;
               addr = StreamSocket_RemoteAddr client
           in if snd (SafeStrMap_GetEx addr (srv_clients t))
              then let t = srv_add SsClose 1 t
                   in case TcpClient_Close na now client of
                        Inl e \<Rightarrow> Inl e
                      | Inr (client, ev) \<Rightarrow>
                          (let t = t\<lparr>srv_clients := SafeStrMap_Del addr (srv_clients t)\<rparr>;
                               t = srv_add SsAlive (-1) t
                           in Inr (sys\<lparr>sys_srv := t, sys_heap := (sys_heap sys)(i \<mapsto> client)\<rparr>,
                                (if sl_OnClose call then [SvOnClose i] else []) @ map (SvClient i) ev))
              else Inr (sys, [])))"

text \<open>One turn of \<open>Loop\<close>: \<open>select\<close> takes a client from either channel.\<close>

datatype choice = TakeOn | TakeOff

definition SocketServerImpl_Loop ::
    "'c addrs \<Rightarrow> int \<Rightarrow> ServerListener \<Rightarrow> choice \<Rightarrow> ('c, 'p) system \<Rightarrow> (('c, 'p) system \<times> server_event list) result option" where
  "SocketServerImpl_Loop na now call which sys =
     (let t = sys_srv sys
      in case which of
           TakeOn \<Rightarrow> (case srv_onClients t of
               [] \<Rightarrow> None
             | i # rest \<Rightarrow> Some (SocketServerImpl_doOnClient call i (sys\<lparr>sys_srv := t\<lparr>srv_onClients := rest\<rparr>\<rparr>)))
         | TakeOff \<Rightarrow> (case srv_offClients t of
               [] \<Rightarrow> None
             | i # rest \<Rightarrow> Some (SocketServerImpl_doOffClient na now call i (sys\<lparr>sys_srv := t\<lparr>srv_offClients := rest\<rparr>\<rparr>))))"

text \<open>One turn of the reading loop of \<open>Read\<close> for client \<open>i\<close>: it ends the loop and hands the client to
  \<open>OffClient\<close> on an error or an empty frame, otherwise it yields the frame that goes into the queue of the
  handler. \<open>None\<close>: the read, or the channel, does not return.\<close>

definition SocketServerImpl_Read ::
    "'c conn \<Rightarrow> nat \<Rightarrow> ('c, 'p) system \<Rightarrow> (('c, 'p) system \<times> FrameMessage option) option" where
  "SocketServerImpl_Read ops i sys =
     (case sys_heap sys i of
        None \<Rightarrow> None
      | Some client \<Rightarrow>
          (case StreamSocket_ReadMsg ops client of
             None \<Rightarrow> None
           | Some (client, r) \<Rightarrow>
               (let sys = sys\<lparr>sys_heap := (sys_heap sys)(i \<mapsto> client)\<rparr>;
                    stop = (case SocketServerImpl_OffClient (Some i) (sys_srv sys) of
                              None \<Rightarrow> None | Some t \<Rightarrow> Some (sys\<lparr>sys_srv := t\<rparr>, None))
                in case r of
                     Inl e \<Rightarrow> stop
                   | Inr frame \<Rightarrow> if fm_size frame \<le> 0 then stop
                       else Some (sys\<lparr>sys_srv := srv_add SsRecv 1 (sys_srv sys)\<rparr>, Some frame))))"

definition SocketServerImpl_preAccept :: "error option \<Rightarrow> SocketServerImpl \<Rightarrow> SocketServerImpl upd" where
  "SocketServerImpl_preAccept err t =
     (case err of
        Some e \<Rightarrow> (t\<lparr>srv_error := Some e\<rparr>, Some e)
      | None \<Rightarrow>
          (let t = srv_add SsAccept 1 (t\<lparr>srv_error := None\<rparr>);
               alive = srv_get SsAlive t
           in if sint alive \<ge> srv_maxClient t
              then (srv_add SsClose 1 (srv_add SsDeny 1 t), Some (NewErr ''too many open clients''))
              else (srv_add SsAlive 1 t, None)))"

text \<open>One turn of the \<open>Accept\<close> loop of a transport, \<open>mk\<close> makes the client of an accepted connection. \<open>None\<close>:
  the channel has no room.\<close>

definition accept_iter ::
    "('c \<Rightarrow> ('c, 'p) SocketClientImpl result) \<Rightarrow> 'c result \<Rightarrow> ('c, 'p) system \<Rightarrow> ('c, 'p) system result option" where
  "accept_iter mk r sys =
     (case SocketServerImpl_preAccept (case r of Inl e \<Rightarrow> Some e | Inr _ \<Rightarrow> None) (sys_srv sys) of
        (t, Some e) \<Rightarrow> Some (Inr (sys\<lparr>sys_srv := t\<rparr>))
      | (t, None) \<Rightarrow>
          (case r of
             Inl e \<Rightarrow> Some (Inr (sys\<lparr>sys_srv := t\<rparr>))
           | Inr conn \<Rightarrow>
               (case mk conn of
                  Inl e \<Rightarrow> Some (Inl e)
                | Inr client \<Rightarrow>
                    if length (srv_onClients t) < 1024
                    then Some (Inr \<lparr>sys_srv = t\<lparr>srv_onClients := srv_onClients t @ [sys_next sys]\<rparr>,
                                   sys_heap = (sys_heap sys)(sys_next sys \<mapsto> client), sys_next = sys_next sys + 1\<rparr>)
                    else None)))"

definition TcpServer_Accept where
  "TcpServer_Accept na now cfg r sys = accept_iter (\<lambda>c. NewTcpClientFromConn na now c cfg) r sys"

definition UdpServer_Accept where
  "UdpServer_Accept na now cfg r sys = accept_iter (\<lambda>c. NewUdpClientFromConn na now c (Some cfg)) r sys"

definition KcpServer_Accept where
  "KcpServer_Accept na now cfg r sys = accept_iter (\<lambda>c. NewKcpClientFromConn na now c (Some cfg)) r sys"

definition NewTcpServer :: "string \<Rightarrow> TcpConfig \<Rightarrow> SocketServerImpl" where
  "NewTcpServer listen cfg = (NewSocketServer listen)\<lparr>srv_WrQus := tcpc_WrQus cfg\<rparr>"

text \<open>\<open>NewUdpServer\<close> also returns the configuration it fills in.\<close>

definition NewUdpServer :: "string \<Rightarrow> UdpConfig option \<Rightarrow> SocketServerImpl \<times> UdpConfig" where
  "NewUdpServer listen cfg =
     (let cfg = (case cfg of None \<Rightarrow> defaultUdpConfig | Some cfg \<Rightarrow> cfg);
          cfg = (if udpc_Clients cfg = 0 then cfg\<lparr>udpc_Clients := udpc_Clients defaultUdpConfig\<rparr> else cfg)
      in (NewSocketServer listen, cfg))"

definition NewKcpServer :: "string \<Rightarrow> KcpConfig option \<Rightarrow> SocketServerImpl \<times> KcpConfig" where
  "NewKcpServer listen cfg =
     (NewSocketServer listen, case cfg of None \<Rightarrow> defaultKcpConfig | Some cfg \<Rightarrow> cfg)"

section \<open>Promise\<close>

record Promise =
  pr_Count :: int
  pr_MaxTry :: int
  pr_First :: int
  pr_MinInt :: int
  pr_MaxInt :: int

definition NewPromise :: "int \<Rightarrow> int \<Rightarrow> int \<Rightarrow> Promise" where
  "NewPromise first minInt maxInt =
     \<lparr>pr_Count = 0, pr_MaxTry = 0, pr_First = first, pr_MinInt = minInt, pr_MaxInt = maxInt\<rparr>"

text \<open>\<open>Done\<close> calls until a call succeeds or the tries are used up; the last component of the result are the
  times slept in between.\<close>

partial_function (option) Promise_Done ::
    "('s \<Rightarrow> 's \<times> error option) \<Rightarrow> int list \<Rightarrow> Promise \<Rightarrow> 's \<Rightarrow> ('s \<times> Promise \<times> int list) option" where
  "Promise_Done call slept p s =
     (let p = p\<lparr>pr_Count := pr_Count p + 1\<rparr>
      in if pr_MaxTry p > 0 \<and> pr_Count p > pr_MaxTry p then Some (s, p, slept)
         else case call s of
           (s, None) \<Rightarrow> Some (s, p, slept)
         | (s, Some e) \<Rightarrow>
             (let slept = slept @ [pr_First p];
                  p = (if pr_First p < pr_MaxInt p then p\<lparr>pr_First := pr_First p + pr_MinInt p\<rparr> else p)
              in Promise_Done call slept p s))"

section \<open>The server as a transition system\<close>

text \<open>The goroutines of a server: the accept loop, the main loop, one reader per client, and the rest of
  the switch, which writes to clients, sets their status and private data and asks for clients to be taken
  off. A client is only known outside the server once it left the queue \<open>onClients\<close>. \<open>admit\<close> restricts the
  connections that come in.\<close>

inductive server_step ::
    "'c addrs \<Rightarrow> 'c conn \<Rightarrow> ServerListener \<Rightarrow> (int \<Rightarrow> 'c \<Rightarrow> ('c, 'p) SocketClientImpl result)
     \<Rightarrow> (('c, 'p) system \<Rightarrow> 'c \<Rightarrow> bool) \<Rightarrow> ('c, 'p) system \<Rightarrow> ('c, 'p) system \<Rightarrow> bool"
  for na ops call mk admit where
  acceptS: "accept_iter (mk now) r sys = Some (Inr sys') \<Longrightarrow> (\<And>c. r = Inr c \<Longrightarrow> admit sys c) \<Longrightarrow>
    server_step na ops call mk admit sys sys'"
| loopS: "SocketServerImpl_Loop na now call which sys = Some (Inr (sys', ev)) \<Longrightarrow> server_step na ops call mk admit sys sys'"
| readS: "i \<notin> set (srv_onClients (sys_srv sys)) \<Longrightarrow> SocketServerImpl_Read ops i sys = Some (sys', frame) \<Longrightarrow>
    server_step na ops call mk admit sys sys'"
| offS: "i \<notin> set (srv_onClients (sys_srv sys)) \<Longrightarrow> i < sys_next sys \<Longrightarrow>
    SocketServerImpl_OffClient (Some i) (sys_srv sys) = Some t \<Longrightarrow>
    server_step na ops call mk admit sys (sys\<lparr>sys_srv := t\<rparr>)"
| writeS: "sys_heap sys i = Some client \<Longrightarrow> StreamSocket_WriteMsg ops frame client = Some (client', err) \<Longrightarrow>
    server_step na ops call mk admit sys (sys\<lparr>sys_heap := (sys_heap sys)(i \<mapsto> client')\<rparr>)"
| statusS: "sys_heap sys i = Some client \<Longrightarrow> TcpClient_SetStatus v client = (client', evs) \<Longrightarrow>
    server_step na ops call mk admit sys (sys\<lparr>sys_heap := (sys_heap sys)(i \<mapsto> client')\<rparr>)"
| privateS: "sys_heap sys i = Some client \<Longrightarrow>
    server_step na ops call mk admit sys (sys\<lparr>sys_heap := (sys_heap sys)(i \<mapsto> SocketClientImpl_SetPrivate v client)\<rparr>)"

definition server_init :: "SocketServerImpl \<Rightarrow> ('c, 'p) system" where
  "server_init t = \<lparr>sys_srv = t, sys_heap = (\<lambda>_. None), sys_next = 0\<rparr>"

text \<open>What the server needs of the clients it makes.\<close>

definition client_ok :: "('c, 'p) SocketClientImpl \<Rightarrow> bool" where
  "client_ok client \<longleftrightarrow> ss_message client \<noteq> None"

locale client_maker =
  fixes na :: "'c addrs" and mk :: "int \<Rightarrow> 'c \<Rightarrow> ('c, 'p) SocketClientImpl result"
  assumes mk_ok: "\<exists>client. mk now c = Inr client \<and> client_ok client \<and> StreamSocket_RemoteAddr client = na_Remote na c"

lemmas client_new_defs = NewTcpClientFromConn_def NewUdpClientFromConn_def NewKcpClientFromConn_def NewTcpClient_def
  NewUdpClient_def NewKcpClient_def SocketClientImpl_updateConn_def NewSocketClient_def client_ok_def
  StreamSocket_RemoteAddr_def Let_def

interpretation tcp: client_maker na "\<lambda>now c. NewTcpClientFromConn na now c cfg" for na cfg
  by unfold_locales (simp add: client_new_defs)

interpretation udp: client_maker na "\<lambda>now c. NewUdpClientFromConn na now c cfg" for na cfg
  by unfold_locales (simp add: client_new_defs)

interpretation kcp: client_maker na "\<lambda>now c. NewKcpClientFromConn na now c cfg" for na cfg
  by unfold_locales (simp add: client_new_defs)

subsection \<open>What the client operations keep\<close>

lemma WriteMsg_keeps:
  "StreamSocket_WriteMsg ops frame t = Some (t', err) \<Longrightarrow> client_ok t \<Longrightarrow>
     client_ok t' \<and> StreamSocket_RemoteAddr t' = StreamSocket_RemoteAddr t"
  by (auto simp: StreamSocket_WriteMsg_def client_ok_def StreamSocket_RemoteAddr_def Let_def
      split: option.splits sum.splits prod.splits)

lemma ReadMsg_keeps:
  "StreamSocket_ReadMsg ops t = Some (t', r) \<Longrightarrow> client_ok t \<Longrightarrow>
     client_ok t' \<and> StreamSocket_RemoteAddr t' = StreamSocket_RemoteAddr t"
  by (auto simp: StreamSocket_ReadMsg_def client_ok_def StreamSocket_RemoteAddr_def Let_def
      split: option.splits sum.splits prod.splits)

lemma SetStatus_keeps:
  "TcpClient_SetStatus v t = (t', evs) \<Longrightarrow> client_ok t \<Longrightarrow>
     client_ok t' \<and> StreamSocket_RemoteAddr t' = StreamSocket_RemoteAddr t"
  by (auto simp: TcpClient_SetStatus_def client_ok_def StreamSocket_RemoteAddr_def split: if_splits)

lemma SetPrivate_keeps:
  "client_ok t \<Longrightarrow> client_ok (SocketClientImpl_SetPrivate v t) \<and>
     StreamSocket_RemoteAddr (SocketClientImpl_SetPrivate v t) = StreamSocket_RemoteAddr t"
  by (auto simp: SocketClientImpl_SetPrivate_def client_ok_def StreamSocket_RemoteAddr_def)

lemma Close_ok:
  assumes "client_ok t"
  obtains t' ev where "TcpClient_Close na now t = Inr (t', ev)" "client_ok t'"
    "ss_connection t \<noteq> None \<Longrightarrow> StreamSocket_RemoteAddr t' = []"
    "ss_connection t = None \<Longrightarrow> t' = t"
  using assms
  by (cases "ss_connection t = None"; cases "sc_status t = ClTerminal")
    (auto simp: TcpClient_Close_def SocketClientImpl_updateConn_def client_ok_def StreamSocket_RemoteAddr_def Let_def)

subsection \<open>Admission\<close>

lemma sint_of_nat_small: "n \<le> 1024 \<Longrightarrow> sint (of_nat n :: i64) = int n"
  by (simp add: sint_uint uint_nat unat_of_nat signed_take_bit_int_eq_self)

definition heap_ok :: "(nat \<Rightarrow> ('c, 'p) SocketClientImpl option) \<Rightarrow> nat \<Rightarrow> bool" where
  "heap_ok h n \<longleftrightarrow> (\<forall>i. (case h i of None \<Rightarrow> n \<le> i | Some client \<Rightarrow> i < n \<and> client_ok client))"

lemma heap_ok_get:
  assumes "heap_ok h n"
  shows "h i = Some client \<Longrightarrow> i < n \<and> client_ok client"
    and "i < n \<Longrightarrow> \<exists>client. h i = Some client \<and> client_ok client"
proof -
  have c: "case h i of None \<Rightarrow> n \<le> i | Some client \<Rightarrow> i < n \<and> client_ok client"
    using assms unfolding heap_ok_def by blast
  show "h i = Some client \<Longrightarrow> i < n \<and> client_ok client" using c by simp
  show "i < n \<Longrightarrow> \<exists>client. h i = Some client \<and> client_ok client" using c by (simp split: option.splits)
qed

lemma heap_ok_upd: "heap_ok h n \<Longrightarrow> i < n \<Longrightarrow> client_ok client \<Longrightarrow> heap_ok (h(i \<mapsto> client)) n"
  by (auto simp: heap_ok_def)

lemma heap_ok_new: "heap_ok h n \<Longrightarrow> client_ok client \<Longrightarrow> heap_ok (h(n \<mapsto> client)) (Suc n)"
  unfolding heap_ok_def
proof (rule allI)
  fix i
  assume "\<forall>i. case h i of None \<Rightarrow> n \<le> i | Some client \<Rightarrow> i < n \<and> client_ok client" and c: "client_ok client"
  then have "case h i of None \<Rightarrow> n \<le> i | Some client \<Rightarrow> i < n \<and> client_ok client" by blast
  with c show "case (h(n \<mapsto> client)) i of None \<Rightarrow> Suc n \<le> i | Some client \<Rightarrow> i < Suc n \<and> client_ok client"
    by (cases "i = n"; cases "h i") auto
qed

lemma heap_ok_empty: "heap_ok (\<lambda>_. None) 0"
  by (simp add: heap_ok_def)

definition server_inv :: "('c, 'p) system \<Rightarrow> bool" where
  "server_inv sys \<longleftrightarrow>
     (let t = sys_srv sys
      in SafeStrMap_inv (srv_clients t) \<and> ssm_size (srv_clients t) = 1024 \<and> srv_maxClient t = 128 \<and>
         (\<exists>n. srv_get SsAlive t = of_nat n \<and> length (ssm_data (srv_clients t)) + length (srv_onClients t) \<le> n \<and> n \<le> 128) \<and>
         srv_get SsAccept t = srv_get SsAlive t + srv_get SsClose t \<and>
         heap_ok (sys_heap sys) (sys_next sys) \<and>
         (\<forall>i \<in> set (srv_onClients t) \<union> set (srv_offClients t). i < sys_next sys))"

lemmas stat_names = SsRecv_def SsDeny_def SsAlive_def SsAccept_def SsClose_def

lemma preAccept_cases:
  obtains (error) e where "err = Some e" "SocketServerImpl_preAccept err t = (t\<lparr>srv_error := Some e\<rparr>, Some e)"
  | (deny) t' e where "err = None" "sint (srv_get SsAlive t) \<ge> srv_maxClient t" "SocketServerImpl_preAccept err t = (t', Some e)"
      "srv_get SsAlive t' = srv_get SsAlive t" "srv_get SsAccept t' = srv_get SsAccept t + 1"
      "srv_get SsClose t' = srv_get SsClose t + 1" "srv_clients t' = srv_clients t" "srv_onClients t' = srv_onClients t"
      "srv_offClients t' = srv_offClients t" "srv_maxClient t' = srv_maxClient t"
  | (allow) t' where "err = None" "sint (srv_get SsAlive t) < srv_maxClient t" "SocketServerImpl_preAccept err t = (t', None)"
      "srv_get SsAlive t' = srv_get SsAlive t + 1" "srv_get SsAccept t' = srv_get SsAccept t + 1"
      "srv_get SsClose t' = srv_get SsClose t" "srv_clients t' = srv_clients t" "srv_onClients t' = srv_onClients t"
      "srv_offClients t' = srv_offClients t" "srv_maxClient t' = srv_maxClient t"
proof (cases err)
  case None
  show thesis
  proof (cases "sint (srv_get SsAlive t) \<ge> srv_maxClient t")
    case True
    with None show thesis
      by (intro deny [of "srv_add SsClose 1 (srv_add SsDeny 1 (srv_add SsAccept 1 (t\<lparr>srv_error := None\<rparr>)))"])
        (simp_all add: SocketServerImpl_preAccept_def Let_def SafeStrInt64_Get_Add, simp_all add: stat_names)
  next
    case False
    with None show thesis
      by (intro allow [of "srv_add SsAlive 1 (srv_add SsAccept 1 (t\<lparr>srv_error := None\<rparr>))"])
        (simp_all add: SocketServerImpl_preAccept_def Let_def SafeStrInt64_Get_Add, simp_all add: stat_names)
  qed
qed (simp add: error SocketServerImpl_preAccept_def)

lemma server_invI:
  assumes "SafeStrMap_inv (srv_clients t)" and "ssm_size (srv_clients t) = 1024" and "srv_maxClient t = 128"
    and "srv_get SsAlive t = of_nat n" and "length (ssm_data (srv_clients t)) + length (srv_onClients t) \<le> n" and "n \<le> 128"
    and "srv_get SsAccept t = srv_get SsAlive t + srv_get SsClose t" and "heap_ok h k"
    and "\<forall>i \<in> set (srv_onClients t) \<union> set (srv_offClients t). i < k"
  shows "server_inv \<lparr>sys_srv = t, sys_heap = h, sys_next = k\<rparr>"
  using assms unfolding server_inv_def Let_def by auto

lemma server_invE:
  assumes "server_inv sys"
  obtains n where "SafeStrMap_inv (srv_clients (sys_srv sys))" "ssm_size (srv_clients (sys_srv sys)) = 1024"
    "srv_maxClient (sys_srv sys) = 128" "srv_get SsAlive (sys_srv sys) = of_nat n"
    "length (ssm_data (srv_clients (sys_srv sys))) + length (srv_onClients (sys_srv sys)) \<le> n" "n \<le> 128"
    "srv_get SsAccept (sys_srv sys) = srv_get SsAlive (sys_srv sys) + srv_get SsClose (sys_srv sys)"
    "heap_ok (sys_heap sys) (sys_next sys)"
    "\<And>i. i \<in> set (srv_onClients (sys_srv sys)) \<or> i \<in> set (srv_offClients (sys_srv sys)) \<Longrightarrow> i < sys_next sys"
  using assms unfolding server_inv_def Let_def by blast

lemma server_inv_heap:
  assumes "server_inv sys"
  shows "sys_heap sys i = Some client \<Longrightarrow> i < sys_next sys \<and> client_ok client"
    and "i < sys_next sys \<Longrightarrow> \<exists>client. sys_heap sys i = Some client \<and> client_ok client"
proof -
  have h: "heap_ok (sys_heap sys) (sys_next sys)" using assms unfolding server_inv_def Let_def by blast
  show "sys_heap sys i = Some client \<Longrightarrow> i < sys_next sys \<and> client_ok client" using heap_ok_get(1) [OF h] .
  show "i < sys_next sys \<Longrightarrow> \<exists>client. sys_heap sys i = Some client \<and> client_ok client" using heap_ok_get(2) [OF h] .
qed

lemma heap_update_inv:
  assumes "server_inv sys" and "sys_heap sys i = Some client" and "client_ok client'"
  shows "server_inv (sys\<lparr>sys_heap := (sys_heap sys)(i \<mapsto> client')\<rparr>)"
  using assms server_inv_heap(1) [OF assms(1,2)] unfolding server_inv_def Let_def by (auto intro: heap_ok_upd)

lemma srv_update_inv:
  assumes "server_inv sys" and "srv_clients t = srv_clients (sys_srv sys)" and "srv_onClients t = srv_onClients (sys_srv sys)"
    and "srv_maxClient t = srv_maxClient (sys_srv sys)" and "\<forall>i \<in> set (srv_offClients t). i < sys_next sys"
    and "srv_get SsAlive t = srv_get SsAlive (sys_srv sys)"
    and "srv_get SsAccept t - srv_get SsClose t = srv_get SsAccept (sys_srv sys) - srv_get SsClose (sys_srv sys)"
  shows "server_inv (sys\<lparr>sys_srv := t\<rparr>)"
  using assms unfolding server_inv_def Let_def by (auto simp: algebra_simps)

lemma OffClient_inv:
  assumes "server_inv sys" and "i < sys_next sys" and "SocketServerImpl_OffClient (Some i) (sys_srv sys) = Some t"
  shows "server_inv (sys\<lparr>sys_srv := t\<rparr>)"
  using assms
  by (intro srv_update_inv) (auto simp: SocketServerImpl_OffClient_def server_inv_def Let_def split: if_splits)

lemma recv_inv:
  assumes "server_inv sys"
  shows "server_inv (sys\<lparr>sys_srv := srv_add SsRecv 1 (sys_srv sys)\<rparr>)"
  using assms
  by (intro srv_update_inv) (auto simp: server_inv_def Let_def SafeStrInt64_Get_Add stat_names)

lemma Read_inv:
  assumes "server_inv sys" and "SocketServerImpl_Read ops i sys = Some (sys', frame)"
  shows "server_inv sys'"
proof -
  obtain client where c: "sys_heap sys i = Some client" using assms(2)
    by (auto simp: SocketServerImpl_Read_def split: option.splits)
  obtain client' r where r: "StreamSocket_ReadMsg ops client = Some (client', r)" using assms(2) c
    by (auto simp: SocketServerImpl_Read_def split: option.splits)
  have "client_ok client" "i < sys_next sys" using server_inv_heap(1) [OF assms(1) c] by auto
  let ?s = "sys\<lparr>sys_heap := (sys_heap sys)(i \<mapsto> client')\<rparr>"
  have inv: "server_inv ?s" using heap_update_inv [OF assms(1) c] ReadMsg_keeps [OF r] \<open>client_ok client\<close> by blast
  show ?thesis
    using assms(2) c r OffClient_inv [OF inv, of i] recv_inv [OF inv] \<open>i < sys_next sys\<close>
    by (auto simp: SocketServerImpl_Read_def Let_def split: option.splits sum.splits if_splits)
qed

lemma doOnClient_ok:
  assumes "server_inv sys" and "srv_onClients (sys_srv sys) = i # rest"
  shows "\<exists>sys' ev. SocketServerImpl_doOnClient call i (sys\<lparr>sys_srv := (sys_srv sys)\<lparr>srv_onClients := rest\<rparr>\<rparr>) = Inr (sys', ev) \<and>
     server_inv sys'"
proof -
  let ?t = "sys_srv sys"
  have "i < sys_next sys" using assms unfolding server_inv_def Let_def by auto
  then obtain client where c: "sys_heap sys i = Some client"
    using server_inv_heap(2) [OF assms(1)] by blast
  let ?m = "fst (SafeStrMap_Set (StreamSocket_RemoteAddr client) (Some i) (srv_clients ?t))"
  have m: "SafeStrMap_inv ?m" "ssm_size ?m = ssm_size (srv_clients ?t)"
      "length (ssm_data ?m) \<le> length (ssm_data (srv_clients ?t)) + 1"
    using assms(1) sm.invar_set [of "srv_clients ?t"]
    by (auto simp: server_inv_def Let_def SafeStrMap_Set_def SafeStrMap_add_def length_update_new split: option.splits)
  show ?thesis
    using assms c m by (auto simp: SocketServerImpl_doOnClient_def server_inv_def Let_def)
qed

lemma doOffClient_cases:
  assumes "sys_heap sys i = Some client" and "client_ok client"
  obtains (absent) "ssm_lookup (srv_clients (sys_srv sys)) (StreamSocket_RemoteAddr client) = None"
      "SocketServerImpl_doOffClient na now call i sys = Inr (sys, [])"
  | (present) client' ev t where "ssm_lookup (srv_clients (sys_srv sys)) (StreamSocket_RemoteAddr client) \<noteq> None"
      "SocketServerImpl_doOffClient na now call i sys = Inr (sys\<lparr>sys_srv := t, sys_heap := (sys_heap sys)(i \<mapsto> client')\<rparr>, ev)"
      "client_ok client'" "ss_connection client \<noteq> None \<Longrightarrow> StreamSocket_RemoteAddr client' = []"
      "ss_connection client = None \<Longrightarrow> client' = client"
      "srv_clients t = SafeStrMap_Del (StreamSocket_RemoteAddr client) (srv_clients (sys_srv sys))"
      "srv_get SsAlive t = srv_get SsAlive (sys_srv sys) - 1" "srv_get SsClose t = srv_get SsClose (sys_srv sys) + 1"
      "srv_get SsAccept t = srv_get SsAccept (sys_srv sys)" "srv_onClients t = srv_onClients (sys_srv sys)"
      "srv_offClients t = srv_offClients (sys_srv sys)" "srv_maxClient t = srv_maxClient (sys_srv sys)"
proof (cases "ssm_lookup (srv_clients (sys_srv sys)) (StreamSocket_RemoteAddr client)")
  case None
  with assms(1) show thesis
    by (intro absent) (simp_all add: SocketServerImpl_doOffClient_def SafeStrMap_GetEx_def Let_def)
next
  case (Some v)
  obtain client' ev where c: "TcpClient_Close na now client = Inr (client', ev)" "client_ok client'"
    "ss_connection client \<noteq> None \<Longrightarrow> StreamSocket_RemoteAddr client' = []" "ss_connection client = None \<Longrightarrow> client' = client"
    using Close_ok [OF assms(2)] by blast
  let ?t = "(srv_add SsClose 1 (sys_srv sys))\<lparr>srv_clients := SafeStrMap_Del (StreamSocket_RemoteAddr client) (srv_clients (sys_srv sys))\<rparr>"
  from Some assms(1) c show thesis
    by (intro present [of client' "srv_add SsAlive (-1) ?t"])
      (simp_all add: SocketServerImpl_doOffClient_def SafeStrMap_GetEx_def Let_def SafeStrInt64_Get_Add, simp_all add: stat_names)
qed

lemma SafeStrMap_Del_present:
  assumes "SafeStrMap_inv m" and "ssm_lookup m k \<noteq> None"
  shows "SafeStrMap_inv (SafeStrMap_Del k m)" "ssm_size (SafeStrMap_Del k m) = ssm_size m"
    "length (ssm_data (SafeStrMap_Del k m)) + 1 = length (ssm_data m)"
  using assms sm.invar_del [OF assms(1)]
  by (auto simp: SafeStrMap_Del_def SafeStrMap_inv_def length_delete_old split: option.splits)

lemma doOffClient_ok:
  assumes "server_inv sys" and "srv_offClients (sys_srv sys) = i # rest"
  shows "\<exists>sys' ev. SocketServerImpl_doOffClient na now call i (sys\<lparr>sys_srv := (sys_srv sys)\<lparr>srv_offClients := rest\<rparr>\<rparr>) = Inr (sys', ev) \<and>
     server_inv sys'"
proof -
  let ?s = "sys\<lparr>sys_srv := (sys_srv sys)\<lparr>srv_offClients := rest\<rparr>\<rparr>"
  have inv: "server_inv ?s" by (rule srv_update_inv) (use assms in \<open>auto simp: server_inv_def Let_def\<close>)
  have "i < sys_next ?s" using assms unfolding server_inv_def Let_def by auto
  with server_inv_heap [OF inv] obtain client where c: "sys_heap ?s i = Some client" "client_ok client" by blast
  from c show ?thesis
  proof (cases rule: doOffClient_cases [where na = na and now = now and call = call])
    case absent
    with inv show ?thesis by auto
  next
    case (present client' ev t)
    from inv obtain n where n: "SafeStrMap_inv (srv_clients (sys_srv ?s))" "ssm_size (srv_clients (sys_srv ?s)) = 1024"
      "srv_maxClient (sys_srv ?s) = 128" "srv_get SsAlive (sys_srv ?s) = of_nat n"
      "length (ssm_data (srv_clients (sys_srv ?s))) + length (srv_onClients (sys_srv ?s)) \<le> n" "n \<le> 128"
      "srv_get SsAccept (sys_srv ?s) = srv_get SsAlive (sys_srv ?s) + srv_get SsClose (sys_srv ?s)"
      "heap_ok (sys_heap ?s) (sys_next ?s)"
      "\<And>i. i \<in> set (srv_onClients (sys_srv ?s)) \<or> i \<in> set (srv_offClients (sys_srv ?s)) \<Longrightarrow> i < sys_next ?s"
      by (rule server_invE) blast
    note d = SafeStrMap_Del_present [OF n(1) present(1), folded present(6)]
    have pos: "0 < n" using d(3) n(5) by linarith
    have "server_inv \<lparr>sys_srv = t, sys_heap = (sys_heap ?s)(i \<mapsto> client'), sys_next = sys_next ?s\<rparr>"
    proof (rule server_invI)
      show "srv_get SsAlive t = of_nat (n - 1)" using present(7) n(4) pos by (simp add: of_nat_diff)
      show "length (ssm_data (srv_clients t)) + length (srv_onClients t) \<le> n - 1" using d(3) n(5) pos by (simp add: present(10))
      show "srv_get SsAccept t = srv_get SsAlive t + srv_get SsClose t" using present(7-9) n(7) by simp
      show "heap_ok ((sys_heap ?s)(i \<mapsto> client')) (sys_next ?s)" using heap_ok_upd [OF n(8) \<open>i < sys_next ?s\<close> present(3)] .
    qed (use d n present in auto)
    moreover have "\<lparr>sys_srv = t, sys_heap = (sys_heap ?s)(i \<mapsto> client'), sys_next = sys_next ?s\<rparr> =
        ?s\<lparr>sys_srv := t, sys_heap := (sys_heap ?s)(i \<mapsto> client')\<rparr>" by simp
    ultimately have "server_inv (?s\<lparr>sys_srv := t, sys_heap := (sys_heap ?s)(i \<mapsto> client')\<rparr>)" by metis
    with present(2) show ?thesis by blast
  qed
qed

lemma Loop_ok:
  assumes "server_inv sys" and "SocketServerImpl_Loop na now call which sys = Some r"
  shows "\<exists>sys' ev. r = Inr (sys', ev) \<and> server_inv sys'"
proof (cases which)
  case TakeOn
  with assms(2) obtain i rest where "srv_onClients (sys_srv sys) = i # rest"
    "r = SocketServerImpl_doOnClient call i (sys\<lparr>sys_srv := (sys_srv sys)\<lparr>srv_onClients := rest\<rparr>\<rparr>)"
    by (auto simp: SocketServerImpl_Loop_def Let_def split: list.splits)
  with doOnClient_ok [OF assms(1)] show ?thesis by blast
next
  case TakeOff
  with assms(2) obtain i rest where "srv_offClients (sys_srv sys) = i # rest"
    "r = SocketServerImpl_doOffClient na now call i (sys\<lparr>sys_srv := (sys_srv sys)\<lparr>srv_offClients := rest\<rparr>\<rparr>)"
    by (auto simp: SocketServerImpl_Loop_def Let_def split: list.splits)
  with doOffClient_ok [OF assms(1)] show ?thesis by blast
qed

text \<open>Everything below holds for every transport that keeps the contract of \<open>client_maker\<close>.\<close>

context client_maker
begin

lemma accept_iter_ok:
  assumes "server_inv sys"
  shows "\<exists>sys'. accept_iter (mk now) r sys = Some (Inr sys') \<and> server_inv sys'"
proof -
  let ?t = "sys_srv sys"
  from assms obtain n where n: "SafeStrMap_inv (srv_clients ?t)" "ssm_size (srv_clients ?t) = 1024"
    "srv_maxClient ?t = 128" "srv_get SsAlive ?t = of_nat n"
    "length (ssm_data (srv_clients ?t)) + length (srv_onClients ?t) \<le> n" "n \<le> 128"
    "srv_get SsAccept ?t = srv_get SsAlive ?t + srv_get SsClose ?t" "heap_ok (sys_heap sys) (sys_next sys)"
    "\<And>i. i \<in> set (srv_onClients ?t) \<or> i \<in> set (srv_offClients ?t) \<Longrightarrow> i < sys_next sys"
    by (rule server_invE) blast
  show ?thesis
  proof (cases rule: preAccept_cases [of "case r of Inl e \<Rightarrow> Some e | Inr _ \<Rightarrow> None" ?t])
    case (error e)
    have "server_inv (sys\<lparr>sys_srv := ?t\<lparr>srv_error := Some e\<rparr>\<rparr>)"
      by (rule srv_update_inv [OF assms]) (use n(9) in auto)
    with error show ?thesis by (simp add: accept_iter_def)
  next
    case (deny t' e)
    have "server_inv (sys\<lparr>sys_srv := t'\<rparr>)"
      by (rule srv_update_inv [OF assms]) (use deny n in auto)
    with deny show ?thesis by (simp add: accept_iter_def)
  next
    case (allow t')
    then obtain c where c: "r = Inr c" by (cases r) auto
    from mk_ok [of now c] obtain client where client: "mk now c = Inr client" "client_ok client" by blast
    have "sint (srv_get SsAlive ?t) = int n" using n(4,6) sint_of_nat_small [of n] by simp
    then have lt: "n < 128" using allow(2) n(3) by simp
    let ?s = "\<lparr>sys_srv = t'\<lparr>srv_onClients := srv_onClients t' @ [sys_next sys]\<rparr>,
      sys_heap = (sys_heap sys)(sys_next sys \<mapsto> client), sys_next = sys_next sys + 1\<rparr>"
    have "server_inv ?s"
    proof (rule server_invI)
      show "heap_ok ((sys_heap sys)(sys_next sys \<mapsto> client)) (sys_next sys + 1)"
        using heap_ok_new [OF n(8) client(2)] by simp
      show "srv_get SsAlive (t'\<lparr>srv_onClients := srv_onClients t' @ [sys_next sys]\<rparr>) = of_nat (n + 1)"
        using allow(4) n(4) by simp
      show "\<forall>i\<in>set (srv_onClients (t'\<lparr>srv_onClients := srv_onClients t' @ [sys_next sys]\<rparr>)) \<union>
          set (srv_offClients (t'\<lparr>srv_onClients := srv_onClients t' @ [sys_next sys]\<rparr>)). i < sys_next sys + 1"
        using n(9) allow(8,9) by (auto simp: less_Suc_eq)
    qed (use allow n lt in auto)
    moreover have "length (srv_onClients t') < 1024" using n(5) lt allow(8) by simp
    ultimately show ?thesis using allow(3) c client(1) by (simp add: accept_iter_def)
  qed
qed

lemma step_inv:
  assumes "server_step na ops call mk admit sys sys'" and "server_inv sys"
  shows "server_inv sys'"
  using assms
proof cases
  case (acceptS now r)
  then show ?thesis using accept_iter_ok [OF assms(2), of now r] by auto
next
  case (loopS now which ev)
  then show ?thesis using Loop_ok [OF assms(2)] by fastforce
next
  case (readS i frame)
  then show ?thesis using Read_inv [OF assms(2)] by blast
next
  case (offS i t)
  then show ?thesis using OffClient_inv [OF assms(2)] by blast
next
  case (writeS i client frame client' err)
  then show ?thesis using heap_update_inv [OF assms(2)] server_inv_heap(1) [OF assms(2)] WriteMsg_keeps by blast
next
  case (statusS i client v client' evs)
  then show ?thesis using heap_update_inv [OF assms(2)] server_inv_heap(1) [OF assms(2)] SetStatus_keeps by blast
next
  case (privateS i client v)
  then show ?thesis using heap_update_inv [OF assms(2)] server_inv_heap(1) [OF assms(2)] SetPrivate_keeps by blast
qed

lemma reachable_inv:
  assumes "(server_step na ops call mk admit)\<^sup>*\<^sup>* (server_init t) sys" and "server_inv (server_init t :: ('c, 'p) system)"
  shows "server_inv sys"
  using assms by (induction rule: rtranclp_induct) (auto intro: step_inv)

lemma reachable_bounds:
  assumes "(server_step na ops call mk admit)\<^sup>*\<^sup>* (server_init t) sys" and "server_inv (server_init t :: ('c, 'p) system)"
  shows "SocketServerImpl_TotalClient (sys_srv sys) \<le> 128 \<and> length (srv_onClients (sys_srv sys)) \<le> 128 \<and>
     SocketServerImpl_TotalClient (sys_srv sys) + int (length (srv_onClients (sys_srv sys))) \<le> sint (srv_get SsAlive (sys_srv sys)) \<and>
     srv_get SsAccept (sys_srv sys) = srv_get SsAlive (sys_srv sys) + srv_get SsClose (sys_srv sys) \<and>
     (\<exists>sys'. accept_iter (mk now) r sys = Some (Inr sys')) \<and>
     (\<forall>e. SocketServerImpl_Loop na now call which sys \<noteq> Some (Inl e))"
proof -
  have inv: "server_inv sys" using reachable_inv [OF assms] .
  then obtain n where "srv_get SsAlive (sys_srv sys) = of_nat n" "n \<le> 128"
    "length (ssm_data (srv_clients (sys_srv sys))) + length (srv_onClients (sys_srv sys)) \<le> n"
    "srv_get SsAccept (sys_srv sys) = srv_get SsAlive (sys_srv sys) + srv_get SsClose (sys_srv sys)"
    by (rule server_invE) blast
  moreover from this have "sint (srv_get SsAlive (sys_srv sys)) = int n" by (simp add: sint_of_nat_small)
  ultimately show ?thesis
    using accept_iter_ok [OF inv] Loop_ok [OF inv]
    by (fastforce simp: SocketServerImpl_TotalClient_def SafeStrMap_Len_def)
qed

end

lemma NewSocketServer_inv: "server_inv (server_init ((NewSocketServer listen)\<lparr>srv_WrQus := w\<rparr>))"
  unfolding server_init_def
  by (rule server_invI [where n = 0])
    (auto simp: NewSocketServer_def SafeStrInt64_Get_def NewSafeStrInt64_def NewSafeStrMap_inv heap_ok_empty,
      simp_all add: NewSafeStrMap_def)

text \<open>C6. Admission of the TCP server: however the accept loop, the main loop, the readers and the rest of the
  switch interleave, the client table and the queue of new clients together never hold more than the 128
  clients the counter \<open>alive\<close> stands for, every accepted connection is counted as alive or closed, the accept
  loop never waits for room in the queue, and the main loop never panics.\<close>

theorem TcpServer_admission:
  assumes "(server_step na ops call (\<lambda>now c. NewTcpClientFromConn na now c cfg) admit)\<^sup>*\<^sup>*
      (server_init (NewTcpServer listen cfg)) sys"
  shows "SocketServerImpl_TotalClient (sys_srv sys) \<le> 128 \<and> length (srv_onClients (sys_srv sys)) \<le> 128 \<and>
     SocketServerImpl_TotalClient (sys_srv sys) + int (length (srv_onClients (sys_srv sys))) \<le> sint (srv_get SsAlive (sys_srv sys)) \<and>
     srv_get SsAccept (sys_srv sys) = srv_get SsAlive (sys_srv sys) + srv_get SsClose (sys_srv sys) \<and>
     (\<exists>sys'. TcpServer_Accept na now cfg r sys = Some (Inr sys')) \<and>
     (\<forall>e. SocketServerImpl_Loop na now call which sys \<noteq> Some (Inl e))"
  unfolding TcpServer_Accept_def
  using tcp.reachable_bounds [OF assms, of now r which] NewSocketServer_inv [where listen = listen and w = "tcpc_WrQus cfg"]
  by (simp add: NewTcpServer_def)

text \<open>A concrete connection, configuration and listener for the witnesses.\<close>

definition ex_na :: "byte list list addrs" where
  "ex_na = \<lparr>na_Local = (\<lambda>_. ''10.0.0.1:10002''), na_Remote = (\<lambda>c. ''10.0.0.2:'' @ (if c = [] then ''1'' else ''2''))\<rparr>"

definition ex_cfg :: TcpConfig where
  "ex_cfg = \<lparr>tcpc_Tls = False, tcpc_Block = None, tcpc_Timeout = 0, tcpc_RdQus = 8, tcpc_WrQus = 8\<rparr>"

definition ex_call :: ServerListener where
  "ex_call = \<lparr>sl_OnClient = True, sl_OnClose = True, sl_ReadAt = True\<rparr>"

definition ex_client :: "(byte list list, unit) SocketClientImpl" where
  "ex_client = (NewTcpClient 5 ''10.0.0.2:1'' ex_cfg)\<lparr>ss_connection := Some [], sc_connectedTime := 5,
     ss_localAddr := ''10.0.0.1:10002''\<rparr>"

definition ex_srv :: SocketServerImpl where
  "ex_srv = (NewTcpServer ''10.0.0.1:10002'' ex_cfg)\<lparr>srv_statistics := \<lparr>ssi_data = [(''accept'', 1), (''alive'', 1)]\<rparr>,
     srv_onClients := [0]\<rparr>"

definition ex_sys :: "(byte list list, unit) system" where
  "ex_sys = \<lparr>sys_srv = ex_srv, sys_heap = (\<lambda>_. None)(0 \<mapsto> ex_client), sys_next = 1\<rparr>"

lemma ex_sys_accept:
  "accept_iter (\<lambda>c. NewTcpClientFromConn ex_na 5 c ex_cfg) (Inr []) (server_init (NewTcpServer ''10.0.0.1:10002'' ex_cfg)) =
     Some (Inr ex_sys)"
  by (simp add: accept_iter_def server_init_def NewTcpServer_def NewSocketServer_def SocketServerImpl_preAccept_def
      SafeStrInt64_Add_def SafeStrInt64_Get_def NewSafeStrInt64_def stat_names Let_def client_new_defs ex_na_def
      ex_sys_def ex_srv_def ex_client_def ex_cfg_def)

lemma ex_sys_reachable:
  assumes "admit (server_init (NewTcpServer ''10.0.0.1:10002'' ex_cfg)) []"
  shows "(server_step ex_na pipe ex_call (\<lambda>now c. NewTcpClientFromConn ex_na now c ex_cfg) admit)\<^sup>*\<^sup>*
     (server_init (NewTcpServer ''10.0.0.1:10002'' ex_cfg)) ex_sys"
  by (rule r_into_rtranclp, rule acceptS, rule ex_sys_accept) (use assms in auto)

theorem TcpServer_admission_witness:
  "SocketServerImpl_TotalClient (sys_srv ex_sys) \<le> 128 \<and> length (srv_onClients (sys_srv ex_sys)) \<le> 128 \<and>
     SocketServerImpl_TotalClient (sys_srv ex_sys) + int (length (srv_onClients (sys_srv ex_sys))) \<le> sint (srv_get SsAlive (sys_srv ex_sys)) \<and>
     srv_get SsAccept (sys_srv ex_sys) = srv_get SsAlive (sys_srv ex_sys) + srv_get SsClose (sys_srv ex_sys) \<and>
     (\<exists>sys'. TcpServer_Accept ex_na 6 ex_cfg (Inr [[1]]) ex_sys = Some (Inr sys')) \<and>
     (\<forall>e. SocketServerImpl_Loop ex_na 6 ex_call TakeOn ex_sys \<noteq> Some (Inl e))"
  by (rule TcpServer_admission [OF ex_sys_reachable [of "\<lambda>_ _. True"]]) simp

subsection \<open>Exact accounting\<close>

definition remote_of :: "(nat \<Rightarrow> ('c, 'p) SocketClientImpl option) \<Rightarrow> nat \<Rightarrow> string" where
  "remote_of h i = (case h i of Some client \<Rightarrow> StreamSocket_RemoteAddr client | None \<Rightarrow> [])"

text \<open>The addresses of the clients in the table and in the queue.\<close>

definition known :: "('c, 'p) system \<Rightarrow> string list" where
  "known sys = map fst (ssm_data (srv_clients (sys_srv sys))) @ map (remote_of (sys_heap sys)) (srv_onClients (sys_srv sys))"

text \<open>No connection comes in from an address that is still in use.\<close>

definition fresh_addr :: "'c addrs \<Rightarrow> ('c, 'p) system \<Rightarrow> 'c \<Rightarrow> bool" where
  "fresh_addr na sys c \<longleftrightarrow> na_Remote na c \<noteq> [] \<and> na_Remote na c \<notin> set (known sys)"

definition server_exact :: "('c, 'p) system \<Rightarrow> bool" where
  "server_exact sys \<longleftrightarrow> server_inv sys \<and> srv_get SsAlive (sys_srv sys) = of_nat (length (known sys)) \<and>
     distinct (known sys) \<and> [] \<notin> set (known sys) \<and> set (srv_onClients (sys_srv sys)) \<inter> set (srv_offClients (sys_srv sys)) = {}"

lemma exact_heap_update:
  assumes "server_exact sys" and "sys_heap sys i = Some client" and "client_ok client'"
    and "StreamSocket_RemoteAddr client' = StreamSocket_RemoteAddr client"
  shows "server_exact (sys\<lparr>sys_heap := (sys_heap sys)(i \<mapsto> client')\<rparr>)"
proof -
  have "remote_of ((sys_heap sys)(i \<mapsto> client')) = remote_of (sys_heap sys)"
    using assms(2,4) by (auto simp: remote_of_def)
  with assms heap_update_inv [of sys i client client'] show ?thesis by (simp add: server_exact_def known_def)
qed

lemma exact_OffClient:
  assumes "server_exact sys" and "i \<notin> set (srv_onClients (sys_srv sys))" and "i < sys_next sys"
    and "SocketServerImpl_OffClient (Some i) (sys_srv sys) = Some t"
  shows "server_exact (sys\<lparr>sys_srv := t\<rparr>)"
proof -
  have t: "t = (sys_srv sys)\<lparr>srv_offClients := srv_offClients (sys_srv sys) @ [i]\<rparr>"
    using assms(4) by (simp add: SocketServerImpl_OffClient_def split: if_splits)
  then have "known (sys\<lparr>sys_srv := t\<rparr>) = known sys" by (simp add: known_def)
  with assms t OffClient_inv [of sys i t] show ?thesis by (simp add: server_exact_def)
qed

lemma exact_recv: "server_exact sys \<Longrightarrow> server_exact (sys\<lparr>sys_srv := srv_add SsRecv 1 (sys_srv sys)\<rparr>)"
  using recv_inv [of sys] by (simp add: server_exact_def known_def SafeStrInt64_Get_Add) (simp add: stat_names)

lemma exact_Read:
  assumes "server_exact sys" and "i \<notin> set (srv_onClients (sys_srv sys))"
    and "SocketServerImpl_Read ops i sys = Some (sys', frame)"
  shows "server_exact sys'"
proof -
  obtain client where c: "sys_heap sys i = Some client" using assms(3)
    by (auto simp: SocketServerImpl_Read_def split: option.splits)
  obtain client' r where r: "StreamSocket_ReadMsg ops client = Some (client', r)" using assms(3) c
    by (auto simp: SocketServerImpl_Read_def split: option.splits)
  have inv: "server_inv sys" using assms(1) by (simp add: server_exact_def)
  then have ok: "client_ok client" "i < sys_next sys" using server_inv_heap(1) [OF _ c] by auto
  let ?s = "sys\<lparr>sys_heap := (sys_heap sys)(i \<mapsto> client')\<rparr>"
  have "server_exact ?s" using exact_heap_update [OF assms(1) c] ReadMsg_keeps [OF r] ok(1) by blast
  from assms(2,3) c r exact_OffClient [OF this, of i] exact_recv [OF this] ok(2) show ?thesis
    by (auto simp: SocketServerImpl_Read_def Let_def split: option.splits sum.splits if_splits)
qed

lemma exact_doOnClient:
  assumes "server_exact sys" and "srv_onClients (sys_srv sys) = i # rest"
    and "SocketServerImpl_doOnClient call i (sys\<lparr>sys_srv := (sys_srv sys)\<lparr>srv_onClients := rest\<rparr>\<rparr>) = Inr (sys', ev)"
  shows "server_exact sys'"
proof -
  have inv: "server_inv sys" using assms(1) by (simp add: server_exact_def)
  obtain client where c: "sys_heap sys i = Some client"
    using assms(3) by (auto simp: SocketServerImpl_doOnClient_def split: option.splits)
  let ?m = "srv_clients (sys_srv sys)" and ?a = "StreamSocket_RemoteAddr client"
  have a: "remote_of (sys_heap sys) i = ?a" using c by (simp add: remote_of_def)
  have "?a \<notin> set (map fst (ssm_data ?m))" using assms(1,2) a by (auto simp: server_exact_def known_def)
  then have new: "ssm_lookup ?m ?a = None" by (simp add: map_of_eq_None_iff)
  from inv have "\<not> SafeStrMap_full ?m" by (rule server_invE) (simp add: SafeStrMap_full_def)
  then have k: "map fst (ssm_data (fst (SafeStrMap_Set ?a (Some i) ?m))) = map fst (ssm_data ?m) @ [?a]"
    using new by (simp add: SafeStrMap_Set_def SafeStrMap_add_def update_new_keys)
  have s': "sys' = sys\<lparr>sys_srv := (sys_srv sys)\<lparr>srv_onClients := rest, srv_clients := fst (SafeStrMap_Set ?a (Some i) ?m)\<rparr>\<rparr>"
    using assms(3) c by (simp add: SocketServerImpl_doOnClient_def Let_def)
  have "known sys' = known sys" using k a assms(2) by (simp add: s' known_def)
  moreover have "server_inv sys'" using doOnClient_ok [OF inv assms(2), of call] assms(3) by auto
  ultimately show ?thesis
    using assms(1,2) by (auto simp: server_exact_def s')
qed

lemma exact_doOffClient:
  assumes "server_exact sys" and "srv_offClients (sys_srv sys) = i # rest"
    and "SocketServerImpl_doOffClient na now call i (sys\<lparr>sys_srv := (sys_srv sys)\<lparr>srv_offClients := rest\<rparr>\<rparr>) = Inr (sys', ev)"
  shows "server_exact sys'"
proof -
  let ?s = "sys\<lparr>sys_srv := (sys_srv sys)\<lparr>srv_offClients := rest\<rparr>\<rparr>"
  have inv: "server_inv sys" and ni: "i \<notin> set (srv_onClients (sys_srv sys))"
    using assms(1,2) by (auto simp: server_exact_def)
  have inv': "server_inv sys'" using doOffClient_ok [OF inv assms(2), of na now call] assms(3) by auto
  obtain client where c: "sys_heap ?s i = Some client" using assms(3)
    by (auto simp: SocketServerImpl_doOffClient_def split: option.splits)
  then have "client_ok client" using server_inv_heap(1) [OF inv, of i] by simp
  from c this show ?thesis
  proof (cases rule: doOffClient_cases [where na = na and now = now and call = call])
    case absent
    then have s': "sys' = ?s" using assms(3) by simp
    then have "known sys' = known sys" by (simp add: known_def)
    with assms(1,2) inv' s' show ?thesis by (auto simp: server_exact_def)
  next
    case (present client' ev' t)
    let ?k = "StreamSocket_RemoteAddr client" and ?m = "srv_clients (sys_srv sys)"
    have s': "sys' = ?s\<lparr>sys_srv := t, sys_heap := (sys_heap ?s)(i \<mapsto> client')\<rparr>" using present(2) assms(3) by simp
    have keys: "map fst (ssm_data (SafeStrMap_Del ?k ?m)) = filter (\<lambda>x. x \<noteq> ?k) (map fst (ssm_data ?m))"
      using present(1) by (auto simp: SafeStrMap_Del_def delete_keys split: option.splits)
    have len: "length (ssm_data (SafeStrMap_Del ?k ?m)) + 1 = length (ssm_data ?m)"
      using SafeStrMap_Del_present(3) [of ?m ?k] inv present(1) by (auto elim: server_invE)
    have on: "map (remote_of (sys_heap sys')) (srv_onClients (sys_srv sys')) = map (remote_of (sys_heap sys)) (srv_onClients (sys_srv sys))"
      using ni present(10) by (auto simp: s' remote_of_def)
    have k: "known sys' = filter (\<lambda>x. x \<noteq> ?k) (map fst (ssm_data ?m)) @ map (remote_of (sys_heap sys)) (srv_onClients (sys_srv sys))"
      using on keys present(6) by (simp add: known_def s')
    have l: "length (known sys') + 1 = length (known sys)" using on len present(6) by (simp add: known_def s')
    then have "srv_get SsAlive (sys_srv sys') = of_nat (length (known sys'))"
      using present(7) assms(1) by (auto simp: server_exact_def s' simp flip: l)
    moreover have "distinct (known sys')" "[] \<notin> set (known sys')"
      using assms(1) unfolding k by (auto simp: server_exact_def known_def)
    ultimately show ?thesis
      using assms(1,2) inv' present(10,11) by (auto simp: server_exact_def s')
  qed
qed

context client_maker
begin

lemma exact_accept:
  assumes "server_exact sys" and "accept_iter (mk now) r sys = Some (Inr sys')" and "\<And>c. r = Inr c \<Longrightarrow> fresh_addr na sys c"
  shows "server_exact sys'"
proof -
  have inv: "server_inv sys" using assms(1) by (simp add: server_exact_def)
  have inv': "server_inv sys'" using accept_iter_ok [OF inv, of now r] assms(2) by auto
  show ?thesis
  proof (cases rule: preAccept_cases [of "case r of Inl e \<Rightarrow> Some e | Inr _ \<Rightarrow> None" "sys_srv sys"])
    case (error e)
    then have "sys' = sys\<lparr>sys_srv := (sys_srv sys)\<lparr>srv_error := Some e\<rparr>\<rparr>" using assms(2) by (simp add: accept_iter_def)
    moreover from this have "known sys' = known sys" by (simp add: known_def)
    ultimately show ?thesis using assms(1) inv' by (auto simp: server_exact_def)
  next
    case (deny t' e)
    then have "sys' = sys\<lparr>sys_srv := t'\<rparr>" using assms(2) by (simp add: accept_iter_def)
    moreover from this deny have "known sys' = known sys" by (simp add: known_def)
    ultimately show ?thesis using assms(1) inv' deny by (auto simp: server_exact_def)
  next
    case (allow t')
    then obtain c where c: "r = Inr c" by (cases r) auto
    from mk_ok [of now c] obtain client where client: "mk now c = Inr client"
      "StreamSocket_RemoteAddr client = na_Remote na c" by blast
    have s': "sys' = \<lparr>sys_srv = t'\<lparr>srv_onClients := srv_onClients t' @ [sys_next sys]\<rparr>,
        sys_heap = (sys_heap sys)(sys_next sys \<mapsto> client), sys_next = sys_next sys + 1\<rparr>"
      using allow(3) c client(1) assms(2) by (auto simp: accept_iter_def split: if_splits)
    have lt: "i < sys_next sys" if "i \<in> set (srv_onClients (sys_srv sys)) \<or> i \<in> set (srv_offClients (sys_srv sys))" for i
      using inv that by (auto elim: server_invE)
    have "map (remote_of ((sys_heap sys)(sys_next sys \<mapsto> client))) (srv_onClients (sys_srv sys)) =
        map (remote_of (sys_heap sys)) (srv_onClients (sys_srv sys))"
      using lt by (fastforce simp: remote_of_def)
    then have "known sys' = known sys @ [na_Remote na c]"
      using allow(7,8) client(2) by (simp add: s' known_def) (simp add: remote_of_def)
    moreover have "srv_get SsAlive (sys_srv sys') = srv_get SsAlive (sys_srv sys) + 1"
        "srv_onClients (sys_srv sys') = srv_onClients (sys_srv sys) @ [sys_next sys]"
        "srv_offClients (sys_srv sys') = srv_offClients (sys_srv sys)"
      using allow by (simp_all add: s')
    ultimately show ?thesis
      using assms(1) inv' assms(3) [OF c] lt by (auto simp: server_exact_def fresh_addr_def)
  qed
qed

lemma exact_step:
  assumes "server_step na ops call mk (fresh_addr na) sys sys'" and "server_exact sys"
  shows "server_exact sys'"
  using assms
proof cases
  case (acceptS now r)
  then show ?thesis using exact_accept [OF assms(2)] by blast
next
  case (loopS now which ev)
  then show ?thesis
    using exact_doOnClient [OF assms(2)] exact_doOffClient [OF assms(2)]
    by (auto simp: SocketServerImpl_Loop_def Let_def split: choice.splits list.splits)
next
  case (readS i frame)
  then show ?thesis using exact_Read [OF assms(2)] by blast
next
  case (offS i t)
  then show ?thesis using exact_OffClient [OF assms(2)] by blast
next
  case (writeS i client frame client' err)
  then show ?thesis using exact_heap_update [OF assms(2)] server_inv_heap(1) assms(2) WriteMsg_keeps
    unfolding server_exact_def by blast
next
  case (statusS i client v client' evs)
  then show ?thesis using exact_heap_update [OF assms(2)] server_inv_heap(1) assms(2) SetStatus_keeps
    unfolding server_exact_def by blast
next
  case (privateS i client v)
  then show ?thesis using exact_heap_update [OF assms(2)] server_inv_heap(1) assms(2) SetPrivate_keeps
    unfolding server_exact_def by blast
qed

lemma reachable_exact:
  assumes "(server_step na ops call mk (fresh_addr na))\<^sup>*\<^sup>* (server_init t) sys"
    and "server_exact (server_init t :: ('c, 'p) system)"
  shows "srv_get SsAlive (sys_srv sys) =
     of_nat (length (ssm_data (srv_clients (sys_srv sys))) + length (srv_onClients (sys_srv sys)))"
proof -
  have "server_exact sys" using assms by (induction rule: rtranclp_induct) (auto intro: exact_step)
  then show ?thesis by (simp add: server_exact_def known_def)
qed

end

lemma NewTcpServer_exact: "server_exact (server_init (NewTcpServer listen cfg) :: ('c, 'p) system)"
  using NewSocketServer_inv [where listen = listen and w = "tcpc_WrQus cfg" and ?'a = 'c and ?'b = 'p]
  by (simp add: server_exact_def NewTcpServer_def known_def)
    (simp add: server_init_def NewSocketServer_def NewSafeStrMap_def SafeStrInt64_Get_def NewSafeStrInt64_def)

text \<open>As long as no connection comes in from an address that is still in the client table or in the queue,
  the counter \<open>alive\<close> is exactly the number of clients in the table and in the queue, so no admission slot
  is lost.\<close>

theorem TcpServer_alive_exact:
  assumes "(server_step na ops call (\<lambda>now c. NewTcpClientFromConn na now c cfg) (fresh_addr na))\<^sup>*\<^sup>*
      (server_init (NewTcpServer listen cfg)) sys"
  shows "srv_get SsAlive (sys_srv sys) =
     of_nat (length (ssm_data (srv_clients (sys_srv sys))) + length (srv_onClients (sys_srv sys)))"
  using tcp.reachable_exact [OF assms] NewTcpServer_exact by blast

theorem TcpServer_alive_exact_witness:
  "srv_get SsAlive (sys_srv ex_sys) =
     of_nat (length (ssm_data (srv_clients (sys_srv ex_sys))) + length (srv_onClients (sys_srv ex_sys)))"
  by (rule TcpServer_alive_exact [OF ex_sys_reachable [of "fresh_addr ex_na"]])
    (simp add: fresh_addr_def ex_na_def known_def server_init_def NewTcpServer_def NewSocketServer_def NewSafeStrMap_def)

text \<open>Taking the same connected client off twice closes and counts it once: the first time clears its
  address, so the second finds nothing, also when a new client has come in from the same address in between
  (\<open>t\<close> is any server state with no entry for the empty address).\<close>

theorem doOffClient_once:
  assumes "sys_heap sys i = Some client" and "client_ok client" and "ss_connection client \<noteq> None"
    and "ssm_lookup (srv_clients (sys_srv sys)) (StreamSocket_RemoteAddr client) \<noteq> None"
    and "ssm_lookup (srv_clients t) [] = None"
  shows "\<exists>sys' ev. SocketServerImpl_doOffClient na now call i sys = Inr (sys', ev) \<and>
     srv_get SsAlive (sys_srv sys') = srv_get SsAlive (sys_srv sys) - 1 \<and>
     ssm_lookup (srv_clients (sys_srv sys')) = (ssm_lookup (srv_clients (sys_srv sys)))(StreamSocket_RemoteAddr client := None) \<and>
     SocketServerImpl_doOffClient na now' call i (sys'\<lparr>sys_srv := t\<rparr>) = Inr (sys'\<lparr>sys_srv := t\<rparr>, [])"
  using assms(1,2)
proof (cases rule: doOffClient_cases [where na = na and now = now and call = call])
  case (present client' ev t')
  have "SocketServerImpl_doOffClient na now' call i (sys\<lparr>sys_heap := (sys_heap sys)(i \<mapsto> client'), sys_srv := t\<rparr>) =
      Inr (sys\<lparr>sys_heap := (sys_heap sys)(i \<mapsto> client'), sys_srv := t\<rparr>, [])"
    using present(4) [OF assms(3)] assms(5)
    by (simp add: SocketServerImpl_doOffClient_def SafeStrMap_GetEx_def Let_def)
  with present show ?thesis by (auto simp: sm.del_lookup)
qed (use assms(4) in simp)

definition ex_table :: SocketServerImpl where
  "ex_table = ex_srv\<lparr>srv_onClients := [], srv_clients := \<lparr>ssm_size = 1024, ssm_data = [(''10.0.0.2:1'', Some 0)]\<rparr>\<rparr>"

theorem doOffClient_once_witness:
  "\<exists>sys' ev. SocketServerImpl_doOffClient ex_na 7 ex_call 0 (ex_sys\<lparr>sys_srv := ex_table\<rparr>) = Inr (sys', ev) \<and>
     srv_get SsAlive (sys_srv sys') = srv_get SsAlive (sys_srv (ex_sys\<lparr>sys_srv := ex_table\<rparr>)) - 1 \<and>
     ssm_lookup (srv_clients (sys_srv sys')) =
       (ssm_lookup (srv_clients (sys_srv (ex_sys\<lparr>sys_srv := ex_table\<rparr>))))(StreamSocket_RemoteAddr ex_client := None) \<and>
     SocketServerImpl_doOffClient ex_na 8 ex_call 0 (sys'\<lparr>sys_srv := ex_table\<rparr>) = Inr (sys'\<lparr>sys_srv := ex_table\<rparr>, [])"
  by (rule doOffClient_once)
    (simp_all add: ex_sys_def ex_table_def ex_client_def ex_srv_def client_new_defs)

text \<open>A connection from an address that is still in the table takes a slot for ever: \<open>doOnClient\<close> leaves the
  old entry in place, and once the old client has been taken off, taking off the new one finds no entry and
  does not give the slot back.\<close>

theorem address_reuse_leaks:
  assumes "sys_heap sys i = Some old" and "client_ok old" and "ss_connection old \<noteq> None"
    and "sys_heap sys j = Some new" and "i \<noteq> j" and "StreamSocket_RemoteAddr new = StreamSocket_RemoteAddr old"
    and "ssm_lookup (srv_clients (sys_srv sys)) (StreamSocket_RemoteAddr old) = Some (Some i)"
  shows "\<exists>s1 ev1 s2 ev2. SocketServerImpl_doOnClient call j sys = Inr (s1, ev1) \<and> srv_clients (sys_srv s1) = srv_clients (sys_srv sys) \<and>
     SocketServerImpl_doOffClient na now call i s1 = Inr (s2, ev2) \<and>
     SocketServerImpl_doOffClient na now' call j s2 = Inr (s2, []) \<and>
     srv_get SsAlive (sys_srv s2) = srv_get SsAlive (sys_srv sys) - 1"
proof -
  have "SafeStrMap_Set (StreamSocket_RemoteAddr new) (Some j) (srv_clients (sys_srv sys)) =
      (srv_clients (sys_srv sys), snd (SafeStrMap_Set (StreamSocket_RemoteAddr new) (Some j) (srv_clients (sys_srv sys))))"
    using assms(6,7) by (auto simp: SafeStrMap_Set_def SafeStrMap_add_def)
  then have "\<exists>ev1. SocketServerImpl_doOnClient call j sys = Inr (sys, ev1)"
    using assms(4) by (simp add: SocketServerImpl_doOnClient_def Let_def)
      (metis (no_types, lifting) SocketServerImpl.surjective SocketServerImpl.update_convs(4) fst_conv system.surjective system.update_convs(1))
  then obtain ev1 where on: "SocketServerImpl_doOnClient call j sys = Inr (sys, ev1)" by blast
  from assms(1,2) obtain client' ev2 t where off:
    "SocketServerImpl_doOffClient na now call i sys = Inr (sys\<lparr>sys_srv := t, sys_heap := (sys_heap sys)(i \<mapsto> client')\<rparr>, ev2)"
    "srv_clients t = SafeStrMap_Del (StreamSocket_RemoteAddr old) (srv_clients (sys_srv sys))"
    "srv_get SsAlive t = srv_get SsAlive (sys_srv sys) - 1"
    by (cases rule: doOffClient_cases [where na = na and now = now and call = call]) (use assms(7) in auto)
  have gone: "ssm_lookup (srv_clients t) (StreamSocket_RemoteAddr new) = None"
    unfolding off(2) assms(6) by (rule sm.del_gone)
  let ?s2 = "sys\<lparr>sys_srv := t, sys_heap := (sys_heap sys)(i \<mapsto> client')\<rparr>"
  have "SocketServerImpl_doOffClient na now' call j ?s2 = Inr (?s2, [])"
    using assms(4,5) gone by (simp add: SocketServerImpl_doOffClient_def SafeStrMap_GetEx_def Let_def)
  with on off show ?thesis by auto
qed

theorem address_reuse_leaks_witness:
  "\<exists>s1 ev1 s2 ev2. SocketServerImpl_doOnClient ex_call 1 (ex_sys\<lparr>sys_srv := ex_table, sys_heap := (sys_heap ex_sys)(1 \<mapsto> ex_client)\<rparr>) =
       Inr (s1, ev1) \<and>
     srv_clients (sys_srv s1) = srv_clients (sys_srv (ex_sys\<lparr>sys_srv := ex_table, sys_heap := (sys_heap ex_sys)(1 \<mapsto> ex_client)\<rparr>)) \<and>
     SocketServerImpl_doOffClient ex_na 7 ex_call 0 s1 = Inr (s2, ev2) \<and>
     SocketServerImpl_doOffClient ex_na 8 ex_call 1 s2 = Inr (s2, []) \<and>
     srv_get SsAlive (sys_srv s2) =
       srv_get SsAlive (sys_srv (ex_sys\<lparr>sys_srv := ex_table, sys_heap := (sys_heap ex_sys)(1 \<mapsto> ex_client)\<rparr>)) - 1"
  by (rule address_reuse_leaks [where old = ex_client and new = ex_client])
    (simp_all add: ex_sys_def ex_table_def ex_client_def ex_srv_def client_new_defs)

section \<open>Client life cycle\<close>

text \<open>What others can still do to a client: connect it again, close it, write to it.\<close>

datatype 'c client_op = OpConnect int "'c result" | OpClose int | OpWrite FrameMessage

fun client_run :: "'c addrs \<Rightarrow> 'c conn \<Rightarrow> TcpConfig \<Rightarrow> 'c client_op list \<Rightarrow> ('c, 'p) SocketClientImpl
     \<Rightarrow> (('c, 'p) SocketClientImpl \<times> client_event list) option" where
  "client_run na ops cfg [] t = Some (t, [])"
| "client_run na ops cfg (op # rest) t =
     (case (case op of
              OpConnect now dial \<Rightarrow> (case TcpClient_Connect na now cfg (\<lambda>_. dial) (\<lambda>_. dial) t of
                 Inl e \<Rightarrow> None | Inr (t, ev, err) \<Rightarrow> Some (t, ev))
            | OpClose now \<Rightarrow> (case TcpClient_Close na now t of Inl e \<Rightarrow> None | Inr (t, ev) \<Rightarrow> Some (t, ev))
            | OpWrite frame \<Rightarrow> (case StreamSocket_WriteMsg ops frame t of None \<Rightarrow> None | Some (t, err) \<Rightarrow> Some (t, []))) of
        None \<Rightarrow> None
      | Some (t, ev) \<Rightarrow> (case client_run na ops cfg rest t of None \<Rightarrow> None | Some (t, ev') \<Rightarrow> Some (t, ev @ ev')))"

lemma terminal_run:
  assumes "sc_status t = ClTerminal" and "ss_connection t = None"
  shows "\<exists>t'. client_run na ops cfg acts t = Some (t', []) \<and> sc_status t' = ClTerminal \<and> ss_connection t' = None"
  using assms
proof (induction acts arbitrary: t)
  case (Cons act acts)
  from Cons.prems Cons.IH [of t] Cons.IH [of "stat_add CsDropped 1 t"] show ?case
    by (cases act)
      (auto simp: TcpClient_Connect_def connect_with_def SocketClientImpl_Retry_def TcpClient_Close_def StreamSocket_WriteMsg_def)
qed simp

text \<open>\<open>Terminal\<close> is final: it closes a client, and whatever is done to the client afterwards, it has no connection
  again, stays \<open>ClTerminal\<close> and calls no listener; nothing it is asked to do blocks or panics.\<close>

theorem TcpClient_Terminal_final:
  assumes "client_ok t" and "ss_connection t \<noteq> None"
  shows "\<exists>t1 ev t2. TcpClient_Terminal na now t = Inr (t1, ev) \<and> (cl_OnClose (sc_listener t) \<longrightarrow> EvClose \<in> set ev) \<and>
     client_run na ops cfg acts t1 = Some (t2, []) \<and> sc_status t2 = ClTerminal \<and> ss_connection t2 = None \<and> sc_private t1 = None"
proof -
  let ?t = "t\<lparr>sc_status := ClTerminal\<rparr>"
  obtain msg where msg: "ss_message t = Some msg" using assms(1) by (auto simp: client_ok_def)
  let ?t1 = "?t\<lparr>ss_connection := None, ss_localAddr := [], ss_remoteAddr := [], ss_message := Some (Messager_Flush msg), sc_private := None\<rparr>"
  obtain ev where st: "TcpClient_SetStatus ClTerminal t = (?t, ev)"
    by (cases "sc_status t = ClTerminal") (auto simp: TcpClient_SetStatus_def)
  have "TcpClient_Terminal na now t = Inr (?t1, ev @ (if cl_OnClose (sc_listener t) then [EvClose] else []))"
    using assms(2) msg by (simp add: TcpClient_Terminal_def st TcpClient_Close_def SocketClientImpl_updateConn_def)
  moreover have "\<exists>t2. client_run na ops cfg acts ?t1 = Some (t2, []) \<and> sc_status t2 = ClTerminal \<and> ss_connection t2 = None"
    by (rule terminal_run) simp_all
  ultimately show ?thesis by auto
qed

theorem TcpClient_Terminal_final_witness:
  "\<exists>t1 ev t2. TcpClient_Terminal ex_na 9 ex_client = Inr (t1, ev) \<and>
     client_run ex_na pipe ex_cfg [OpConnect 10 (Inr []), OpWrite (ex_frame [1]), OpClose 11] t1 = Some (t2, []) \<and>
     sc_status t2 = ClTerminal \<and> ss_connection t2 = None \<and> sc_private t1 = None"
proof -
  have "client_ok ex_client" "ss_connection ex_client \<noteq> None" by (simp_all add: ex_client_def client_new_defs)
  from TcpClient_Terminal_final [OF this] show ?thesis by metis
qed

text \<open>Runs of a web client: connecting again and closing, as the reconnecting access point does.\<close>

fun web_cycles :: "'c addrs \<Rightarrow> int \<Rightarrow> WebConfig \<Rightarrow> (string \<Rightarrow> bool \<Rightarrow> 'c result) \<Rightarrow> nat \<Rightarrow> ('c, 'p) WebClient \<Rightarrow> ('c, 'p) WebClient option" where
  "web_cycles na now cfg dial 0 t = Some t"
| "web_cycles na now cfg dial (Suc n) t =
     (case WebClient_Connect na now cfg (\<lambda>_. None) dial t of
        Inl e \<Rightarrow> None
      | Inr (t, ev, err) \<Rightarrow> (case WebClient_Close na now t of
          Some (Inr (t, ev)) \<Rightarrow> web_cycles na now cfg dial n t
        | _ \<Rightarrow> None))"

lemma web_cycle:
  assumes "ss_connection (wc_impl t) = None" and "ss_message (wc_impl t) \<noteq> None"
    and "sc_status (wc_impl t) \<noteq> ClTerminal" and "sc_status (wc_impl t) \<noteq> ClUnAuth"
    and "\<forall>url tls. \<exists>c. dial url tls = Inr c"
  obtains t1 ev where "WebClient_Connect na now cfg (\<lambda>_. None) dial t = Inr (t1, ev, None)"
    "ss_connection (wc_impl t1) \<noteq> None" "wc_done t1 = wc_done t"
    "wc_done t \<ge> 2 \<Longrightarrow> WebClient_Close na now t1 = None"
    "wc_done t < 2 \<Longrightarrow> \<exists>t2 ev2. WebClient_Close na now t1 = Some (Inr (t2, ev2)) \<and> wc_done t2 = wc_done t + 1 \<and>
       ss_connection (wc_impl t2) = None \<and> ss_message (wc_impl t2) \<noteq> None \<and> sc_status (wc_impl t2) = ClClosed"
proof -
  let ?url = "(if webc_Cert cfg then ''wss://'' else ''ws://'') @ ss_address (wc_impl t)"
  obtain c where c: "dial ?url (webc_Cert cfg) = Inr c" using assms(5) by blast
  let ?s = "(wc_impl t)\<lparr>sc_status := ClConnected, ss_connection := Some c, sc_connectedTime := now,
      ss_localAddr := na_Local na c, ss_remoteAddr := na_Remote na c\<rparr>"
  let ?ev = "if cl_OnConnected (sc_listener (wc_impl t)) then [EvConnected] else []"
  have "WebClient_Connect na now cfg (\<lambda>_. None) dial t = Inr (t\<lparr>wc_impl := ?s\<rparr>, ?ev, None)"
    using assms(1,3,4) c
    by (simp add: WebClient_Connect_def connect_with_def SocketClientImpl_Retry_def SocketClientImpl_SetConnection_def
        SocketClientImpl_updateConn_def Let_def)
  then show thesis
    by (rule that) (use assms(2) in \<open>auto simp: WebClient_Close_def SocketClientImpl_updateConn_def Let_def\<close>)
qed

text \<open>A web client on the access side can be closed only twice: every \<open>Close\<close> leaves a token in the channel
  \<open>done\<close>, which nobody reads there, so after two connections the third \<open>Close\<close> waits forever while it holds
  the lock of the client.\<close>

theorem WebClient_third_close_blocks:
  assumes "\<forall>url tls. \<exists>c. dial url tls = Inr c"
  shows "\<exists>t2 t3 ev. web_cycles na now cfg dial 2 (NewWebClient now addr cfg :: ('c, 'p) WebClient) = Some t2 \<and>
     WebClient_Connect na now cfg (\<lambda>_. None) dial t2 = Inr (t3, ev, None) \<and> WebClient_Close na now t3 = None"
proof -
  let ?t = "NewWebClient now addr cfg :: ('c, 'p) WebClient"
  have t: "ss_connection (wc_impl ?t) = None" "ss_message (wc_impl ?t) \<noteq> None" "sc_status (wc_impl ?t) \<noteq> ClTerminal"
    "sc_status (wc_impl ?t) \<noteq> ClUnAuth" "wc_done ?t = 0"
    by (simp_all add: NewWebClient_def NewSocketClient_def)
  obtain a1 e1 t1 e1' where c1: "WebClient_Connect na now cfg (\<lambda>_. None) dial ?t = Inr (a1, e1, None)"
    "WebClient_Close na now a1 = Some (Inr (t1, e1'))" "wc_done t1 = 1" "ss_connection (wc_impl t1) = None"
    "ss_message (wc_impl t1) \<noteq> None" "sc_status (wc_impl t1) = ClClosed"
    by (rule web_cycle [OF t(1-4) assms, where na = na and now = now and cfg = cfg]) (use t(5) in auto)
  obtain a2 e2 t2 e2' where c2: "WebClient_Connect na now cfg (\<lambda>_. None) dial t1 = Inr (a2, e2, None)"
    "WebClient_Close na now a2 = Some (Inr (t2, e2'))" "wc_done t2 = 2" "ss_connection (wc_impl t2) = None"
    "ss_message (wc_impl t2) \<noteq> None" "sc_status (wc_impl t2) = ClClosed"
    by (rule web_cycle [OF c1(4,5) _ _ assms, where na = na and now = now and cfg = cfg]) (use c1 in auto)
  obtain a3 e3 where c3: "WebClient_Connect na now cfg (\<lambda>_. None) dial t2 = Inr (a3, e3, None)" "WebClient_Close na now a3 = None"
    by (rule web_cycle [OF c2(4,5) _ _ assms, where na = na and now = now and cfg = cfg]) (use c2 in auto)
  from c1 c2 c3 show ?thesis by (auto simp: numeral_2_eq_2)
qed

definition ex_web :: WebConfig where
  "ex_web = \<lparr>webc_Cert = False, webc_Block = None, webc_Timeout = 0, webc_RdQus = 8, webc_WrQus = 8\<rparr>"

theorem WebClient_third_close_blocks_witness:
  "\<exists>t2 t3 ev. web_cycles ex_na 5 ex_web (\<lambda>_ _. Inr []) 2 (NewWebClient 5 ''a:1'' ex_web :: (byte list list, unit) WebClient) = Some t2 \<and>
     WebClient_Connect ex_na 5 ex_web (\<lambda>_. None) (\<lambda>_ _. Inr []) t2 = Inr (t3, ev, None) \<and> WebClient_Close ex_na 5 t3 = None"
  by (rule WebClient_third_close_blocks) simp

section \<open>Promise\<close>

lemma Promise_Done_run:
  assumes "pr_MaxTry p > 0" and "0 \<le> pr_Count p" and "pr_Count p \<le> pr_MaxTry p" and "pr_First p \<le> B"
    and "pr_MaxInt p + pr_MinInt p \<le> B" and "\<forall>d \<in> set slept. d \<le> B"
  shows "\<exists>s' p' slept'. Promise_Done call slept p s = Some (s', p', slept') \<and> pr_Count p' \<le> pr_MaxTry p + 1 \<and>
     length slept' + nat (pr_Count p) \<le> length slept + nat (pr_MaxTry p) \<and> (\<forall>d \<in> set slept'. d \<le> B)"
  using assms
proof (induction "nat (pr_MaxTry p - pr_Count p)" arbitrary: p slept s rule: less_induct)
  case less
  let ?p = "p\<lparr>pr_Count := pr_Count p + 1\<rparr>"
  show ?case
  proof (cases "pr_Count ?p > pr_MaxTry p")
    case True
    with less.prems show ?thesis by (subst Promise_Done.simps) (auto simp: Let_def)
  next
    case False
    obtain s1 err where c: "call s = (s1, err)" by fastforce
    show ?thesis
    proof (cases err)
      case None
      with False less.prems c show ?thesis by (subst Promise_Done.simps) (auto simp: Let_def)
    next
      case (Some e)
      let ?q = "if pr_First ?p < pr_MaxInt ?p then ?p\<lparr>pr_First := pr_First ?p + pr_MinInt ?p\<rparr> else ?p"
      have r: "Promise_Done call slept p s = Promise_Done call (slept @ [pr_First p]) ?q s1"
        using False c Some by (subst Promise_Done.simps) (simp add: Let_def)
      have "\<exists>s' p' slept'. Promise_Done call (slept @ [pr_First p]) ?q s1 = Some (s', p', slept') \<and>
          pr_Count p' \<le> pr_MaxTry ?q + 1 \<and> length slept' + nat (pr_Count ?q) \<le> length (slept @ [pr_First p]) + nat (pr_MaxTry ?q) \<and>
          (\<forall>d \<in> set slept'. d \<le> B)"
        by (rule less.hyps) (use less.prems False in auto)
      with less.prems False show ?thesis unfolding r by (auto simp: nat_add_distrib split: if_splits)
    qed
  qed
qed

text \<open>A promise with a limit on its tries always returns, whatever the calls do: it makes at most \<open>MaxTry\<close>
  calls, sleeps at most that often and never longer than \<open>First\<close> or \<open>MaxInt + MinInt\<close>.\<close>

theorem Promise_Done_bounded:
  assumes "0 < pr_MaxTry p" and "pr_Count p = 0" and "pr_First p \<le> B" and "pr_MaxInt p + pr_MinInt p \<le> B"
  shows "\<exists>s' p' slept. Promise_Done call [] p s = Some (s', p', slept) \<and> pr_Count p' \<le> pr_MaxTry p + 1 \<and>
     length slept \<le> nat (pr_MaxTry p) \<and> (\<forall>d \<in> set slept. d \<le> B)"
  using Promise_Done_run [of p B "[]" call s] assms by simp

theorem Promise_Done_bounded_witness:
  "\<exists>s' p' slept. Promise_Done (\<lambda>n::nat. (Suc n, Some (NewErr ''no''))) [] ((NewPromise 2 5 30)\<lparr>pr_MaxTry := 3\<rparr>) 0 = Some (s', p', slept) \<and>
     pr_Count p' \<le> 4 \<and> length slept \<le> 3"
  using Promise_Done_bounded [of "(NewPromise 2 5 30)\<lparr>pr_MaxTry := 3\<rparr>" 35 "\<lambda>n::nat. (Suc n, Some (NewErr ''no''))" 0]
  by (auto simp: NewPromise_def)

end
