(* ===== verification/Tap.thy ===== *)
theory Tap
  imports Prelude
begin

text \<open>The virtual tap device (\<open>src/pkg/network/tap_virtual.go\<close>) and the registry of taps (\<open>taper.go\<close>).

  A tap has two bounded channels: \<open>kernQ\<close> from the bridge to the user of the tap (\<open>Send\<close> to \<open>Read\<close>) and \<open>virtQ\<close>
  the other way (\<open>Write\<close> to \<open>Recv\<close>), each beside a counter. A channel is \<open>None\<close> while it is nil, else the list
  of frames in it. \<open>Send\<close> and \<open>Write\<close> hold the lock all the time, so they are one step; \<open>Read\<close> and \<open>Recv\<close> drop
  the lock while they wait, so they have three: the check of the flag, the receive from the channel, and the
  update of the counter. Kernel taps are devices of the operating system and are not modelled.\<close>

section \<open>Data\<close>

abbreviation (input) UsClose :: "64 word" where "UsClose \<equiv> 2"
abbreviation (input) UsUp :: "64 word" where "UsUp \<equiv> 4"
abbreviation (input) TUN :: int where "TUN \<equiv> 1"

record DeviceStats =
  ds_Send :: i64
  ds_Recv :: i64
  ds_Drop :: i64

record TapConfig =
  tpc_Provider :: string
  tpc_Type :: int
  tpc_Network :: string
  tpc_Name :: string
  tpc_VirBuf :: int
  tpc_KernBuf :: int
  tpc_Mtu :: int

record VirtualTap =
  vt_kernC :: int
  vt_kernQ :: "byte list list option"
  vt_virtC :: int
  vt_virtQ :: "byte list list option"
  vt_master :: "string option"
  vt_tenant :: string
  vt_flags :: "64 word"
  vt_cfg :: TapConfig
  vt_name :: string
  vt_ifMtu :: int
  vt_sts :: DeviceStats

section \<open>The registry\<close>

text \<open>Taps are shared, so the registry maps a name to the number of a tap.\<close>

record tapers =
  tps_index :: int
  tps_devices :: "(string \<times> nat) list"

fun digits :: "nat \<Rightarrow> string" where
  "digits n = (if n < 10 then [char_of (48 + n)] else digits (n div 10) @ [char_of (48 + n mod 10)])"

definition show_int :: "int \<Rightarrow> string" where
  "show_int i = (if i < 0 then ''-'' @ digits (nat (- i)) else digits (nat i))"

definition tapers_GenName :: "tapers \<Rightarrow> tapers \<times> string" where
  "tapers_GenName t = (let t = t\<lparr>tps_index := tps_index t + 1\<rparr> in (t, ''vir'' @ show_int (tps_index t)))"

definition tapers_Add :: "string \<Rightarrow> nat \<Rightarrow> tapers \<Rightarrow> tapers" where
  "tapers_Add name i t = t\<lparr>tps_devices := AList.update name i (tps_devices t)\<rparr>"

definition tapers_Get :: "string \<Rightarrow> tapers \<Rightarrow> nat option" where
  "tapers_Get name t = map_of (tps_devices t) name"

definition tapers_Del :: "string \<Rightarrow> tapers \<Rightarrow> tapers" where
  "tapers_Del name t = (case map_of (tps_devices t) name of
     Some _ \<Rightarrow> t\<lparr>tps_devices := AList.delete name (tps_devices t)\<rparr> | None \<Rightarrow> t)"

definition tapers_List :: "tapers \<Rightarrow> nat list" where
  "tapers_List t = map snd (tps_devices t)"

section \<open>Operations of a virtual tap\<close>

text \<open>\<open>NewVirtualTap\<close>: \<open>i\<close> is the number of the new tap.\<close>

definition NewVirtualTap :: "string \<Rightarrow> TapConfig \<Rightarrow> nat \<Rightarrow> tapers \<Rightarrow> tapers \<times> VirtualTap" where
  "NewVirtualTap tenant c i taps =
     (let (taps, name) = (if tpc_Name c = [] then tapers_GenName taps else (taps, tpc_Name c));
          tap = \<lparr>vt_kernC = 0, vt_kernQ = None, vt_virtC = 0, vt_virtQ = None, vt_master = None,
            vt_tenant = tenant, vt_flags = 0, vt_cfg = c, vt_name = name, vt_ifMtu = 1514,
            vt_sts = \<lparr>ds_Send = 0, ds_Recv = 0, ds_Drop = 0\<rparr>\<rparr>
      in (tapers_Add name i taps, tap))"

definition VirtualTap_IsTun :: "VirtualTap \<Rightarrow> bool" where
  "VirtualTap_IsTun t \<longleftrightarrow> tpc_Type (vt_cfg t) = TUN"

definition VirtualTap_hasFlags :: "64 word \<Rightarrow> VirtualTap \<Rightarrow> bool" where
  "VirtualTap_hasFlags v t \<longleftrightarrow> vt_flags t AND v = v"

definition VirtualTap_setFlags :: "64 word \<Rightarrow> VirtualTap \<Rightarrow> VirtualTap" where
  "VirtualTap_setFlags v t = t\<lparr>vt_flags := vt_flags t OR v\<rparr>"

definition VirtualTap_clearFlags :: "64 word \<Rightarrow> VirtualTap \<Rightarrow> VirtualTap" where
  "VirtualTap_clearFlags v t = t\<lparr>vt_flags := vt_flags t AND NOT v\<rparr>"

definition VirtualTap_Has :: "64 word \<Rightarrow> VirtualTap \<Rightarrow> bool" where
  "VirtualTap_Has v t \<longleftrightarrow> VirtualTap_hasFlags v t"

definition tap_drop :: "VirtualTap \<Rightarrow> VirtualTap" where
  "tap_drop t = t\<lparr>vt_sts := (vt_sts t)\<lparr>ds_Drop := ds_Drop (vt_sts t) + 1\<rparr>\<rparr>"

text \<open>Sending on a channel with room for \<open>n\<close> frames, \<open>None\<close> when the sender waits (a nil channel: forever).\<close>

definition chan_send :: "int \<Rightarrow> byte list \<Rightarrow> byte list list option \<Rightarrow> byte list list option" where
  "chan_send n p ch = (case ch of None \<Rightarrow> None | Some q \<Rightarrow> if int (length q) < n then Some (q @ [p]) else None)"

text \<open>\<open>None\<close>: the call waits on the channel while it holds the lock.\<close>

definition VirtualTap_Write :: "byte list \<Rightarrow> VirtualTap \<Rightarrow> (VirtualTap \<times> int result) option" where
  "VirtualTap_Write p t =
     (if \<not> VirtualTap_hasFlags UsUp t then Some (t, Inl (NewErr ''notUp''))
      else if vt_virtC t \<ge> tpc_VirBuf (vt_cfg t) then Some (tap_drop t, Inr 0)
      else let t = t\<lparr>vt_virtC := vt_virtC t + 1\<rparr>
           in case chan_send (tpc_VirBuf (vt_cfg t)) p (vt_virtQ t) of
                None \<Rightarrow> None
              | Some q \<Rightarrow> Some (t\<lparr>vt_virtQ := Some q\<rparr>, Inr (int (length p))))"

definition VirtualTap_Send :: "byte list \<Rightarrow> VirtualTap \<Rightarrow> (VirtualTap \<times> int result) option" where
  "VirtualTap_Send p t =
     (if \<not> VirtualTap_hasFlags UsUp t then Some (t, Inl (NewErr ''notUp''))
      else if vt_kernC t \<ge> tpc_KernBuf (vt_cfg t) then Some (tap_drop t, Inr 0)
      else let t = t\<lparr>vt_kernC := vt_kernC t + 1\<rparr>
           in case chan_send (tpc_KernBuf (vt_cfg t)) p (vt_kernQ t) of
                None \<Rightarrow> None
              | Some q \<Rightarrow> Some (t\<lparr>vt_kernQ := Some q\<rparr>, Inr (int (length p))))"

text \<open>The three steps of \<open>Read\<close>: an error of the check ends it; the receive waits (\<open>None\<close>) on an empty or nil
  channel; the last step returns \<open>copy(p, data)\<close> for a buffer of \<open>n\<close> bytes.\<close>

definition Read_check :: "VirtualTap \<Rightarrow> error option" where
  "Read_check t = (if \<not> VirtualTap_hasFlags UsUp t then Some (NewErr ''notUp'') else None)"

definition Read_take :: "VirtualTap \<Rightarrow> (VirtualTap \<times> byte list) option" where
  "Read_take t = (case vt_kernQ t of Some (x # q) \<Rightarrow> Some (t\<lparr>vt_kernQ := Some q\<rparr>, x) | _ \<Rightarrow> None)"

definition Read_done :: "nat \<Rightarrow> byte list \<Rightarrow> VirtualTap \<Rightarrow> VirtualTap \<times> byte list" where
  "Read_done n x t = (t\<lparr>vt_kernC := vt_kernC t - 1\<rparr>, take n x)"

definition VirtualTap_Read :: "nat \<Rightarrow> VirtualTap \<Rightarrow> (VirtualTap \<times> byte list result) option" where
  "VirtualTap_Read n t =
     (case Read_check t of
        Some e \<Rightarrow> Some (t, Inl e)
      | None \<Rightarrow> (case Read_take t of
          None \<Rightarrow> None
        | Some (t, x) \<Rightarrow> (case Read_done n x t of (t, y) \<Rightarrow> Some (t, Inr y))))"

definition Recv_take :: "VirtualTap \<Rightarrow> (VirtualTap \<times> byte list) option" where
  "Recv_take t = (case vt_virtQ t of Some (x # q) \<Rightarrow> Some (t\<lparr>vt_virtQ := Some q\<rparr>, x) | _ \<Rightarrow> None)"

definition Recv_done :: "nat \<Rightarrow> byte list \<Rightarrow> VirtualTap \<Rightarrow> VirtualTap \<times> byte list" where
  "Recv_done n x t = (t\<lparr>vt_virtC := vt_virtC t - 1\<rparr>, take n x)"

definition VirtualTap_Recv :: "nat \<Rightarrow> VirtualTap \<Rightarrow> (VirtualTap \<times> byte list result) option" where
  "VirtualTap_Recv n t =
     (case Read_check t of
        Some e \<Rightarrow> Some (t, Inl e)
      | None \<Rightarrow> (case Recv_take t of
          None \<Rightarrow> None
        | Some (t, x) \<Rightarrow> (case Recv_done n x t of (t, y) \<Rightarrow> Some (t, Inr y))))"

definition VirtualTap_Up :: "VirtualTap \<Rightarrow> VirtualTap" where
  "VirtualTap_Up t =
     (if \<not> VirtualTap_hasFlags UsUp t
      then VirtualTap_setFlags UsUp (t\<lparr>vt_kernC := 0, vt_kernQ := Some [], vt_virtC := 0, vt_virtQ := Some []\<rparr>)
      else t)"

definition VirtualTap_Down :: "VirtualTap \<Rightarrow> VirtualTap" where
  "VirtualTap_Down t =
     (if VirtualTap_hasFlags UsUp t
      then (VirtualTap_clearFlags UsUp t)\<lparr>vt_kernQ := None, vt_virtQ := None\<rparr>
      else t)"

text \<open>\<open>Close\<close> also tells which bridge it calls \<open>DelSlave\<close> on, if any.\<close>

definition VirtualTap_Close :: "VirtualTap \<Rightarrow> tapers \<Rightarrow> VirtualTap \<times> tapers \<times> string option" where
  "VirtualTap_Close t taps =
     (let t = VirtualTap_Down t
      in if VirtualTap_hasFlags UsClose t then (t, taps, None)
         else let t = VirtualTap_clearFlags UsUp (VirtualTap_setFlags UsClose t)
              in (t\<lparr>vt_master := None\<rparr>, tapers_Del (vt_name t) taps, vt_master t))"

definition VirtualTap_Master :: "VirtualTap \<Rightarrow> string option" where
  "VirtualTap_Master t = vt_master t"

text \<open>\<open>SetMaster\<close> returns an error on every path.\<close>

definition VirtualTap_SetMaster :: "string \<Rightarrow> VirtualTap \<Rightarrow> VirtualTap upd" where
  "VirtualTap_SetMaster dev t =
     (let t = (if vt_master t = None then t\<lparr>vt_master := Some dev\<rparr> else t)
      in (t, Some (NewErr ''already to %s'')))"

definition VirtualTap_Mtu :: "VirtualTap \<Rightarrow> int" where
  "VirtualTap_Mtu t = vt_ifMtu t"

section \<open>Interleavings of the users of a tap\<close>

text \<open>The steps of the goroutines that use a tap that is up. \<open>u_kin\<close> and \<open>u_vin\<close> are the frames accepted into the two
  channels, \<open>u_kout\<close> and \<open>u_vout\<close> the frames received from them, \<open>u_kpend\<close> and \<open>u_vpend\<close> the numbers of readers
  between their receive and their update of the counter.\<close>

datatype tap_op = TSend "byte list" | TWrite "byte list" | TReadTake | TReadDone | TRecvTake | TRecvDone

record tap_use =
  u_tap :: VirtualTap
  u_kpend :: nat
  u_vpend :: nat
  u_kin :: "byte list list"
  u_vin :: "byte list list"
  u_kout :: "byte list list"
  u_vout :: "byte list list"

fun tap_step :: "tap_op \<Rightarrow> tap_use \<Rightarrow> tap_use option" where
  "tap_step (TSend p) u = (case VirtualTap_Send p (u_tap u) of
     None \<Rightarrow> None
   | Some (t, r) \<Rightarrow> Some (u\<lparr>u_tap := t, u_kin := (if vt_kernQ t = vt_kernQ (u_tap u) then u_kin u else u_kin u @ [p])\<rparr>))"
| "tap_step (TWrite p) u = (case VirtualTap_Write p (u_tap u) of
     None \<Rightarrow> None
   | Some (t, r) \<Rightarrow> Some (u\<lparr>u_tap := t, u_vin := (if vt_virtQ t = vt_virtQ (u_tap u) then u_vin u else u_vin u @ [p])\<rparr>))"
| "tap_step TReadTake u = Some (case Read_take (u_tap u) of
     None \<Rightarrow> u | Some (t, x) \<Rightarrow> u\<lparr>u_tap := t, u_kpend := u_kpend u + 1, u_kout := u_kout u @ [x]\<rparr>)"
| "tap_step TReadDone u = Some (if u_kpend u = 0 then u
     else u\<lparr>u_tap := fst (Read_done 0 [] (u_tap u)), u_kpend := u_kpend u - 1\<rparr>)"
| "tap_step TRecvTake u = Some (case Recv_take (u_tap u) of
     None \<Rightarrow> u | Some (t, x) \<Rightarrow> u\<lparr>u_tap := t, u_vpend := u_vpend u + 1, u_vout := u_vout u @ [x]\<rparr>)"
| "tap_step TRecvDone u = Some (if u_vpend u = 0 then u
     else u\<lparr>u_tap := fst (Recv_done 0 [] (u_tap u)), u_vpend := u_vpend u - 1\<rparr>)"

fun tap_run :: "tap_op list \<Rightarrow> tap_use \<Rightarrow> tap_use option" where
  "tap_run [] u = Some u"
| "tap_run (op # ops) u = (case tap_step op u of None \<Rightarrow> None | Some u \<Rightarrow> tap_run ops u)"

definition tap_start :: "VirtualTap \<Rightarrow> tap_use" where
  "tap_start t = \<lparr>u_tap = t, u_kpend = 0, u_vpend = 0, u_kin = [], u_vin = [], u_kout = [], u_vout = []\<rparr>"

definition tap_inv :: "tap_use \<Rightarrow> bool" where
  "tap_inv u \<longleftrightarrow> VirtualTap_hasFlags UsUp (u_tap u) \<and>
     (\<exists>kq vq. vt_kernQ (u_tap u) = Some kq \<and> vt_virtQ (u_tap u) = Some vq \<and>
        u_kin u = u_kout u @ kq \<and> u_vin u = u_vout u @ vq \<and>
        vt_kernC (u_tap u) = int (length kq) + int (u_kpend u) \<and> vt_kernC (u_tap u) \<le> tpc_KernBuf (vt_cfg (u_tap u)) \<and>
        vt_virtC (u_tap u) = int (length vq) + int (u_vpend u) \<and> vt_virtC (u_tap u) \<le> tpc_VirBuf (vt_cfg (u_tap u)))"

lemma flags_simps [simp]:
  "VirtualTap_hasFlags v (t\<lparr>vt_kernQ := q\<rparr>) = VirtualTap_hasFlags v t"
  "VirtualTap_hasFlags v (t\<lparr>vt_virtQ := q\<rparr>) = VirtualTap_hasFlags v t"
  "VirtualTap_hasFlags v (t\<lparr>vt_kernC := n\<rparr>) = VirtualTap_hasFlags v t"
  "VirtualTap_hasFlags v (t\<lparr>vt_virtC := n\<rparr>) = VirtualTap_hasFlags v t"
  "VirtualTap_hasFlags v (t\<lparr>vt_sts := d\<rparr>) = VirtualTap_hasFlags v t"
  by (simp_all add: VirtualTap_hasFlags_def)

lemma hasFlags_set [simp]: "VirtualTap_hasFlags v (VirtualTap_setFlags v t)"
  by (simp add: VirtualTap_hasFlags_def VirtualTap_setFlags_def)

lemma hasFlags_clear [simp]:
  assumes "v \<noteq> 0"
  shows "\<not> VirtualTap_hasFlags v (VirtualTap_clearFlags v t)"
proof -
  have "(vt_flags t AND NOT v) AND v = 0" by (rule bit_word_eqI) (simp add: bit_simps)
  with assms show ?thesis by (simp add: VirtualTap_hasFlags_def VirtualTap_clearFlags_def)
qed

lemma setFlags_fields [simp]:
  "vt_kernQ (VirtualTap_setFlags v t) = vt_kernQ t" "vt_virtQ (VirtualTap_setFlags v t) = vt_virtQ t"
  "vt_kernC (VirtualTap_setFlags v t) = vt_kernC t" "vt_virtC (VirtualTap_setFlags v t) = vt_virtC t"
  "vt_cfg (VirtualTap_setFlags v t) = vt_cfg t"
  by (simp_all add: VirtualTap_setFlags_def)

lemma tap_start_inv:
  assumes "\<not> VirtualTap_hasFlags UsUp t" and "0 \<le> tpc_KernBuf (vt_cfg t)" and "0 \<le> tpc_VirBuf (vt_cfg t)"
  shows "tap_inv (tap_start (VirtualTap_Up t))"
  using assms by (simp add: tap_inv_def tap_start_def VirtualTap_Up_def)

lemma tap_step_inv:
  assumes "tap_inv u"
  shows "\<exists>u'. tap_step op u = Some u' \<and> tap_inv u'"
  using assms
  by (cases op)
    (auto simp: tap_inv_def VirtualTap_Send_def VirtualTap_Write_def chan_send_def tap_drop_def Let_def Read_take_def
      Recv_take_def Read_done_def Recv_done_def split: list.splits)

lemma tap_run_inv: "tap_inv u \<Longrightarrow> \<exists>u'. tap_run ops u = Some u' \<and> tap_inv u'"
proof (induction ops arbitrary: u)
  case (Cons op ops)
  from tap_step_inv [OF Cons.prems, of op] obtain u1 where "tap_step op u = Some u1" "tap_inv u1" by blast
  with Cons.IH [of u1] show ?case by simp
qed simp

text \<open>C11. On a tap that has been brought up, no interleaving of senders, writers and readers ever makes \<open>Send\<close> or
  \<open>Write\<close> wait while they hold the lock, and each channel is a faithful queue: what was received is a prefix,
  in order, of what was accepted, and the rest is still in the channel.\<close>

theorem VirtualTap_queues:
  assumes "\<not> VirtualTap_hasFlags UsUp t" and "0 \<le> tpc_KernBuf (vt_cfg t)" and "0 \<le> tpc_VirBuf (vt_cfg t)"
  shows "\<exists>u kq vq. tap_run ops (tap_start (VirtualTap_Up t)) = Some u \<and>
     vt_kernQ (u_tap u) = Some kq \<and> u_kin u = u_kout u @ kq \<and> vt_virtQ (u_tap u) = Some vq \<and> u_vin u = u_vout u @ vq \<and>
     vt_kernC (u_tap u) = int (length kq) + int (u_kpend u) \<and> vt_virtC (u_tap u) = int (length vq) + int (u_vpend u)"
  using tap_run_inv [OF tap_start_inv [OF assms], of ops] by (auto simp: tap_inv_def)

definition ex_tapcfg :: TapConfig where
  "ex_tapcfg = \<lparr>tpc_Provider = ''virtual'', tpc_Type = 2, tpc_Network = [], tpc_Name = ''t0'', tpc_VirBuf = 2, tpc_KernBuf = 2, tpc_Mtu = 1500\<rparr>"

definition ex_tap :: VirtualTap where
  "ex_tap = snd (NewVirtualTap ''default'' ex_tapcfg 0 \<lparr>tps_index = 0, tps_devices = []\<rparr>)"

lemma ex_tap_down: "\<not> VirtualTap_hasFlags UsUp ex_tap" "vt_cfg ex_tap = ex_tapcfg"
  by (simp_all add: ex_tap_def NewVirtualTap_def ex_tapcfg_def VirtualTap_hasFlags_def)

theorem VirtualTap_queues_witness:
  "\<exists>u kq vq. tap_run [TSend [1], TSend [2], TReadTake, TSend [3], TReadDone, TSend [4]] (tap_start (VirtualTap_Up ex_tap)) = Some u \<and>
     vt_kernQ (u_tap u) = Some kq \<and> u_kin u = u_kout u @ kq \<and> vt_virtQ (u_tap u) = Some vq \<and> u_vin u = u_vout u @ vq \<and>
     vt_kernC (u_tap u) = int (length kq) + int (u_kpend u) \<and> vt_virtC (u_tap u) = int (length vq) + int (u_vpend u)"
  by (rule VirtualTap_queues) (use ex_tap_down in \<open>simp_all add: ex_tapcfg_def\<close>)

section \<open>Taking a tap down and up under a reader\<close>

fun send_all :: "byte list list \<Rightarrow> VirtualTap \<Rightarrow> VirtualTap option" where
  "send_all [] t = Some t"
| "send_all (p # ps) t = (case VirtualTap_Send p t of None \<Rightarrow> None | Some (t, _) \<Rightarrow> send_all ps t)"

lemma send_all_fill:
  assumes "VirtualTap_hasFlags UsUp t" and "vt_kernQ t = Some q" and "vt_kernC t < int (length q)"
    and "int (length q + length ps) \<le> tpc_KernBuf (vt_cfg t)"
  shows "\<exists>t'. send_all ps t = Some t' \<and> VirtualTap_hasFlags UsUp t' \<and> vt_kernQ t' = Some (q @ ps) \<and>
     vt_kernC t' = vt_kernC t + int (length ps) \<and> vt_cfg t' = vt_cfg t"
  using assms
proof (induction ps arbitrary: t q)
  case (Cons p ps)
  let ?t = "t\<lparr>vt_kernC := vt_kernC t + 1, vt_kernQ := Some (q @ [p])\<rparr>"
  have "VirtualTap_Send p t = Some (?t, Inr (int (length p)))"
    using Cons.prems by (simp add: VirtualTap_Send_def chan_send_def)
  with Cons.IH [of ?t "q @ [p]"] Cons.prems show ?case by auto
qed simp

text \<open>A reader that took a frame before the tap went down and up again makes the counter of the new channel
  negative; from then on the guard of \<open>Send\<close> lets one frame too many through: after \<open>KernBuf\<close> further frames the
  next \<open>Send\<close> waits on the full channel while it holds the lock.\<close>

theorem VirtualTap_reup_blocks:
  assumes "VirtualTap_hasFlags UsUp t" and "vt_kernQ t = Some (x # q)" and "int (length ps) = tpc_KernBuf (vt_cfg t)"
  shows "\<exists>t1 t2. Read_take t = Some (t1, x) \<and>
     send_all ps (fst (Read_done n x (VirtualTap_Up (VirtualTap_Down t1)))) = Some t2 \<and> VirtualTap_Send p t2 = None"
proof -
  let ?t1 = "t\<lparr>vt_kernQ := Some q\<rparr>"
  have down: "\<not> VirtualTap_hasFlags UsUp (VirtualTap_Down ?t1)"
    using assms(1) by (simp add: VirtualTap_Down_def)
  let ?t = "fst (Read_done n x (VirtualTap_Up (VirtualTap_Down ?t1)))"
  have t: "VirtualTap_hasFlags UsUp ?t" "vt_kernQ ?t = Some []" "vt_kernC ?t = -1" "vt_cfg ?t = vt_cfg t"
    using down by (simp_all add: VirtualTap_Up_def Read_done_def VirtualTap_Down_def VirtualTap_clearFlags_def)
  from send_all_fill [OF t(1,2), of ps] t assms(3) obtain t2 where t2: "send_all ps ?t = Some t2" "VirtualTap_hasFlags UsUp t2"
    "vt_kernQ t2 = Some ps" "vt_kernC t2 = int (length ps) - 1" "vt_cfg t2 = vt_cfg t" by auto
  have "VirtualTap_Send p t2 = None" using t2 assms(3) by (simp add: VirtualTap_Send_def chan_send_def)
  moreover have "Read_take t = Some (?t1, x)" using assms(2) by (simp add: Read_take_def)
  ultimately show ?thesis using t2(1) by blast
qed

theorem VirtualTap_reup_blocks_witness:
  "\<exists>t1 t2. Read_take ((VirtualTap_Up ex_tap)\<lparr>vt_kernQ := Some [[1]], vt_kernC := 1\<rparr>) = Some (t1, [1]) \<and>
     send_all [[2], [3]] (fst (Read_done 4 [1] (VirtualTap_Up (VirtualTap_Down t1)))) = Some t2 \<and> VirtualTap_Send [4] t2 = None"
  by (rule VirtualTap_reup_blocks) (use ex_tap_down in \<open>simp_all add: VirtualTap_Up_def ex_tapcfg_def\<close>)

end
