(* ===== verification/Bridge.thy ===== *)
theory Bridge
  imports Tap Protocol
begin

text \<open>The virtual bridge (\<open>src/pkg/network/bridge_virtual.go\<close>) and the registry of bridges (\<open>bridger.go\<close>): the table
  of ports, the forwarding database with its learning and expiry, unicast forwarding and flooding onto the taps
  of the theory \<^verbatim>\<open>Tap\<close>. Taps live in a store \<open>nat \<rightharpoonup> VirtualTap\<close>, ports and database entries hold their numbers;
  comparing two \<open>Taper\<close> values is comparing numbers. The tap to the kernel that \<open>Open\<close> creates is not modelled.\<close>

section \<open>Data\<close>

record MacFdb =
  fdb_Address :: "byte list"
  fdb_Device :: nat
  fdb_Uptime :: int
  fdb_NewTime :: int

text \<open>A frame is the first \<open>fr_len\<close> bytes of the buffer of the receiving goroutine; the code slices it up to the
  capacity of the buffer.\<close>

record Framer =
  fr_buf :: "byte list"
  fr_len :: nat
  fr_Source :: nat

definition fr_Data :: "Framer \<Rightarrow> byte list" where
  "fr_Data m = take (fr_len m) (fr_buf m)"

record VirtualBridge =
  vb_ipMtu :: int
  vb_name :: string
  vb_ports :: "(string \<times> nat) list"
  vb_macs :: "(string \<times> MacFdb) list"
  vb_timeout :: int
  vb_address :: string
  vb_kernel :: "nat option"
  vb_sts :: DeviceStats

type_synonym taps = "nat \<Rightarrow> VirtualTap option"

record bridger =
  brs_index :: int
  brs_devices :: "(string \<times> VirtualBridge) list"

definition bridger_Add :: "VirtualBridge \<Rightarrow> bridger \<Rightarrow> bridger" where
  "bridger_Add br t = t\<lparr>brs_devices := AList.update (vb_name br) br (brs_devices t)\<rparr>"

definition bridger_Get :: "string \<Rightarrow> bridger \<Rightarrow> VirtualBridge option" where
  "bridger_Get name t = map_of (brs_devices t) name"

definition bridger_Del :: "string \<Rightarrow> bridger \<Rightarrow> bridger" where
  "bridger_Del name t = (case map_of (brs_devices t) name of
     Some _ \<Rightarrow> t\<lparr>brs_devices := AList.delete name (brs_devices t)\<rparr> | None \<Rightarrow> t)"

definition bridger_List :: "bridger \<Rightarrow> VirtualBridge list" where
  "bridger_List t = map snd (brs_devices t)"

section \<open>Operations\<close>

definition NewVirtualBridge :: "string \<Rightarrow> int \<Rightarrow> VirtualBridge" where
  "NewVirtualBridge name mtu = \<lparr>vb_ipMtu = mtu, vb_name = name, vb_ports = [], vb_macs = [], vb_timeout = 5 * 60,
     vb_address = [], vb_kernel = None, vb_sts = \<lparr>ds_Send = 0, ds_Recv = 0, ds_Drop = 0\<rparr>\<rparr>"

definition VirtualBridge_Kernel :: "taps \<Rightarrow> VirtualBridge \<Rightarrow> string" where
  "VirtualBridge_Kernel ts b = (case vb_kernel b of None \<Rightarrow> []
     | Some k \<Rightarrow> (case ts k of None \<Rightarrow> [] | Some t \<Rightarrow> vt_name t))"

text \<open>\<open>AddSlave\<close> also starts the goroutine that receives from the tap, see \<open>port_loop\<close> below.\<close>

definition VirtualBridge_AddSlave :: "string \<Rightarrow> tapers \<Rightarrow> taps \<Rightarrow> VirtualBridge \<Rightarrow> taps \<times> VirtualBridge \<times> error option" where
  "VirtualBridge_AddSlave name reg ts b =
     (case tapers_Get name reg of
        None \<Rightarrow> (ts, b, Some (NewErr ''%s notFound''))
      | Some i \<Rightarrow>
          (let ts = (case ts i of None \<Rightarrow> ts | Some t \<Rightarrow> ts(i \<mapsto> fst (VirtualTap_SetMaster (vb_name b) t)))
           in (ts, b\<lparr>vb_ports := AList.update name i (vb_ports b)\<rparr>, None)))"

definition VirtualBridge_DelSlave :: "string \<Rightarrow> VirtualBridge \<Rightarrow> VirtualBridge" where
  "VirtualBridge_DelSlave name b = (case map_of (vb_ports b) name of
     Some _ \<Rightarrow> b\<lparr>vb_ports := AList.delete name (vb_ports b)\<rparr> | None \<Rightarrow> b)"

definition VirtualBridge_ListSlave :: "VirtualBridge \<Rightarrow> nat list" where
  "VirtualBridge_ListSlave b = map snd (vb_ports b)"

text \<open>The text of a hardware address: pairs of hexadecimal digits separated by colons.\<close>

definition hexdigits :: string where
  "hexdigits = ''0123456789abcdef''"

definition hex_byte :: "byte \<Rightarrow> string" where
  "hex_byte w = [hexdigits ! unat (drop_bit 4 w), hexdigits ! unat (w AND 15)]"

fun hw_string :: "byte list \<Rightarrow> string" where
  "hw_string [] = []"
| "hw_string [w] = hex_byte w"
| "hw_string (w # ws) = hex_byte w @ '':'' @ hw_string ws"

definition VirtualBridge_Eth2Str :: "byte list \<Rightarrow> string" where
  "VirtualBridge_Eth2Str addr = (if length addr < 6 then [] else hw_string addr)"

definition VirtualBridge_GetMac :: "string \<Rightarrow> VirtualBridge \<Rightarrow> MacFdb option" where
  "VirtualBridge_GetMac mac b = map_of (vb_macs b) mac"

definition VirtualBridge_AddMac :: "string \<Rightarrow> MacFdb \<Rightarrow> VirtualBridge \<Rightarrow> VirtualBridge" where
  "VirtualBridge_AddMac mac fdb b = b\<lparr>vb_macs := AList.update mac fdb (vb_macs b)\<rparr>"

definition VirtualBridge_UpdateMac :: "int \<Rightarrow> string \<Rightarrow> nat \<Rightarrow> VirtualBridge \<Rightarrow> VirtualBridge" where
  "VirtualBridge_UpdateMac now mac device b =
     (case map_of (vb_macs b) mac of
        Some fdb \<Rightarrow> b\<lparr>vb_macs := AList.update mac (fdb\<lparr>fdb_Uptime := now, fdb_Device := device\<rparr>) (vb_macs b)\<rparr>
      | None \<Rightarrow> b)"

definition VirtualBridge_ListMac :: "VirtualBridge \<Rightarrow> MacFdb list" where
  "VirtualBridge_ListMac b = map snd (vb_macs b)"

definition VirtualBridge_Learn :: "int \<Rightarrow> Framer \<Rightarrow> VirtualBridge \<Rightarrow> VirtualBridge result" where
  "VirtualBridge_Learn now m b =
     (if length (fr_buf m) < 12 then Inl oor
      else let mac = slice 6 12 (fr_buf m)
           in if mac ! 0 AND 1 = 1 then Inr b
              else let key = VirtualBridge_Eth2Str mac
                   in case VirtualBridge_GetMac key b of
                        Some _ \<Rightarrow> Inr (VirtualBridge_UpdateMac now key (fr_Source m) b)
                      | None \<Rightarrow> Inr (VirtualBridge_AddMac key
                          \<lparr>fdb_Address = mac, fdb_Device = fr_Source m, fdb_Uptime = now, fdb_NewTime = now\<rparr> b))"

definition stat_send :: "VirtualBridge \<Rightarrow> VirtualBridge" where
  "stat_send b = b\<lparr>vb_sts := (vb_sts b)\<lparr>ds_Send := ds_Send (vb_sts b) + 1\<rparr>\<rparr>"

definition stat_drop :: "VirtualBridge \<Rightarrow> VirtualBridge" where
  "stat_drop b = b\<lparr>vb_sts := (vb_sts b)\<lparr>ds_Drop := ds_Drop (vb_sts b) + 1\<rparr>\<rparr>"

text \<open>Sending a frame on a port; errors of \<open>Send\<close> are only logged. \<open>None\<close>: it waits.\<close>

definition port_send :: "byte list \<Rightarrow> nat \<Rightarrow> taps \<Rightarrow> taps option" where
  "port_send p i ts = (case ts i of
     None \<Rightarrow> Some ts
   | Some t \<Rightarrow> (case VirtualTap_Send p t of None \<Rightarrow> None | Some (t, _) \<Rightarrow> Some (ts(i \<mapsto> t))))"

fun flood_out :: "byte list \<Rightarrow> nat list \<Rightarrow> taps \<Rightarrow> VirtualBridge \<Rightarrow> (taps \<times> VirtualBridge) option" where
  "flood_out p [] ts b = Some (ts, b)"
| "flood_out p (i # is) ts b =
     (case port_send p i ts of None \<Rightarrow> None | Some ts \<Rightarrow> flood_out p is ts (stat_send b))"

definition VirtualBridge_Flood :: "Framer \<Rightarrow> taps \<Rightarrow> VirtualBridge \<Rightarrow> (taps \<times> VirtualBridge) option" where
  "VirtualBridge_Flood m ts b =
     flood_out (fr_Data m) (filter (\<lambda>port. fr_Source m \<noteq> port) (map snd (vb_ports b))) ts b"

definition VirtualBridge_UniCast :: "Framer \<Rightarrow> taps \<Rightarrow> VirtualBridge \<Rightarrow> (taps \<times> VirtualBridge \<times> error option) result option" where
  "VirtualBridge_UniCast m ts b =
     (if length (fr_buf m) < 6 then Some (Inl oor)
      else case VirtualBridge_GetMac (VirtualBridge_Eth2Str (slice 0 6 (fr_buf m))) b of
        None \<Rightarrow> Some (Inr (ts, b, Some (NewErr '' notFound'')))
      | Some learn \<Rightarrow>
          (let out = fdb_Device learn
           in if out \<noteq> fr_Source m \<and> (case ts out of None \<Rightarrow> False | Some t \<Rightarrow> VirtualTap_Has UsUp t)
              then (case port_send (fr_Data m) out ts of
                      None \<Rightarrow> None | Some ts \<Rightarrow> Some (Inr (ts, stat_send b, None)))
              else Some (Inr (ts, stat_drop b, None))))"

definition VirtualBridge_Forward :: "Framer \<Rightarrow> taps \<Rightarrow> VirtualBridge \<Rightarrow> (taps \<times> VirtualBridge) result option" where
  "VirtualBridge_Forward m ts b =
     (case VirtualBridge_UniCast m ts b of
        None \<Rightarrow> None
      | Some (Inl e) \<Rightarrow> Some (Inl e)
      | Some (Inr (ts, b, None)) \<Rightarrow> Some (Inr (ts, b))
      | Some (Inr (ts, b, Some e)) \<Rightarrow>
          (case VirtualBridge_Flood m ts b of None \<Rightarrow> None | Some r \<Rightarrow> Some (Inr r)))"

definition VirtualBridge_Input :: "int \<Rightarrow> Framer \<Rightarrow> taps \<Rightarrow> VirtualBridge \<Rightarrow> (taps \<times> VirtualBridge) result option" where
  "VirtualBridge_Input now m ts b =
     (let b = b\<lparr>vb_sts := (vb_sts b)\<lparr>ds_Recv := ds_Recv (vb_sts b) + 1\<rparr>\<rparr>
      in case VirtualBridge_Learn now m b of
           Inl e \<Rightarrow> Some (Inl e)
         | Inr b \<Rightarrow> VirtualBridge_Forward m ts b)"

text \<open>\<open>Expire\<close> collects under the read lock and deletes under the write lock, other goroutines can run in between.\<close>

definition Expire_collect :: "int \<Rightarrow> VirtualBridge \<Rightarrow> string list" where
  "Expire_collect now b = map fst (filter (\<lambda>(k, learn). now - fdb_Uptime learn > vb_timeout b) (vb_macs b))"

definition Expire_delete :: "string list \<Rightarrow> VirtualBridge \<Rightarrow> VirtualBridge" where
  "Expire_delete ds b = fold (\<lambda>d b. case map_of (vb_macs b) d of
     Some _ \<Rightarrow> b\<lparr>vb_macs := AList.delete d (vb_macs b)\<rparr> | None \<Rightarrow> b) ds b"

definition VirtualBridge_Expire :: "int \<Rightarrow> VirtualBridge \<Rightarrow> VirtualBridge" where
  "VirtualBridge_Expire now b = Expire_delete (Expire_collect now b) b"

text \<open>One turn of the goroutine of a port; the flag tells whether it goes on, an error or an empty frame ends it. The
  buffer has \<open>ipMtu\<close> bytes.\<close>

definition port_loop :: "int \<Rightarrow> nat \<Rightarrow> taps \<Rightarrow> VirtualBridge \<Rightarrow> (taps \<times> VirtualBridge \<times> bool) result option" where
  "port_loop now i ts b =
     (case ts i of
        None \<Rightarrow> Some (Inl nil_deref)
      | Some t \<Rightarrow>
          (case VirtualTap_Recv (nat (vb_ipMtu b)) t of
             None \<Rightarrow> None
           | Some (t, Inl e) \<Rightarrow> Some (Inr (ts(i \<mapsto> t), b, False))
           | Some (t, Inr data) \<Rightarrow>
               if data = [] then Some (Inr (ts(i \<mapsto> t), b, False))
               else (case VirtualBridge_Input now \<lparr>fr_buf = data @ replicate (nat (vb_ipMtu b) - length data) 0,
                        fr_len = length data, fr_Source = i\<rparr> (ts(i \<mapsto> t)) b of
                       None \<Rightarrow> None
                     | Some (Inl e) \<Rightarrow> Some (Inl e)
                     | Some (Inr (ts, b)) \<Rightarrow> Some (Inr (ts, b, True)))))"

definition VirtualBridge_Mtu :: "VirtualBridge \<Rightarrow> int" where
  "VirtualBridge_Mtu b = vb_ipMtu b"

definition VirtualBridge_Stp :: "bool \<Rightarrow> VirtualBridge \<Rightarrow> error option" where
  "VirtualBridge_Stp enable b = Some (NewErr ''operation notSupport'')"

definition VirtualBridge_Delay :: "int \<Rightarrow> VirtualBridge \<Rightarrow> error option" where
  "VirtualBridge_Delay value b = Some (NewErr ''operation notSupport'')"

definition VirtualBridge_Stats :: "VirtualBridge \<Rightarrow> DeviceStats" where
  "VirtualBridge_Stats b = vb_sts b"

definition VirtualBridge_CallIptables :: "int \<Rightarrow> VirtualBridge \<Rightarrow> error option" where
  "VirtualBridge_CallIptables value b = Some (NewErr ''operation notSupport'')"

section \<open>The text of hardware addresses\<close>

lemma nibbles_inj:
  fixes v w :: byte
  assumes "drop_bit 4 v = drop_bit 4 w" and "v AND 15 = w AND 15"
  shows "v = w"
proof (rule bit_word_eqI)
  fix n :: nat
  assume "n < LENGTH(8)"
  then have n: "n < 8" by simp
  show "bit v n = bit w n"
  proof (cases "n < 4")
    case True
    then have "bit (15 :: byte) n" by (auto simp: less_Suc_eq eval_nat_numeral)
    with arg_cong [OF assms(2), of "\<lambda>x. bit x n"] show ?thesis by (simp add: bit_simps)
  next
    case False
    with arg_cong [OF assms(1), of "\<lambda>x. bit x (n - 4)"] show ?thesis by (simp add: bit_simps)
  qed
qed

lemma nibble_less: "unat (drop_bit 4 (w :: byte)) < 16" "unat (w AND (15 :: byte)) < 16"
proof -
  have "unat w < 256" using unsigned_less [of w, where 'a = nat] by simp
  then show "unat (drop_bit 4 w) < 16" by (simp add: drop_bit_eq_div unat_div)
  have "w AND 15 \<le> 15" by (rule word_and_le1)
  then show "unat (w AND 15) < 16" by (simp add: word_le_nat_alt)
qed

lemma hex_nth_inj:
  assumes "i < 16" and "j < 16" and "hexdigits ! i = hexdigits ! j"
  shows "i = j"
proof -
  have "distinct hexdigits" "length hexdigits = 16" by (simp_all add: hexdigits_def)
  with assms show ?thesis using nth_eq_iff_index_eq by metis
qed

lemma hex_byte_inj:
  assumes "hex_byte v = hex_byte w"
  shows "v = w"
proof -
  from assms have e: "hexdigits ! unat (drop_bit 4 v) = hexdigits ! unat (drop_bit 4 w)"
    "hexdigits ! unat (v AND 15) = hexdigits ! unat (w AND 15)"
    unfolding hex_byte_def list.inject by (rule conjunct1, rule conjunct1 [OF conjunct2])
  show ?thesis
    by (rule nibbles_inj)
      (rule word_unat_eq_iff [THEN iffD2], rule hex_nth_inj [OF nibble_less(1) nibble_less(1) e(1)],
       rule word_unat_eq_iff [THEN iffD2], rule hex_nth_inj [OF nibble_less(2) nibble_less(2) e(2)])
qed

lemma length_hex_byte [simp]: "length (hex_byte w) = 2"
  by (simp add: hex_byte_def)

lemma hw_string_inj: "length xs = length ys \<Longrightarrow> hw_string xs = hw_string ys \<Longrightarrow> xs = ys"
proof (induction xs arbitrary: ys rule: hw_string.induct)
  case (2 w)
  then obtain v where "ys = [v]" by (cases ys) auto
  with 2 show ?case by (auto dest: hex_byte_inj)
next
  case (3 w w' ws)
  then obtain v v' vs where ys: "ys = v # v' # vs" by (cases ys rule: hw_string.cases) auto
  with 3 have "hex_byte w = hex_byte v" "hw_string (w' # ws) = hw_string (v' # vs)" by auto
  then have "w = v" "w' # ws = v' # vs" using "3.IH" [of "v' # vs"] "3.prems"(1) ys by (simp_all add: hex_byte_inj)
  with ys show ?case by simp
qed simp

lemma Eth2Str_inj: "length a = 6 \<Longrightarrow> length b = 6 \<Longrightarrow> VirtualBridge_Eth2Str a = VirtualBridge_Eth2Str b \<longleftrightarrow> a = b"
  using hw_string_inj [of a b] by (auto simp: VirtualBridge_Eth2Str_def)

section \<open>Forwarding\<close>

lemma port_send_other: "port_send p i ts = Some ts' \<Longrightarrow> j \<noteq> i \<Longrightarrow> ts' j = ts j"
  by (auto simp: port_send_def split: option.splits)

lemma port_send_hit: "port_send p i ts = Some ts' \<Longrightarrow> ts i = Some t \<Longrightarrow>
    \<exists>t' r. VirtualTap_Send p t = Some (t', r) \<and> ts' i = Some t'"
  by (auto simp: port_send_def split: option.splits)

lemma flood_out_other: "flood_out p is ts b = Some (ts', b') \<Longrightarrow> j \<notin> set is \<Longrightarrow> ts' j = ts j"
proof (induction "is" arbitrary: ts b)
  case (Cons i "is")
  then obtain ts1 where "port_send p i ts = Some ts1" "flood_out p is ts1 (stat_send b) = Some (ts', b')"
    by (auto split: option.splits)
  with Cons show ?case using port_send_other by fastforce
qed simp

lemma flood_out_hit:
  "flood_out p is ts b = Some (ts', b') \<Longrightarrow> distinct is \<Longrightarrow> j \<in> set is \<Longrightarrow> ts j = Some t \<Longrightarrow>
     \<exists>t' r. VirtualTap_Send p t = Some (t', r) \<and> ts' j = Some t'"
proof (induction "is" arbitrary: ts b)
  case (Cons i "is")
  then obtain ts1 where ts1: "port_send p i ts = Some ts1" "flood_out p is ts1 (stat_send b) = Some (ts', b')"
    by (auto split: option.splits)
  show ?case
  proof (cases "j = i")
    case True
    with Cons.prems flood_out_other [OF ts1(2), of j] port_send_hit [OF ts1(1), of t] show ?thesis by auto
  next
    case False
    with Cons.prems Cons.IH [OF ts1(2)] port_send_other [OF ts1(1) False] show ?thesis by auto
  qed
qed simp

lemma flood_out_bridge: "flood_out p is ts b = Some (ts', b') \<Longrightarrow> vb_macs b' = vb_macs b \<and> vb_ports b' = vb_ports b"
proof (induction "is" arbitrary: ts b)
  case (Cons i "is")
  then obtain ts1 where "flood_out p is ts1 (stat_send b) = Some (ts', b')" by (auto split: option.splits)
  with Cons.IH show ?case by (fastforce simp: stat_send_def)
qed simp

lemma Learn_cases:
  assumes "VirtualBridge_Learn now m b = Inr b'"
  obtains "12 \<le> length (fr_buf m)" "vb_ports b' = vb_ports b" "vb_timeout b' = vb_timeout b"
    "\<And>k. k \<noteq> VirtualBridge_Eth2Str (slice 6 12 (fr_buf m)) \<Longrightarrow> map_of (vb_macs b') k = map_of (vb_macs b) k"
    "fr_buf m ! 6 AND 1 \<noteq> 1 \<Longrightarrow> \<exists>l. map_of (vb_macs b') (VirtualBridge_Eth2Str (slice 6 12 (fr_buf m))) = Some l \<and>
       fdb_Device l = fr_Source m \<and> fdb_Uptime l = now"
  using assms
  by (auto simp: VirtualBridge_Learn_def Let_def VirtualBridge_GetMac_def VirtualBridge_UpdateMac_def
      VirtualBridge_AddMac_def map_of_upd_del slice_def split: if_splits option.splits)

lemma Input_cases:
  assumes "VirtualBridge_Input now m ts b = Some (Inr (ts', b'))"
  obtains b1 where "VirtualBridge_Learn now m (b\<lparr>vb_sts := (vb_sts b)\<lparr>ds_Recv := ds_Recv (vb_sts b) + 1\<rparr>\<rparr>) = Inr b1"
    "VirtualBridge_Forward m ts b1 = Some (Inr (ts', b'))"
  using assms by (auto simp: VirtualBridge_Input_def Let_def split: sum.splits)

lemma Forward_cases:
  assumes "VirtualBridge_Forward m ts b = Some (Inr (ts', b'))"
  obtains (sent) l where "VirtualBridge_GetMac (VirtualBridge_Eth2Str (slice 0 6 (fr_buf m))) b = Some l"
      "fdb_Device l \<noteq> fr_Source m" "port_send (fr_Data m) (fdb_Device l) ts = Some ts'"
  | (dropped) l where "VirtualBridge_GetMac (VirtualBridge_Eth2Str (slice 0 6 (fr_buf m))) b = Some l" "ts' = ts"
  | (flooded) "VirtualBridge_GetMac (VirtualBridge_Eth2Str (slice 0 6 (fr_buf m))) b = None"
      "VirtualBridge_Flood m ts b = Some (ts', b')"
  using assms unfolding VirtualBridge_Forward_def VirtualBridge_UniCast_def Let_def
  by (auto split: option.splits sum.splits prod.splits if_splits)

text \<open>C10. Split horizon: whatever the bridge has learned, a frame is never sent back to the tap it came in from.\<close>

theorem VirtualBridge_split_horizon:
  assumes "VirtualBridge_Input now m ts b = Some (Inr (ts', b'))"
  shows "ts' (fr_Source m) = ts (fr_Source m)"
proof -
  from assms obtain b1 where "VirtualBridge_Forward m ts b1 = Some (Inr (ts', b'))" by (rule Input_cases)
  then show ?thesis
  proof (cases rule: Forward_cases)
    case (sent l)
    then show ?thesis using port_send_other [of "fr_Data m" "fdb_Device l" ts ts' "fr_Source m"] by simp
  next
    case flooded
    then show ?thesis using flood_out_other [of _ _ ts b1 ts' b' "fr_Source m"] by (auto simp: VirtualBridge_Flood_def)
  qed simp
qed

definition ex_frm :: "byte list \<Rightarrow> byte list \<Rightarrow> nat \<Rightarrow> Framer" where
  "ex_frm dst src i = \<lparr>fr_buf = dst @ src @ [8, 0, 1, 2], fr_len = 16, fr_Source = i\<rparr>"

definition ex_taps :: taps where
  "ex_taps = (\<lambda>_. None)(0 \<mapsto> VirtualTap_Up ex_tap, 1 \<mapsto> VirtualTap_Up ex_tap, 2 \<mapsto> VirtualTap_Up ex_tap)"

definition ex_br :: VirtualBridge where
  "ex_br = (NewVirtualBridge ''br0'' 1500)\<lparr>vb_ports := [(''a'', 0), (''b'', 1), (''c'', 2)]\<rparr>"

text \<open>A frame from port 0 to an unknown address is flooded to ports 1 and 2.\<close>

definition ex_up :: VirtualTap where
  "ex_up = (VirtualTap_Up ex_tap)\<lparr>vt_kernC := 1, vt_kernQ := Some [[1, 2, 3, 4, 5, 6, 2, 2, 2, 2, 2, 2, 8, 0, 1, 2]]\<rparr>"

lemma ex_tap_send:
  "VirtualTap_Send [1, 2, 3, 4, 5, 6, 2, 2, 2, 2, 2, 2, 8, 0, 1, 2] (VirtualTap_Up ex_tap) = Some (ex_up, Inr 16)"
  using ex_tap_down by (simp add: VirtualTap_Send_def VirtualTap_Up_def chan_send_def ex_tapcfg_def ex_up_def)

lemma ex_input:
  "\<exists>b'. VirtualBridge_Input 100 (ex_frm [1, 2, 3, 4, 5, 6] [2, 2, 2, 2, 2, 2] 0) ex_taps ex_br =
     Some (Inr (ex_taps(1 \<mapsto> ex_up, 2 \<mapsto> ex_up), b')) \<and>
     map_of (vb_macs b') (VirtualBridge_Eth2Str [2, 2, 2, 2, 2, 2]) =
       Some \<lparr>fdb_Address = [2, 2, 2, 2, 2, 2], fdb_Device = 0, fdb_Uptime = 100, fdb_NewTime = 100\<rparr> \<and>
     vb_ports b' = vb_ports ex_br"
proof -
  have "VirtualBridge_Eth2Str [1, 2, 3, 4, 5, 6] \<noteq> VirtualBridge_Eth2Str [2, 2, 2, 2, 2, 2]"
    by (simp add: Eth2Str_inj)
  then show ?thesis
    by (simp add: VirtualBridge_Input_def VirtualBridge_Learn_def VirtualBridge_Forward_def VirtualBridge_UniCast_def
        VirtualBridge_Flood_def VirtualBridge_GetMac_def VirtualBridge_AddMac_def port_send_def ex_tap_send stat_send_def
        ex_frm_def ex_taps_def ex_br_def NewVirtualBridge_def slice_def fr_Data_def Let_def)
qed

theorem VirtualBridge_split_horizon_witness:
  "(ex_taps(1 \<mapsto> ex_up, 2 \<mapsto> ex_up)) (fr_Source (ex_frm [1, 2, 3, 4, 5, 6] [2, 2, 2, 2, 2, 2] 0)) =
     ex_taps (fr_Source (ex_frm [1, 2, 3, 4, 5, 6] [2, 2, 2, 2, 2, 2] 0))"
  using ex_input VirtualBridge_split_horizon by blast

text \<open>C9. Flooding: a frame to an address the bridge does not know goes to every other port exactly once, by that
  tap's \<open>Send\<close>, and to nothing else.\<close>

theorem VirtualBridge_floods_unknown:
  assumes "VirtualBridge_Input now m ts b = Some (Inr (ts', b'))"
    and "VirtualBridge_GetMac (VirtualBridge_Eth2Str (slice 0 6 (fr_buf m))) b = None"
    and "slice 0 6 (fr_buf m) \<noteq> slice 6 12 (fr_buf m)" and "distinct (map snd (vb_ports b))"
  shows "(\<forall>i t. i \<in> set (VirtualBridge_ListSlave b) \<longrightarrow> i \<noteq> fr_Source m \<longrightarrow> ts i = Some t \<longrightarrow>
       (\<exists>t' r. VirtualTap_Send (fr_Data m) t = Some (t', r) \<and> ts' i = Some t')) \<and>
     (\<forall>i. i \<notin> set (VirtualBridge_ListSlave b) \<or> i = fr_Source m \<longrightarrow> ts' i = ts i)"
proof -
  from assms(1) obtain b1 where b1: "VirtualBridge_Learn now m (b\<lparr>vb_sts := (vb_sts b)\<lparr>ds_Recv := ds_Recv (vb_sts b) + 1\<rparr>\<rparr>) = Inr b1"
    "VirtualBridge_Forward m ts b1 = Some (Inr (ts', b'))" by (rule Input_cases)
  from b1(1) have l: "12 \<le> length (fr_buf m)" "vb_ports b1 = vb_ports b"
    "\<And>k. k \<noteq> VirtualBridge_Eth2Str (slice 6 12 (fr_buf m)) \<Longrightarrow> map_of (vb_macs b1) k = map_of (vb_macs b) k"
    by (rule Learn_cases; simp)+
  have "VirtualBridge_GetMac (VirtualBridge_Eth2Str (slice 0 6 (fr_buf m))) b1 = None"
    using assms(2,3) l by (simp add: VirtualBridge_GetMac_def Eth2Str_inj)
  with b1(2) have "VirtualBridge_Flood m ts b1 = Some (ts', b')" by (cases rule: Forward_cases) auto
  then have f: "flood_out (fr_Data m) (filter (\<lambda>port. fr_Source m \<noteq> port) (map snd (vb_ports b))) ts b1 = Some (ts', b')"
    by (simp add: VirtualBridge_Flood_def l(2))
  show ?thesis
    using flood_out_hit [OF f] flood_out_other [OF f] assms(4) unfolding VirtualBridge_ListSlave_def by auto
qed

theorem VirtualBridge_floods_unknown_witness:
  "\<exists>t' r. VirtualTap_Send (fr_Data (ex_frm [1, 2, 3, 4, 5, 6] [2, 2, 2, 2, 2, 2] 0)) (VirtualTap_Up ex_tap) = Some (t', r) \<and>
     (ex_taps(1 \<mapsto> ex_up, 2 \<mapsto> ex_up)) 1 = Some t'"
proof -
  from ex_input obtain b' where b': "VirtualBridge_Input 100 (ex_frm [1, 2, 3, 4, 5, 6] [2, 2, 2, 2, 2, 2] 0) ex_taps ex_br =
     Some (Inr (ex_taps(1 \<mapsto> ex_up, 2 \<mapsto> ex_up), b'))" by blast
  have "1 \<in> set (VirtualBridge_ListSlave ex_br)" "1 \<noteq> fr_Source (ex_frm [1, 2, 3, 4, 5, 6] [2, 2, 2, 2, 2, 2] 0)"
    "ex_taps 1 = Some (VirtualTap_Up ex_tap)"
    by (simp_all add: ex_br_def VirtualBridge_ListSlave_def ex_frm_def ex_taps_def)
  moreover note VirtualBridge_floods_unknown [OF b']
  ultimately show ?thesis
    by (simp add: ex_br_def NewVirtualBridge_def VirtualBridge_GetMac_def ex_frm_def slice_def VirtualBridge_ListSlave_def)
qed

lemma Learn_total: "12 \<le> length (fr_buf m) \<Longrightarrow> \<exists>b'. VirtualBridge_Learn now m b = Inr b'"
  by (auto simp: VirtualBridge_Learn_def Let_def split: option.split)

lemma Forward_macs: "VirtualBridge_Forward m ts b = Some (Inr (ts', b')) \<Longrightarrow> vb_macs b' = vb_macs b \<and> vb_ports b' = vb_ports b"
  unfolding VirtualBridge_Forward_def VirtualBridge_UniCast_def VirtualBridge_Flood_def Let_def
  by (auto simp: stat_send_def stat_drop_def dest: flood_out_bridge split: option.splits sum.splits prod.splits if_splits)

text \<open>C8. Learning and forwarding: after a frame from tap \<open>p\<close> with a unicast source address, a frame to that address
  from another station on another tap goes to \<open>p\<close> alone while \<open>p\<close> is up, and is dropped, not flooded, when \<open>p\<close> is
  down.\<close>

theorem VirtualBridge_learned_unicast:
  assumes "VirtualBridge_Input now m ts b = Some (Inr (ts1, b1))" and "fr_buf m ! 6 AND 1 \<noteq> 1"
    and "12 \<le> length (fr_buf m2)" and "slice 0 6 (fr_buf m2) = slice 6 12 (fr_buf m)"
    and "slice 6 12 (fr_buf m2) \<noteq> slice 6 12 (fr_buf m)" and "fr_Source m2 \<noteq> fr_Source m"
    and "ts1 (fr_Source m) = Some t" and "VirtualTap_Send (fr_Data m2) t = Some (t', r)"
  shows "\<exists>b2. VirtualBridge_Input now2 m2 ts1 b1 =
     Some (Inr (if VirtualTap_Has UsUp t then ts1(fr_Source m \<mapsto> t') else ts1, b2))"
proof -
  let ?k = "VirtualBridge_Eth2Str (slice 6 12 (fr_buf m))"
  from assms(1) obtain b0 where b0: "VirtualBridge_Learn now m (b\<lparr>vb_sts := (vb_sts b)\<lparr>ds_Recv := ds_Recv (vb_sts b) + 1\<rparr>\<rparr>) = Inr b0"
    "VirtualBridge_Forward m ts b0 = Some (Inr (ts1, b1))" by (rule Input_cases)
  obtain l where "map_of (vb_macs b0) ?k = Some l" "fdb_Device l = fr_Source m"
    using Learn_cases [OF b0(1)] assms(2) by metis
  then have l: "map_of (vb_macs b1) ?k = Some l" "fdb_Device l = fr_Source m" using Forward_macs [OF b0(2)] by simp_all
  have len: "12 \<le> length (fr_buf m)" using Learn_cases [OF b0(1)] by metis
  let ?b = "b1\<lparr>vb_sts := (vb_sts b1)\<lparr>ds_Recv := ds_Recv (vb_sts b1) + 1\<rparr>\<rparr>"
  obtain b3 where b3: "VirtualBridge_Learn now2 m2 ?b = Inr b3" using Learn_total [OF assms(3)] by blast
  have "?k \<noteq> VirtualBridge_Eth2Str (slice 6 12 (fr_buf m2))"
    using assms(3,5) len by (simp add: Eth2Str_inj)
  then have "map_of (vb_macs b3) ?k = map_of (vb_macs ?b) ?k" using Learn_cases [OF b3] by metis
  then have g: "VirtualBridge_GetMac (VirtualBridge_Eth2Str (slice 0 6 (fr_buf m2))) b3 = Some l"
    using l(1) assms(4) by (simp add: VirtualBridge_GetMac_def)
  have "\<exists>b2. VirtualBridge_Forward m2 ts1 b3 =
      Some (Inr (if VirtualTap_Has UsUp t then ts1(fr_Source m \<mapsto> t') else ts1, b2))"
    using assms(3,6-8) g l(2)
    by (auto simp: VirtualBridge_Forward_def VirtualBridge_UniCast_def Let_def port_send_def)
  then show ?thesis by (simp add: VirtualBridge_Input_def Let_def b3)
qed

theorem VirtualBridge_learned_unicast_witness:
  "\<exists>b1 b2 t'. VirtualBridge_Input 100 (ex_frm [1, 2, 3, 4, 5, 6] [2, 2, 2, 2, 2, 2] 0) ex_taps ex_br =
       Some (Inr (ex_taps(1 \<mapsto> ex_up, 2 \<mapsto> ex_up), b1)) \<and>
     VirtualBridge_Input 101 (ex_frm [2, 2, 2, 2, 2, 2] [4, 4, 4, 4, 4, 4] 1) (ex_taps(1 \<mapsto> ex_up, 2 \<mapsto> ex_up)) b1 =
       Some (Inr (if VirtualTap_Has UsUp (VirtualTap_Up ex_tap)
         then (ex_taps(1 \<mapsto> ex_up, 2 \<mapsto> ex_up))(fr_Source (ex_frm [1, 2, 3, 4, 5, 6] [2, 2, 2, 2, 2, 2] 0) \<mapsto> t')
         else ex_taps(1 \<mapsto> ex_up, 2 \<mapsto> ex_up), b2))"
proof -
  let ?m = "ex_frm [1, 2, 3, 4, 5, 6] [2, 2, 2, 2, 2, 2] 0" and ?m2 = "ex_frm [2, 2, 2, 2, 2, 2] [4, 4, 4, 4, 4, 4] 1"
  let ?ts = "ex_taps(1 \<mapsto> ex_up, 2 \<mapsto> ex_up)"
  from ex_input obtain b1 where b1: "VirtualBridge_Input 100 ?m ex_taps ex_br = Some (Inr (?ts, b1))" by blast
  obtain t' r where s: "VirtualTap_Send (fr_Data ?m2) (VirtualTap_Up ex_tap) = Some (t', r)"
    using ex_tap_down by (simp add: VirtualTap_Send_def VirtualTap_Up_def chan_send_def ex_tapcfg_def)
  have "\<exists>b2. VirtualBridge_Input 101 ?m2 ?ts b1 =
      Some (Inr (if VirtualTap_Has UsUp (VirtualTap_Up ex_tap) then ?ts(fr_Source ?m \<mapsto> t') else ?ts, b2))"
    by (rule VirtualBridge_learned_unicast [OF b1 _ _ _ _ _ _ s])
      (simp_all add: ex_frm_def slice_def ex_taps_def)
  with b1 show ?thesis by blast
qed

section \<open>Expiry\<close>

lemma Expire_delete_lookup:
  "map_of (vb_macs (Expire_delete ds b)) k = (if k \<in> set ds then None else map_of (vb_macs b) k)"
proof (induction ds arbitrary: b)
  case (Cons d ds)
  define b1 where "b1 = (case map_of (vb_macs b) d of Some _ \<Rightarrow> b\<lparr>vb_macs := AList.delete d (vb_macs b)\<rparr> | None \<Rightarrow> b)"
  have "Expire_delete (d # ds) b = Expire_delete ds b1" by (simp add: Expire_delete_def b1_def)
  moreover have "map_of (vb_macs b1) k = (if k = d then None else map_of (vb_macs b) k)"
    by (auto simp: b1_def map_of_upd_del split: option.splits)
  ultimately show ?case using Cons.IH [of b1] by (auto split: if_splits)
qed (simp add: Expire_delete_def)

lemma Expire_collect_iff:
  assumes "keys_distinct (vb_macs b)"
  shows "k \<in> set (Expire_collect now b) \<longleftrightarrow> (\<exists>l. map_of (vb_macs b) k = Some l \<and> now - fdb_Uptime l > vb_timeout b)"
  using assms by (force simp: Expire_collect_def map_of_eq_Some_iff)

text \<open>\<open>Expire\<close> removes exactly the addresses that were not seen for longer than the timeout; running it again at
  the same time changes nothing.\<close>

theorem VirtualBridge_Expire_exact:
  assumes "keys_distinct (vb_macs b)"
  shows "VirtualBridge_GetMac k (VirtualBridge_Expire now b) =
      (case VirtualBridge_GetMac k b of Some l \<Rightarrow> if now - fdb_Uptime l > vb_timeout b then None else Some l | None \<Rightarrow> None) \<and>
     Expire_collect now (VirtualBridge_Expire now b) = []"
proof
  have same: "vb_timeout (Expire_delete ds b) = vb_timeout b \<and> (keys_distinct (vb_macs b) \<longrightarrow> keys_distinct (vb_macs (Expire_delete ds b)))"
    for ds b
    by (induction ds arbitrary: b) (auto simp: Expire_delete_def AList.distinct_delete split: option.splits)
  show "VirtualBridge_GetMac k (VirtualBridge_Expire now b) =
      (case VirtualBridge_GetMac k b of Some l \<Rightarrow> if now - fdb_Uptime l > vb_timeout b then None else Some l | None \<Rightarrow> None)"
    using Expire_collect_iff [OF assms, of k now]
    by (auto simp: VirtualBridge_Expire_def VirtualBridge_GetMac_def Expire_delete_lookup split: option.splits)
  have "x \<notin> set (Expire_collect now (VirtualBridge_Expire now b))" for x
    using Expire_collect_iff [of "VirtualBridge_Expire now b" x now] Expire_collect_iff [OF assms, of x now] same assms
    by (auto simp: VirtualBridge_Expire_def Expire_delete_lookup split: if_splits)
  then show "Expire_collect now (VirtualBridge_Expire now b) = []" by (metis list.set_intros(1) neq_Nil_conv)
qed

definition ex_fdb :: "int \<Rightarrow> MacFdb" where
  "ex_fdb up = \<lparr>fdb_Address = [2, 2, 2, 2, 2, 2], fdb_Device = 0, fdb_Uptime = up, fdb_NewTime = 1\<rparr>"

theorem VirtualBridge_Expire_exact_witness:
  "let b = ex_br\<lparr>vb_macs := [(''a'', ex_fdb 10), (''b'', ex_fdb 390)]\<rparr>
   in VirtualBridge_GetMac ''a'' (VirtualBridge_Expire 400 b) =
      (case VirtualBridge_GetMac ''a'' b of Some l \<Rightarrow> if 400 - fdb_Uptime l > vb_timeout b then None else Some l | None \<Rightarrow> None) \<and>
     Expire_collect 400 (VirtualBridge_Expire 400 b) = []"
  unfolding Let_def by (rule VirtualBridge_Expire_exact) simp

text \<open>The expiry can lose a live station: an address that is refreshed between the collecting and the deleting half
  of \<open>Expire\<close> is deleted although it was just seen.\<close>

theorem VirtualBridge_Expire_race:
  assumes "keys_distinct (vb_macs b)" and "VirtualBridge_GetMac k b = Some l" and "now - fdb_Uptime l > vb_timeout b"
  shows "\<exists>l'. VirtualBridge_GetMac k (VirtualBridge_UpdateMac now k dev b) = Some l' \<and> fdb_Uptime l' = now \<and>
     VirtualBridge_GetMac k (Expire_delete (Expire_collect now b) (VirtualBridge_UpdateMac now k dev b)) = None"
  using assms Expire_collect_iff [OF assms(1), of k now]
  by (auto simp: VirtualBridge_GetMac_def VirtualBridge_UpdateMac_def Expire_delete_lookup map_of_upd_del)

theorem VirtualBridge_Expire_race_witness:
  "let b = ex_br\<lparr>vb_macs := [(''a'', ex_fdb 10)]\<rparr>
   in \<exists>l'. VirtualBridge_GetMac ''a'' (VirtualBridge_UpdateMac 400 ''a'' 1 b) = Some l' \<and> fdb_Uptime l' = 400 \<and>
     VirtualBridge_GetMac ''a'' (Expire_delete (Expire_collect 400 b) (VirtualBridge_UpdateMac 400 ''a'' 1 b)) = None"
  unfolding Let_def
  by (rule VirtualBridge_Expire_race [where l = "ex_fdb 10"])
    (simp_all add: VirtualBridge_GetMac_def ex_fdb_def ex_br_def NewVirtualBridge_def)

end
