(* ===== verification/Firewall.thy ===== *)
theory Firewall
  imports Tap
begin

text \<open>The firewall (\<open>src/pkg/network/iptables.go\<close>, \<open>firewall.go\<close>): rules and chains, the arguments a rule is turned
  into, and the firewall's operations. The iptables library is a parameter: a record of operations on the state \<open>'k\<close>
  of the kernel's tables; what the properties need of it is the predicate \<open>ipt_ok\<close>. The operating system is Linux,
  on every other one \<open>Opr\<close> only returns an error.\<close>

section \<open>Rules and chains\<close>

record IpRule =
  ru_Table :: string
  ru_Chain :: string
  ru_Source :: string
  ru_ToSource :: string
  ru_Dest :: string
  ru_ToDest :: string
  ru_Proto :: string
  ru_DstPort :: string
  ru_SrcPort :: string
  ru_Input :: string
  ru_Output :: string
  ru_Comment :: string
  ru_Jump :: string
  ru_SetMss :: int
  ru_Order :: string
  ru_Match :: string
  ru_TcpFlag :: "string list"

text \<open>The rule with all fields empty, fields of a composite literal that are not named are empty.\<close>

definition empty_rule :: IpRule where
  "empty_rule = \<lparr>ru_Table = [], ru_Chain = [], ru_Source = [], ru_ToSource = [], ru_Dest = [], ru_ToDest = [],
     ru_Proto = [], ru_DstPort = [], ru_SrcPort = [], ru_Input = [], ru_Output = [], ru_Comment = [], ru_Jump = [],
     ru_SetMss = 0, ru_Order = [], ru_Match = [], ru_TcpFlag = []\<rparr>"

record IpChain =
  ch_Table :: string
  ch_Name :: string

definition to_upper :: "string \<Rightarrow> string" where
  "to_upper s = map (\<lambda>c. let n = (of_char c :: nat) in if 97 \<le> n \<and> n \<le> 122 then char_of (n - 32) else c) s"

text \<open>\<open>TcpFlag[1]\<close> panics for a single flag.\<close>

definition IpRule_Args :: "IpRule \<Rightarrow> string list result" where
  "IpRule_Args ru =
     (let args = (if ru_Source ru \<noteq> [] then [''-s'', ru_Source ru] else []);
          args = args @ (if ru_Dest ru \<noteq> [] then [''-d'', ru_Dest ru] else []);
          args = args @ (if ru_Proto ru \<noteq> [] then [''-p'', ru_Proto ru] else []);
          args = args @ (if ru_Match ru \<noteq> [] then [''-m'', ru_Match ru] else [])
      in if length (ru_TcpFlag ru) = 1 then Inl oor
         else let args = args @ (if length (ru_TcpFlag ru) > 0
                     then [''--tcp-flags'', ru_TcpFlag ru ! 0, ru_TcpFlag ru ! 1] else []);
                  args = args @ (if length (ru_SrcPort ru) > 0 then [''--sport'', ru_SrcPort ru] else []);
                  args = args @ (if length (ru_DstPort ru) > 0
                     then (if ru_Match ru = ''multiport'' then [''--dports'', ru_DstPort ru] else [''--dport'', ru_DstPort ru]) else []);
                  args = args @ (if ru_Input ru \<noteq> [] then [''-i'', ru_Input ru] else []);
                  args = args @ (if ru_Output ru \<noteq> [] then [''-o'', ru_Output ru] else []);
                  args = args @ (if ru_Jump ru \<noteq> []
                     then (let jump = to_upper (ru_Jump ru)
                           in (if jump = ''DROP'' \<or> jump = ''ACCEPT'' then [''-j'', jump] else [''-j'', ru_Jump ru]) @
                              (if ru_SetMss ru > 0 then [''--set-mss'', show_int (ru_SetMss ru)] else []))
                     else [''-j'', ''ACCEPT'']);
                  args = args @ (if ru_ToSource ru \<noteq> [] then [''--to-source'', ru_ToSource ru] else []);
                  args = args @ (if ru_ToDest ru \<noteq> [] then [''--to-destination'', ru_ToDest ru] else [])
              in Inr args)"

definition IpRule_Eq :: "IpRule \<Rightarrow> IpRule \<Rightarrow> bool" where
  "IpRule_Eq ru obj \<longleftrightarrow>
     ru_Table ru = ru_Table obj \<and> ru_Chain ru = ru_Chain obj \<and> ru_Input ru = ru_Input obj \<and>
     ru_Source ru = ru_Source obj \<and> ru_ToSource ru = ru_ToSource obj \<and> ru_Dest ru = ru_Dest obj \<and>
     ru_ToDest ru = ru_ToDest obj \<and> ru_Proto ru = ru_Proto obj \<and> ru_SrcPort ru = ru_SrcPort obj \<and>
     ru_DstPort ru = ru_DstPort obj"

definition IpChain_Eq :: "IpChain \<Rightarrow> IpChain \<Rightarrow> bool" where
  "IpChain_Eq ch obj \<longleftrightarrow> ch_Table ch = ch_Table obj \<and> ch_Name ch = ch_Name obj"

text \<open>The operations of the iptables library the code calls.\<close>

record 'k iptables =
  ipt_Exists :: "'k \<Rightarrow> string \<Rightarrow> string \<Rightarrow> string list \<Rightarrow> bool"
  ipt_Raw :: "'k \<Rightarrow> string list \<Rightarrow> 'k \<times> error option"
  ipt_ExistChain :: "'k \<Rightarrow> string \<Rightarrow> string \<Rightarrow> bool"
  ipt_NewChain :: "'k \<Rightarrow> string \<Rightarrow> string \<Rightarrow> 'k \<times> error option"
  ipt_RemoveExistingChain :: "'k \<Rightarrow> string \<Rightarrow> string \<Rightarrow> 'k \<times> error option"

text \<open>\<open>Inl\<close> is the panic of \<open>Args\<close>.\<close>

definition IpRule_Opr :: "'k iptables \<Rightarrow> string \<Rightarrow> IpRule \<Rightarrow> 'k \<Rightarrow> ('k \<times> error option) result" where
  "IpRule_Opr ipt opr ru k =
     (case IpRule_Args ru of
        Inl e \<Rightarrow> Inl e
      | Inr args \<Rightarrow>
          (let fullArgs = [''-t'', ru_Table ru, opr, ru_Chain ru] @ args
           in if (opr = ''-I'' \<or> opr = ''-A'') \<and> ipt_Exists ipt k (ru_Table ru) (ru_Chain ru) args then Inr (k, None)
              else Inr (ipt_Raw ipt k fullArgs)))"

definition IpChain_Opr :: "'k iptables \<Rightarrow> string \<Rightarrow> IpChain \<Rightarrow> 'k \<Rightarrow> 'k \<times> error option" where
  "IpChain_Opr ipt opr ch k =
     (if opr = ''-N''
      then if ipt_ExistChain ipt k (ch_Name ch) (ch_Table ch) then (k, None)
           else ipt_NewChain ipt k (ch_Name ch) (ch_Table ch)
      else if opr = ''-X'' then ipt_RemoveExistingChain ipt k (ch_Name ch) (ch_Table ch)
      else (k, None))"

definition IpRules_Add :: "IpRule \<Rightarrow> IpRule list \<Rightarrow> IpRule list" where
  "IpRules_Add obj rules = rules @ [obj]"

definition IpChains_Add :: "IpChain \<Rightarrow> IpChain list \<Rightarrow> IpChain list" where
  "IpChains_Add obj cs = cs @ [obj]"

text \<open>The loops of \<open>Pop\<close>: \<open>news\<close> is made with length zero, \<open>news[index] = item\<close> panics when the index is not below its
  length. The result is the slice of the first \<open>index\<close> elements.\<close>

fun Pop_loop :: "('a \<Rightarrow> 'a \<Rightarrow> bool) \<Rightarrow> 'a \<Rightarrow> 'a list \<Rightarrow> bool \<Rightarrow> nat \<Rightarrow> 'a list \<Rightarrow> 'a list result" where
  "Pop_loop eq obj [] found index news = Inr (take index news)"
| "Pop_loop eq obj (item # items) found index news =
     (if \<not> found \<and> eq item obj then Pop_loop eq obj items True index news
      else if index < length news then Pop_loop eq obj items found (index + 1) (news[index := item])
      else Inl oor)"

definition IpRules_Pop :: "IpRule \<Rightarrow> IpRule list \<Rightarrow> IpRule list result" where
  "IpRules_Pop obj rules = Pop_loop IpRule_Eq obj rules False 0 []"

definition IpChains_Pop :: "IpChain \<Rightarrow> IpChain list \<Rightarrow> IpChain list result" where
  "IpChains_Pop obj cs = Pop_loop IpChain_Eq obj cs False 0 []"

section \<open>The firewall\<close>

record FireWall =
  fw_chains :: "IpChain list"
  fw_rules :: "IpRule list"

definition FireWall_AddChain :: "IpChain \<Rightarrow> FireWall \<Rightarrow> FireWall" where
  "FireWall_AddChain ch f = f\<lparr>fw_chains := IpChains_Add ch (fw_chains f)\<rparr>"

definition FireWall_AddRule :: "IpRule \<Rightarrow> FireWall \<Rightarrow> FireWall" where
  "FireWall_AddRule rule f = f\<lparr>fw_rules := IpRules_Add rule (fw_rules f)\<rparr>"

text \<open>A custom rule of the configuration (\<open>config.FlowRule\<close>).\<close>

record FlowRule =
  fl_Table :: string
  fl_Chain :: string
  fl_Input :: string
  fl_Source :: string
  fl_ToSource :: string
  fl_Dest :: string
  fl_ToDest :: string
  fl_Output :: string
  fl_Comment :: string
  fl_Proto :: string
  fl_Match :: string
  fl_DstPort :: string
  fl_SrcPort :: string
  fl_Jump :: string

definition NewFireWall :: "FlowRule list \<Rightarrow> FireWall" where
  "NewFireWall flows = fold (\<lambda>rule f. f\<lparr>fw_rules := IpRules_Add (empty_rule\<lparr>ru_Table := fl_Table rule, ru_Chain := fl_Chain rule,
      ru_Source := fl_Source rule, ru_Dest := fl_Dest rule, ru_Jump := fl_Jump rule, ru_ToSource := fl_ToSource rule,
      ru_ToDest := fl_ToDest rule, ru_Comment := fl_Comment rule, ru_Proto := fl_Proto rule, ru_Match := fl_Match rule,
      ru_DstPort := fl_DstPort rule, ru_SrcPort := fl_SrcPort rule, ru_Input := fl_Input rule, ru_Output := fl_Output rule\<rparr>)
      (fw_rules f)\<rparr>) flows \<lparr>fw_chains = [], fw_rules = []\<rparr>"

abbreviation (input) olc :: "string \<Rightarrow> string \<Rightarrow> IpChain" where
  "olc t n \<equiv> \<lparr>ch_Table = t, ch_Name = n\<rparr>"

definition FireWall_addOLC :: "FireWall \<Rightarrow> FireWall" where
  "FireWall_addOLC f = fold FireWall_AddChain
     [olc ''filter'' ''OPENLAN-IN'', olc ''filter'' ''OPENLAN-FWD'', olc ''filter'' ''OPENLAN-OUT'',
      olc ''nat'' ''OPENLAN-PRE'', olc ''nat'' ''OPENLAN-IN'', olc ''nat'' ''OPENLAN-POST'', olc ''nat'' ''OPENLAN-OUT'',
      olc ''mangle'' ''OPENLAN-PRE'', olc ''mangle'' ''OPENLAN-IN'', olc ''mangle'' ''OPENLAN-FWD'',
      olc ''mangle'' ''OPENLAN-POST'', olc ''mangle'' ''OPENLAN-OUT'', olc ''raw'' ''OPENLAN-PRE'', olc ''raw'' ''OPENLAN-OUT''] f"

abbreviation (input) jump :: "string \<Rightarrow> string \<Rightarrow> string \<Rightarrow> IpRule" where
  "jump t c j \<equiv> empty_rule\<lparr>ru_Order := ''-I'', ru_Table := t, ru_Chain := c, ru_Jump := j\<rparr>"

definition FireWall_jumpOLC :: "FireWall \<Rightarrow> FireWall" where
  "FireWall_jumpOLC f = fold FireWall_AddRule
     [jump ''filter'' ''INPUT'' ''OPENLAN-IN'', jump ''filter'' ''FORWARD'' ''OPENLAN-FWD'', jump ''filter'' ''OUTPUT'' ''OPENLAN-OUT'',
      jump ''nat'' ''PREROUTING'' ''OPENLAN-PRE'', jump ''nat'' ''INPUT'' ''OPENLAN-IN'', jump ''nat'' ''POSTROUTING'' ''OPENLAN-POST'',
      jump ''nat'' ''OUTPUT'' ''OPENLAN-OUT'', jump ''mangle'' ''PREROUTING'' ''OPENLAN-PRE'', jump ''mangle'' ''INPUT'' ''OPENLAN-IN'',
      jump ''mangle'' ''FORWARD'' ''OPENLAN-FWD'', jump ''mangle'' ''POSTROUTING'' ''OPENLAN-POST'', jump ''mangle'' ''OUTPUT'' ''OPENLAN-OUT'',
      jump ''raw'' ''PREROUTING'' ''OPENLAN-PRE'', jump ''raw'' ''OUTPUT'' ''OPENLAN-OUT''] f"

definition FireWall_Initialize :: "FireWall \<Rightarrow> FireWall" where
  "FireWall_Initialize f = FireWall_jumpOLC (FireWall_addOLC f)"

definition rule_order :: "IpRule \<Rightarrow> string" where
  "rule_order rule = (if ru_Order rule = [] then ''-A'' else ru_Order rule)"

definition FireWall_ApplyRule :: "'k iptables \<Rightarrow> IpRule \<Rightarrow> FireWall \<Rightarrow> 'k \<Rightarrow> (FireWall \<times> 'k \<times> error option) result" where
  "FireWall_ApplyRule ipt rule f k =
     (case IpRule_Opr ipt (rule_order rule) rule k of
        Inl e \<Rightarrow> Inl e
      | Inr (k, Some e) \<Rightarrow> Inr (f, k, Some e)
      | Inr (k, None) \<Rightarrow> Inr (f\<lparr>fw_rules := IpRules_Add rule (fw_rules f)\<rparr>, k, None))"

text \<open>The loops over the rules and chains log errors and go on.\<close>

fun each_rule :: "'k iptables \<Rightarrow> (IpRule \<Rightarrow> string) \<Rightarrow> IpRule list \<Rightarrow> 'k \<Rightarrow> 'k result" where
  "each_rule ipt opr [] k = Inr k"
| "each_rule ipt opr (r # rs) k =
     (case IpRule_Opr ipt (opr r) r k of Inl e \<Rightarrow> Inl e | Inr (k, _) \<Rightarrow> each_rule ipt opr rs k)"

fun each_chain :: "'k iptables \<Rightarrow> string \<Rightarrow> IpChain list \<Rightarrow> 'k \<Rightarrow> 'k" where
  "each_chain ipt opr [] k = k"
| "each_chain ipt opr (c # cs) k = each_chain ipt opr cs (fst (IpChain_Opr ipt opr c k))"

definition FireWall_install :: "'k iptables \<Rightarrow> FireWall \<Rightarrow> 'k \<Rightarrow> 'k result" where
  "FireWall_install ipt f k = each_rule ipt rule_order (fw_rules f) (each_chain ipt ''-N'' (fw_chains f) k)"

definition FireWall_uninstall :: "'k iptables \<Rightarrow> FireWall \<Rightarrow> 'k \<Rightarrow> 'k result" where
  "FireWall_uninstall ipt f k =
     (case each_rule ipt (\<lambda>_. ''-D'') (fw_rules f) k of
        Inl e \<Rightarrow> Inl e | Inr k \<Rightarrow> Inr (each_chain ipt ''-X'' (fw_chains f) k))"

text \<open>\<open>Start\<close> also registers \<open>install\<close> to run again whenever the rules of the host are reloaded.\<close>

definition FireWall_Start :: "'k iptables \<Rightarrow> FireWall \<Rightarrow> 'k \<Rightarrow> 'k result" where
  "FireWall_Start ipt f k = FireWall_install ipt f k"

definition FireWall_Stop :: "'k iptables \<Rightarrow> FireWall \<Rightarrow> 'k \<Rightarrow> 'k result" where
  "FireWall_Stop ipt f k = FireWall_uninstall ipt f k"

definition FireWall_Refresh :: "'k iptables \<Rightarrow> FireWall \<Rightarrow> 'k \<Rightarrow> 'k result" where
  "FireWall_Refresh ipt f k =
     (case FireWall_uninstall ipt f k of Inl e \<Rightarrow> Inl e | Inr k \<Rightarrow> FireWall_install ipt f k)"

text \<open>The panic of \<open>Pop\<close> comes after the rule is gone from the kernel: the state of the kernel is part of the result.\<close>

definition FireWall_RevokeRule :: "'k iptables \<Rightarrow> IpRule \<Rightarrow> FireWall \<Rightarrow> 'k \<Rightarrow> FireWall \<times> 'k \<times> error option" where
  "FireWall_RevokeRule ipt rule f k =
     (case IpRule_Opr ipt ''-D'' rule k of
        Inl e \<Rightarrow> (f, k, Some e)
      | Inr (k, Some e) \<Rightarrow> (f, k, Some e)
      | Inr (k, None) \<Rightarrow> (case IpRules_Pop rule (fw_rules f) of
          Inl e \<Rightarrow> (f, k, Some e)
        | Inr rules \<Rightarrow> (f\<lparr>fw_rules := rules\<rparr>, k, None)))"

section \<open>Popping a rule\<close>

lemma Pop_loop_empty:
  "Pop_loop eq obj items found 0 [] = (if items = [] \<or> (\<exists>x. items = [x] \<and> \<not> found \<and> eq x obj) then Inr [] else Inl oor)"
  by (cases items; cases "tl items") auto

text \<open>C37. \<open>RevokeRule\<close> of a rule that could be deleted from the kernel panics as soon as another rule is recorded: \<open>Pop\<close>
  writes to an element of a slice of length zero. The kernel has lost the rule by then, the firewall still
  records it. Only when the revoked rule is the single one recorded does it return.\<close>

theorem FireWall_RevokeRule_panics:
  assumes "IpRule_Opr ipt ''-D'' rule k = Inr (k', None)" and "length (fw_rules f) \<ge> 2"
  shows "FireWall_RevokeRule ipt rule f k = (f, k', Some oor) \<and> is_panic oor"
proof -
  have "IpRules_Pop rule (fw_rules f) = Inl oor"
    using assms(2) by (auto simp: IpRules_Pop_def Pop_loop_empty)
  with assms(1) show ?thesis by (simp add: FireWall_RevokeRule_def oor_def)
qed

section \<open>Installing twice\<close>

text \<open>What the firewall relies on from the kernel's tables: appending or inserting a rule succeeds and makes it exist,
  creating a chain succeeds and makes the chain exist, and neither makes anything else disappear.\<close>

definition holds_on :: "'k iptables \<Rightarrow> 'k \<Rightarrow> 'k \<Rightarrow> bool" where
  "holds_on ipt k k' \<longleftrightarrow> (\<forall>t c args. ipt_Exists ipt k t c args \<longrightarrow> ipt_Exists ipt k' t c args) \<and>
     (\<forall>n t. ipt_ExistChain ipt k n t \<longrightarrow> ipt_ExistChain ipt k' n t)"

definition ipt_ok :: "'k iptables \<Rightarrow> bool" where
  "ipt_ok ipt \<longleftrightarrow>
     (\<forall>k t opr c args. opr \<in> {''-A'', ''-I''} \<longrightarrow>
        (\<exists>k'. ipt_Raw ipt k ([''-t'', t, opr, c] @ args) = (k', None) \<and> ipt_Exists ipt k' t c args \<and> holds_on ipt k k')) \<and>
     (\<forall>k n t. \<exists>k'. ipt_NewChain ipt k n t = (k', None) \<and> ipt_ExistChain ipt k' n t \<and> holds_on ipt k k')"

lemma ipt_ok_Raw:
  assumes "ipt_ok ipt" and "opr \<in> {''-A'', ''-I''}"
  shows "\<exists>k'. ipt_Raw ipt k ([''-t'', t, opr, c] @ args) = (k', None) \<and> ipt_Exists ipt k' t c args \<and> holds_on ipt k k'"
  by (rule assms(1) [unfolded ipt_ok_def, THEN conjunct1, THEN spec, THEN spec, THEN spec, THEN spec, THEN spec, THEN mp, OF assms(2)])

definition rule_there :: "'k iptables \<Rightarrow> 'k \<Rightarrow> IpRule \<Rightarrow> bool" where
  "rule_there ipt k r \<longleftrightarrow> (case IpRule_Args r of Inl _ \<Rightarrow> False | Inr args \<Rightarrow> ipt_Exists ipt k (ru_Table r) (ru_Chain r) args)"

definition chain_there :: "'k iptables \<Rightarrow> 'k \<Rightarrow> IpChain \<Rightarrow> bool" where
  "chain_there ipt k c \<longleftrightarrow> ipt_ExistChain ipt k (ch_Name c) (ch_Table c)"

lemma holds_on_refl [simp]: "holds_on ipt k k"
  by (simp add: holds_on_def)

lemma holds_on_trans: "holds_on ipt a b \<Longrightarrow> holds_on ipt b c \<Longrightarrow> holds_on ipt a c"
  by (auto simp: holds_on_def)

lemma holds_on_there: "holds_on ipt k k' \<Longrightarrow> rule_there ipt k r \<Longrightarrow> rule_there ipt k' r"
  "holds_on ipt k k' \<Longrightarrow> chain_there ipt k c \<Longrightarrow> chain_there ipt k' c"
  by (auto simp: holds_on_def rule_there_def chain_there_def split: sum.splits)

text \<open>The arguments can be formed and the order is an insertion or an appending.\<close>

definition rule_ok :: "IpRule \<Rightarrow> bool" where
  "rule_ok r \<longleftrightarrow> length (ru_TcpFlag r) \<noteq> 1 \<and> rule_order r \<in> {''-A'', ''-I''}"

lemma rule_ok_Args: "rule_ok r \<Longrightarrow> \<exists>args. IpRule_Args r = Inr args"
  by (simp add: rule_ok_def IpRule_Args_def Let_def)

lemma IpRule_Opr_there:
  assumes "ipt_ok ipt" and "rule_ok r"
  shows "\<exists>k'. IpRule_Opr ipt (rule_order r) r k = Inr (k', None) \<and> rule_there ipt k' r \<and> holds_on ipt k k' \<and> (rule_there ipt k r \<longrightarrow> k' = k)"
proof -
  obtain args where a: "IpRule_Args r = Inr args" using rule_ok_Args [OF assms(2)] by blast
  have o: "rule_order r \<in> {''-A'', ''-I''}" using assms(2) by (simp add: rule_ok_def)
  from ipt_ok_Raw [OF assms(1) o, of k "ru_Table r" "ru_Chain r" args] obtain k' where
    k': "ipt_Raw ipt k ([''-t'', ru_Table r, rule_order r, ru_Chain r] @ args) = (k', None)"
      "ipt_Exists ipt k' (ru_Table r) (ru_Chain r) args" "holds_on ipt k k'" by (elim exE conjE) (rule that)
  show ?thesis
  proof (cases "ipt_Exists ipt k (ru_Table r) (ru_Chain r) args")
    case True
    with a o show ?thesis by (auto simp: IpRule_Opr_def rule_there_def)
  next
    case False
    with a o k' show ?thesis by (simp add: IpRule_Opr_def rule_there_def)
  qed
qed

lemma each_rule_there:
  assumes "ipt_ok ipt" and "\<forall>r \<in> set rs. rule_ok r"
  shows "\<exists>k'. each_rule ipt rule_order rs k = Inr k' \<and> (\<forall>r \<in> set rs. rule_there ipt k' r) \<and> holds_on ipt k k' \<and>
     ((\<forall>r \<in> set rs. rule_there ipt k r) \<longrightarrow> k' = k)"
  using assms(2)
proof (induction rs arbitrary: k)
  case (Cons r rs)
  obtain k1 where k1: "IpRule_Opr ipt (rule_order r) r k = Inr (k1, None)" "rule_there ipt k1 r" "holds_on ipt k k1"
      "rule_there ipt k r \<longrightarrow> k1 = k"
    using IpRule_Opr_there [OF assms(1), of r k] Cons.prems by auto
  from Cons.IH [of k1] Cons.prems obtain k2 where "each_rule ipt rule_order rs k1 = Inr k2" "\<forall>r \<in> set rs. rule_there ipt k2 r"
      "holds_on ipt k1 k2" "(\<forall>r \<in> set rs. rule_there ipt k1 r) \<longrightarrow> k2 = k1" by auto
  with k1 show ?case by (auto intro: holds_on_trans dest: holds_on_there(1))
qed simp

lemma each_chain_there:
  assumes "ipt_ok ipt"
  shows "(\<forall>c \<in> set cs. chain_there ipt (each_chain ipt ''-N'' cs k) c) \<and> holds_on ipt k (each_chain ipt ''-N'' cs k) \<and>
     ((\<forall>c \<in> set cs. chain_there ipt k c) \<longrightarrow> each_chain ipt ''-N'' cs k = k)"
proof (induction cs arbitrary: k)
  case (Cons c cs)
  obtain k1 where k1: "fst (IpChain_Opr ipt ''-N'' c k) = k1" "chain_there ipt k1 c" "holds_on ipt k k1" "chain_there ipt k c \<longrightarrow> k1 = k"
  proof (cases "ipt_ExistChain ipt k (ch_Name c) (ch_Table c)")
    case True
    then show thesis using that [of k] by (simp add: IpChain_Opr_def chain_there_def)
  next
    case False
    obtain k' where "ipt_NewChain ipt k (ch_Name c) (ch_Table c) = (k', None)" "ipt_ExistChain ipt k' (ch_Name c) (ch_Table c)" "holds_on ipt k k'"
      using assms unfolding ipt_ok_def by blast
    with False show thesis using that [of k'] by (simp add: IpChain_Opr_def chain_there_def)
  qed
  with Cons.IH [of k1] show ?case by (auto intro: holds_on_trans dest: holds_on_there(2))
qed simp

lemma FireWall_install_there:
  assumes "ipt_ok ipt" and "\<forall>r \<in> set (fw_rules f). rule_ok r"
  shows "\<exists>k'. FireWall_Start ipt f k = Inr k' \<and> (\<forall>r \<in> set (fw_rules f). rule_there ipt k' r) \<and>
     (\<forall>c \<in> set (fw_chains f). chain_there ipt k' c) \<and> FireWall_install ipt f k' = Inr k'"
proof -
  let ?k = "each_chain ipt ''-N'' (fw_chains f) k"
  obtain k' where k': "each_rule ipt rule_order (fw_rules f) ?k = Inr k'" "\<forall>r \<in> set (fw_rules f). rule_there ipt k' r"
    "holds_on ipt ?k k'" using each_rule_there [OF assms] by blast
  have c: "\<forall>c \<in> set (fw_chains f). chain_there ipt k' c"
    using each_chain_there [OF assms(1), of "fw_chains f" k] k'(3) by (auto dest: holds_on_there(2))
  then have "each_chain ipt ''-N'' (fw_chains f) k' = k'" using each_chain_there [OF assms(1), of "fw_chains f" k'] by blast
  moreover have "each_rule ipt rule_order (fw_rules f) k' = Inr k'" using each_rule_there [OF assms, of k'] k'(2) by auto
  ultimately show ?thesis using k' c by (simp add: FireWall_Start_def FireWall_install_def)
qed

text \<open>Installing the firewall makes every rule and chain exist, and installing it again, as every reload of the host's
  rules does, changes nothing: no rule is ever doubled.\<close>

theorem FireWall_install_idempotent:
  assumes "ipt_ok ipt" and "\<forall>r \<in> set (fw_rules f). rule_ok r"
  shows "\<exists>k'. FireWall_Start ipt f k = Inr k' \<and> (\<forall>r \<in> set (fw_rules f). rule_there ipt k' r) \<and>
     (\<forall>c \<in> set (fw_chains f). chain_there ipt k' c) \<and> FireWall_install ipt f k' = Inr k'"
  by (rule FireWall_install_there [OF assms])

text \<open>A kernel that keeps its rules and chains in lists, for the witnesses.\<close>

definition ex_ipt :: "((string \<times> string \<times> string list) list \<times> (string \<times> string) list) iptables" where
  "ex_ipt = \<lparr>ipt_Exists = (\<lambda>k t c args. (t, c, args) \<in> set (fst k)),
     ipt_Raw = (\<lambda>k args. case args of _ # t # opr # c # rest \<Rightarrow>
         if opr = ''-D'' then ((filter (\<lambda>x. x \<noteq> (t, c, rest)) (fst k), snd k), None)
         else ((fst k @ [(t, c, rest)], snd k), None)
       | _ \<Rightarrow> (k, Some (NewErr ''usage''))),
     ipt_ExistChain = (\<lambda>k n t. (n, t) \<in> set (snd k)),
     ipt_NewChain = (\<lambda>k n t. ((fst k, (n, t) # snd k), None)),
     ipt_RemoveExistingChain = (\<lambda>k n t. ((fst k, removeAll (n, t) (snd k)), None))\<rparr>"

lemma ex_ipt_ok: "ipt_ok ex_ipt"
  by (auto simp: ipt_ok_def ex_ipt_def holds_on_def)

lemma OLC_rules_ok: "\<forall>r \<in> set (fw_rules (FireWall_Initialize (NewFireWall []))). rule_ok r"
  by (simp add: FireWall_Initialize_def FireWall_jumpOLC_def FireWall_addOLC_def NewFireWall_def FireWall_AddRule_def
      FireWall_AddChain_def IpRules_Add_def IpChains_Add_def rule_ok_def rule_order_def empty_rule_def)

theorem FireWall_install_idempotent_witness:
  "\<exists>k'. FireWall_Start ex_ipt (FireWall_Initialize (NewFireWall [])) ([], []) = Inr k' \<and>
     FireWall_install ex_ipt (FireWall_Initialize (NewFireWall [])) k' = Inr k'"
  using FireWall_install_idempotent [OF ex_ipt_ok OLC_rules_ok] by blast

theorem FireWall_RevokeRule_panics_witness:
  "FireWall_RevokeRule ex_ipt (jump ''raw'' ''OUTPUT'' ''OPENLAN-OUT'') (FireWall_Initialize (NewFireWall [])) ([], []) =
     (FireWall_Initialize (NewFireWall []), ([], []), Some oor) \<and> is_panic oor"
  by (rule FireWall_RevokeRule_panics)
    (simp_all add: IpRule_Opr_def IpRule_Args_def ex_ipt_def empty_rule_def to_upper_def FireWall_Initialize_def
      FireWall_jumpOLC_def FireWall_addOLC_def NewFireWall_def FireWall_AddRule_def FireWall_AddChain_def IpRules_Add_def IpChains_Add_def)

end
