(* ===== verification/Prog.thy ===== *)
theory Prog
  imports Prelude
begin

text \<open>Sequencing for the handlers of the switch and of the access point. A handler runs on a state and blocks (\<open>None\<close>), panics
  (\<open>Some (Inl e)\<close>) or returns a value and the new state. An \<open>error\<close> a Go function returns is an ordinary value here.\<close>

type_synonym ('s, 'a) prog = "'s \<Rightarrow> ('a \<times> 's) result option"

definition ret :: "'a \<Rightarrow> ('s, 'a) prog" where
  "ret a s = Some (Inr (a, s))"

definition bnd :: "('s, 'a) prog \<Rightarrow> ('a \<Rightarrow> ('s, 'b) prog) \<Rightarrow> ('s, 'b) prog" where
  "bnd m f s = (case m s of None \<Rightarrow> None | Some (Inl e) \<Rightarrow> Some (Inl e) | Some (Inr (a, s)) \<Rightarrow> f a s)"

definition andthen :: "('s, unit) prog \<Rightarrow> ('s, 'b) prog \<Rightarrow> ('s, 'b) prog" where
  "andthen m n = bnd m (\<lambda>_. n)"

definition panic :: "error \<Rightarrow> ('s, 'a) prog" where
  "panic e s = Some (Inl e)"

definition block :: "('s, 'a) prog" where
  "block s = None"

definition gets :: "('s \<Rightarrow> 'a) \<Rightarrow> ('s, 'a) prog" where
  "gets f s = Some (Inr (f s, s))"

definition modify :: "('s \<Rightarrow> 's) \<Rightarrow> ('s, unit) prog" where
  "modify f s = Some (Inr ((), f s))"

definition whenever :: "bool \<Rightarrow> ('s, unit) prog \<Rightarrow> ('s, unit) prog" where
  "whenever b m = (if b then m else ret ())"

fun foreach :: "'a list \<Rightarrow> ('a \<Rightarrow> ('s, unit) prog) \<Rightarrow> ('s, unit) prog" where
  "foreach [] f = ret ()"
| "foreach (x # xs) f = andthen (f x) (foreach xs f)"

lemmas prog_defs = ret_def bnd_def andthen_def panic_def block_def gets_def modify_def whenever_def

lemma bnd_simps [simp]:
  "bnd (ret a) f = f a" "bnd (panic e) f = panic e" "bnd block f = block" "bnd m ret = m"
  by (rule ext; simp add: prog_defs split: option.split sum.split)+

lemma bnd_assoc: "bnd (bnd m f) g = bnd m (\<lambda>x. bnd (f x) g)"
  by (rule ext) (auto simp: bnd_def split: option.split sum.split)

text \<open>\<open>keeps P m\<close>: whenever \<open>m\<close> returns, \<open>P\<close> relates the state before to the state after. For a preorder \<open>P\<close> it is closed
  under sequencing, so it follows from the shape of a handler.\<close>

definition keeps :: "('s \<Rightarrow> 's \<Rightarrow> bool) \<Rightarrow> ('s, 'a) prog \<Rightarrow> bool" where
  "keeps P m \<longleftrightarrow> (\<forall>s a s'. m s = Some (Inr (a, s')) \<longrightarrow> P s s')"

lemma keepsI: "(\<And>s a s'. m s = Some (Inr (a, s')) \<Longrightarrow> P s s') \<Longrightarrow> keeps P m"
  by (simp add: keeps_def)

lemma keepsD: "keeps P m \<Longrightarrow> m s = Some (Inr (a, s')) \<Longrightarrow> P s s'"
  by (simp add: keeps_def)

lemma bnd_SomeE:
  assumes "bnd m f s = Some (Inr (b, s''))"
  obtains a s' where "m s = Some (Inr (a, s'))" and "f a s' = Some (Inr (b, s''))"
  using assms by (auto simp: bnd_def split: option.splits sum.splits)

lemma andthen_SomeE:
  assumes "andthen m n s = Some (Inr (b, s''))"
  obtains s' where "m s = Some (Inr ((), s'))" and "n s' = Some (Inr (b, s''))"
  using assms unfolding andthen_def by (metis (full_types) bnd_SomeE old.unit.exhaust)

lemma prog_return [simp]:
  "ret a s = Some (Inr (b, s')) \<longleftrightarrow> b = a \<and> s' = s"
  "panic e s \<noteq> Some (Inr r)" "block s \<noteq> Some (Inr r)"
  "gets f s = Some (Inr (x, s')) \<longleftrightarrow> x = f s \<and> s' = s"
  "modify g s = Some (Inr (u, s')) \<longleftrightarrow> s' = g s"
  by (auto simp: prog_defs)

text \<open>The interface between a relation on states and the handlers that keep it: a preorder, then sequencing keeps it.\<close>

locale kept_relation =
  fixes rel :: "'s \<Rightarrow> 's \<Rightarrow> bool"
  assumes rel_refl: "rel s s"
    and rel_trans: "rel s t \<Longrightarrow> rel t u \<Longrightarrow> rel s u"
begin

lemma keeps_bnd:
  assumes "keeps rel m" and "\<And>a. keeps rel (f a)"
  shows "keeps rel (bnd m f)"
proof (rule keepsI)
  fix s b s''
  assume "bnd m f s = Some (Inr (b, s''))"
  then obtain a s' where "m s = Some (Inr (a, s'))" "f a s' = Some (Inr (b, s''))" by (rule bnd_SomeE)
  then show "rel s s''" using assms rel_trans by (meson keepsD)
qed

lemma keeps_andthen: "keeps rel m \<Longrightarrow> keeps rel n \<Longrightarrow> keeps rel (andthen m n)"
  unfolding andthen_def by (rule keeps_bnd)

lemma keeps_ret: "keeps rel (ret a)"
  using rel_refl by (auto simp: keeps_def)

lemma keeps_gets: "keeps rel (gets f)"
  using rel_refl by (auto simp: keeps_def)

lemma keeps_panic: "keeps rel (panic e)"
  by (simp add: keeps_def)

lemma keeps_block: "keeps rel block"
  by (simp add: keeps_def)

lemma keeps_modify: "(\<And>s. rel s (g s)) \<Longrightarrow> keeps rel (modify g)"
  by (auto simp: keeps_def)

lemma keeps_whenever: "(b \<Longrightarrow> keeps rel m) \<Longrightarrow> keeps rel (whenever b m)"
  by (simp add: whenever_def keeps_ret)

lemma keeps_if: "(b \<Longrightarrow> keeps rel m) \<Longrightarrow> (\<not> b \<Longrightarrow> keeps rel n) \<Longrightarrow> keeps rel (if b then m else n)"
  by simp

lemma keeps_option: "(x = None \<Longrightarrow> keeps rel m) \<Longrightarrow> (\<And>a. x = Some a \<Longrightarrow> keeps rel (f a)) \<Longrightarrow>
    keeps rel (case x of None \<Rightarrow> m | Some a \<Rightarrow> f a)"
  by (cases x) simp_all

lemma keeps_sum: "(\<And>a. x = Inl a \<Longrightarrow> keeps rel (f a)) \<Longrightarrow> (\<And>a. x = Inr a \<Longrightarrow> keeps rel (g a)) \<Longrightarrow>
    keeps rel (case x of Inl a \<Rightarrow> f a | Inr a \<Rightarrow> g a)"
  by (cases x) simp_all

lemma keeps_prod: "(\<And>a b. x = (a, b) \<Longrightarrow> keeps rel (f a b)) \<Longrightarrow> keeps rel (case x of (a, b) \<Rightarrow> f a b)"
  by (cases x) simp

lemma keeps_foreach: "(\<And>x. keeps rel (f x)) \<Longrightarrow> keeps rel (foreach xs f)"
  by (induction xs) (simp_all add: keeps_ret keeps_andthen)

lemmas rules = keeps_bnd keeps_andthen keeps_ret keeps_gets keeps_panic keeps_block keeps_modify keeps_whenever keeps_if
  keeps_option keeps_sum keeps_prod keeps_foreach

end

section \<open>Handlers that return\<close>

text \<open>\<open>returns m s Q\<close>: the handler neither blocks nor panics from \<open>s\<close>, and \<open>Q\<close> holds of its result and of the state after it.\<close>

definition returns :: "('s, 'a) prog \<Rightarrow> 's \<Rightarrow> ('a \<Rightarrow> 's \<Rightarrow> bool) \<Rightarrow> bool" where
  "returns m s Q \<longleftrightarrow> (\<exists>a t. m s = Some (Inr (a, t)) \<and> Q a t)"

lemma returnsE:
  assumes "returns m s Q"
  obtains a t where "m s = Some (Inr (a, t))" and "Q a t"
  using assms unfolding returns_def by blast

lemma returns_simps [simp]:
  "returns (ret a) s Q \<longleftrightarrow> Q a s" "returns (gets h) s Q2 \<longleftrightarrow> Q2 (h s) s" "returns (modify g) s Q3 \<longleftrightarrow> Q3 () (g s)"
  by (auto simp: returns_def)

lemma returns_bnd [simp]: "returns (bnd m f) s Q \<longleftrightarrow> returns m s (\<lambda>a t. returns (f a) t Q)"
  by (auto simp: returns_def bnd_def split: option.splits sum.splits)

lemma returns_andthen [simp]: "returns (andthen m n) s Q \<longleftrightarrow> returns m s (\<lambda>_ t. returns n t Q)"
  by (simp add: andthen_def)

lemma returns_whenever [simp]: "returns (whenever b m) s Q \<longleftrightarrow> (if b then returns m s Q else Q () s)"
  by (simp add: whenever_def)

lemma returns_mono: "returns m s Q \<Longrightarrow> (\<And>a t. Q a t \<Longrightarrow> R a t) \<Longrightarrow> returns m s R"
  unfolding returns_def by blast

end
