(* ===== verification/Models.thy ===== *)
theory Models
  imports Socket Bridge "HOL-Library.Multiset"
begin

text \<open>The data the switch and the access point exchange and keep (\<open>src/pkg/models/*.go\<close>), with the text functions of
  \<open>src/pkg/libol/utils.go\<close> and the parts of Go's \<open>strings\<close> and \<open>net\<close> packages they use. Text is ASCII: \<open>ToLower\<close> changes
  the letters A to Z only.\<close>

section \<open>Text\<close>

text \<open>\<open>strings.SplitN(s, sep, n)\<close> for a separator of one character and positive \<open>n\<close>.\<close>

fun split_at :: "char \<Rightarrow> string \<Rightarrow> string \<times> string option" where
  "split_at sep [] = ([], None)"
| "split_at sep (c # s) = (if c = sep then ([], Some s)
     else case split_at sep s of (a, r) \<Rightarrow> (c # a, r))"

fun SplitN :: "string \<Rightarrow> char \<Rightarrow> nat \<Rightarrow> string list" where
  "SplitN s sep 0 = []"
| "SplitN s sep (Suc 0) = [s]"
| "SplitN s sep (Suc (Suc n)) = (case split_at sep s of
     (a, None) \<Rightarrow> [a] | (a, Some r) \<Rightarrow> a # SplitN r sep (Suc n))"

definition to_lower :: "string \<Rightarrow> string" where
  "to_lower s = map (\<lambda>c. let n = (of_char c :: nat) in if 65 \<le> n \<and> n \<le> 90 then char_of (n + 32) else c) s"

lemma split_at_absent: "sep \<notin> set s \<Longrightarrow> split_at sep s = (s, None)"
  by (induction s) auto

lemma split_at_present: "sep \<notin> set a \<Longrightarrow> split_at sep (a @ sep # r) = (a, Some r)"
  by (induction a) auto

lemma SplitN_2_absent: "sep \<notin> set s \<Longrightarrow> SplitN s sep 2 = [s]"
  by (simp add: numeral_2_eq_2 split_at_absent)

lemma SplitN_2_present: "sep \<notin> set a \<Longrightarrow> SplitN (a @ sep # r) sep 2 = [a, r]"
  by (simp add: numeral_2_eq_2 split_at_present)

lemma hd_SplitN_2: "hd (SplitN s sep 2) = fst (split_at sep s)"
  by (simp add: numeral_2_eq_2 split: prod.splits option.splits)

text \<open>\<open>strings.Contains(s, sub)\<close>.\<close>

fun Contains :: "string \<Rightarrow> string \<Rightarrow> bool" where
  "Contains [] sub \<longleftrightarrow> sub = []"
| "Contains (c # s) sub \<longleftrightarrow> take (length sub) (c # s) = sub \<or> Contains s sub"

section \<open>utils.go\<close>

definition PrettyTime :: "int \<Rightarrow> string" where
  "PrettyTime t =
     (let s = (if t < 0 then ''-'' else []);
          t = (if t < 0 then - t else t);
          minutes = t div 60
      in if minutes < 60 then s @ show_int minutes @ ''m'' @ show_int (t mod 60) @ ''s''
         else let hours = minutes div 60
              in if hours < 24 then s @ show_int hours @ ''h'' @ show_int (minutes mod 60) @ ''m''
                 else s @ show_int (hours div 24) @ ''d'' @ show_int (hours mod 24) @ ''h'')"

definition GetHostPort :: "string \<Rightarrow> string \<times> string" where
  "GetHostPort addr =
     (let values = SplitN addr (CHR '':'') 2
      in if length values = 2 then (values ! 0, values ! 1) else (values ! 0, []))"

definition GetIPAddr :: "string \<Rightarrow> string" where
  "GetIPAddr addr = fst (GetHostPort addr)"

definition Uint2S :: "u32 \<Rightarrow> string" where
  "Uint2S v = show_int (uint v)"

definition IfName :: "string \<Rightarrow> string" where
  "IfName name = (if length name < 15 then name else drop (length name - 15) name)"

definition GetPrefix :: "string \<Rightarrow> int \<Rightarrow> string result" where
  "GetPrefix s index = (if int (length s) \<ge> index then reslice 0 index s else Inr [])"

definition GetSuffix :: "string \<Rightarrow> int \<Rightarrow> string result" where
  "GetSuffix s index = (if int (length s) \<ge> index then reslice_from index s else Inr [])"

section \<open>IP addresses (package net)\<close>

text \<open>\<open>dtoi\<close> reads the leading digits, numbers from \<open>0xFFFFFF\<close> on are an error. The second component is the number of
  characters read.\<close>

definition digit_val :: "char \<Rightarrow> nat option" where
  "digit_val c = (let n = of_char c in if 48 \<le> n \<and> n \<le> 57 then Some (n - 48) else None)"

fun dtoi_loop :: "nat \<Rightarrow> nat \<Rightarrow> string \<Rightarrow> nat \<times> nat \<times> bool" where
  "dtoi_loop n i [] = (n, i, i \<noteq> 0)"
| "dtoi_loop n i (c # s) = (case digit_val c of
     None \<Rightarrow> (n, i, i \<noteq> 0)
   | Some d \<Rightarrow> (let n = n * 10 + d in if n \<ge> 0xFFFFFF then (0xFFFFFF, i, False) else dtoi_loop n (i + 1) s))"

definition dtoi :: "string \<Rightarrow> nat \<times> nat \<times> bool" where
  "dtoi s = dtoi_loop 0 0 s"

fun parseIPv4_loop :: "nat \<Rightarrow> nat \<Rightarrow> string \<Rightarrow> byte list \<Rightarrow> byte list option" where
  "parseIPv4_loop 0 i s p = (if s = [] then Some p else None)"
| "parseIPv4_loop (Suc k) i s p =
     (if s = [] then None
      else if i > 0 \<and> hd s \<noteq> CHR ''.'' then None
      else let s = (if i > 0 then tl s else s);
               (n, c, ok) = dtoi s
           in if \<not> ok \<or> n > 0xFF then None
              else parseIPv4_loop k (i + 1) (drop c s) (p @ [of_nat n]))"

text \<open>The 16-byte form of an IPv4 address.\<close>

definition v4InV6Prefix :: "byte list" where
  "v4InV6Prefix = replicate 10 0 @ [0xff, 0xff]"

definition parseIPv4 :: "string \<Rightarrow> byte list option" where
  "parseIPv4 s = (case parseIPv4_loop 4 0 s [] of None \<Rightarrow> None | Some p \<Rightarrow> Some (v4InV6Prefix @ p))"

text \<open>\<open>ParseIP\<close> decides by the first dot or colon; the parser of IPv6 is the parameter \<open>p6\<close>.\<close>

fun ParseIP_scan :: "string \<Rightarrow> bool option" where
  "ParseIP_scan [] = None"
| "ParseIP_scan (c # s) = (if c = CHR ''.'' then Some True else if c = CHR '':'' then Some False else ParseIP_scan s)"

definition ParseIP :: "(string \<Rightarrow> byte list option) \<Rightarrow> string \<Rightarrow> byte list option" where
  "ParseIP p6 s = (case ParseIP_scan s of Some True \<Rightarrow> parseIPv4 s | Some False \<Rightarrow> p6 s | None \<Rightarrow> None)"

text \<open>\<open>To4\<close> is nil (\<open>None\<close>) for an address that is not an IPv4 address.\<close>

definition To4 :: "byte list \<Rightarrow> byte list option" where
  "To4 ip = (if length ip = 4 then Some ip
     else if length ip = 16 \<and> take 12 ip = v4InV6Prefix then Some (drop 12 ip) else None)"

text \<open>The text of a 4-byte address.\<close>

fun join_dots :: "string list \<Rightarrow> string" where
  "join_dots [] = []"
| "join_dots [s] = s"
| "join_dots (s # ss) = s @ ''.'' @ join_dots ss"

definition IP4_String :: "byte list \<Rightarrow> string" where
  "IP4_String ip = join_dots (map (\<lambda>w. digits (unat w)) ip)"

section \<open>Users\<close>

text \<open>\<open>Last\<close> is the number of the client in the store of the socket server, the lease time is in seconds.\<close>

record User =
  us_Alias :: string
  us_Name :: string
  us_Network :: string
  us_Password :: string
  us_UUID :: string
  us_System :: string
  us_Role :: string
  us_Last :: "nat option"
  us_Lease :: int
  us_UpdateAt :: int

text \<open>The zero value of \<open>time.Time\<close>, January 1 of year 1.\<close>

definition zeroTime :: int where
  "zeroTime = -62135596800"

definition zero_user :: User where
  "zero_user = \<lparr>us_Alias = [], us_Name = [], us_Network = [], us_Password = [], us_UUID = [], us_System = [],
     us_Role = [], us_Last = None, us_Lease = zeroTime, us_UpdateAt = 0\<rparr>"

definition NewUser :: "string \<Rightarrow> string \<Rightarrow> string \<Rightarrow> string \<Rightarrow> User" where
  "NewUser goos name network password =
     zero_user\<lparr>us_Name := name, us_Password := password, us_Network := network, us_System := goos, us_Role := ''guest''\<rparr>"

definition User_Id :: "User \<Rightarrow> string" where
  "User_Id u = us_Name u @ ''@'' @ us_Network u"

definition User_String :: "User \<Rightarrow> string" where
  "User_String u = User_Id u @ '', '' @ us_Password u @ '', '' @ us_Role u"

definition User_Update :: "int \<Rightarrow> User \<Rightarrow> User" where
  "User_Update now u =
     (let u = (if us_Network u = [] \<and> CHR ''@'' \<in> set (us_Name u)
               then u\<lparr>us_Network := SplitN (us_Name u) (CHR ''@'') 2 ! 1\<rparr> else u);
          u = (if us_Network u = [] then u\<lparr>us_Network := ''default''\<rparr> else u);
          u = (if CHR ''@'' \<in> set (us_Name u) then u\<lparr>us_Name := SplitN (us_Name u) (CHR ''@'') 2 ! 0\<rparr> else u);
          u = u\<lparr>us_Alias := to_lower (us_Alias u)\<rparr>;
          u = (if us_UUID u = [] then u\<lparr>us_UUID := us_Alias u\<rparr> else u)
      in u\<lparr>us_UpdateAt := now\<rparr>)"

section \<open>Networks\<close>

record Route =
  rt_Prefix :: string
  rt_NextHop :: string
  rt_Metric :: int
  rt_Mode :: string

definition NewRoute :: "string \<Rightarrow> string \<Rightarrow> string \<Rightarrow> Route" where
  "NewRoute prefix nexthop mode = \<lparr>rt_Prefix = prefix, rt_NextHop = nexthop, rt_Metric = 250, rt_Mode = mode\<rparr>"

definition Route_String :: "Route \<Rightarrow> string" where
  "Route_String u = rt_Prefix u @ '', '' @ rt_NextHop u"

definition Route_SetMetric :: "int \<Rightarrow> Route \<Rightarrow> Route" where
  "Route_SetMetric v u = u\<lparr>rt_Metric := v\<rparr>"

record Network =
  nt_Name :: string
  nt_Tenant :: string
  nt_IfAddr :: string
  nt_IpStart :: string
  nt_IpEnd :: string
  nt_Netmask :: string
  nt_Routes :: "Route list"

text \<open>\<open>parseMask\<close> is the mask of \<open>net.ParseCIDR\<close> as text, \<open>None\<close> on an error.\<close>

definition NewNetwork :: "(string \<Rightarrow> string option) \<Rightarrow> string \<Rightarrow> string \<Rightarrow> Network" where
  "NewNetwork parseMask name ifAddr =
     (let s = SplitN ifAddr (CHR ''/'') 2;
          (address, netmask) =
            (if length s = 2 then (s ! 0, case parseMask ifAddr of Some msk \<Rightarrow> msk | None \<Rightarrow> s ! 1)
             else (ifAddr, ''255.255.255.255''))
      in \<lparr>nt_Name = name, nt_Tenant = [], nt_IfAddr = address, nt_IpStart = [], nt_IpEnd = [], nt_Netmask = netmask, nt_Routes = []\<rparr>)"

text \<open>\<open>sort.Strings\<close> as insertion sort by the lexicographic order of the character codes.\<close>

fun str_le :: "string \<Rightarrow> string \<Rightarrow> bool" where
  "str_le [] t = True"
| "str_le (c # s) [] = False"
| "str_le (c # s) (d # t) = (if (of_char c :: nat) < of_char d then True else if (of_char d :: nat) < of_char c then False else str_le s t)"

fun insert_str :: "string \<Rightarrow> string list \<Rightarrow> string list" where
  "insert_str s [] = [s]"
| "insert_str s (t # ts) = (if str_le s t then s # t # ts else t # insert_str s ts)"

definition sort_strings :: "string list \<Rightarrow> string list" where
  "sort_strings ss = foldr insert_str ss []"

text \<open>Pointers are options, two nil pointers are equal; the shortcut for identical pointers cannot change the result for
  equal values.\<close>

definition NetworkEqual :: "Network option \<Rightarrow> Network option \<Rightarrow> bool" where
  "NetworkEqual ol nl =
     (case (ol, nl) of
        (None, None) \<Rightarrow> True
      | (None, Some _) \<Rightarrow> False
      | (Some _, None) \<Rightarrow> False
      | (Some x, Some y) \<Rightarrow>
          if nt_IfAddr x \<noteq> nt_IfAddr y \<or> nt_Netmask x \<noteq> nt_Netmask y then False
          else let ors = map Route_String (nt_Routes x);
                   nrs = map Route_String (nt_Routes y)
               in if length ors \<noteq> length nrs then False
                  else sort_strings ors = sort_strings nrs)"

section \<open>Points, neighbors and lines\<close>

text \<open>A point refers to its client by number; the device is the number of its tap.\<close>

record Point =
  pt_UUID :: string
  pt_Alias :: string
  pt_Network :: string
  pt_User :: string
  pt_Protocol :: string
  pt_Server :: string
  pt_Uptime :: int
  pt_Status :: string
  pt_IfName :: string
  pt_Client :: nat
  pt_Device :: "nat option"
  pt_System :: string

definition NewPoint :: "nat \<Rightarrow> ('c, 'p) SocketClientImpl \<Rightarrow> nat \<Rightarrow> string \<Rightarrow> Point" where
  "NewPoint i c d proto = \<lparr>pt_UUID = [], pt_Alias = [], pt_Network = [], pt_User = [], pt_Protocol = proto,
     pt_Server = StreamSocket_LocalAddr c, pt_Uptime = 0, pt_Status = [], pt_IfName = [], pt_Client = i,
     pt_Device = Some d, pt_System = []\<rparr>"

definition Point_Update :: "int \<Rightarrow> ('c, 'p) SocketClientImpl option \<Rightarrow> string option \<Rightarrow> Point \<Rightarrow> Point" where
  "Point_Update now client devName p =
     (let p = (case client of None \<Rightarrow> p
               | Some c \<Rightarrow> p\<lparr>pt_Uptime := SocketClientImpl_UpTime now c, pt_Status := SocketStatus_String (SocketClientImpl_Status c)\<rparr>)
      in case devName of None \<Rightarrow> p | Some n \<Rightarrow> p\<lparr>pt_IfName := n\<rparr>)"

definition Point_SetUser :: "User \<Rightarrow> Point \<Rightarrow> Point" where
  "Point_SetUser user p =
     (let uuid = (if length (us_UUID user) > 13 then take 13 (us_UUID user) else us_UUID user)
      in p\<lparr>pt_User := us_Name user, pt_UUID := uuid, pt_Network := us_Network user, pt_System := us_System user,
           pt_Alias := us_Alias user\<rparr>)"

record Neighbor =
  ng_Network :: string
  ng_Device :: string
  ng_Client :: string
  ng_HwAddr :: "byte list"
  ng_IpAddr :: "byte list"
  ng_NewTime :: int
  ng_HitTime :: int

text \<open>\<open>point\<close> is the private data of the client, if it is a point.\<close>

definition Neighbor_Update :: "string \<Rightarrow> Point option \<Rightarrow> Neighbor \<Rightarrow> Neighbor" where
  "Neighbor_Update client point e =
     (case point of None \<Rightarrow> e
      | Some p \<Rightarrow> e\<lparr>ng_Network := pt_Network p, ng_Device := pt_IfName p, ng_Client := client\<rparr>)"

definition NewNeighbor :: "int \<Rightarrow> byte list \<Rightarrow> byte list \<Rightarrow> string \<Rightarrow> Point option \<Rightarrow> Neighbor" where
  "NewNeighbor now hwAddr ipAddr client point = Neighbor_Update client point
     \<lparr>ng_Network = [], ng_Device = [], ng_Client = client, ng_HwAddr = hwAddr, ng_IpAddr = ipAddr, ng_NewTime = now, ng_HitTime = now\<rparr>"

definition Neighbor_UpTime :: "int \<Rightarrow> Neighbor \<Rightarrow> int" where
  "Neighbor_UpTime now e = now - ng_HitTime e"

record Line =
  ln_EthType :: u16
  ln_IpSource :: "byte list"
  ln_IpDest :: "byte list"
  ln_IpProtocol :: byte
  ln_PortDest :: u16
  ln_PortSource :: u16
  ln_NewTime :: int
  ln_HitTime :: int

definition NewLine :: "int \<Rightarrow> u16 \<Rightarrow> Line" where
  "NewLine now t = \<lparr>ln_EthType = t, ln_IpSource = [], ln_IpDest = [], ln_IpProtocol = 0, ln_PortDest = 0,
     ln_PortSource = 0, ln_NewTime = now, ln_HitTime = now\<rparr>"

definition Line_String :: "Line \<Rightarrow> string" where
  "Line_String l = digits (unat (ln_EthType l)) @ '':'' @ IP4_String (ln_IpSource l) @ '':'' @ IP4_String (ln_IpDest l) @ '':'' @
     digits (unat (ln_IpProtocol l)) @ '':'' @ digits (unat (ln_PortSource l)) @ '':'' @ digits (unat (ln_PortDest l))"

definition Line_UpTime :: "int \<Rightarrow> Line \<Rightarrow> int" where
  "Line_UpTime now l = now - ln_NewTime l"

definition Line_LastTime :: "int \<Rightarrow> Line \<Rightarrow> int" where
  "Line_LastTime now l = now - ln_HitTime l"

section \<open>Text of IPv4 addresses\<close>

lemma digit_val_char [simp]: "d < 10 \<Longrightarrow> digit_val (char_of (48 + d)) = Some d"
  by (simp add: digit_val_def Let_def of_char_of)

lemma digits_ne [simp]: "digits n \<noteq> []"
  by (subst digits.simps) simp

declare digits.simps [simp del]

definition ends_number :: "string \<Rightarrow> bool" where
  "ends_number s \<longleftrightarrow> s = [] \<or> digit_val (hd s) = None"

lemma dtoi_loop_end: "ends_number s \<Longrightarrow> dtoi_loop n i s = (n, i, i \<noteq> 0)"
  by (cases s) (auto simp: ends_number_def)

lemma dtoi_loop_digits: "n < 0xFFFFFF \<Longrightarrow> dtoi_loop 0 0 (digits n @ s) = dtoi_loop n (length (digits n)) s"
proof (induction n arbitrary: s rule: digits.induct)
  case (1 n)
  show ?case
  proof (cases "n < 10")
    case True
    with 1 show ?thesis by (simp add: digits.simps)
  next
    case False
    have "n div 10 < 0xFFFFFF" using 1(2) by simp
    note IH = 1(1) [OF False this, of "char_of (48 + n mod 10) # s"]
    have "n div 10 * 10 + n mod 10 = n" by simp
    then have "dtoi_loop (n div 10) k (char_of (48 + n mod 10) # s) = dtoi_loop n (k + 1) s" for k
      using 1(2) by (simp add: Let_def)
    with IH False show ?thesis by (subst (1 2) digits.simps) simp
  qed
qed

lemma dtoi_digits: "n < 256 \<Longrightarrow> ends_number s \<Longrightarrow> dtoi (digits n @ s) = (n, length (digits n), True)"
  using dtoi_loop_digits [of n s] by (simp add: dtoi_def dtoi_loop_end)

lemma unat_byte_less: "unat (w :: byte) < 256"
  using unsigned_less [of w, where 'a = nat] by simp

lemma parse_octet:
  assumes "ends_number s"
  shows "parseIPv4_loop (Suc k) 0 (digits (unat w) @ s) p = parseIPv4_loop k 1 s (p @ [w])"
    and "i > 0 \<Longrightarrow> parseIPv4_loop (Suc k) i (CHR ''.'' # digits (unat w) @ s) p = parseIPv4_loop k (i + 1) s (p @ [w])"
  using assms dtoi_digits [OF unat_byte_less [of w] assms] unat_byte_less [of w] by (simp_all add: Let_def)

lemma ends_number_dot [simp]: "ends_number (CHR ''.'' # s)" "ends_number []"
  by (simp_all add: ends_number_def digit_val_def)

lemma parseIPv4_String: "parseIPv4_loop 4 0 (IP4_String [a, b, c, d]) [] = Some [a, b, c, d]"
proof -
  have "IP4_String [a, b, c, d] =
      digits (unat a) @ CHR ''.'' # digits (unat b) @ CHR ''.'' # digits (unat c) @ CHR ''.'' # digits (unat d) @ []"
    by (simp add: IP4_String_def)
  moreover have "(4 :: nat) = Suc (Suc (Suc (Suc 0)))" by simp
  ultimately show ?thesis
    by (simp only: parse_octet ends_number_dot zero_less_one add_pos_pos) simp
qed

lemma ParseIP_scan_digits: "ParseIP_scan (digits n @ CHR ''.'' # s) = Some True"
proof (induction n arbitrary: s rule: digits.induct)
  case (1 n)
  have d: "char_of (48 + d) \<noteq> CHR ''.''" "char_of (48 + d) \<noteq> CHR '':''" if "d < 10" for d :: nat
    using digit_val_char [OF that] by (auto simp del: digit_val_char simp: digit_val_def of_char_of Let_def
        dest: arg_cong [where f = "of_char :: char \<Rightarrow> nat"])
  have skip: "ParseIP_scan (xs @ ys) = ParseIP_scan ys" if "\<forall>c \<in> set xs. c \<noteq> CHR ''.'' \<and> c \<noteq> CHR '':''" for xs ys
    using that by (induction xs) auto
  have "\<forall>c \<in> set (digits n). c \<noteq> CHR ''.'' \<and> c \<noteq> CHR '':''"
    by (induction n rule: digits.induct) (subst digits.simps, auto simp: d)
  then show ?case by (simp add: skip)
qed

lemma ParseIP_IP4: "ParseIP p6 (IP4_String [a, b, c, d]) = Some (v4InV6Prefix @ [a, b, c, d])"
proof -
  have "ParseIP_scan (IP4_String [a, b, c, d]) = Some True"
    using ParseIP_scan_digits [of "unat a"] by (simp add: IP4_String_def)
  then show ?thesis by (simp add: ParseIP_def parseIPv4_def parseIPv4_String)
qed

lemma IP4_String_inj: "IP4_String [a, b, c, d] = IP4_String [a', b', c', d'] \<longleftrightarrow> [a, b, c, d] = [a', b', c', d']"
  using parseIPv4_String by (metis option.inject)

section \<open>Comparing networks\<close>

lemma str_le_total: "str_le s t \<or> str_le t s"
  by (induction s t rule: str_le.induct) auto

lemma of_char_eq_nat: "(of_char c :: nat) = of_char d \<longleftrightarrow> c = d"
  by simp

lemma str_le_antisym: "str_le s t \<Longrightarrow> str_le t s \<Longrightarrow> s = t"
proof (induction s t rule: str_le.induct)
  case (1 t)
  then show ?case by (cases t) auto
next
  case (3 c s d t)
  then have "c = d" using of_char_eq_nat [of c d] by (auto simp: not_less split: if_splits)
  with 3 show ?case by (auto split: if_splits)
qed simp

lemma str_le_trans: "str_le s t \<Longrightarrow> str_le t u \<Longrightarrow> str_le s u"
proof (induction s t arbitrary: u rule: str_le.induct)
  case (3 c s d t)
  then show ?case by (cases u) (auto split: if_splits)
qed auto

lemma mset_insert_str [simp]: "mset (insert_str s ts) = add_mset s (mset ts)"
  by (induction ts) auto

lemma set_insert_str [simp]: "set (insert_str s ts) = insert s (set ts)"
  by (induction ts) auto

lemma insert_str_sorted: "sorted_wrt str_le ts \<Longrightarrow> sorted_wrt str_le (insert_str s ts)"
  using str_le_total by (induction ts) (auto intro: str_le_trans)

lemma sort_strings_facts: "mset (sort_strings ss) = mset ss" "sorted_wrt str_le (sort_strings ss)"
  by (induction ss) (auto simp: sort_strings_def insert_str_sorted)

lemma sorted_str_unique:
  "sorted_wrt str_le xs \<Longrightarrow> sorted_wrt str_le ys \<Longrightarrow> mset xs = mset ys \<Longrightarrow> xs = ys"
proof (induction xs arbitrary: ys)
  case (Cons x xs)
  then obtain y ys' where ys: "ys = y # ys'" by (cases ys) auto
  have "x \<in> set ys" "y \<in> set (x # xs)" using Cons.prems(3) ys by (metis list.set_intros(1) set_mset_mset)+
  then have "str_le y x \<or> y = x" "str_le x y \<or> y = x" using Cons.prems(1,2) ys by auto
  then have "x = y" using str_le_antisym by blast
  with Cons ys show ?case by auto
qed simp

text \<open>\<open>NetworkEqual\<close> holds of two networks exactly when address and mask agree and they have the same routes, each the
  same number of times, in any order; of a route only prefix and next hop count.\<close>

theorem NetworkEqual_routes:
  "NetworkEqual (Some x) (Some y) \<longleftrightarrow> nt_IfAddr x = nt_IfAddr y \<and> nt_Netmask x = nt_Netmask y \<and>
     mset (map Route_String (nt_Routes x)) = mset (map Route_String (nt_Routes y))"
proof -
  have "sort_strings ors = sort_strings nrs \<longleftrightarrow> mset ors = mset nrs" for ors nrs
    by (metis sort_strings_facts sorted_str_unique)
  then show ?thesis by (auto simp: NetworkEqual_def Let_def dest: mset_eq_length simp del: mset_map)
qed

section \<open>Users\<close>

lemma split_at_fst: "sep \<notin> set (fst (split_at sep s))"
  by (induction s) (auto split: prod.splits)

lemma split_at_Some: "sep \<in> set s \<Longrightarrow> \<exists>r. split_at sep s = (fst (split_at sep s), Some r)"
  by (induction s) (auto split: prod.splits)

lemma to_lower_idem: "to_lower (to_lower s) = to_lower s"
proof -
  have "(let n = (of_char (let n = (of_char c :: nat) in if 65 \<le> n \<and> n \<le> 90 then char_of (n + 32) else c) :: nat)
      in if 65 \<le> n \<and> n \<le> 90 then char_of (n + 32) else (let n = (of_char c :: nat) in if 65 \<le> n \<and> n \<le> 90 then char_of (n + 32) else c)) =
      (let n = (of_char c :: nat) in if 65 \<le> n \<and> n \<le> 90 then char_of (n + 32) else c)" for c
    by (auto simp: Let_def of_char_of)
  then show ?thesis by (simp add: to_lower_def comp_def)
qed

text \<open>\<open>User.Update\<close> normalises: afterwards the name has no at sign and the network is not empty, so the identity is
  name@network of the original text, and updating again changes only the time.\<close>

theorem User_Update_normalises:
  "CHR ''@'' \<notin> set (us_Name (User_Update now u)) \<and> us_Network (User_Update now u) \<noteq> [] \<and>
   User_Update now' (User_Update now u) = (User_Update now u)\<lparr>us_UpdateAt := now'\<rparr>"
proof -
  let ?v = "User_Update now u"
  have name: "CHR ''@'' \<notin> set (us_Name ?v)"
  proof (cases "CHR ''@'' \<in> set (us_Name u)")
    case True
    have "us_Name ?v = hd (SplitN (us_Name u) (CHR ''@'') 2)"
      using True by (simp add: User_Update_def Let_def hd_conv_nth numeral_2_eq_2 split: prod.splits option.splits)
    then show ?thesis using split_at_fst by (simp add: hd_SplitN_2)
  next
    case False
    then show ?thesis by (simp add: User_Update_def Let_def)
  qed
  have net: "us_Network ?v \<noteq> []" by (simp add: User_Update_def Let_def)
  have "to_lower (us_Alias ?v) = us_Alias ?v" by (simp add: User_Update_def Let_def to_lower_idem)
  moreover have "us_UUID ?v = [] \<longrightarrow> us_Alias ?v = []" by (simp add: User_Update_def Let_def)
  ultimately have "User_Update now' ?v = ?v\<lparr>us_UpdateAt := now'\<rparr>"
    using name net by (cases ?v) (simp add: User_Update_def [of now'] Let_def to_lower_def)
  with name net show ?thesis by blast
qed

end
