(* ===== verification/Lease.thy ===== *)
theory Lease
  imports Models
begin

text \<open>The cache of networks and address leases (\<open>src/pkg/olsw/cache/network.go\<close>, the type \<open>Lease\<close> of
  \<open>src/pkg/schema/network.go\<close>) and its use by a request for an address (\<open>getLease\<close> of \<open>src/pkg/olsw/app/request.go\<close>).

  A lease is an object shared by the two maps \<open>UUID\<close> and \<open>Addr\<close> and by the callers that change its fields, so leases live in a
  store and the maps hold their numbers. Each exported method is one step. The parser of IPv6 addresses is the
  parameter \<open>p6\<close>.\<close>

section \<open>Leases\<close>

record Lease =
  ls_Address :: string
  ls_UUID :: string
  ls_Alias :: string
  ls_Client :: string
  ls_Type :: string
  ls_Network :: string

record network =
  nw_Networks :: "Network SafeStrMap"
  nw_UUID :: "nat SafeStrMap"
  nw_Addr :: "nat SafeStrMap"
  nw_heap :: "nat \<Rightarrow> Lease option"
  nw_next :: nat

definition cache_Network :: network where
  "cache_Network = \<lparr>nw_Networks = NewSafeStrMap 1024, nw_UUID = NewSafeStrMap 1024, nw_Addr = NewSafeStrMap 1024,
     nw_heap = (\<lambda>_. None), nw_next = 0\<rparr>"

definition network_Add :: "Network \<Rightarrow> network \<Rightarrow> network" where
  "network_Add n w = w\<lparr>nw_Networks := fst (SafeStrMap_Set (nt_Name n) (Some n) (nw_Networks w))\<rparr>"

definition network_Del :: "string \<Rightarrow> network \<Rightarrow> network" where
  "network_Del name w = w\<lparr>nw_Networks := SafeStrMap_Del name (nw_Networks w)\<rparr>"

definition network_Get :: "string \<Rightarrow> network \<Rightarrow> Network option" where
  "network_Get name w = SafeStrMap_Get name (nw_Networks w)"

text \<open>The channel of a list ends with nil.\<close>

definition network_List :: "network \<Rightarrow> Network option list" where
  "network_List w = fst (SafeStrMap_Iter (\<lambda>k v acc. acc @ [Some v]) (ssm_data (nw_Networks w)) [] 0) @ [None]"

definition network_ListLease :: "network \<Rightarrow> nat option list" where
  "network_ListLease w = fst (SafeStrMap_Iter (\<lambda>k v acc. acc @ [Some v]) (ssm_data (nw_UUID w)) [] 0) @ [None]"

text \<open>The loop of \<open>allocLease\<close> over \<open>uint32\<close>: with the last address \<open>255.255.255.255\<close> its condition never fails and the
  counter wraps around. \<open>None\<close>: it does not end.\<close>

partial_function (option) alloc_loop :: "nat SafeStrMap \<Rightarrow> u32 \<Rightarrow> u32 \<Rightarrow> string option" where
  "alloc_loop addr hi i =
     (if i \<le> hi
      then let tmpStr = IP4_String (PutUint32 i)
           in if snd (SafeStrMap_GetEx tmpStr addr) then alloc_loop addr hi (i + 1) else Some tmpStr
      else Some [])"

definition network_allocLease :: "(string \<Rightarrow> byte list option) \<Rightarrow> string \<Rightarrow> string \<Rightarrow> network \<Rightarrow> string result option" where
  "network_allocLease p6 sAddr eAddr w =
     (case (ParseIP p6 sAddr, ParseIP p6 eAddr) of
        (Some sIp, Some eIp) \<Rightarrow>
          (case reslice 0 4 (case To4 sIp of None \<Rightarrow> [] | Some b \<Rightarrow> b) of
             Inl e \<Rightarrow> Some (Inl e)
           | Inr sb \<Rightarrow>
               (case reslice 0 4 (case To4 eIp of None \<Rightarrow> [] | Some b \<Rightarrow> b) of
                  Inl e \<Rightarrow> Some (Inl e)
                | Inr eb \<Rightarrow> (case alloc_loop (nw_Addr w) (Uint32 eb) (Uint32 sb) of
                    None \<Rightarrow> None | Some s \<Rightarrow> Some (Inr s))))
      | _ \<Rightarrow> Some (Inr []))"

text \<open>The type assertion on a value of the maps, which panics on a nil interface.\<close>

definition as_lease :: "nat option \<Rightarrow> nat result" where
  "as_lease obj = (case obj of Some i \<Rightarrow> Inr i | None \<Rightarrow> Inl (Panic ''interface conversion''))"

definition network_GetLease :: "string \<Rightarrow> network \<Rightarrow> nat option result" where
  "network_GetLease uuid w =
     (case SafeStrMap_GetEx uuid (nw_UUID w) of
        (obj, True) \<Rightarrow> (case as_lease obj of Inl e \<Rightarrow> Inl e | Inr i \<Rightarrow> Inr (Some i))
      | (_, False) \<Rightarrow> Inr None)"

text \<open>By alias means by the key of the same map.\<close>

definition network_GetLeaseByAlias :: "string \<Rightarrow> network \<Rightarrow> nat option result" where
  "network_GetLeaseByAlias name w =
     (case SafeStrMap_GetEx name (nw_UUID w) of
        (obj, True) \<Rightarrow> (case as_lease obj of Inl e \<Rightarrow> Inl e | Inr i \<Rightarrow> Inr (Some i))
      | (_, False) \<Rightarrow> Inr None)"

text \<open>The errors of both \<open>Set\<close> are dropped, and an existing entry stays as it is.\<close>

definition network_AddLease :: "string \<Rightarrow> string \<Rightarrow> network \<Rightarrow> network \<times> nat option" where
  "network_AddLease uuid ipStr w =
     (if ipStr \<noteq> []
      then let i = nw_next w;
               l = \<lparr>ls_Address = ipStr, ls_UUID = uuid, ls_Alias = uuid, ls_Client = [], ls_Type = [], ls_Network = []\<rparr>
           in (w\<lparr>nw_heap := (nw_heap w)(i \<mapsto> l), nw_next := i + 1,
                 nw_UUID := fst (SafeStrMap_Set uuid (Some i) (nw_UUID w)),
                 nw_Addr := fst (SafeStrMap_Set ipStr (Some i) (nw_Addr w))\<rparr>, Some i)
      else (w, None))"

definition network_NewLease ::
    "(string \<Rightarrow> byte list option) \<Rightarrow> string \<Rightarrow> string \<Rightarrow> network \<Rightarrow> (network \<times> nat option) result option" where
  "network_NewLease p6 uuid net w =
     (case network_Get net w of
        None \<Rightarrow> Some (Inr (w, None))
      | Some n \<Rightarrow>
          if uuid = [] then Some (Inr (w, None))
          else case SafeStrMap_GetEx uuid (nw_UUID w) of
            (obj, True) \<Rightarrow> Some (case as_lease obj of Inl e \<Rightarrow> Inl e | Inr i \<Rightarrow> Inr (w, Some i))
          | (_, False) \<Rightarrow>
              (case network_allocLease p6 (nt_IpStart n) (nt_IpEnd n) w of
                 None \<Rightarrow> None
               | Some (Inl e) \<Rightarrow> Some (Inl e)
               | Some (Inr ipStr) \<Rightarrow>
                   if ipStr = [] then Some (Inr (w, None))
                   else let w = fst (network_AddLease uuid ipStr w)
                        in Some (case network_GetLease uuid w of Inl e \<Rightarrow> Inl e | Inr l \<Rightarrow> Inr (w, l))))"

definition network_DelLease :: "string \<Rightarrow> network \<Rightarrow> network result" where
  "network_DelLease uuid w =
     (case (case SafeStrMap_GetEx uuid (nw_UUID w) of
              (_, False) \<Rightarrow> Inr (w, [])
            | (obj, True) \<Rightarrow>
                (case as_lease obj of
                   Inl e \<Rightarrow> Inl e
                 | Inr i \<Rightarrow> (case nw_heap w i of
                     None \<Rightarrow> Inl nil_deref
                   | Some lease \<Rightarrow>
                       Inr (if ls_Type lease \<noteq> ''static'' then w\<lparr>nw_UUID := SafeStrMap_Del uuid (nw_UUID w)\<rparr> else w,
                            ls_Address lease)))) of
        Inl e \<Rightarrow> Inl e
      | Inr (w, addr) \<Rightarrow>
          (case SafeStrMap_GetEx addr (nw_Addr w) of
             (_, False) \<Rightarrow> Inr w
           | (obj, True) \<Rightarrow>
               (case as_lease obj of
                  Inl e \<Rightarrow> Inl e
                | Inr i \<Rightarrow> (case nw_heap w i of
                    None \<Rightarrow> Inl nil_deref
                  | Some lease \<Rightarrow>
                      Inr (if ls_UUID lease = uuid \<and> ls_Type lease \<noteq> ''static''
                           then w\<lparr>nw_Addr := SafeStrMap_Del addr (nw_Addr w)\<rparr> else w)))))"

section \<open>Requests for an address\<close>

text \<open>Assignments to the fields of a lease.\<close>

definition set_lease :: "nat \<Rightarrow> (Lease \<Rightarrow> Lease) \<Rightarrow> network \<Rightarrow> network" where
  "set_lease i f w = w\<lparr>nw_heap := (nw_heap w)(i := map_option f (nw_heap w i))\<rparr>"

definition lease_addr :: "nat \<Rightarrow> network \<Rightarrow> string" where
  "lease_addr i w = (case nw_heap w i of Some l \<Rightarrow> ls_Address l | None \<Rightarrow> [])"

text \<open>\<open>client\<close> is the text of the client of the point. The last step writes network and client into the lease found.\<close>

definition getLease_finish :: "string \<Rightarrow> string \<Rightarrow> network \<Rightarrow> nat option \<Rightarrow> network \<times> nat option" where
  "getLease_finish net client w lease =
     (case lease of
        None \<Rightarrow> (w, None)
      | Some i \<Rightarrow> (set_lease i (\<lambda>l. l\<lparr>ls_Network := net, ls_Client := client\<rparr>) w, Some i))"

definition Request_getLease ::
    "(string \<Rightarrow> byte list option) \<Rightarrow> string \<Rightarrow> string \<Rightarrow> Point \<Rightarrow> Network option \<Rightarrow> network
     \<Rightarrow> (network \<times> nat option) result option" where
  "Request_getLease p6 ifAddr client p n w =
     (case n of
        None \<Rightarrow> Some (Inr (w, None))
      | Some n \<Rightarrow>
          (let uuid = pt_UUID p; alias = pt_Alias p; net = nt_Name n;
               finish = getLease_finish net client
           in case network_GetLeaseByAlias alias w of
                Inl e \<Rightarrow> Some (Inl e)
              | Inr lease \<Rightarrow>
                  if ifAddr = []
                  then case lease of
                         None \<Rightarrow> (case network_NewLease p6 uuid net w of
                             None \<Rightarrow> None
                           | Some (Inl e) \<Rightarrow> Some (Inl e)
                           | Some (Inr (w, None)) \<Rightarrow> Some (Inr (finish w None))
                           | Some (Inr (w, Some i)) \<Rightarrow>
                               Some (Inr (finish (set_lease i (\<lambda>l. l\<lparr>ls_Alias := alias\<rparr>) w) (Some i))))
                       | Some i \<Rightarrow> Some (Inr (finish (set_lease i (\<lambda>l. l\<lparr>ls_UUID := uuid\<rparr>) w) (Some i)))
                  else let ipAddr = SplitN ifAddr (CHR ''/'') 2 ! 0
                       in case lease of
                            Some i \<Rightarrow>
                              if lease_addr i w = ipAddr
                              then Some (Inr (finish (set_lease i (\<lambda>l. l\<lparr>ls_UUID := uuid\<rparr>) w) (Some i)))
                              else (case network_AddLease uuid ipAddr w of
                                 (w, None) \<Rightarrow> Some (Inl nil_deref)
                               | (w, Some i) \<Rightarrow> Some (Inr (finish (set_lease i (\<lambda>l. l\<lparr>ls_Alias := alias\<rparr>) w) (Some i))))
                          | None \<Rightarrow> (case network_AddLease uuid ipAddr w of
                                 (w, None) \<Rightarrow> Some (Inl nil_deref)
                               | (w, Some i) \<Rightarrow> Some (Inr (finish (set_lease i (\<lambda>l. l\<lparr>ls_Alias := alias\<rparr>) w) (Some i))))))"

section \<open>Allocating an address\<close>

definition ip_text :: "u32 \<Rightarrow> string" where
  "ip_text i = IP4_String (PutUint32 i)"

definition addr_used :: "nat SafeStrMap \<Rightarrow> u32 \<Rightarrow> bool" where
  "addr_used addr i \<longleftrightarrow> ssm_lookup addr (ip_text i) \<noteq> None"

lemma GetEx_simps [simp]:
  "snd (SafeStrMap_GetEx k m) \<longleftrightarrow> ssm_lookup m k \<noteq> None"
  "fst (SafeStrMap_GetEx k m) = SafeStrMap_Get k m"
  by (auto simp: SafeStrMap_GetEx_def SafeStrMap_Get_def split: option.splits)

lemma GetEx_eq: "SafeStrMap_GetEx k m = (SafeStrMap_Get k m, ssm_lookup m k \<noteq> None)"
  by (auto simp: SafeStrMap_GetEx_def SafeStrMap_Get_def split: option.splits)

lemma ip_text_ne [simp]: "ip_text i \<noteq> []"
  by (simp add: ip_text_def IP4_String_def PutUint32_def)

lemma ip_text_inj: "ip_text i = ip_text j \<longleftrightarrow> i = j"
proof
  assume "ip_text i = ip_text j"
  then have "PutUint32 i = PutUint32 j" unfolding ip_text_def PutUint32_def IP4_String_inj .
  then show "i = j" using Uint32_Put by metis
qed simp

lemma ParseIP_ip_text: "ParseIP p6 (ip_text i) = Some (v4InV6Prefix @ PutUint32 i)"
  unfolding ip_text_def PutUint32_def by (rule ParseIP_IP4)

lemma To4_v4 [simp]: "To4 (v4InV6Prefix @ PutUint32 i) = Some (PutUint32 i)"
  by (simp add: To4_def v4InV6Prefix_def)

lemma alloc_loop_unfold:
  "alloc_loop addr hi i = (if i \<le> hi then if addr_used addr i then alloc_loop addr hi (i + 1) else Some (ip_text i) else Some [])"
  by (subst alloc_loop.simps) (simp add: addr_used_def ip_text_def)

lemma word_le_succ_cases: "i \<noteq> -1 \<Longrightarrow> i \<le> j \<Longrightarrow> i = j \<or> i + 1 \<le> (j :: u32)"
  by (metis inc_le order_le_less)

lemma from_next:
  assumes "\<And>j. i \<le> j \<Longrightarrow> (i' \<le> j \<Longrightarrow> P j) \<Longrightarrow> P j" and "\<forall>j. i' \<le> j \<and> Q j \<longrightarrow> P j"
  shows "\<forall>j. i \<le> j \<and> Q j \<longrightarrow> P j"
  using assms by (metis (no_types))

text \<open>With an end below the last address of all, the loop ends with the first free address or with none.\<close>

lemma alloc_loop_spec:
  assumes "hi \<noteq> -1"
  shows "(\<exists>k. i \<le> k \<and> k \<le> hi \<and> \<not> addr_used addr k \<and> (\<forall>j. i \<le> j \<and> j < k \<longrightarrow> addr_used addr j) \<and>
           alloc_loop addr hi i = Some (ip_text k)) \<or>
         ((\<forall>j. i \<le> j \<and> j \<le> hi \<longrightarrow> addr_used addr j) \<and> alloc_loop addr hi i = Some [])"
proof (induction "unat hi + 1 - unat i" arbitrary: i rule: less_induct)
  case less
  consider (out) "\<not> i \<le> hi" | (free) "i \<le> hi" "\<not> addr_used addr i" | (used) "i \<le> hi" "addr_used addr i" by blast
  then show ?case
  proof cases
    case out
    then show ?thesis by (subst (2) alloc_loop_unfold) (auto dest: order_trans)
  next
    case free
    then show ?thesis by (subst alloc_loop_unfold) (auto dest: leD)
  next
    case used
    with assms have i: "i \<noteq> -1" by (metis word_order.extremum antisym)
    have step: "alloc_loop addr hi i = alloc_loop addr hi (i + 1)" using used by (subst alloc_loop_unfold) simp
    have lt: "i < i + 1" using i unatSuc [of i] by (simp add: word_less_nat_alt eq_neg_iff_add_eq_0 add.commute)
    with used have "unat hi + 1 - unat (i + 1) < unat hi + 1 - unat i" by (simp add: word_less_nat_alt word_le_nat_alt)
    note IH = less [OF this]
    have all: "addr_used addr j" if "i \<le> j" "i + 1 \<le> j \<Longrightarrow> addr_used addr j" for j
      using that used(2) word_le_succ_cases [OF i, of j] by auto
    from IH show ?thesis
    proof (elim disjE exE conjE)
      fix k
      assume k: "i + 1 \<le> k" "k \<le> hi" "\<not> addr_used addr k" "\<forall>j. i + 1 \<le> j \<and> j < k \<longrightarrow> addr_used addr j"
        "alloc_loop addr hi (i + 1) = Some (ip_text k)"
      have "i \<le> k" using k(1) lt by simp
      moreover have "\<forall>j. i \<le> j \<and> j < k \<longrightarrow> addr_used addr j" by (rule from_next [OF all k(4)])
      moreover have "alloc_loop addr hi i = Some (ip_text k)" using step k(5) by simp
      ultimately show ?thesis using k by (intro disjI1 exI [of _ k] conjI)
    next
      assume a: "\<forall>j. i + 1 \<le> j \<and> j \<le> hi \<longrightarrow> addr_used addr j" "alloc_loop addr hi (i + 1) = Some []"
      have "\<forall>j. i \<le> j \<and> j \<le> hi \<longrightarrow> addr_used addr j" by (rule from_next [OF all a(1)])
      with a(2) step show ?thesis by simp
    qed
  qed
qed

lemma allocLease_text:
  "network_allocLease p6 (ip_text s) (ip_text e) w =
     (case alloc_loop (nw_Addr w) e s of None \<Rightarrow> None | Some t \<Rightarrow> Some (Inr t))"
  by (simp add: network_allocLease_def ParseIP_ip_text reslice_def slice_def)

text \<open>C35. \<open>allocLease\<close> on a range of IPv4 addresses whose end is not \<open>255.255.255.255\<close> returns, and returns the text of the
  smallest address of the range that is not in use, or the empty text when all of them are.\<close>

theorem allocLease_first_free:
  assumes "e \<noteq> -1"
  shows "\<exists>t. network_allocLease p6 (ip_text s) (ip_text e) w = Some (Inr t) \<and>
     (if \<forall>j. s \<le> j \<and> j \<le> e \<longrightarrow> addr_used (nw_Addr w) j then t = []
      else \<exists>k. t = ip_text k \<and> s \<le> k \<and> k \<le> e \<and> \<not> addr_used (nw_Addr w) k \<and>
             (\<forall>j. s \<le> j \<and> j < k \<longrightarrow> addr_used (nw_Addr w) j))"
  using alloc_loop_spec [OF assms, of s "nw_Addr w"]
proof (elim disjE exE conjE)
  fix k
  assume k: "s \<le> k" "k \<le> e" "\<not> addr_used (nw_Addr w) k" "\<forall>j. s \<le> j \<and> j < k \<longrightarrow> addr_used (nw_Addr w) j"
    "alloc_loop (nw_Addr w) e s = Some (ip_text k)"
  then have "\<not> (\<forall>j. s \<le> j \<and> j \<le> e \<longrightarrow> addr_used (nw_Addr w) j)" by metis
  with k show ?thesis by (intro exI [of _ "ip_text k"]) (auto simp: allocLease_text)
qed (simp add: allocLease_text)

theorem allocLease_first_free_witness:
  "\<exists>t. network_allocLease (\<lambda>_. None) (ip_text 5) (ip_text 9) cache_Network = Some (Inr t) \<and> t \<noteq> []"
proof -
  have "\<not> addr_used (nw_Addr cache_Network) j" for j by (simp add: addr_used_def cache_Network_def NewSafeStrMap_def)
  moreover have "(5 :: u32) \<le> 5" "(5 :: u32) \<le> 9" by simp_all
  ultimately show ?thesis using allocLease_first_free [of 9 "\<lambda>_. None" 5 cache_Network] by (fastforce split: if_splits)
qed

text \<open>With the end \<open>255.255.255.255\<close> and a range that is in use, the search goes on at \<open>0.0.0.0\<close>, outside the range.\<close>

lemma alloc_loop_wraps:
  "\<forall>j. s \<le> j \<longrightarrow> addr_used addr j \<Longrightarrow> alloc_loop addr (-1) s = alloc_loop addr (-1) 0"
proof (induction "2 ^ 32 - unat s" arbitrary: s rule: less_induct)
  case less
  have step: "alloc_loop addr (-1) s = alloc_loop addr (-1) (s + 1)"
    using less.prems by (subst alloc_loop_unfold) simp
  show ?case
  proof (cases "s = -1")
    case False
    then have suc: "unat (s + 1) = Suc (unat s)" using unatSuc [of s] by (simp add: eq_neg_iff_add_eq_0 add.commute)
    have "unat s < 2 ^ LENGTH(32)" by (rule unsigned_less)
    then have "2 ^ 32 - unat (s + 1) < 2 ^ 32 - unat s" using suc by simp
    moreover have "addr_used addr j" if "s + 1 \<le> j" for j
      using less.prems that suc by (simp add: word_le_nat_alt)
    ultimately show ?thesis using less.hyps step by simp
  qed (use step in simp)
qed

text \<open>A range that ends at \<open>255.255.255.255\<close> is not respected: when all its addresses are in use and \<open>0.0.0.0\<close> is not,
  \<open>0.0.0.0\<close> is handed out.\<close>

theorem allocLease_wraps:
  assumes "\<forall>j. s \<le> j \<longrightarrow> addr_used (nw_Addr w) j" and "\<not> addr_used (nw_Addr w) 0"
  shows "network_allocLease p6 (ip_text s) (ip_text (-1)) w = Some (Inr (ip_text 0))"
  using alloc_loop_wraps [OF assms(1)] assms(2) alloc_loop_unfold [of "nw_Addr w" "-1" 0]
  by (simp add: allocLease_text)

theorem allocLease_wraps_witness:
  "network_allocLease (\<lambda>_. None) (ip_text (-1)) (ip_text (-1)) (fst (network_AddLease ''h'' (ip_text (-1)) cache_Network)) =
     Some (Inr (ip_text 0))"
proof (rule allocLease_wraps)
  let ?a = "nw_Addr (fst (network_AddLease ''h'' (ip_text (-1)) cache_Network))"
  have l: "ssm_lookup ?a = [ip_text (-1) \<mapsto> Some 0]"
    by (simp add: network_AddLease_def cache_Network_def NewSafeStrMap_def SafeStrMap_Set_def SafeStrMap_add_def SafeStrMap_full_def)
  show "\<forall>j. -1 \<le> j \<longrightarrow> addr_used ?a j" unfolding addr_used_def l by (simp add: ip_text_inj word_order.extremum_unique)
  show "\<not> addr_used ?a 0" unfolding addr_used_def l by (simp add: ip_text_inj)
qed

section \<open>Who owns an address\<close>

text \<open>The switch with its networks hands out leases on requests and takes them back when clients close.\<close>

datatype lease_op = LRequest string Point string | LClose string

fun lease_step :: "(string \<Rightarrow> byte list option) \<Rightarrow> lease_op \<Rightarrow> network \<Rightarrow> network result option" where
  "lease_step p6 (LRequest client p net) w =
     (case Request_getLease p6 [] client p (network_Get net w) w of
        None \<Rightarrow> None | Some (Inl e) \<Rightarrow> Some (Inl e) | Some (Inr (w, _)) \<Rightarrow> Some (Inr w))"
| "lease_step p6 (LClose uuid) w = Some (network_DelLease uuid w)"

fun lease_run :: "(string \<Rightarrow> byte list option) \<Rightarrow> lease_op list \<Rightarrow> network \<Rightarrow> network result option" where
  "lease_run p6 [] w = Some (Inr w)"
| "lease_run p6 (op # ops) w =
     (case lease_step p6 op w of
        None \<Rightarrow> None | Some (Inl e) \<Rightarrow> Some (Inl e) | Some (Inr w) \<Rightarrow> lease_run p6 ops w)"

text \<open>Every lease found by uuid is the one registered for its address, and by one uuid only.\<close>

definition lease_ok :: "network \<Rightarrow> bool" where
  "lease_ok w \<longleftrightarrow>
     (\<forall>u v. ssm_lookup (nw_UUID w) u = Some v \<longrightarrow>
        (\<exists>i l. v = Some i \<and> nw_heap w i = Some l \<and> ssm_lookup (nw_Addr w) (ls_Address l) = Some (Some i))) \<and>
     (\<forall>u v i. ssm_lookup (nw_UUID w) u = Some (Some i) \<and> ssm_lookup (nw_UUID w) v = Some (Some i) \<longrightarrow> u = v) \<and>
     (\<forall>a v. ssm_lookup (nw_Addr w) a = Some v \<longrightarrow> a \<noteq> [] \<and> (\<exists>i l. v = Some i \<and> nw_heap w i = Some l \<and> ls_Address l = a)) \<and>
     (\<forall>i \<ge> nw_next w. nw_heap w i = None)"

text \<open>A network whose addresses are given as a range of IPv4 addresses below \<open>255.255.255.255\<close>, or not at all.\<close>

definition range_ok :: "Network \<Rightarrow> bool" where
  "range_ok n \<longleftrightarrow> (nt_IpStart n = [] \<or> (\<exists>s e. nt_IpStart n = ip_text s \<and> nt_IpEnd n = ip_text e \<and> e \<noteq> -1))"

definition ranges_ok :: "network \<Rightarrow> bool" where
  "ranges_ok w \<longleftrightarrow> (\<forall>k n. network_Get k w = Some n \<longrightarrow> range_ok n)"

lemma set_lease_simps [simp]:
  "nw_UUID (set_lease i f w) = nw_UUID w" "nw_Addr (set_lease i f w) = nw_Addr w"
  "nw_Networks (set_lease i f w) = nw_Networks w" "nw_next (set_lease i f w) = nw_next w"
  "nw_heap (set_lease i f w) = (nw_heap w)(i := map_option f (nw_heap w i))"
  by (simp_all add: set_lease_def)

lemma lease_okD:
  assumes "lease_ok w"
  shows "ssm_lookup (nw_UUID w) u = Some v \<Longrightarrow>
      \<exists>i l. v = Some i \<and> nw_heap w i = Some l \<and> ssm_lookup (nw_Addr w) (ls_Address l) = Some (Some i)"
    and "ssm_lookup (nw_UUID w) u = Some (Some i) \<Longrightarrow> ssm_lookup (nw_UUID w) u' = Some (Some i) \<Longrightarrow> u = u'"
    and "ssm_lookup (nw_Addr w) a = Some v' \<Longrightarrow> a \<noteq> [] \<and> (\<exists>i l. v' = Some i \<and> nw_heap w i = Some l \<and> ls_Address l = a)"
    and "nw_next w \<le> j \<Longrightarrow> nw_heap w j = None"
  using assms unfolding lease_ok_def by blast+

lemma lease_ok_unique:
  assumes "lease_ok w" and "ssm_lookup (nw_UUID w) u = Some (Some i)" and "ssm_lookup (nw_UUID w) v = Some (Some j)"
    and "u \<noteq> v"
  shows "lease_addr i w \<noteq> lease_addr j w"
proof
  assume "lease_addr i w = lease_addr j w"
  moreover obtain l where "nw_heap w i = Some l" "ssm_lookup (nw_Addr w) (ls_Address l) = Some (Some i)"
    using lease_okD(1) [OF assms(1,2)] by blast
  moreover obtain l' where "nw_heap w j = Some l'" "ssm_lookup (nw_Addr w) (ls_Address l') = Some (Some j)"
    using lease_okD(1) [OF assms(1,3)] by blast
  ultimately have "i = j" by (simp add: lease_addr_def)
  with lease_okD(2) [OF assms(1)] assms(2-4) show False by blast
qed

lemma set_lease_ok:
  assumes "lease_ok w" and "\<And>l. ls_Address (f l) = ls_Address l"
  shows "lease_ok (set_lease i f w)"
proof -
  have "\<exists>l. nw_heap (set_lease i f w) j = Some l \<and> ls_Address l = ls_Address l'" if "nw_heap w j = Some l'" for j l'
    using that assms(2) by (cases "j = i") auto
  note keep = this
  show ?thesis unfolding lease_ok_def
  proof (intro conjI allI impI)
    fix u v
    assume "ssm_lookup (nw_UUID (set_lease i f w)) u = Some v"
    then obtain j l where "v = Some j" "nw_heap w j = Some l" "ssm_lookup (nw_Addr w) (ls_Address l) = Some (Some j)"
      using lease_okD(1) [OF assms(1), of u v] by auto
    with keep [of j l] show "\<exists>j l. v = Some j \<and> nw_heap (set_lease i f w) j = Some l \<and>
        ssm_lookup (nw_Addr (set_lease i f w)) (ls_Address l) = Some (Some j)" by fastforce
  next
    fix a v
    assume a: "ssm_lookup (nw_Addr (set_lease i f w)) a = Some v"
    then obtain j l where "v = Some j" "nw_heap w j = Some l" "ls_Address l = a" "a \<noteq> []"
      using lease_okD(3) [OF assms(1), of a v] by auto
    with keep [of j l] show "a \<noteq> []" "\<exists>j l. v = Some j \<and> nw_heap (set_lease i f w) j = Some l \<and> ls_Address l = a"
      by fastforce+
  qed (use lease_okD(2,4) [OF assms(1)] in auto)
qed

lemma AddLease_simps:
  assumes "ipStr \<noteq> []"
  shows "snd (network_AddLease uuid ipStr w) = Some (nw_next w)"
    and "nw_next (fst (network_AddLease uuid ipStr w)) = nw_next w + 1"
    and "nw_Networks (fst (network_AddLease uuid ipStr w)) = nw_Networks w"
    and "nw_UUID (fst (network_AddLease uuid ipStr w)) = fst (SafeStrMap_Set uuid (Some (nw_next w)) (nw_UUID w))"
    and "nw_Addr (fst (network_AddLease uuid ipStr w)) = fst (SafeStrMap_Set ipStr (Some (nw_next w)) (nw_Addr w))"
    and "nw_heap (fst (network_AddLease uuid ipStr w)) = (nw_heap w)(nw_next w \<mapsto>
      \<lparr>ls_Address = ipStr, ls_UUID = uuid, ls_Alias = uuid, ls_Client = [], ls_Type = [], ls_Network = []\<rparr>)"
  using assms by (simp_all add: network_AddLease_def Let_def)

lemma AddLease_ok:
  assumes ok: "lease_ok w" and ip: "ipStr \<noteq> []" "ssm_lookup (nw_Addr w) ipStr = None" "\<not> SafeStrMap_full (nw_Addr w)"
  shows "lease_ok (fst (network_AddLease uuid ipStr w))"
proof -
  let ?w = "fst (network_AddLease uuid ipStr w)" and ?n = "nw_next w"
  have A: "ssm_lookup (nw_Addr ?w) = (ssm_lookup (nw_Addr w))(ipStr \<mapsto> Some ?n)"
    using sm.set_new [OF ip(3,2)] by (simp add: AddLease_simps [OF ip(1)])
  have U: "ssm_lookup (nw_UUID w) u = Some v \<or> u = uuid \<and> v = Some ?n \<and> ssm_lookup (nw_UUID w) u = None"
    if "ssm_lookup (nw_UUID ?w) u = Some v" for u v
    using that sm.set_range [of uuid "Some ?n" "nw_UUID w" u v] sm.set_other [of u uuid "Some ?n" "nw_UUID w"]
      sm.set_keeps_old [of "nw_UUID w" uuid _ "Some ?n"]
    by (cases "u = uuid"; cases "ssm_lookup (nw_UUID w) uuid") (auto simp: AddLease_simps [OF ip(1)])
  have fresh: "nw_heap w ?n = None" using lease_okD(4) [OF ok] by simp
  have noaddr: "ssm_lookup (nw_UUID w) u \<noteq> Some (Some ?n)" for u using lease_okD(1) [OF ok] fresh by fastforce
  show ?thesis unfolding lease_ok_def
  proof (intro conjI allI impI)
    fix u v
    assume "ssm_lookup (nw_UUID ?w) u = Some v"
    then consider "ssm_lookup (nw_UUID w) u = Some v" | "v = Some ?n" using U by blast
    then show "\<exists>i l. v = Some i \<and> nw_heap ?w i = Some l \<and> ssm_lookup (nw_Addr ?w) (ls_Address l) = Some (Some i)"
    proof cases
      case 1
      then obtain i l where "v = Some i" "nw_heap w i = Some l" "ssm_lookup (nw_Addr w) (ls_Address l) = Some (Some i)"
        using lease_okD(1) [OF ok] by blast
      then show ?thesis unfolding A using fresh ip(2) by (intro exI [of _ i] exI [of _ l]) (auto simp: AddLease_simps [OF ip(1)])
    next
      case 2
      then show ?thesis unfolding A by (auto simp: AddLease_simps [OF ip(1)])
    qed
  next
    fix u v i
    assume "ssm_lookup (nw_UUID ?w) u = Some (Some i) \<and> ssm_lookup (nw_UUID ?w) v = Some (Some i)"
    then show "u = v" using U [of u "Some i"] U [of v "Some i"] noaddr lease_okD(2) [OF ok, of u i v] by auto
  next
    fix a v
    assume "ssm_lookup (nw_Addr ?w) a = Some v"
    then have "((ssm_lookup (nw_Addr w))(ipStr \<mapsto> Some ?n)) a = Some v" by (simp only: A)
    then consider "a = ipStr" "v = Some ?n" | "ssm_lookup (nw_Addr w) a = Some v" by (cases "a = ipStr") simp_all
    then have "a \<noteq> [] \<and> (\<exists>i l. v = Some i \<and> nw_heap ?w i = Some l \<and> ls_Address l = a)"
    proof cases
      case 1
      then show ?thesis using ip(1) by (simp add: AddLease_simps [OF ip(1)])
    next
      case 2
      then obtain i l where "a \<noteq> []" "v = Some i" "nw_heap w i = Some l" "ls_Address l = a"
        using lease_okD(3) [OF ok] by blast
      moreover from this have "i \<noteq> ?n" using fresh by auto
      ultimately show ?thesis by (simp add: AddLease_simps [OF ip(1)])
    qed
    then show "\<exists>i l. v = Some i \<and> nw_heap ?w i = Some l \<and> ls_Address l = a" "a \<noteq> []" by blast+
  qed (use lease_okD(4) [OF ok] in \<open>auto simp: AddLease_simps [OF ip(1)]\<close>)
qed

lemma Get_lookup: "ssm_lookup m k = Some (Some v) \<Longrightarrow> SafeStrMap_Get k m = Some v"
  by (simp add: SafeStrMap_Get_def)

lemma DelLease_known:
  assumes ok: "lease_ok w" and u: "ssm_lookup (nw_UUID w) uuid = Some (Some i)" and l: "nw_heap w i = Some l"
  shows "network_DelLease uuid w = Inr (if ls_Type l = ''static'' then w
    else w\<lparr>nw_UUID := SafeStrMap_Del uuid (nw_UUID w),
            nw_Addr := if ls_UUID l = uuid then SafeStrMap_Del (ls_Address l) (nw_Addr w) else nw_Addr w\<rparr>)"
proof -
  have "ssm_lookup (nw_Addr w) (ls_Address l) = Some (Some i)" using lease_okD(1) [OF ok u] l by auto
  then show ?thesis using u l by (auto simp: network_DelLease_def GetEx_eq Get_lookup as_lease_def)
qed

lemma DelLease_unknown:
  assumes "lease_ok w" and "ssm_lookup (nw_UUID w) uuid = None"
  shows "network_DelLease uuid w = Inr w"
proof -
  have "ssm_lookup (nw_Addr w) [] = None" using lease_okD(3) [OF assms(1), of "[]"] by (cases "ssm_lookup (nw_Addr w) []") auto
  with assms(2) show ?thesis by (simp add: network_DelLease_def GetEx_eq)
qed

lemma DelLease_ok:
  assumes "lease_ok w"
  shows "\<exists>w'. network_DelLease uuid w = Inr w' \<and> lease_ok w' \<and> nw_Networks w' = nw_Networks w \<and>
    ssm_size (nw_Addr w') = ssm_size (nw_Addr w) \<and> length (ssm_data (nw_Addr w')) \<le> length (ssm_data (nw_Addr w))"
proof (cases "ssm_lookup (nw_UUID w) uuid")
  case None
  with DelLease_unknown [OF assms] assms show ?thesis by simp
next
  case (Some v)
  then obtain i l where v: "v = Some i" "nw_heap w i = Some l" "ssm_lookup (nw_Addr w) (ls_Address l) = Some (Some i)"
    using lease_okD(1) [OF assms] by blast
  let ?w = "w\<lparr>nw_UUID := SafeStrMap_Del uuid (nw_UUID w),
            nw_Addr := if ls_UUID l = uuid then SafeStrMap_Del (ls_Address l) (nw_Addr w) else nw_Addr w\<rparr>"
  have "lease_ok ?w" unfolding lease_ok_def
  proof (intro conjI allI impI)
    fix u x
    assume "ssm_lookup (nw_UUID ?w) u = Some x"
    then have u: "u \<noteq> uuid" "ssm_lookup (nw_UUID w) u = Some x" by (auto simp: sm.del_lookup split: if_splits)
    then obtain j k where j: "x = Some j" "nw_heap w j = Some k" "ssm_lookup (nw_Addr w) (ls_Address k) = Some (Some j)"
      using lease_okD(1) [OF assms] by blast
    have "i \<noteq> j" using lease_okD(2) [OF assms, of u j uuid] u j(1) Some v(1) by auto
    then have "ls_Address k \<noteq> ls_Address l" using j(3) v(3) by auto
    then show "\<exists>j k. x = Some j \<and> nw_heap ?w j = Some k \<and> ssm_lookup (nw_Addr ?w) (ls_Address k) = Some (Some j)"
      using j by (auto simp: sm.del_lookup)
  next
    fix u u' j
    assume "ssm_lookup (nw_UUID ?w) u = Some (Some j) \<and> ssm_lookup (nw_UUID ?w) u' = Some (Some j)"
    then show "u = u'" using lease_okD(2) [OF assms, of u j u'] by (auto simp: sm.del_lookup split: if_splits)
  next
    fix a x
    assume "ssm_lookup (nw_Addr ?w) a = Some x"
    then have "ssm_lookup (nw_Addr w) a = Some x" by (auto simp: sm.del_lookup split: if_splits)
    then show "a \<noteq> []" "\<exists>i l. x = Some i \<and> nw_heap ?w i = Some l \<and> ls_Address l = a"
      using lease_okD(3) [OF assms, of a x] by auto
  qed (use lease_okD(4) [OF assms] in auto)
  moreover have "ssm_size (SafeStrMap_Del a m) = ssm_size m \<and> length (ssm_data (SafeStrMap_Del a m)) \<le> length (ssm_data m)"
    for a and m :: "nat SafeStrMap"
    by (auto simp: SafeStrMap_Del_def length_delete_le split: option.splits)
  ultimately show ?thesis using DelLease_known [OF assms Some [unfolded v(1)] v(2)] assms by auto
qed

text \<open>What a request for an address does: nothing, or it adds one lease under a free address and then writes fields other than
  the address.\<close>

lemma allocLease_range_ok:
  assumes "range_ok n"
  shows "\<exists>t. network_allocLease p6 (nt_IpStart n) (nt_IpEnd n) w = Some (Inr t) \<and> (t \<noteq> [] \<longrightarrow> ssm_lookup (nw_Addr w) t = None)"
proof -
  consider "nt_IpStart n = []" | s e where "nt_IpStart n = ip_text s" "nt_IpEnd n = ip_text e" "e \<noteq> -1"
    using assms unfolding range_ok_def by blast
  then show ?thesis
  proof cases
    case 1
    then show ?thesis by (simp add: network_allocLease_def ParseIP_def)
  next
    case 2
    show ?thesis using alloc_loop_spec [OF 2(3), of s "nw_Addr w"]
      by (auto simp: 2(1,2) allocLease_text addr_used_def)
  qed
qed

lemma NewLease_ok:
  assumes ok: "lease_ok w" "ranges_ok w" and room: "\<not> SafeStrMap_full (nw_Addr w)"
  shows "\<exists>w' l. network_NewLease p6 uuid net w = Some (Inr (w', l)) \<and> lease_ok w' \<and> nw_Networks w' = nw_Networks w \<and>
    ssm_size (nw_Addr w') = ssm_size (nw_Addr w) \<and> length (ssm_data (nw_Addr w')) \<le> Suc (length (ssm_data (nw_Addr w)))"
proof (cases "network_Get net w")
  case None
  then show ?thesis using ok by (simp add: network_NewLease_def)
next
  case (Some n)
  then have n: "range_ok n" using ok(2) by (simp add: ranges_ok_def)
  obtain t where t: "network_allocLease p6 (nt_IpStart n) (nt_IpEnd n) w = Some (Inr t)"
    "t \<noteq> [] \<longrightarrow> ssm_lookup (nw_Addr w) t = None"
    using allocLease_range_ok [OF n] by blast
  let ?w = "fst (network_AddLease uuid t w)"
  consider (empty) "uuid = []" | (known) v where "uuid \<noteq> []" "ssm_lookup (nw_UUID w) uuid = Some v"
    | (none) "uuid \<noteq> []" "ssm_lookup (nw_UUID w) uuid = None" "t = []"
    | (new) "uuid \<noteq> []" "ssm_lookup (nw_UUID w) uuid = None" "t \<noteq> []" by fastforce
  then show ?thesis
  proof cases
    case known
    then obtain i where "v = Some i" using lease_okD(1) [OF ok(1)] by blast
    with known Some ok(1) show ?thesis by (simp add: network_NewLease_def GetEx_eq Get_lookup as_lease_def)
  next
    case new
    have ok': "lease_ok ?w" using AddLease_ok [OF ok(1) new(3)] t(2) new(3) room by blast
    have "\<exists>l. network_GetLease uuid ?w = Inr l"
    proof (cases "ssm_lookup (nw_UUID ?w) uuid")
      case (Some v)
      then obtain i where "v = Some i" using lease_okD(1) [OF ok'] by blast
      with Some show ?thesis by (simp add: network_GetLease_def GetEx_eq Get_lookup as_lease_def)
    qed (simp add: network_GetLease_def GetEx_eq)
    moreover have "ssm_size (nw_Addr ?w) = ssm_size (nw_Addr w)"
      "length (ssm_data (nw_Addr ?w)) \<le> Suc (length (ssm_data (nw_Addr w)))"
      using t(2) new(3) by (auto simp: AddLease_simps SafeStrMap_Set_def SafeStrMap_add_def length_update_new)
    ultimately show ?thesis using Some new t(1) ok' by (auto simp: network_NewLease_def GetEx_eq AddLease_simps Let_def)
  qed (use Some t ok in \<open>simp_all add: network_NewLease_def GetEx_eq\<close>)
qed

lemma lease_step_ok:
  assumes ok: "lease_ok w" "ranges_ok w" and room: "\<not> SafeStrMap_full (nw_Addr w)"
  shows "\<exists>w'. lease_step p6 op w = Some (Inr w') \<and> lease_ok w' \<and> nw_Networks w' = nw_Networks w \<and>
    ssm_size (nw_Addr w') = ssm_size (nw_Addr w) \<and> length (ssm_data (nw_Addr w')) \<le> Suc (length (ssm_data (nw_Addr w)))"
proof (cases op)
  case (LClose uuid)
  then show ?thesis using DelLease_ok [OF ok(1), of uuid] by auto
next
  case (LRequest client p net)
  show ?thesis
  proof (cases "network_Get net w")
    case None
    with LRequest ok show ?thesis by (simp add: Request_getLease_def)
  next
    case (Some n)
    show ?thesis
    proof (cases "ssm_lookup (nw_UUID w) (pt_Alias p)")
      case None
      obtain w' l where "network_NewLease p6 (pt_UUID p) (nt_Name n) w = Some (Inr (w', l))" and w': "lease_ok w'"
        "nw_Networks w' = nw_Networks w" "ssm_size (nw_Addr w') = ssm_size (nw_Addr w)"
        "length (ssm_data (nw_Addr w')) \<le> Suc (length (ssm_data (nw_Addr w)))"
        using NewLease_ok [OF ok room] by blast
      with None Some LRequest show ?thesis
        by (cases l) (auto simp: Request_getLease_def network_GetLeaseByAlias_def GetEx_eq Let_def getLease_finish_def
            set_lease_ok)
    next
      case (Some v)
      then obtain i where "v = Some i" using lease_okD(1) [OF ok(1)] by blast
      with Some \<open>network_Get net w = Some n\<close> LRequest ok show ?thesis
        by (auto simp: Request_getLease_def network_GetLeaseByAlias_def GetEx_eq Get_lookup as_lease_def Let_def
            getLease_finish_def set_lease_ok)
    qed
  qed
qed

lemma ranges_ok_cong: "nw_Networks w' = nw_Networks w \<Longrightarrow> ranges_ok w' = ranges_ok w"
  by (simp add: ranges_ok_def network_Get_def)


lemma lease_ok_init: "lease_ok cache_Network"
  by (simp add: lease_ok_def cache_Network_def NewSafeStrMap_def)

definition net_demo :: Network where
  "net_demo = \<lparr>nt_Name = ''a'', nt_Tenant = [], nt_IfAddr = [], nt_IpStart = ip_text 5, nt_IpEnd = ip_text 9,
     nt_Netmask = [], nt_Routes = []\<rparr>"

lemma net_demo_range: "nt_IpStart net_demo = ip_text 5" "nt_IpEnd net_demo = ip_text 9"
  by (simp_all add: net_demo_def)

definition point_demo :: "string \<Rightarrow> Point" where
  "point_demo u = \<lparr>pt_UUID = u, pt_Alias = u, pt_Network = ''a'', pt_User = [], pt_Protocol = [], pt_Server = [], pt_Uptime = 0,
     pt_Status = [], pt_IfName = [], pt_Client = 0, pt_Device = None, pt_System = []\<rparr>"

lemma ranges_ok_demo: "ranges_ok (network_Add net_demo w)" if "ranges_ok w"
proof -
  have "range_ok net_demo" unfolding range_ok_def net_demo_def by (intro disjI2 exI [of _ 5] exI [of _ 9]) simp
  then have "range_ok n" if "network_Get k (network_Add net_demo w) = Some n" for k n
    using that \<open>ranges_ok w\<close> sm.set_range [of "nt_Name net_demo" "Some net_demo" "nw_Networks w" k]
    by (auto simp: ranges_ok_def network_Get_def network_Add_def SafeStrMap_Get_def split: option.splits)
  then show ?thesis by (simp add: ranges_ok_def)
qed

definition ops_demo :: "lease_op list" where
  "ops_demo = [LRequest ''c'' (point_demo ''x'') ''a'', LRequest ''d'' (point_demo ''y'') ''a'', LClose ''x'']"


section \<open>Where ownership fails\<close>

lemma NewLease_new:
  assumes "network_Get net w = Some n" and "uuid \<noteq> []" and "ssm_lookup (nw_UUID w) uuid = None"
    and "network_allocLease p6 (nt_IpStart n) (nt_IpEnd n) w = Some (Inr t)" and "t \<noteq> []"
    and "\<not> SafeStrMap_full (nw_UUID w)"
  shows "network_NewLease p6 uuid net w = Some (Inr (fst (network_AddLease uuid t w), Some (nw_next w)))"
proof -
  have "ssm_lookup (nw_UUID (fst (network_AddLease uuid t w))) uuid = Some (Some (nw_next w))"
    using sm.set_new [OF assms(6,3)] assms(5) by (simp add: AddLease_simps)
  then have "network_GetLease uuid (fst (network_AddLease uuid t w)) = Inr (Some (nw_next w))"
    by (simp add: network_GetLease_def GetEx_eq Get_lookup as_lease_def)
  then show ?thesis using assms(1-5) by (simp add: network_NewLease_def GetEx_eq Let_def)
qed

lemma AddLease_full:
  assumes "SafeStrMap_full (nw_Addr w)" and "t \<noteq> []"
  shows "nw_Addr (fst (network_AddLease uuid t w)) = nw_Addr w"
  using sm.set_full [OF assms(1)] assms(2) by (simp add: AddLease_simps)

text \<open>Once the address table is full its errors are ignored: two clients of one network that ask for an address get two
  leases with the same address.\<close>

theorem NewLease_full_duplicates:
  assumes "network_Get net w = Some n" and "nt_IpStart n = ip_text s" and "nt_IpEnd n = ip_text e"
    and "alloc_loop (nw_Addr w) e s = Some t" and "t \<noteq> []"
    and "SafeStrMap_full (nw_Addr w)" and "int (length (ssm_data (nw_UUID w))) + 1 < ssm_size (nw_UUID w)"
    and "u \<noteq> []" and "v \<noteq> []" and "u \<noteq> v" and "ssm_lookup (nw_UUID w) u = None" and "ssm_lookup (nw_UUID w) v = None"
  shows "\<exists>w' w'' i j. network_NewLease p6 u net w = Some (Inr (w', Some i)) \<and>
    network_NewLease p6 v net w' = Some (Inr (w'', Some j)) \<and> i \<noteq> j \<and>
    lease_addr i w'' = t \<and> lease_addr j w'' = t"
proof -
  let ?w = "fst (network_AddLease u t w)"
  have full: "\<not> SafeStrMap_full (nw_UUID w)" using assms(7) by (simp add: SafeStrMap_full_def)
  have len: "length (ssm_data (nw_UUID ?w)) = Suc (length (ssm_data (nw_UUID w)))" "ssm_size (nw_UUID ?w) = ssm_size (nw_UUID w)"
    using full assms(5,11) by (auto simp: AddLease_simps SafeStrMap_Set_def SafeStrMap_add_def length_update_new)
  then have full': "\<not> SafeStrMap_full (nw_UUID ?w)" using assms(7) by (simp add: SafeStrMap_full_def)
  have 1: "network_NewLease p6 u net w = Some (Inr (?w, Some (nw_next w)))"
    using NewLease_new [OF assms(1,8,11) _ assms(5) full] assms(2-4) by (simp add: allocLease_text)
  have "ssm_lookup (nw_UUID ?w) v = None"
    using sm.set_new [OF full assms(11)] assms(5,10,12) by (simp add: AddLease_simps)
  moreover have "network_Get net ?w = Some n" using assms(1,5) by (simp add: network_Get_def AddLease_simps)
  moreover have "network_allocLease p6 (nt_IpStart n) (nt_IpEnd n) ?w = Some (Inr t)"
    using assms(2-4) by (simp add: allocLease_text AddLease_full [OF assms(6,5)])
  ultimately have 2: "network_NewLease p6 v net ?w = Some (Inr (fst (network_AddLease v t ?w), Some (nw_next ?w)))"
    using NewLease_new [OF _ assms(9) _ _ assms(5) full'] by blast
  have "lease_addr (nw_next w) (fst (network_AddLease v t ?w)) = t" "lease_addr (nw_next ?w) (fst (network_AddLease v t ?w)) = t"
    "nw_next w \<noteq> nw_next ?w"
    using assms(5) by (simp_all add: lease_addr_def AddLease_simps)
  with 1 2 show ?thesis by blast
qed

theorem NewLease_full_duplicates_witness:
  "let w = fst (network_AddLease ''h'' (ip_text 1) (network_Add net_demo (cache_Network\<lparr>nw_Addr := NewSafeStrMap 1\<rparr>))) in
   \<exists>w' w'' i j. network_NewLease (\<lambda>_. None) ''x'' ''a'' w = Some (Inr (w', Some i)) \<and>
     network_NewLease (\<lambda>_. None) ''y'' ''a'' w' = Some (Inr (w'', Some j)) \<and> i \<noteq> j \<and>
     lease_addr i w'' = ip_text 5 \<and> lease_addr j w'' = ip_text 5"
proof -
  let ?w = "fst (network_AddLease ''h'' (ip_text 1) (network_Add net_demo (cache_Network\<lparr>nw_Addr := NewSafeStrMap 1\<rparr>)))"
  have w: "nw_Addr ?w = \<lparr>ssm_size = 1, ssm_data = [(ip_text 1, Some 0)]\<rparr>"
    "nw_UUID ?w = \<lparr>ssm_size = 1024, ssm_data = [(''h'', Some 0)]\<rparr>"
    by (simp_all add: network_AddLease_def network_Add_def cache_Network_def NewSafeStrMap_def SafeStrMap_Set_def
        SafeStrMap_add_def SafeStrMap_full_def)
  show ?thesis unfolding Let_def
  proof (rule NewLease_full_duplicates)
    show "network_Get ''a'' ?w = Some net_demo"
      by (simp add: network_Get_def network_AddLease_def network_Add_def cache_Network_def NewSafeStrMap_def SafeStrMap_Set_def
          SafeStrMap_add_def SafeStrMap_full_def SafeStrMap_Get_def net_demo_def)
    show "alloc_loop (nw_Addr ?w) 9 5 = Some (ip_text 5)"
      by (subst alloc_loop_unfold) (simp add: w addr_used_def ip_text_inj)
  qed (simp_all add: w net_demo_range SafeStrMap_full_def)
qed

text \<open>A client whose alias is the key of another client's lease takes that lease over; after both clients have gone, in this
  order or the other, the address stays in use although nobody can find its lease any more.\<close>

theorem lease_takeover_leaks:
  assumes "lease_ok w" and "network_Get net w = Some n" and "ssm_lookup (nw_UUID w) (pt_Alias p) = Some (Some i)"
    and "nw_heap w i = Some l" and "ls_Type l \<noteq> ''static''" and "pt_UUID p \<noteq> pt_Alias p"
    and "ssm_lookup (nw_UUID w) (pt_UUID p) = None"
    and "ops = [LClose (pt_UUID p), LClose (pt_Alias p)] \<or> ops = [LClose (pt_Alias p), LClose (pt_UUID p)]"
  shows "\<exists>w'. lease_run p6 (LRequest client p net # ops) w = Some (Inr w') \<and>
    ssm_lookup (nw_Addr w') (ls_Address l) = Some (Some i) \<and> (\<forall>u. ssm_lookup (nw_UUID w') u \<noteq> Some (Some i))"
proof -
  let ?l = "l\<lparr>ls_UUID := pt_UUID p, ls_Network := nt_Name n, ls_Client := client\<rparr>"
  define w1 where "w1 = set_lease i (\<lambda>l. l\<lparr>ls_Network := nt_Name n, ls_Client := client\<rparr>)
    (set_lease i (\<lambda>l. l\<lparr>ls_UUID := pt_UUID p\<rparr>) w)"
  have ok1: "lease_ok w1" using assms(1) by (simp add: w1_def set_lease_ok)
  have req: "lease_step p6 (LRequest client p net) w = Some (Inr w1)"
    using assms(2,3) by (simp add: Request_getLease_def network_GetLeaseByAlias_def GetEx_eq Get_lookup as_lease_def Let_def
        getLease_finish_def w1_def)
  have maps: "nw_UUID w1 = nw_UUID w" "nw_Addr w1 = nw_Addr w" by (simp_all add: w1_def)
  have heap: "nw_heap w1 i = Some ?l" using assms(4) by (simp add: w1_def)
  let ?w2 = "w1\<lparr>nw_UUID := SafeStrMap_Del (pt_Alias p) (nw_UUID w)\<rparr>"
  have del: "network_DelLease (pt_Alias p) w1 = Inr ?w2"
    using DelLease_known [OF ok1 _ heap, of "pt_Alias p"] assms(3,5,6) by (simp add: maps)
  then have ok2: "lease_ok ?w2" using DelLease_ok [OF ok1, of "pt_Alias p"] by auto
  have "network_DelLease (pt_UUID p) w1 = Inr w1" "network_DelLease (pt_UUID p) ?w2 = Inr ?w2"
    using DelLease_unknown [OF ok1] DelLease_unknown [OF ok2] assms(7) by (simp_all add: maps sm.del_lookup)
  with req del assms(8) have "lease_run p6 (LRequest client p net # ops) w = Some (Inr ?w2)"
    by (elim disjE) (simp_all del: lease_step.simps(1))
  moreover have "ssm_lookup (nw_Addr ?w2) (ls_Address l) = Some (Some i)" using lease_okD(1) [OF assms(1,3)] assms(4) by (auto simp: maps)
  moreover have "ssm_lookup (nw_UUID ?w2) u \<noteq> Some (Some i)" for u
    using lease_okD(2) [OF assms(1), of u i "pt_Alias p"] assms(3) by (auto simp: sm.del_lookup)
  ultimately show ?thesis by blast
qed

theorem lease_takeover_leaks_witness:
  "\<exists>w'. lease_run (\<lambda>_. None) [LRequest ''c'' ((point_demo ''h'')\<lparr>pt_UUID := ''x''\<rparr>) ''a'', LClose ''x'', LClose ''h'']
       (fst (network_AddLease ''h'' (ip_text 5) (network_Add net_demo cache_Network))) = Some (Inr w') \<and>
     ssm_lookup (nw_Addr w') (ip_text 5) = Some (Some 0) \<and> (\<forall>u. ssm_lookup (nw_UUID w') u \<noteq> Some (Some 0))"
proof -
  let ?base = "network_Add net_demo cache_Network"
  let ?w = "fst (network_AddLease ''h'' (ip_text 5) ?base)" and ?p = "(point_demo ''h'')\<lparr>pt_UUID := ''x''\<rparr>"
  let ?l = "\<lparr>ls_Address = ip_text 5, ls_UUID = ''h'', ls_Alias = ''h'', ls_Client = [], ls_Type = [], ls_Network = []\<rparr>"
  have ok0: "lease_ok ?base" using lease_ok_init by (simp add: lease_ok_def network_Add_def)
  have "lease_ok ?w"
    by (rule AddLease_ok [OF ok0]) (simp_all add: network_Add_def cache_Network_def NewSafeStrMap_def SafeStrMap_full_def)
  moreover have "network_Get ''a'' ?w = Some net_demo"
    by (simp add: network_Get_def network_AddLease_def network_Add_def cache_Network_def NewSafeStrMap_def SafeStrMap_Set_def
          SafeStrMap_add_def SafeStrMap_full_def SafeStrMap_Get_def net_demo_def)
  moreover have "ssm_lookup (nw_UUID ?w) (pt_Alias ?p) = Some (Some 0)" "nw_heap ?w 0 = Some ?l"
    "ssm_lookup (nw_UUID ?w) (pt_UUID ?p) = None"
    by (simp_all add: network_AddLease_def network_Add_def cache_Network_def NewSafeStrMap_def SafeStrMap_Set_def
          SafeStrMap_add_def SafeStrMap_full_def point_demo_def)
  ultimately show ?thesis
    using lease_takeover_leaks [of ?w "''a''" net_demo ?p 0 ?l "[LClose ''x'', LClose ''h'']" "\<lambda>_. None" "''c''"]
    by (simp add: point_demo_def del: lease_run.simps lease_step.simps)
qed

end
