(* ===== verification/Cache.thy ===== *)
theory Cache
  imports Lease
begin

text \<open>The caches of users, points, neighbors, flows and links (\<open>src/pkg/olsw/cache/user.go\<close>, \<open>point.go\<close>, \<open>neighbor.go\<close>,
  \<open>online.go\<close>, \<open>link.go\<close>). The objects are shared with the handlers of the switch, which change them through pointers, so
  every cache holds numbers of objects in a store; a store is a total function, only the numbers below its counter have been
  allocated. The clock is an argument, the service behind LDAP and the conversion of times to text are parameters.\<close>

section \<open>Users\<close>

record LDAPConfig =
  lc_Server :: string
  lc_BindDN :: string
  lc_Password :: string
  lc_BaseDN :: string
  lc_Attr :: string
  lc_Filter :: string
  lc_EnableTls :: bool
  lc_Timeout :: int

text \<open>The LDAP client library: connecting, whether the connection is closing, and a login.\<close>

record 'l ldap =
  ld_New :: "LDAPConfig \<Rightarrow> 'l result"
  ld_IsClosing :: "'l \<Rightarrow> bool"
  ld_Login :: "'l \<Rightarrow> string \<Rightarrow> string \<Rightarrow> bool"

record 'l user =
  ur_File :: string
  ur_Users :: "nat SafeStrMap"
  ur_LdapCfg :: "LDAPConfig option"
  ur_LdapSvc :: "'l option"
  ur_heap :: "nat \<Rightarrow> User"
  ur_next :: nat

definition cache_User :: "'l user" where
  "cache_User = \<lparr>ur_File = [], ur_Users = NewSafeStrMap 1024, ur_LdapCfg = None, ur_LdapSvc = None,
     ur_heap = (\<lambda>_. zero_user), ur_next = 0\<rparr>"

definition user_SetFile :: "string \<Rightarrow> 'l user \<Rightarrow> 'l user" where
  "user_SetFile v w = w\<lparr>ur_File := v\<rparr>"

definition user_Init :: "int \<Rightarrow> 'l user \<Rightarrow> 'l user" where
  "user_Init n w = w\<lparr>ur_Users := NewSafeStrMap n\<rparr>"

definition user_Get :: "string \<Rightarrow> 'l user \<Rightarrow> nat option" where
  "user_Get key w = SafeStrMap_Get key (ur_Users w)"

definition user_Del :: "string \<Rightarrow> 'l user \<Rightarrow> 'l user" where
  "user_Del key w = w\<lparr>ur_Users := SafeStrMap_Del key (ur_Users w)\<rparr>"

definition user_List :: "'l user \<Rightarrow> nat option list" where
  "user_List w = fst (SafeStrMap_Iter (\<lambda>k v acc. acc @ [Some v]) (ssm_data (ur_Users w)) [] 0) @ [None]"

text \<open>A composite literal \<open>&models.User{...}\<close>.\<close>

definition new_user :: "User \<Rightarrow> 'l user \<Rightarrow> 'l user \<times> nat" where
  "new_user u w = (w\<lparr>ur_heap := (ur_heap w)(ur_next w := u), ur_next := ur_next w + 1\<rparr>, ur_next w)"

definition user_Add :: "nat \<Rightarrow> 'l user \<Rightarrow> 'l user" where
  "user_Add i w =
     (let user = ur_heap w i; key = User_Id user
      in case user_Get key w of
           None \<Rightarrow> w\<lparr>ur_Users := fst (SafeStrMap_Set key (Some i) (ur_Users w))\<rparr>
         | Some j \<Rightarrow>
             (let older = ur_heap w j;
                  older = (if us_Role user \<noteq> [] then older\<lparr>us_Role := us_Role user\<rparr> else older);
                  older = (if us_Password user \<noteq> [] then older\<lparr>us_Password := us_Password user\<rparr> else older);
                  older = (if us_Alias user \<noteq> [] then older\<lparr>us_Alias := us_Alias user\<rparr> else older);
                  older = older\<lparr>us_UpdateAt := us_UpdateAt user\<rparr>;
                  older = (if us_Lease user \<noteq> zeroTime then older\<lparr>us_Lease := us_Lease user\<rparr> else older)
              in w\<lparr>ur_heap := (ur_heap w)(j := older)\<rparr>))"

text \<open>The two together: a new object is added.\<close>

definition add_new :: "User \<Rightarrow> 'l user \<Rightarrow> 'l user" where
  "add_new u w = user_Add (ur_next w) (fst (new_user u w))"

text \<open>\<open>bufio.Scanner\<close>: the lines without their line ends; a line of 64 KiB or more stops it.\<close>

definition drop_cr :: "string \<Rightarrow> string" where
  "drop_cr s = (if s \<noteq> [] \<and> last s = CHR 0x0D then butlast s else s)"

lemma split_at_shorter: "split_at sep s = (a, Some r) \<Longrightarrow> length r < length s"
  by (induction s arbitrary: a) (auto split: if_splits prod.splits)

function scan_lines :: "string \<Rightarrow> string list" where
  "scan_lines s =
     (case split_at (CHR 0x0A) s of
        (a, None) \<Rightarrow> if a = [] \<or> length a \<ge> 65536 then [] else [drop_cr a]
      | (a, Some r) \<Rightarrow> if length a \<ge> 65536 then [] else drop_cr a # scan_lines r)"
  by pat_completeness auto
termination
  by (relation "measure length") (auto dest: split_at_shorter [OF sym])

declare scan_lines.simps [simp del]

text \<open>\<open>parse\<close> is \<open>GetLocalTime\<close> with the layout of the lease time, the zero time where it fails. The argument of \<open>Load\<close> is the
  content of the file, \<open>None\<close> when it cannot be opened.\<close>

definition load_line :: "(string \<Rightarrow> int) \<Rightarrow> int \<Rightarrow> string \<Rightarrow> 'l user \<Rightarrow> 'l user" where
  "load_line parse now line w =
     (let columns = SplitN line (CHR '':'') 4
      in if length columns < 2 then w
         else let role = (if length columns > 2 then columns ! 2 else ''guest'');
                  leStr = (if length columns > 3 then columns ! 3 else []);
                  (w, i) = new_user (User_Update now (zero_user\<lparr>us_Name := columns ! 0, us_Password := columns ! 1,
                             us_Role := role, us_Lease := parse leStr\<rparr>)) w
              in user_Add i w)"

definition user_Load :: "(string \<Rightarrow> int) \<Rightarrow> int \<Rightarrow> string option \<Rightarrow> 'l user \<Rightarrow> 'l user" where
  "user_Load parse now file w = (case file of None \<Rightarrow> w | Some text \<Rightarrow> fold (load_line parse now) (scan_lines text) w)"

text \<open>The result of \<open>Save\<close>: the content of the new file if one is written, and the error. \<open>open\<close> is the outcome of opening it,
  \<open>fmt\<close> the text of a lease time.\<close>

definition save_line :: "(int \<Rightarrow> string) \<Rightarrow> User \<Rightarrow> string" where
  "save_line fmt obj = User_Id obj @ '':'' @ us_Password obj @ '':'' @ us_Role obj @ '':'' @ fmt (us_Lease obj)"

definition user_Save :: "error option \<Rightarrow> (int \<Rightarrow> string) \<Rightarrow> 'l user \<Rightarrow> string option \<times> error option" where
  "user_Save open fmt w =
     (if ur_File w = [] then (None, None)
      else case open of Some e \<Rightarrow> (None, Some e)
      | None \<Rightarrow> (Some (concat (map (\<lambda>obj. save_line fmt obj @ [CHR 0x0A]) (filter (\<lambda>obj. us_Role obj \<noteq> ''ldap'')
                   (map (ur_heap w) (map the (takeWhile (\<lambda>obj. obj \<noteq> None) (user_List w))))))), None))"

definition user_GetLdap :: "'l ldap \<Rightarrow> 'l user \<Rightarrow> 'l user \<times> 'l option" where
  "user_GetLdap ld w =
     (case ur_LdapCfg w of
        None \<Rightarrow> (w, None)
      | Some cfg \<Rightarrow>
          (let w = (if (case ur_LdapSvc w of None \<Rightarrow> True | Some svc \<Rightarrow> ld_IsClosing ld svc)
                    then (case ld_New ld cfg of Inl _ \<Rightarrow> w\<lparr>ur_LdapSvc := None\<rparr> | Inr l \<Rightarrow> w\<lparr>ur_LdapSvc := Some l\<rparr>)
                    else w)
           in (w, ur_LdapSvc w)))"

definition user_SetLdap :: "'l ldap \<Rightarrow> LDAPConfig \<Rightarrow> 'l user \<Rightarrow> 'l user" where
  "user_SetLdap ld cfg w =
     (let w = w\<lparr>ur_LdapCfg := Some cfg\<rparr>
      in case ld_New ld cfg of Inl _ \<Rightarrow> w | Inr l \<Rightarrow> w\<lparr>ur_LdapSvc := Some l\<rparr>)"

text \<open>The user that \<open>CheckLdap\<close> returns is the new object, also when \<open>Add\<close> has copied it into an older one.\<close>

definition user_CheckLdap :: "'l ldap \<Rightarrow> int \<Rightarrow> User \<Rightarrow> 'l user \<Rightarrow> 'l user \<times> nat option" where
  "user_CheckLdap ld now obj w =
     (case user_GetLdap ld w of
        (w, None) \<Rightarrow> (w, None)
      | (w, Some svc) \<Rightarrow>
          (if (case user_Get (User_Id obj) w of Some i \<Rightarrow> us_Role (ur_heap w i) \<noteq> ''ldap'' | None \<Rightarrow> False) then (w, None)
           else if \<not> ld_Login ld svc (User_Id obj) (us_Password obj) then (w, None)
           else let (w, i) = new_user (User_Update now (zero_user\<lparr>us_Name := User_Id obj, us_Password := us_Password obj,
                                us_Role := ''ldap'', us_Alias := us_Alias obj\<rparr>)) w
                in (user_Add i w, Some i)))"

definition user_Timeout :: "int \<Rightarrow> User \<Rightarrow> 'l user \<Rightarrow> bool result" where
  "user_Timeout now user w =
     (if us_Role user = ''ldap''
      then (case ur_LdapCfg w of None \<Rightarrow> Inl nil_deref | Some cfg \<Rightarrow> Inr (now - us_UpdateAt user > lc_Timeout cfg))
      else Inr True)"

text \<open>\<open>year\<close> is the year of a time in its location.\<close>

definition user_Check :: "'l ldap \<Rightarrow> (int \<Rightarrow> int) \<Rightarrow> int \<Rightarrow> User \<Rightarrow> 'l user \<Rightarrow> 'l user \<times> nat result" where
  "user_Check ld year now obj w =
     (let ldap = (case user_CheckLdap ld now obj w of
                    (w, Some i) \<Rightarrow> (w, Inr i)
                  | (w, None) \<Rightarrow> (w, Inl (NewErr ''wrong user or password'')))
      in case user_Get (User_Id obj) w of
           None \<Rightarrow> ldap
         | Some i \<Rightarrow>
             (let u = ur_heap w i
              in if (us_Role u = [] \<or> us_Role u = ''admin'' \<or> us_Role u = ''guest'') \<and> us_Password u = us_Password obj
                 then (if year (us_Lease u) < 2000 \<or> us_Lease u > now then (w, Inr i)
                       else (w, Inl (NewErr ''out of date'')))
                 else ldap))"

section \<open>Points\<close>

text \<open>\<open>addr\<close> is the text of the client with a number, \<open>upd\<close> the method \<open>Update\<close> of a point, which reads the client and the device.\<close>

record point =
  pc_Clients :: "nat SafeStrMap"
  pc_UUIDAddr :: SafeStrStr
  pc_AddrUUID :: SafeStrStr
  pc_heap :: "nat \<Rightarrow> Point"
  pc_next :: nat

definition point_Init :: "int \<Rightarrow> point \<Rightarrow> point" where
  "point_Init n p = p\<lparr>pc_Clients := NewSafeStrMap n\<rparr>"

definition point_Add :: "(nat \<Rightarrow> string) \<Rightarrow> nat \<Rightarrow> point \<Rightarrow> point" where
  "point_Add addr i p =
     (let m = pc_heap p i; a = addr (pt_Client m)
      in p\<lparr>pc_UUIDAddr := fst (SafeStrStr_Reset (pt_UUID m) a (pc_UUIDAddr p)),
           pc_AddrUUID := fst (SafeStrStr_Set a (pt_UUID m) (pc_AddrUUID p)),
           pc_Clients := fst (SafeStrMap_Set a (Some i) (pc_Clients p))\<rparr>)"

definition point_Get :: "(Point \<Rightarrow> Point) \<Rightarrow> string \<Rightarrow> point \<Rightarrow> point \<times> nat option" where
  "point_Get upd a p =
     (case SafeStrMap_Get a (pc_Clients p) of
        None \<Rightarrow> (p, None)
      | Some i \<Rightarrow> (p\<lparr>pc_heap := (pc_heap p)(i := upd (pc_heap p i))\<rparr>, Some i))"

definition point_GetUUID :: "string \<Rightarrow> point \<Rightarrow> string" where
  "point_GetUUID a p = SafeStrStr_Get a (pc_AddrUUID p)"

definition point_GetAddr :: "string \<Rightarrow> point \<Rightarrow> string" where
  "point_GetAddr uuid p = SafeStrStr_Get uuid (pc_UUIDAddr p)"

definition point_GetByUUID :: "(Point \<Rightarrow> Point) \<Rightarrow> string \<Rightarrow> point \<Rightarrow> point \<times> nat option" where
  "point_GetByUUID upd uuid p =
     (let a = point_GetAddr uuid p in if a \<noteq> [] then point_Get upd a p else (p, None))"

text \<open>\<open>Del\<close> first closes the device of the point, whose number it returns.\<close>

definition point_Del :: "(nat \<Rightarrow> string) \<Rightarrow> string \<Rightarrow> point \<Rightarrow> point \<times> nat option" where
  "point_Del addr a p =
     (case SafeStrMap_Get a (pc_Clients p) of
        None \<Rightarrow> (p, None)
      | Some i \<Rightarrow>
          (let m = pc_heap p i
           in (p\<lparr>pc_UUIDAddr := (if SafeStrStr_Get (pt_UUID m) (pc_UUIDAddr p) = a
                                 then SafeStrStr_Del (pt_UUID m) (pc_UUIDAddr p) else pc_UUIDAddr p),
                pc_AddrUUID := SafeStrStr_Del (addr (pt_Client m)) (pc_AddrUUID p),
                pc_Clients := SafeStrMap_Del a (pc_Clients p)\<rparr>, pt_Device m)))"

definition point_List :: "(Point \<Rightarrow> Point) \<Rightarrow> point \<Rightarrow> point \<times> nat option list" where
  "point_List upd p =
     (let (h, c) = fst (SafeStrMap_Iter (\<lambda>k i (h, c). (h(i := upd (h i)), c @ [Some i])) (ssm_data (pc_Clients p)) (pc_heap p, []) 0)
      in (p\<lparr>pc_heap := h\<rparr>, c @ [None]))"

section \<open>Neighbors\<close>

text \<open>\<open>net.IP.String\<close>: \<open>s6\<close> is the text of an IPv6 address.\<close>

definition IP_String :: "(byte list \<Rightarrow> string) \<Rightarrow> byte list \<Rightarrow> string" where
  "IP_String s6 ip =
     (if ip = [] then ''<nil>''
      else case To4 ip of
        Some b \<Rightarrow> IP4_String b
      | None \<Rightarrow> if length ip = 16 then s6 ip else ''?'' @ concat (map hex_byte ip))"

record neighbor =
  nc_Neighbors :: "nat SafeStrMap"
  nc_heap :: "nat \<Rightarrow> Neighbor"
  nc_next :: nat

definition neighbor_Init :: "int \<Rightarrow> neighbor \<Rightarrow> neighbor" where
  "neighbor_Init n p = p\<lparr>nc_Neighbors := NewSafeStrMap n\<rparr>"

definition neighbor_Get :: "string \<Rightarrow> neighbor \<Rightarrow> nat option" where
  "neighbor_Get key p = SafeStrMap_Get key (nc_Neighbors p)"

definition neighbor_Del :: "string \<Rightarrow> neighbor \<Rightarrow> neighbor" where
  "neighbor_Del key p = p\<lparr>nc_Neighbors := SafeStrMap_Del key (nc_Neighbors p)\<rparr>"

definition neighbor_Add :: "(byte list \<Rightarrow> string) \<Rightarrow> nat \<Rightarrow> neighbor \<Rightarrow> neighbor" where
  "neighbor_Add ips i p =
     (let key = ips (ng_IpAddr (nc_heap p i));
          p = (if SafeStrMap_Get key (nc_Neighbors p) \<noteq> None then neighbor_Del key p else p)
      in p\<lparr>nc_Neighbors := fst (SafeStrMap_Set key (Some i) (nc_Neighbors p))\<rparr>)"

text \<open>\<open>Update\<close> returns nil in every case.\<close>

definition neighbor_Update :: "(byte list \<Rightarrow> string) \<Rightarrow> Neighbor \<Rightarrow> neighbor \<Rightarrow> neighbor" where
  "neighbor_Update ips m p =
     (case SafeStrMap_Get (ips (ng_IpAddr m)) (nc_Neighbors p) of
        None \<Rightarrow> p
      | Some j \<Rightarrow> p\<lparr>nc_heap := (nc_heap p)(j := (nc_heap p j)\<lparr>ng_HwAddr := ng_HwAddr m, ng_HitTime := ng_HitTime m\<rparr>)\<rparr>)"

definition neighbor_List :: "neighbor \<Rightarrow> nat option list" where
  "neighbor_List p = fst (SafeStrMap_Iter (\<lambda>k v acc. acc @ [Some v]) (ssm_data (nc_Neighbors p)) [] 0) @ [None]"

section \<open>Flows and links\<close>

record online =
  oc_Lines :: "nat SafeStrMap"
  oc_heap :: "nat \<Rightarrow> Line"
  oc_next :: nat

definition online_Init :: "int \<Rightarrow> online \<Rightarrow> online" where
  "online_Init n p = p\<lparr>oc_Lines := NewSafeStrMap n\<rparr>"

definition online_Add :: "nat \<Rightarrow> online \<Rightarrow> online" where
  "online_Add i p = p\<lparr>oc_Lines := fst (SafeStrMap_Set (Line_String (oc_heap p i)) (Some i) (oc_Lines p))\<rparr>"

definition online_Update :: "nat \<Rightarrow> online \<Rightarrow> online" where
  "online_Update i p =
     (case SafeStrMap_Get (Line_String (oc_heap p i)) (oc_Lines p) of
        None \<Rightarrow> p
      | Some j \<Rightarrow> p\<lparr>oc_heap := (oc_heap p)(j := (oc_heap p j)\<lparr>ln_HitTime := ln_HitTime (oc_heap p i)\<rparr>)\<rparr>)"

definition online_Get :: "string \<Rightarrow> online \<Rightarrow> nat option" where
  "online_Get key p = SafeStrMap_Get key (oc_Lines p)"

definition online_Del :: "string \<Rightarrow> online \<Rightarrow> online" where
  "online_Del key p = p\<lparr>oc_Lines := SafeStrMap_Del key (oc_Lines p)\<rparr>"

definition online_List :: "online \<Rightarrow> nat option list" where
  "online_List p = fst (SafeStrMap_Iter (\<lambda>k v acc. acc @ [Some v]) (ssm_data (oc_Lines p)) [] 0) @ [None]"

record Link =
  lk_User :: string
  lk_Network :: string
  lk_Protocol :: string
  lk_StatusFile :: string

record link =
  kc_Links :: "Link SafeStrMap"

definition link_Init :: "int \<Rightarrow> link \<Rightarrow> link" where
  "link_Init n p = p\<lparr>kc_Links := NewSafeStrMap n\<rparr>"

definition link_Add :: "string \<Rightarrow> Link \<Rightarrow> link \<Rightarrow> link" where
  "link_Add uuid l p = p\<lparr>kc_Links := fst (SafeStrMap_Set uuid (Some l) (kc_Links p))\<rparr>"

definition link_Get :: "string \<Rightarrow> link \<Rightarrow> Link option" where
  "link_Get key p = SafeStrMap_Get key (kc_Links p)"

definition link_Del :: "string \<Rightarrow> link \<Rightarrow> link" where
  "link_Del key p = p\<lparr>kc_Links := SafeStrMap_Del key (kc_Links p)\<rparr>"

definition link_List :: "link \<Rightarrow> Link option list" where
  "link_List p = fst (SafeStrMap_Iter (\<lambda>k v acc. acc @ [Some v]) (ssm_data (kc_Links p)) [] 0) @ [None]"

section \<open>The password file\<close>

lemma SplitN_step: "sep \<notin> set a \<Longrightarrow> SplitN (a @ sep # r) sep (Suc (Suc n)) = a # SplitN r sep (Suc n)"
  by (simp add: split_at_present)

lemma scan_lines_cons:
  assumes "CHR 0x0A \<notin> set a" and "length a < 65536"
  shows "scan_lines (a @ CHR 0x0A # r) = drop_cr a # scan_lines r"
  using assms by (subst scan_lines.simps) (simp add: split_at_present)

lemma scan_lines_Nil: "scan_lines [] = []"
  by (subst scan_lines.simps) simp

text \<open>A user whose fields a line of the file can hold.\<close>

definition user_clean :: "(int \<Rightarrow> string) \<Rightarrow> (string \<Rightarrow> int) \<Rightarrow> User \<Rightarrow> bool" where
  "user_clean fmt parse u \<longleftrightarrow> CHR ''@'' \<notin> set (us_Name u) \<and> us_Network u \<noteq> [] \<and> CHR '':'' \<notin> set (User_Id u) \<and>
     CHR '':'' \<notin> set (us_Password u) \<and> CHR '':'' \<notin> set (us_Role u) \<and> parse (fmt (us_Lease u)) = us_Lease u \<and>
     CHR 0x0A \<notin> set (save_line fmt u) \<and> CHR 0x0D \<notin> set (save_line fmt u) \<and> length (save_line fmt u) < 65536"

definition user_same :: "User \<Rightarrow> User \<Rightarrow> bool" where
  "user_same u v \<longleftrightarrow> us_Name u = us_Name v \<and> us_Network u = us_Network v \<and> us_Password u = us_Password v \<and>
     us_Role u = us_Role v \<and> us_Lease u = us_Lease v"

definition reloaded :: "int \<Rightarrow> User \<Rightarrow> User" where
  "reloaded now u = zero_user\<lparr>us_Name := us_Name u, us_Network := us_Network u, us_Password := us_Password u,
     us_Role := us_Role u, us_Lease := us_Lease u, us_UpdateAt := now\<rparr>"

lemma reloaded_same: "user_same u (reloaded now u)" "User_Id (reloaded now u) = User_Id u"
  by (simp_all add: user_same_def reloaded_def User_Id_def)

lemma save_line_columns:
  assumes "user_clean fmt parse u"
  shows "SplitN (save_line fmt u) (CHR '':'') 4 = [User_Id u, us_Password u, us_Role u, fmt (us_Lease u)]"
proof -
  have 4: "(4 :: nat) = Suc (Suc (Suc (Suc 0)))" by simp
  show ?thesis using assms unfolding user_clean_def
    by (simp add: 4 save_line_def SplitN_step del: SplitN.simps(3))
qed

lemma User_Update_Id:
  assumes "CHR ''@'' \<notin> set (us_Name u)" and "us_Network u \<noteq> []"
  shows "User_Update now (zero_user\<lparr>us_Name := User_Id u, us_Password := pw, us_Role := role, us_Lease := l\<rparr>) =
    zero_user\<lparr>us_Name := us_Name u, us_Network := us_Network u, us_Password := pw, us_Role := role, us_Lease := l,
      us_UpdateAt := now\<rparr>"
proof -
  have "SplitN (User_Id u) (CHR ''@'') 2 = [us_Name u, us_Network u]"
    using SplitN_2_present [OF assms(1)] by (simp add: User_Id_def)
  then show ?thesis using assms(2) by (simp add: User_Update_def Let_def zero_user_def to_lower_def) (simp add: User_Id_def)
qed

lemma load_line_save:
  assumes "user_clean fmt parse u"
  shows "load_line parse now (save_line fmt u) w = user_Add (ur_next w) (fst (new_user (reloaded now u) w))"
  using assms save_line_columns [OF assms] User_Update_Id [of u now]
  by (simp add: load_line_def Let_def new_user_def reloaded_def user_clean_def)

text \<open>New users with different names, added one after the other while there is room.\<close>

lemma add_new_all:
  assumes "distinct (map User_Id us)" and "\<forall>u \<in> set us. ssm_lookup (ur_Users w) (User_Id u) = None"
    and "int (length (ssm_data (ur_Users w)) + length us) \<le> ssm_size (ur_Users w)"
  shows "let w' = fold add_new us w in
    (\<forall>u \<in> set us. \<exists>j. ssm_lookup (ur_Users w') (User_Id u) = Some (Some j) \<and> ur_heap w' j = u) \<and>
    (\<forall>k. k \<notin> User_Id ` set us \<longrightarrow> ssm_lookup (ur_Users w') k = ssm_lookup (ur_Users w) k) \<and>
    (\<forall>j < ur_next w. ur_heap w' j = ur_heap w j)"
  using assms
proof (induction us arbitrary: w)
  case Nil
  then show ?case by simp
next
  case (Cons u us)
  let ?i = "ur_next w"
  define w1 where "w1 = add_new u w"
  have none: "ssm_lookup (ur_Users w) (User_Id u) = None" using Cons.prems(2) by auto
  have nfull: "\<not> SafeStrMap_full (ur_Users w)" using Cons.prems(3) by (simp add: SafeStrMap_full_def)
  have w1: "w1 = w\<lparr>ur_heap := (ur_heap w)(?i := u), ur_next := ?i + 1,
      ur_Users := fst (SafeStrMap_Set (User_Id u) (Some ?i) (ur_Users w))\<rparr>"
    unfolding w1_def add_new_def using none
    by (simp add: user_Add_def new_user_def user_Get_def SafeStrMap_Get_def Let_def)
  have look: "ssm_lookup (ur_Users w1) = (ssm_lookup (ur_Users w))(User_Id u \<mapsto> Some ?i)"
    using sm.set_new [OF nfull none] by (simp add: w1)
  have len: "length (ssm_data (ur_Users w1)) = Suc (length (ssm_data (ur_Users w)))" "ssm_size (ur_Users w1) = ssm_size (ur_Users w)"
    using nfull none by (simp_all add: w1 SafeStrMap_Set_def SafeStrMap_add_def length_update_new)
  have fresh: "\<forall>v \<in> set us. ssm_lookup (ur_Users w1) (User_Id v) = None"
    using Cons.prems(1,2) unfolding look by (auto simp: rev_image_eqI)
  define w' where "w' = fold add_new us w1"
  have eq: "fold add_new (u # us) w = w'" by (simp add: w'_def w1_def)
  have IH: "\<forall>v \<in> set us. \<exists>j. ssm_lookup (ur_Users w') (User_Id v) = Some (Some j) \<and> ur_heap w' j = v"
    "\<forall>k. k \<notin> User_Id ` set us \<longrightarrow> ssm_lookup (ur_Users w') k = ssm_lookup (ur_Users w1) k"
    "\<forall>j < ur_next w1. ur_heap w' j = ur_heap w1 j"
    using Cons.IH [of w1] Cons.prems fresh len unfolding Let_def w'_def by auto
  have "ssm_lookup (ur_Users w') (User_Id u) = Some (Some ?i)" using IH(2) Cons.prems(1) look by auto
  moreover have "ur_heap w' ?i = u" using IH(3) by (simp add: w1)
  ultimately show ?case using IH look unfolding Let_def eq by (auto simp: w1)
qed

lemma load_saved:
  assumes "\<forall>u \<in> set us. user_clean fmt parse u" and "distinct (map User_Id us)"
    and "\<forall>u \<in> set us. ssm_lookup (ur_Users w) (User_Id u) = None"
    and "int (length (ssm_data (ur_Users w)) + length us) \<le> ssm_size (ur_Users w)"
  shows "let w' = fold (load_line parse now) (map (save_line fmt) us) w in
    (\<forall>u \<in> set us. \<exists>j. ssm_lookup (ur_Users w') (User_Id u) = Some (Some j) \<and> user_same u (ur_heap w' j)) \<and>
    (\<forall>k. k \<notin> User_Id ` set us \<longrightarrow> ssm_lookup (ur_Users w') k = ssm_lookup (ur_Users w) k)"
proof -
  have eq: "fold (load_line parse now) (map (save_line fmt) us) w = fold add_new (map (reloaded now) us) w"
    using assms(1) by (induction us arbitrary: w) (simp_all add: load_line_save add_new_def)
  have ids: "map User_Id (map (reloaded now) us) = map User_Id us" "User_Id ` set (map (reloaded now) us) = User_Id ` set us"
    by (simp_all add: reloaded_same comp_def image_image)
  define w' where "w' = fold add_new (map (reloaded now) us) w"
  have all: "\<forall>u \<in> set (map (reloaded now) us). \<exists>j. ssm_lookup (ur_Users w') (User_Id u) = Some (Some j) \<and> ur_heap w' j = u"
    "\<forall>k. k \<notin> User_Id ` set us \<longrightarrow> ssm_lookup (ur_Users w') k = ssm_lookup (ur_Users w) k"
    using add_new_all [of "map (reloaded now) us" w] assms(2-4) unfolding Let_def w'_def [symmetric] ids by (auto simp: reloaded_same)
  have "\<exists>j. ssm_lookup (ur_Users w') (User_Id u) = Some (Some j) \<and> user_same u (ur_heap w' j)" if "u \<in> set us" for u
    using bspec [OF all(1), of "reloaded now u"] that reloaded_same by auto
  with all(2) show ?thesis unfolding Let_def eq w'_def [symmetric] by blast
qed

lemma Iter_values:
  "\<forall>(k, v) \<in> set m. v \<noteq> None \<Longrightarrow>
     fst (SafeStrMap_Iter (\<lambda>k v acc. acc @ [Some v]) m acc n) = acc @ map snd m"
proof (induction m arbitrary: acc n)
  case (Cons x m)
  then obtain k i where "x = (k, Some i)" by (cases x) auto
  with Cons show ?case by simp
qed simp

definition users_ok :: "'l user \<Rightarrow> bool" where
  "users_ok w \<longleftrightarrow> keys_distinct (ssm_data (ur_Users w)) \<and>
     (\<forall>(k, v) \<in> set (ssm_data (ur_Users w)). \<exists>i. v = Some i \<and> User_Id (ur_heap w i) = k)"

text \<open>The users \<open>Save\<close> writes.\<close>

definition saved :: "'l user \<Rightarrow> User list" where
  "saved w = filter (\<lambda>obj. us_Role obj \<noteq> ''ldap'') (map (\<lambda>(k, v). ur_heap w (the v)) (ssm_data (ur_Users w)))"

lemma user_List_values:
  assumes "users_ok w"
  shows "takeWhile (\<lambda>obj. obj \<noteq> None) (user_List w) = map snd (ssm_data (ur_Users w))"
proof -
  have v: "\<forall>(k, v) \<in> set (ssm_data (ur_Users w)). v \<noteq> None" using assms unfolding users_ok_def by fastforce
  have "takeWhile (\<lambda>obj. obj \<noteq> None) (xs @ [None]) = xs" if "None \<notin> set xs" for xs :: "nat option list"
    using that by (subst takeWhile_append2) (metis, simp)
  moreover have "None \<notin> set (map snd (ssm_data (ur_Users w)))" using v by auto
  ultimately show ?thesis by (simp add: user_List_def Iter_values [OF v])
qed

lemma user_Save_saved:
  assumes "users_ok w" and "ur_File w \<noteq> []"
  shows "user_Save None fmt w = (Some (concat (map (\<lambda>obj. save_line fmt obj @ [CHR 0x0A]) (saved w))), None)"
  unfolding user_Save_def user_List_values [OF assms(1)] saved_def using assms(2) by (simp add: case_prod_unfold comp_def)

lemma drop_cr_id: "CHR 0x0D \<notin> set a \<Longrightarrow> drop_cr a = a"
  by (metis drop_cr_def last_in_set)

lemma scan_saved:
  "\<forall>u \<in> set us. user_clean fmt parse u \<Longrightarrow>
     scan_lines (concat (map (\<lambda>obj. save_line fmt obj @ [CHR 0x0A]) us)) = map (save_line fmt) us"
proof (induction us)
  case (Cons u us)
  then have u: "CHR 0x0A \<notin> set (save_line fmt u)" "CHR 0x0D \<notin> set (save_line fmt u)" "length (save_line fmt u) < 65536"
    by (simp_all add: user_clean_def)
  with Cons show ?case using scan_lines_cons [OF u(1,3)] by (simp add: drop_cr_id)
qed (simp add: scan_lines_Nil)

lemma user_Get_mem:
  assumes "users_ok w"
  shows "user_Get k w = Some i \<longleftrightarrow> (k, Some i) \<in> set (ssm_data (ur_Users w))"
proof -
  have "user_Get k w = Some i \<longleftrightarrow> map_of (ssm_data (ur_Users w)) k = Some (Some i)"
    by (auto simp: user_Get_def SafeStrMap_Get_def split: option.splits)
  also have "\<dots> \<longleftrightarrow> (k, Some i) \<in> set (ssm_data (ur_Users w))"
    using assms unfolding users_ok_def by (intro map_of_eq_Some_iff) blast
  finally show ?thesis .
qed

lemma saved_ids:
  assumes "users_ok w"
  shows "distinct (map User_Id (saved w))"
    and "user_Get k w = Some i \<Longrightarrow> us_Role (ur_heap w i) \<noteq> ''ldap'' \<Longrightarrow> ur_heap w i \<in> set (saved w)"
    and "u \<in> set (saved w) \<Longrightarrow> \<exists>i. user_Get (User_Id u) w = Some i \<and> u = ur_heap w i \<and> us_Role u \<noteq> ''ldap''"
    and "user_Get k w = Some i \<Longrightarrow> User_Id (ur_heap w i) = k"
proof -
  let ?d = "ssm_data (ur_Users w)" and ?u = "\<lambda>(k :: string, v). ur_heap w (the v)"
  have entry: "\<exists>i. v = Some i \<and> User_Id (ur_heap w i) = k" if "(k, v) \<in> set ?d" for k v
    using that assms unfolding users_ok_def by fast
  have "map (\<lambda>x. User_Id (?u x)) ?d = map fst ?d" by (rule map_cong) (auto dest: entry)
  then have "distinct (map User_Id (map ?u ?d))" using assms by (simp only: map_map comp_def users_ok_def)
  then show "distinct (map User_Id (saved w))" unfolding saved_def by (rule distinct_map_filter)
  show "ur_heap w i \<in> set (saved w)" if "user_Get k w = Some i" "us_Role (ur_heap w i) \<noteq> ''ldap''"
    unfolding saved_def using that by (force simp: user_Get_mem [OF assms])
  show "\<exists>i. user_Get (User_Id u) w = Some i \<and> u = ur_heap w i \<and> us_Role u \<noteq> ''ldap''" if "u \<in> set (saved w)"
  proof -
    from that obtain k v where "(k, v) \<in> set ?d" "u = ur_heap w (the v)" "us_Role u \<noteq> ''ldap''" by (auto simp: saved_def)
    then show ?thesis using entry [of k v] by (auto simp: user_Get_mem [OF assms])
  qed
  show "User_Id (ur_heap w i) = k" if "user_Get k w = Some i" using that entry [of k "Some i"] by (simp add: user_Get_mem [OF assms])
qed


definition user_demo :: User where
  "user_demo = zero_user\<lparr>us_Name := ''b'', us_Network := ''n'', us_Password := ''p'', us_Role := ''guest'', us_Lease := 7\<rparr>"

definition users_demo :: "nat user" where
  "users_demo = \<lparr>ur_File = ''f'', ur_Users = \<lparr>ssm_size = 4, ssm_data = [(''b@n'', Some 0)]\<rparr>, ur_LdapCfg = None, ur_LdapSvc = None,
     ur_heap = (\<lambda>_. user_demo), ur_next = 1\<rparr>"


section \<open>Checking a user\<close>

text \<open>C26. \<open>Check\<close> accepts a user exactly in two cases: the user is known with a local role, the password is the same and the lease
  is not over; or it is unknown or known from the directory, and the directory service accepts the password now. A local user
  is never accepted by the directory.\<close>

theorem user_Check_exact:
  "snd (user_Check ld year now obj w) = Inr i \<longleftrightarrow>
     (user_Get (User_Id obj) w = Some i \<and> us_Role (ur_heap w i) \<in> {[], ''admin'', ''guest''} \<and>
      us_Password (ur_heap w i) = us_Password obj \<and> (year (us_Lease (ur_heap w i)) < 2000 \<or> now < us_Lease (ur_heap w i))) \<or>
     (i = ur_next w \<and> (case user_Get (User_Id obj) w of None \<Rightarrow> True | Some j \<Rightarrow> us_Role (ur_heap w j) = ''ldap'') \<and>
      (\<exists>svc. snd (user_GetLdap ld w) = Some svc \<and> ld_Login ld svc (User_Id obj) (us_Password obj)))"
proof -
  obtain w1 r where g: "user_GetLdap ld w = (w1, r)" by fastforce
  have w1: "ur_Users w1 = ur_Users w" "ur_heap w1 = ur_heap w" "ur_next w1 = ur_next w"
    using g by (auto simp: user_GetLdap_def Let_def split: option.splits if_splits sum.splits)
  have get: "user_Get k w1 = user_Get k w" for k by (simp add: user_Get_def w1)
  have L: "snd (user_CheckLdap ld now obj w) = Some i \<longleftrightarrow>
     i = ur_next w \<and> (case user_Get (User_Id obj) w of None \<Rightarrow> True | Some j \<Rightarrow> us_Role (ur_heap w j) = ''ldap'') \<and>
      (\<exists>svc. r = Some svc \<and> ld_Login ld svc (User_Id obj) (us_Password obj))" for i
    by (cases r; cases "user_Get (User_Id obj) w") (auto simp: user_CheckLdap_def g get w1 new_user_def Let_def)
  have l: "snd (case user_CheckLdap ld now obj w of (w, Some i) \<Rightarrow> (w, Inr i) | (w, None) \<Rightarrow> (w, Inl (NewErr m))) = Inr i \<longleftrightarrow>
      snd (user_CheckLdap ld now obj w) = Some i" for i m
    by (auto split: prod.splits option.splits)
  show ?thesis
  proof (cases "user_Get (User_Id obj) w")
    case None
    then show ?thesis by (simp add: user_Check_def Let_def l L g)
  next
    case (Some j)
    then show ?thesis by (auto simp: user_Check_def Let_def l L g)
  qed
qed

end
