(* ===== verification/App.thy ===== *)
theory App
  imports Prog Cache
begin

text \<open>The handlers every frame of a client passes (\<open>src/pkg/olsw/app/access.go\<close>, \<open>request.go\<close>, \<open>neighbors.go\<close>, \<open>online.go\<close>): the
  login, the requests of a point, and the two inspections that record neighbors and flows. The switch is their \<open>Master\<close>, an
  interface of the source and a record of operations here, which the theory \<^verbatim>\<open>Switch\<close> implements.

  The state holds the sockets with their clients, the caches, the taps and bridges, and what the handlers themselves keep. The
  encoding and decoding of JSON, LDAP, the clock and the operations of the connections are fields of the environment. A handler
  runs without interruption; \<open>None\<close> means that it waits for ever, on a full channel or in a write.\<close>

section \<open>State and environment\<close>

record ('c, 'l) env =
  en_ops :: "'c conn"
  en_na :: "'c addrs"
  en_now :: int
  en_ldap :: "'l ldap"
  en_year :: "int \<Rightarrow> int"
  en_p6 :: "string \<Rightarrow> byte list option"
  en_s6 :: "byte list \<Rightarrow> string"
  en_mask :: "string \<Rightarrow> string option"
  en_User :: "byte list \<Rightarrow> User option"
  en_Network :: "Network \<Rightarrow> byte list \<Rightarrow> Network option"
  en_putNetwork :: "Network \<Rightarrow> byte list option"
  en_putNeighbors :: "Neighbor list \<Rightarrow> byte list option"
  en_putSign :: "string \<Rightarrow> string \<Rightarrow> byte list option"
  en_putLeft :: "int \<Rightarrow> string \<Rightarrow> string \<Rightarrow> string \<Rightarrow> string \<Rightarrow> byte list option"

record Online =
  ol_maxSize :: int
  ol_lineMap :: "(string \<times> nat) list"
  ol_lineList :: "nat list"

record Access =
  ac_success :: int
  ac_failed :: int

text \<open>The private data of a client is the number of its point. \<open>st_bridges\<close> are the bridges of the workers by tenant; \<open>st_readers\<close>
  are the goroutines that carry frames from a tap to a client.\<close>

record ('c, 'l) state =
  st_sys :: "('c, nat) system"
  st_user :: "'l user"
  st_point :: point
  st_network :: network
  st_neighbor :: neighbor
  st_online :: online
  st_lines :: Online
  st_access :: Access
  st_tapers :: tapers
  st_taps :: taps
  st_tapnext :: nat
  st_bridges :: "(string \<times> VirtualBridge) list"
  st_readers :: "(nat \<times> nat) list"

record ('c, 'l) Master =
  ms_Protocol :: string
  ms_OffClient :: "nat \<Rightarrow> (('c, 'l) state, unit) prog"
  ms_NewTap :: "string \<Rightarrow> (('c, 'l) state, nat result) prog"
  ms_ReadTap :: "nat \<Rightarrow> nat \<Rightarrow> (('c, 'l) state, unit) prog"

section \<open>Clients\<close>

definition client_get :: "nat \<Rightarrow> (('c, 'l) state, ('c, nat) SocketClientImpl) prog" where
  "client_get i = bnd (gets (\<lambda>s. sys_heap (st_sys s) i)) (\<lambda>c. case c of None \<Rightarrow> panic nil_deref | Some c \<Rightarrow> ret c)"

definition client_put :: "nat \<Rightarrow> ('c, nat) SocketClientImpl \<Rightarrow> (('c, 'l) state, unit) prog" where
  "client_put i c = modify (\<lambda>s. s\<lparr>st_sys := (st_sys s)\<lparr>sys_heap := (sys_heap (st_sys s))(i \<mapsto> c)\<rparr>\<rparr>)"

definition client_SetStatus :: "SocketStatus \<Rightarrow> nat \<Rightarrow> (('c, 'l) state, unit) prog" where
  "client_SetStatus v i = bnd (client_get i) (\<lambda>c. client_put i (fst (TcpClient_SetStatus v c)))"

definition client_SetPrivate :: "nat \<Rightarrow> nat \<Rightarrow> (('c, 'l) state, unit) prog" where
  "client_SetPrivate m i = bnd (client_get i) (\<lambda>c. client_put i (SocketClientImpl_SetPrivate (Some m) c))"

definition client_WriteMsg :: "('c, 'l) env \<Rightarrow> FrameMessage \<Rightarrow> nat \<Rightarrow> (('c, 'l) state, error option) prog" where
  "client_WriteMsg env frame i =
     bnd (client_get i) (\<lambda>c. case StreamSocket_WriteMsg (en_ops env) frame c of
       None \<Rightarrow> block
     | Some (c, err) \<Rightarrow> bnd (client_put i c) (\<lambda>_. ret err))"

text \<open>Writing a control frame, its error is dropped.\<close>

definition write_control :: "('c, 'l) env \<Rightarrow> string \<Rightarrow> byte list \<Rightarrow> nat \<Rightarrow> (('c, 'l) state, unit) prog" where
  "write_control env action body i =
     (case NewControlFrame action body of
        Inl e \<Rightarrow> panic e
      | Inr m \<Rightarrow> bnd (client_WriteMsg env m i) (\<lambda>_. ret ()))"

definition client_addr :: "('c, 'l) state \<Rightarrow> nat \<Rightarrow> string" where
  "client_addr s i = (case sys_heap (st_sys s) i of None \<Rightarrow> [] | Some c \<Rightarrow> StreamSocket_String c)"

text \<open>\<open>Update\<close> of a point reads its client and its device.\<close>

definition point_upd :: "('c, 'l) env \<Rightarrow> ('c, 'l) state \<Rightarrow> Point \<Rightarrow> Point" where
  "point_upd env s p = Point_Update (en_now env) (sys_heap (st_sys s) (pt_Client p))
     (case pt_Device p of None \<Rightarrow> None | Some d \<Rightarrow> map_option vt_name (st_taps s d)) p"

section \<open>Access\<close>

text \<open>The second half of \<open>onAuth\<close>: the point of the client on the new device.\<close>

definition Access_attach :: "('c, 'l) env \<Rightarrow> ('c, 'l) Master \<Rightarrow> nat \<Rightarrow> User \<Rightarrow> ('c, nat) SocketClientImpl \<Rightarrow> nat \<Rightarrow>
    (('c, 'l) state, error option) prog" where
  "Access_attach env master i user client dev =
     bnd (gets (\<lambda>s. pc_next (st_point s))) (\<lambda>k.
     let m = Point_SetUser user (NewPoint i client dev (ms_Protocol master))
     in andthen (modify (\<lambda>s. s\<lparr>st_point := (st_point s)\<lparr>pc_heap := (pc_heap (st_point s))(k := m), pc_next := k + 1\<rparr>\<rparr>))
       (bnd (gets (\<lambda>s. point_GetByUUID (point_upd env s) (pt_UUID m) (st_point s))) (\<lambda>(p, om).
        andthen (modify (\<lambda>s. s\<lparr>st_point := p\<rparr>))
       (andthen (case om of None \<Rightarrow> ret () | Some o' \<Rightarrow> ms_OffClient master (pt_Client (pc_heap p o')))
       (andthen (client_SetPrivate k i)
       (andthen (modify (\<lambda>s. s\<lparr>st_point := point_Add (client_addr s) k (st_point s)\<rparr>))
       (andthen (ms_ReadTap master dev i)
       (ret None))))))))"

definition Access_onAuth :: "('c, 'l) env \<Rightarrow> ('c, 'l) Master \<Rightarrow> nat \<Rightarrow> User \<Rightarrow> (('c, 'l) state, error option) prog" where
  "Access_onAuth env master i user =
     bnd (client_get i) (\<lambda>client.
     if \<not> SocketClientImpl_Have ClAuth client then ret (Some (NewErr ''not auth.''))
     else bnd (ms_NewTap master (us_Network user)) (\<lambda>r. case r of
       Inl err \<Rightarrow> ret (Some err)
     | Inr dev \<Rightarrow> Access_attach env master i user client dev))"

definition Access_handleLogin :: "('c, 'l) env \<Rightarrow> ('c, 'l) Master \<Rightarrow> nat \<Rightarrow> byte list \<Rightarrow> (('c, 'l) state, error option) prog" where
  "Access_handleLogin env master i data =
     bnd (client_get i) (\<lambda>client.
     if SocketClientImpl_Have ClAuth client then ret None
     else case en_User env data of
       None \<Rightarrow> ret (Some (NewErr ''Invalid json data.''))
     | Some user \<Rightarrow>
        (let user = User_Update (en_now env) user
         in bnd (gets (\<lambda>s. user_Check (en_ldap env) (en_year env) (en_now env) user (st_user s))) (\<lambda>(users, r).
            andthen (modify (\<lambda>s. s\<lparr>st_user := users\<rparr>))
            (case r of
               Inr j \<Rightarrow>
                 (let now = ur_heap users j
                  in andthen (case us_Last now of
                         None \<Rightarrow> ret ()
                       | Some l \<Rightarrow> whenever (us_Role now \<noteq> ''admin'') (ms_OffClient master l))
                    (andthen (modify (\<lambda>s. s\<lparr>st_access := (st_access s)\<lparr>ac_success := ac_success (st_access s) + 1\<rparr>,
                         st_user := (st_user s)\<lparr>ur_heap := (ur_heap (st_user s))(j := (ur_heap (st_user s) j)\<lparr>us_Last := Some i\<rparr>)\<rparr>\<rparr>))
                    (andthen (client_SetStatus ClAuth i)
                    (bnd (Access_onAuth env master i user) (\<lambda>_. ret None)))))
             | Inl _ \<Rightarrow>
                 andthen (modify (\<lambda>s. s\<lparr>st_access := (st_access s)\<lparr>ac_failed := ac_failed (st_access s) + 1\<rparr>\<rparr>))
                 (andthen (client_SetStatus ClUnAuth i)
                 (ret (Some (NewErr ''Auth failed.''))))))))"

text \<open>The check after the switch on the action; for a control frame the source has it twice.\<close>

definition Access_check :: "nat \<Rightarrow> (('c, 'l) state, error option) prog" where
  "Access_check i = bnd (client_get i) (\<lambda>client.
     ret (if \<not> SocketClientImpl_Have ClAuth client then Some (NewErr ''unAuth client.'') else None))"

definition Access_OnFrame :: "('c, 'l) env \<Rightarrow> ('c, 'l) Master \<Rightarrow> nat \<Rightarrow> FrameMessage \<Rightarrow> (('c, 'l) state, error option) prog" where
  "Access_OnFrame env master i frame =
     (if FrameMessage_IsControl frame
      then let (action, params) = FrameMessage_CmdAndParams frame
           in if action = LoginReq
              then bnd (Access_handleLogin env master i params) (\<lambda>r. case r of
                  Some err \<Rightarrow> andthen (write_control env LoginResp (bytes_of (error_text err)) i) (ret (Some err))
                | None \<Rightarrow> andthen (write_control env LoginResp (bytes_of ''okay'') i) (Access_check i))
              else Access_check i
      else Access_check i)"

section \<open>Request\<close>

definition Request_onDefault :: "('c, 'l) env \<Rightarrow> nat \<Rightarrow> byte list \<Rightarrow> (('c, 'l) state, unit) prog" where
  "Request_onDefault env i data = write_control env PongResp data i"

definition Request_onNeighbor :: "('c, 'l) env \<Rightarrow> nat \<Rightarrow> byte list \<Rightarrow> (('c, 'l) state, unit) prog" where
  "Request_onNeighbor env i data =
     bnd (gets (\<lambda>s. map (nc_heap (st_neighbor s)) (map the (takeWhile (\<lambda>obj. obj \<noteq> None) (neighbor_List (st_neighbor s)))))) (\<lambda>resp.
     case en_putNeighbors env resp of
       None \<Rightarrow> ret ()
     | Some respStr \<Rightarrow> write_control env NeighborResp respStr i)"

text \<open>The answer to a request for an address: the one asked for, the leased one, or a link-local one.\<close>

definition ipaddr_resp :: "Network \<Rightarrow> Network \<Rightarrow> (nat option \<times> network) option \<Rightarrow> Network" where
  "ipaddr_resp recv n lease =
     (let resp = \<lparr>nt_Name = nt_Name n, nt_Tenant = [], nt_IfAddr = nt_IfAddr recv, nt_IpStart = [], nt_IpEnd = [],
                  nt_Netmask = nt_Netmask recv, nt_Routes = nt_Routes n\<rparr>
      in case lease of
           None \<Rightarrow> resp
         | Some (Some l, w) \<Rightarrow> resp\<lparr>nt_IfAddr := lease_addr l w, nt_Netmask := nt_Netmask n\<rparr>
         | Some (None, w) \<Rightarrow> resp\<lparr>nt_IfAddr := ''169.254.0.0'',
               nt_Netmask := if nt_Netmask n = [] then ''255.255.0.0'' else nt_Netmask n\<rparr>)"

definition Request_onIpAddr :: "('c, 'l) env \<Rightarrow> nat \<Rightarrow> byte list \<Rightarrow> (('c, 'l) state, unit) prog" where
  "Request_onIpAddr env i data =
     (case en_Network env (NewNetwork (en_mask env) [] []) data of
        None \<Rightarrow> ret ()
      | Some recv \<Rightarrow>
         (let recv = (if nt_Name recv = [] then recv\<lparr>nt_Name := nt_Tenant recv\<rparr> else recv);
              recv = (if nt_Name recv = [] then recv\<lparr>nt_Name := ''default''\<rparr> else recv)
          in bnd (gets (\<lambda>s. network_Get (nt_Name recv) (st_network s))) (\<lambda>net. case net of
               None \<Rightarrow> ret ()
             | Some n \<Rightarrow>
                 bnd (gets (\<lambda>s. point_Get (point_upd env s) (client_addr s i) (st_point s))) (\<lambda>(pts, p).
                 andthen (modify (\<lambda>s. s\<lparr>st_point := pts\<rparr>))
                 (case p of
                    None \<Rightarrow> ret ()
                  | Some k \<Rightarrow>
                      bnd (if nt_IfAddr recv = []
                           then bnd (gets (\<lambda>s. Request_getLease (en_p6 env) (nt_IfAddr recv)
                                       (client_addr s (pt_Client (pc_heap pts k))) (pc_heap pts k) (Some n) (st_network s))) (\<lambda>r.
                                case r of
                                  None \<Rightarrow> block
                                | Some (Inl e) \<Rightarrow> panic e
                                | Some (Inr (w, l)) \<Rightarrow> bnd (modify (\<lambda>s. s\<lparr>st_network := w\<rparr>)) (\<lambda>_. ret (Some (l, w))))
                           else ret None) (\<lambda>lease.
                      case en_putNetwork env (ipaddr_resp recv n lease) of
                        None \<Rightarrow> ret ()
                      | Some respStr \<Rightarrow> write_control env IpAddrResp respStr i))))))"

definition Request_onLeave :: "('c, 'l) Master \<Rightarrow> nat \<Rightarrow> byte list \<Rightarrow> (('c, 'l) state, unit) prog" where
  "Request_onLeave master i data = ms_OffClient master i"

definition Request_OnFrame :: "('c, 'l) env \<Rightarrow> ('c, 'l) Master \<Rightarrow> nat \<Rightarrow> FrameMessage \<Rightarrow> (('c, 'l) state, error option) prog" where
  "Request_OnFrame env master i frame =
     (if FrameMessage_IsEthernet frame then ret None
      else let (action, body) = FrameMessage_CmdAndParams frame
           in andthen (if action = NeighborReq then Request_onNeighbor env i body
                else if action = IpAddrReq then Request_onIpAddr env i body
                else if action = LeftReq then Request_onLeave master i body
                else if action = LoginReq then ret ()
                else Request_onDefault env i body) (ret None))"

section \<open>Neighbors\<close>

definition client_point :: "('c, 'l) state \<Rightarrow> nat \<Rightarrow> Point option" where
  "client_point s i = (case sys_heap (st_sys s) i of None \<Rightarrow> None
     | Some c \<Rightarrow> map_option (pc_heap (st_point s)) (SocketClientImpl_Private c))"

definition Neighbors_AddNeighbor :: "('c, 'l) env \<Rightarrow> Neighbor \<Rightarrow> nat \<Rightarrow> (('c, 'l) state, unit) prog" where
  "Neighbors_AddNeighbor env new i = modify (\<lambda>s.
     (let ips = IP_String (en_s6 env); nc = st_neighbor s
      in case neighbor_Get (ips (ng_IpAddr new)) nc of
           Some j \<Rightarrow> s\<lparr>st_neighbor := nc\<lparr>nc_heap := (nc_heap nc)(j :=
                       (Neighbor_Update (client_addr s i) (client_point s i) (nc_heap nc j))\<lparr>ng_HitTime := en_now env\<rparr>)\<rparr>\<rparr>
         | None \<Rightarrow> s\<lparr>st_neighbor := neighbor_Add ips (nc_next nc)
                       (nc\<lparr>nc_heap := (nc_heap nc)(nc_next nc := new), nc_next := nc_next nc + 1\<rparr>)\<rparr>))"

definition Neighbors_DelNeighbor :: "('c, 'l) env \<Rightarrow> byte list \<Rightarrow> (('c, 'l) state, unit) prog" where
  "Neighbors_DelNeighbor env ipAddr = modify (\<lambda>s.
     let key = IP_String (en_s6 env) ipAddr
     in if neighbor_Get key (st_neighbor s) \<noteq> None then s\<lparr>st_neighbor := neighbor_Del key (st_neighbor s)\<rparr> else s)"

text \<open>The decoded headers are kept in the frame, so that a second handler gets the same ones.\<close>

definition Neighbors_OnFrame :: "('c, 'l) env \<Rightarrow> nat \<Rightarrow> FrameMessage \<Rightarrow> (('c, 'l) state, error option) prog" where
  "Neighbors_OnFrame env i frame =
     (if FrameMessage_IsControl frame then ret None
      else case FrameMessage_Proto frame of
        (_, proto, Some err) \<Rightarrow> ret (Some err)
      | (_, proto, None) \<Rightarrow>
          (case fp_Eth proto of
             None \<Rightarrow> panic nil_deref
           | Some eth \<Rightarrow>
               if \<not> Ether_IsArp eth then ret None
               else case fp_Arp proto of
                 None \<Rightarrow> panic nil_deref
               | Some arp \<Rightarrow>
                   andthen (whenever (Arp_IsIP4 arp \<and> (Arp_IsReply arp \<or> Arp_IsRequest arp))
                     (bnd (gets (\<lambda>s. NewNeighbor (en_now env) (arp_SHwAddr arp) (arp_SIpAddr arp) (client_addr s i) (client_point s i)))
                       (\<lambda>n. Neighbors_AddNeighbor env n i)))
                   (ret None)))"

section \<open>Online\<close>

definition NewOnline :: "int \<Rightarrow> Online" where
  "NewOnline ms = \<lparr>ol_maxSize = ms, ol_lineMap = [], ol_lineList = []\<rparr>"

definition Online_popLine :: "Online \<Rightarrow> online \<Rightarrow> Online \<times> online" where
  "Online_popLine ol cache =
     (if int (length (ol_lineList ol)) < ol_maxSize ol then (ol, cache)
      else case ol_lineList ol of
        [] \<Rightarrow> (ol, cache)
      | e # rest \<Rightarrow>
          (let key = Line_String (oc_heap cache e)
           in (ol\<lparr>ol_lineList := rest, ol_lineMap := AList.delete key (ol_lineMap ol)\<rparr>, online_Del key cache)))"

text \<open>\<open>i\<close> is the number of the new line.\<close>

definition Online_AddLine :: "int \<Rightarrow> nat \<Rightarrow> Online \<Rightarrow> online \<Rightarrow> Online \<times> online" where
  "Online_AddLine now i ol cache =
     (let key = Line_String (oc_heap cache i)
      in case map_of (ol_lineMap ol) key of
           None \<Rightarrow>
             (let (ol, cache) = Online_popLine ol cache
              in (ol\<lparr>ol_lineList := ol_lineList ol @ [i], ol_lineMap := AList.update key i (ol_lineMap ol)\<rparr>, online_Add i cache))
         | Some j \<Rightarrow>
             (ol, online_Update j (cache\<lparr>oc_heap := (oc_heap cache)(j := (oc_heap cache j)\<lparr>ln_HitTime := now\<rparr>)\<rparr>)))"

definition line_of :: "int \<Rightarrow> FrameProto \<Rightarrow> Ipv4 \<Rightarrow> Line" where
  "line_of now proto ip =
     (let line = (NewLine now EthIp4)\<lparr>ln_IpSource := ip4_Source ip, ln_IpDest := ip4_Destination ip, ln_IpProtocol := ip4_Protocol ip\<rparr>
      in case fp_Tcp proto of
           Some tcp \<Rightarrow> line\<lparr>ln_PortDest := tcp_Destination tcp, ln_PortSource := tcp_Source tcp\<rparr>
         | None \<Rightarrow> (case fp_Udp proto of
             Some udp \<Rightarrow> line\<lparr>ln_PortDest := udp_Destination udp, ln_PortSource := udp_Source udp\<rparr>
           | None \<Rightarrow> line))"

definition Online_OnFrame :: "('c, 'l) env \<Rightarrow> nat \<Rightarrow> FrameMessage \<Rightarrow> (('c, 'l) state, error option) prog" where
  "Online_OnFrame env i frame =
     (if FrameMessage_IsControl frame then ret None
      else case FrameMessage_Proto frame of
        (_, proto, Some err) \<Rightarrow> ret (Some err)
      | (_, proto, None) \<Rightarrow>
          andthen (case fp_Ip4 proto of
             None \<Rightarrow> ret ()
           | Some ip \<Rightarrow> modify (\<lambda>s.
               (let n = oc_next (st_online s);
                    cache = (st_online s)\<lparr>oc_heap := (oc_heap (st_online s))(n := line_of (en_now env) proto ip), oc_next := n + 1\<rparr>;
                    (ol, cache) = Online_AddLine (en_now env) n (st_lines s) cache
                in s\<lparr>st_lines := ol, st_online := cache\<rparr>)))
          (ret None))"

end
