(* ===== verification/Switch.thy ===== *)
theory Switch
  imports App
begin

text \<open>The switch (\<open>src/pkg/olsw/switch.go\<close>): the chain of handlers a frame passes, the frames of a client on their way to its
  tap and back, and clients coming and going. Bridges are virtual bridges. The rules the switch gives to the firewall are in
  the theory \<^verbatim>\<open>Rules\<close>.\<close>

section \<open>Operations\<close>

datatype Hook = HAccess | HRequest | HNeighbors | HOnline

record Switch =
  sw_Protocol :: string
  sw_Alias :: string
  sw_VirWrt :: int
  sw_VirSnd :: int
  sw_Inspect :: "string list"
  sw_hooks :: "Hook list"
  sw_uuid :: string

definition Switch_preApps :: "Switch \<Rightarrow> Switch" where
  "Switch_preApps v =
     (let inspect = concat (sw_Inspect v)
      in v\<lparr>sw_hooks := sw_hooks v @ [HAccess, HRequest] @ (if Contains inspect ''neighbor'' then [HNeighbors] else []) @
             (if Contains inspect ''online'' then [HOnline] else [])\<rparr>)"

definition Switch_OffClient :: "nat \<Rightarrow> (('c, 'l) state, unit) prog" where
  "Switch_OffClient i = bnd (gets (\<lambda>s. SocketServerImpl_OffClient (Some i) (sys_srv (st_sys s)))) (\<lambda>r. case r of
     None \<Rightarrow> block
   | Some t \<Rightarrow> modify (\<lambda>s. s\<lparr>st_sys := (st_sys s)\<lparr>sys_srv := t\<rparr>\<rparr>))"

definition Switch_GetBridge :: "string \<Rightarrow> ('c, 'l) state \<Rightarrow> VirtualBridge result" where
  "Switch_GetBridge tenant s =
     (case map_of (st_bridges s) tenant of None \<Rightarrow> Inl (NewErr ''bridge %s notFound'') | Some br \<Rightarrow> Inr br)"

text \<open>\<open>NewTaper\<close> for the provider of a virtual bridge, \<open>Up\<close>, and \<open>AddSlave\<close>.\<close>

definition tap_config :: "Switch \<Rightarrow> TapConfig" where
  "tap_config v = \<lparr>tpc_Provider = ''virtual'', tpc_Type = 2, tpc_Network = [], tpc_Name = ''auto'', tpc_VirBuf = sw_VirWrt v,
     tpc_KernBuf = sw_VirSnd v, tpc_Mtu = 0\<rparr>"

definition Switch_NewTap :: "Switch \<Rightarrow> string \<Rightarrow> (('c, 'l) state, nat result) prog" where
  "Switch_NewTap v tenant =
     bnd (gets (Switch_GetBridge tenant)) (\<lambda>r. case r of
       Inl err \<Rightarrow> ret (Inl err)
     | Inr br \<Rightarrow>
         bnd (gets st_tapnext) (\<lambda>d. andthen (modify (\<lambda>s.
           (let (reg, dev) = NewVirtualTap tenant (tap_config v) d (st_tapers s);
                dev = VirtualTap_Up dev;
                (ts, br, _) = VirtualBridge_AddSlave (vt_name dev) reg ((st_taps s)(d \<mapsto> dev)) br
            in s\<lparr>st_tapnext := d + 1, st_tapers := reg, st_taps := ts, st_bridges := AList.update tenant br (st_bridges s)\<rparr>)))
         (ret (Inr d))))"

definition Switch_FreeTap :: "nat \<Rightarrow> (('c, 'l) state, error option) prog" where
  "Switch_FreeTap d =
     bnd (gets (\<lambda>s. st_taps s d)) (\<lambda>t. case t of
       None \<Rightarrow> panic nil_deref
     | Some dev \<Rightarrow>
         bnd (gets (Switch_GetBridge (vt_tenant dev))) (\<lambda>r. case r of
           Inl err \<Rightarrow> ret (Some err)
         | Inr br \<Rightarrow> andthen (modify (\<lambda>s. s\<lparr>st_bridges := AList.update (vt_tenant dev)
               (VirtualBridge_DelSlave (vt_name dev) br) (st_bridges s)\<rparr>)) (ret None)))"

text \<open>\<open>Close\<close> of a tap also takes it off its bridge.\<close>

definition tap_Close :: "nat \<Rightarrow> ('c, 'l) state \<Rightarrow> ('c, 'l) state" where
  "tap_Close d s =
     (case st_taps s d of
        None \<Rightarrow> s
      | Some t \<Rightarrow>
          (let (t', reg, br) = VirtualTap_Close t (st_tapers s)
           in s\<lparr>st_taps := (st_taps s)(d \<mapsto> t'), st_tapers := reg,
                st_bridges := (case br of None \<Rightarrow> st_bridges s
                  | Some name \<Rightarrow> map (\<lambda>(k, b). (k, if vb_name b = name then VirtualBridge_DelSlave (vt_name t) b else b)) (st_bridges s))\<rparr>))"

text \<open>\<open>ReadTap\<close> starts a goroutine that reads the tap into a queue and serves the queue itself. \<open>ReadTap_read\<close> is one turn of the
  first, \<open>ReadTap_write\<close> one turn of the second with the callback of \<open>onAuth\<close>; the flag tells whether it goes on.\<close>

definition Switch_ReadTap :: "nat \<Rightarrow> nat \<Rightarrow> (('c, 'l) state, unit) prog" where
  "Switch_ReadTap d i = modify (\<lambda>s. s\<lparr>st_readers := st_readers s @ [(d, i)]\<rparr>)"

definition ReadTap_read :: "nat \<Rightarrow> (('c, 'l) state, FrameMessage result) prog" where
  "ReadTap_read d =
     bnd (gets (\<lambda>s. st_taps s d)) (\<lambda>t. case t of
       None \<Rightarrow> panic nil_deref
     | Some t \<Rightarrow>
         (let frame = NewFrameMessage 0
          in case VirtualTap_Read (fm_fhi frame - fm_flo frame) t of
               None \<Rightarrow> block
             | Some (t, r) \<Rightarrow>
                 andthen (modify (\<lambda>s. s\<lparr>st_taps := (st_taps s)(d \<mapsto> t)\<rparr>))
                 (ret (case r of
                    Inl err \<Rightarrow> Inl err
                  | Inr data \<Rightarrow> Inr (FrameMessage_SetSize (int (length data))
                      (frame\<lparr>fm_buffer := copy_into (fm_flo frame) (fm_fhi frame) data (fm_buffer frame)\<rparr>))))))"

definition ReadTap_write :: "('c, 'l) env \<Rightarrow> nat \<Rightarrow> nat \<Rightarrow> FrameMessage \<Rightarrow> (('c, 'l) state, bool) prog" where
  "ReadTap_write env d i frame =
     bnd (client_WriteMsg env frame i) (\<lambda>err. case err of
       None \<Rightarrow> ret True
     | Some e \<Rightarrow> andthen (Switch_OffClient i) (andthen (modify (tap_Close d)) (ret False)))"

definition Switch_Master :: "Switch \<Rightarrow> ('c, 'l) Master" where
  "Switch_Master v = \<lparr>ms_Protocol = sw_Protocol v, ms_OffClient = Switch_OffClient, ms_NewTap = Switch_NewTap v,
     ms_ReadTap = Switch_ReadTap\<rparr>"

lemma Switch_Master_simps [simp]:
  "ms_Protocol (Switch_Master v) = sw_Protocol v" "ms_OffClient (Switch_Master v) = Switch_OffClient"
  "ms_NewTap (Switch_Master v) = Switch_NewTap v" "ms_ReadTap (Switch_Master v) = Switch_ReadTap"
  by (simp_all add: Switch_Master_def)

fun run_hook :: "('c, 'l) env \<Rightarrow> ('c, 'l) Master \<Rightarrow> nat \<Rightarrow> FrameMessage \<Rightarrow> Hook \<Rightarrow> (('c, 'l) state, error option) prog" where
  "run_hook env master i frame HAccess = Access_OnFrame env master i frame"
| "run_hook env master i frame HRequest = Request_OnFrame env master i frame"
| "run_hook env master i frame HNeighbors = Neighbors_OnFrame env i frame"
| "run_hook env master i frame HOnline = Online_OnFrame env i frame"

fun onFrame_loop :: "('c, 'l) env \<Rightarrow> ('c, 'l) Master \<Rightarrow> nat \<Rightarrow> FrameMessage \<Rightarrow> Hook list \<Rightarrow> (('c, 'l) state, error option) prog" where
  "onFrame_loop env master i frame [] = ret None"
| "onFrame_loop env master i frame (h # hs) =
     bnd (run_hook env master i frame h) (\<lambda>r. case r of Some err \<Rightarrow> ret (Some err) | None \<Rightarrow> onFrame_loop env master i frame hs)"

definition Switch_onFrame :: "('c, 'l) env \<Rightarrow> Switch \<Rightarrow> nat \<Rightarrow> FrameMessage \<Rightarrow> (('c, 'l) state, error option) prog" where
  "Switch_onFrame env v i frame = onFrame_loop env (Switch_Master v) i frame (sw_hooks v)"

definition Switch_OnClient :: "nat \<Rightarrow> (('c, 'l) state, error option) prog" where
  "Switch_OnClient i = andthen (client_SetStatus ClConnected i) (ret None)"

definition Switch_SignIn :: "('c, 'l) env \<Rightarrow> nat \<Rightarrow> (('c, 'l) state, error option) prog" where
  "Switch_SignIn env i =
     bnd (client_get i) (\<lambda>c. case en_putSign env (StreamSocket_String c) (StreamSocket_LocalAddr c) of
       None \<Rightarrow> ret (Some (NewErr ''json''))
     | Some body \<Rightarrow> (case NewControlFrame SignReq body of
         Inl e \<Rightarrow> panic e | Inr m \<Rightarrow> client_WriteMsg env m i))"

text \<open>An Ethernet frame goes to the device of the point that the client has as its private data.\<close>

definition write_device :: "nat \<Rightarrow> FrameMessage \<Rightarrow> (('c, 'l) state, error option) prog" where
  "write_device i frame =
     bnd (client_get i) (\<lambda>c. case SocketClientImpl_Private c of
       None \<Rightarrow> ret (Some (NewErr ''point %s notFound.''))
     | Some k \<Rightarrow>
         bnd (gets (\<lambda>s. pt_Device (pc_heap (st_point s) k))) (\<lambda>dev. case dev of
           None \<Rightarrow> ret (Some (NewErr ''Tap devices is nil''))
         | Some d \<Rightarrow>
             bnd (gets (\<lambda>s. st_taps s d)) (\<lambda>t. case t of
               None \<Rightarrow> panic nil_deref
             | Some t \<Rightarrow> (case VirtualTap_Write (FrameMessage_Frame frame) t of
                 None \<Rightarrow> block
               | Some (t, r) \<Rightarrow>
                   andthen (modify (\<lambda>s. s\<lparr>st_taps := (st_taps s)(d \<mapsto> t)\<rparr>))
                   (ret (case r of Inl err \<Rightarrow> Some err | Inr _ \<Rightarrow> None))))))"

definition Switch_ReadClient :: "('c, 'l) env \<Rightarrow> Switch \<Rightarrow> nat \<Rightarrow> FrameMessage \<Rightarrow> (('c, 'l) state, error option) prog" where
  "Switch_ReadClient env v i frame =
     (let frame = fst (FrameMessage_Decode frame)
      in bnd (Switch_onFrame env v i frame) (\<lambda>r. case r of
           Some err \<Rightarrow> bnd (if FrameMessage_Action frame = PingReq then Switch_SignIn env i else ret None) (\<lambda>_. ret None)
         | None \<Rightarrow> if FrameMessage_IsControl frame then ret None else write_device i frame))"

definition Switch_OnClose :: "nat \<Rightarrow> (('c, 'l) state, error option) prog" where
  "Switch_OnClose i =
     bnd (client_get i) (\<lambda>c.
     let a = StreamSocket_RemoteAddr c
     in bnd (gets (\<lambda>s. point_GetUUID a (st_point s))) (\<lambda>uuid.
        bnd (gets (\<lambda>s. point_GetAddr uuid (st_point s))) (\<lambda>a'.
        andthen (whenever (a' = a)
          (bnd (gets (\<lambda>s. network_DelLease uuid (st_network s))) (\<lambda>r. case r of
             Inl e \<Rightarrow> panic e | Inr w \<Rightarrow> modify (\<lambda>s. s\<lparr>st_network := w\<rparr>))))
       (bnd (gets (\<lambda>s. point_Del (client_addr s) a (st_point s))) (\<lambda>(p, dev).
        andthen (modify (\<lambda>s. (case dev of None \<Rightarrow> s | Some d \<Rightarrow> tap_Close d s)\<lparr>st_point := p\<rparr>))
       (ret None))))))"

definition Switch_leftClient :: "('c, 'l) env \<Rightarrow> Switch \<Rightarrow> nat \<Rightarrow> (('c, 'l) state, unit) prog" where
  "Switch_leftClient env v i =
     bnd (client_get i) (\<lambda>c. case en_putLeft env (en_now env) (sw_uuid v) (sw_Alias v) (StreamSocket_LocalAddr c) (StreamSocket_RemoteAddr c) of
       None \<Rightarrow> ret ()
     | Some body \<Rightarrow> write_control env LeftReq body i)"

section \<open>The server's events\<close>

text \<open>The listener that \<open>Start\<close> gives to the server. One turn of the server's loop calls the switch: a new client is entered
  and set to connected; for a client that goes, \<open>OnClose\<close> runs before the connection is closed.\<close>

definition Switch_listener :: ServerListener where
  "Switch_listener = \<lparr>sl_OnClient = True, sl_OnClose = True, sl_ReadAt = True\<rparr>"

definition on_turn :: "(('c, 'l) state, unit) prog" where
  "on_turn =
     bnd (gets (\<lambda>s. srv_onClients (sys_srv (st_sys s)))) (\<lambda>q. case q of
       [] \<Rightarrow> block
     | i # rest \<Rightarrow>
         bnd (gets (\<lambda>s. SocketServerImpl_doOnClient Switch_listener i
               ((st_sys s)\<lparr>sys_srv := (sys_srv (st_sys s))\<lparr>srv_onClients := rest\<rparr>\<rparr>))) (\<lambda>r. case r of
           Inl e \<Rightarrow> panic e
         | Inr (sys, _) \<Rightarrow> andthen (modify (\<lambda>s. s\<lparr>st_sys := sys\<rparr>)) (bnd (Switch_OnClient i) (\<lambda>_. ret ()))))"

definition off_turn :: "('c, 'l) env \<Rightarrow> (('c, 'l) state, unit) prog" where
  "off_turn env =
     bnd (gets (\<lambda>s. srv_offClients (sys_srv (st_sys s)))) (\<lambda>q. case q of
       [] \<Rightarrow> block
     | i # rest \<Rightarrow>
         andthen (modify (\<lambda>s. s\<lparr>st_sys := (st_sys s)\<lparr>sys_srv := (sys_srv (st_sys s))\<lparr>srv_offClients := rest\<rparr>\<rparr>\<rparr>))
         (bnd (client_get i) (\<lambda>c. bnd (gets (\<lambda>s. snd (SafeStrMap_GetEx (StreamSocket_RemoteAddr c) (srv_clients (sys_srv (st_sys s)))))) (\<lambda>there.
          andthen (whenever there (bnd (Switch_OnClose i) (\<lambda>_. ret ())))
          (bnd (gets (\<lambda>s. SocketServerImpl_doOffClient (en_na env) (en_now env) Switch_listener i (st_sys s))) (\<lambda>r. case r of
            Inl e \<Rightarrow> panic e
          | Inr (sys, _) \<Rightarrow> modify (\<lambda>s. s\<lparr>st_sys := sys\<rparr>)))))))"

end
