(* ===== verification/Isolation.thy ===== *)
theory Isolation
  imports Switch
begin

text \<open>What the handlers of the switch guarantee about access: frames of a client that has not logged in have no effect, a client
  is authenticated only by a login that the user cache accepts, no client changes the state of another one, and the frames of
  a client reach only a tap of the network it logged in to. The contract the handlers need from their \<open>Master\<close> is a locale,
  which the switch interprets.\<close>

section \<open>Status and private data of the clients\<close>

definition st_auth :: "('c, 'l) state \<Rightarrow> nat \<Rightarrow> (SocketStatus \<times> nat option) option" where
  "st_auth s k = map_option (\<lambda>c. (sc_status c, sc_private c)) (sys_heap (st_sys s) k)"

definition same_auth :: "('c, 'l) state \<Rightarrow> ('c, 'l) state \<Rightarrow> bool" where
  "same_auth s s' \<longleftrightarrow> (\<forall>k. st_auth s' k = st_auth s k)"

definition same_others :: "nat \<Rightarrow> ('c, 'l) state \<Rightarrow> ('c, 'l) state \<Rightarrow> bool" where
  "same_others i s s' \<longleftrightarrow> (\<forall>k. k = i \<or> st_auth s' k = st_auth s k)"

interpretation auth: kept_relation same_auth
  by unfold_locales (simp_all add: same_auth_def)

interpretation others: kept_relation "same_others i" for i
  by unfold_locales (unfold same_others_def, blast, metis)

lemma same_auth_others: "same_auth s s' \<Longrightarrow> same_others i s s'"
  by (simp add: same_auth_def same_others_def)

lemma keeps_others: "keeps same_auth m \<Longrightarrow> keeps (same_others i) m"
  by (auto simp: keeps_def intro: same_auth_others)

lemma WriteMsg_auth:
  "StreamSocket_WriteMsg ops frame c = Some (c', err) \<Longrightarrow> sc_status c' = sc_status c \<and> sc_private c' = sc_private c"
  by (auto simp: StreamSocket_WriteMsg_def Let_def split: option.splits sum.splits prod.splits)

lemma keeps_client_get: "keeps same_auth (client_get i)"
  unfolding client_get_def by (intro auth.rules)

lemma client_get_Some:
  "client_get i s = Some (Inr (c, s')) \<longleftrightarrow> s' = s \<and> sys_heap (st_sys s) i = Some c"
  by (auto simp: client_get_def prog_defs split: option.splits)

lemma keeps_WriteMsg: "keeps same_auth (client_WriteMsg env frame i)"
proof (rule keepsI)
  fix s err s'
  assume "client_WriteMsg env frame i s = Some (Inr (err, s'))"
  then obtain c c' where "sys_heap (st_sys s) i = Some c" "StreamSocket_WriteMsg (en_ops env) frame c = Some (c', err)"
    "client_put i c' s = Some (Inr ((), s'))"
    unfolding client_WriteMsg_def
    by (elim bnd_SomeE) (auto simp: client_get_Some split: option.splits prod.splits elim!: bnd_SomeE)
  with WriteMsg_auth show "same_auth s s'" by (fastforce simp: same_auth_def st_auth_def client_put_def)
qed

lemma keeps_write_control: "keeps same_auth (write_control env action body i)"
  unfolding write_control_def by (intro auth.rules keeps_WriteMsg)

lemma keeps_Check: "keeps same_auth (Access_check i)"
  unfolding Access_check_def by (intro auth.rules keeps_client_get)

lemma keeps_state_update: "(\<And>s. st_sys (f s) = st_sys s) \<Longrightarrow> keeps same_auth (modify f)"
  by (rule auth.keeps_modify) (simp add: same_auth_def st_auth_def)

lemma keeps_Neighbors: "keeps same_auth (Neighbors_OnFrame env i frame)"
  unfolding Neighbors_OnFrame_def Neighbors_AddNeighbor_def
  by (intro auth.rules) (auto simp: same_auth_def st_auth_def Let_def split: option.split)

lemma keeps_Online: "keeps same_auth (Online_OnFrame env i frame)"
  unfolding Online_OnFrame_def
  by (intro auth.rules) (auto simp: same_auth_def st_auth_def Let_def split: prod.split)

lemma keeps_write_device: "keeps same_auth (write_device i frame)"
  unfolding write_device_def by (intro auth.rules keeps_client_get) (simp add: same_auth_def st_auth_def)

lemma keeps_SignIn: "keeps same_auth (Switch_SignIn env i)"
  unfolding Switch_SignIn_def by (intro auth.rules keeps_client_get keeps_WriteMsg)

lemma keeps_Request_parts:
  "keeps same_auth (Request_onNeighbor env i body)" "keeps same_auth (Request_onIpAddr env i body)"
  "keeps same_auth (Request_onDefault env i body)"
  unfolding Request_onNeighbor_def Request_onIpAddr_def Request_onDefault_def Let_def
  by (intro auth.rules keeps_write_control; simp add: same_auth_def st_auth_def)+

definition login_frame :: "FrameMessage \<Rightarrow> bool" where
  "login_frame frame \<longleftrightarrow> fm_control frame \<and> fm_action frame = LoginReq"

text \<open>The user cache accepts the user that a login decodes to.\<close>

definition login_accepted :: "('c, 'l) env \<Rightarrow> byte list \<Rightarrow> ('c, 'l) state \<Rightarrow> bool" where
  "login_accepted env data s \<longleftrightarrow> (\<exists>user j. en_User env data = Some user \<and>
     snd (user_Check (en_ldap env) (en_year env) (en_now env) (User_Update (en_now env) user) (st_user s)) = Inr j)"

lemma Access_OnFrame_other: "\<not> login_frame frame \<Longrightarrow> Access_OnFrame env master i frame = Access_check i"
  by (simp add: Access_OnFrame_def login_frame_def FrameMessage_IsControl_def FrameMessage_CmdAndParams_def)

section \<open>The contract of the master\<close>

text \<open>The operations of a \<open>Master\<close> leave the clients, the users and the points alone.\<close>

definition same_core :: "('c, 'l) state \<Rightarrow> ('c, 'l) state \<Rightarrow> bool" where
  "same_core s s' \<longleftrightarrow> sys_heap (st_sys s') = sys_heap (st_sys s) \<and> st_user s' = st_user s \<and> st_point s' = st_point s"

interpretation core: kept_relation same_core
  by unfold_locales (simp_all add: same_core_def)

lemma core_auth: "keeps same_core m \<Longrightarrow> keeps same_auth m"
  by (auto simp: keeps_def same_core_def same_auth_def st_auth_def)

locale master_contract =
  fixes master :: "('c, 'l) Master"
  assumes off_core: "keeps same_core (ms_OffClient master i)"
    and newtap_core: "keeps same_core (ms_NewTap master tenant)"
    and readtap_core: "keeps same_core (ms_ReadTap master d i)"
begin

lemma keeps_Request: "keeps same_auth (Request_OnFrame env master i frame)"
  unfolding Request_OnFrame_def Request_onLeave_def Let_def
  by (intro auth.rules keeps_Request_parts core_auth [OF off_core])

lemma keeps_SetPrivate: "keeps (same_others i) (client_SetPrivate k i)"
  unfolding client_SetPrivate_def client_put_def
  by (intro others.rules keeps_others [OF keeps_client_get]) (simp add: same_others_def st_auth_def)

lemma keeps_SetStatus: "keeps (same_others i) (client_SetStatus st i)"
  unfolding client_SetStatus_def client_put_def
  by (intro others.rules keeps_others [OF keeps_client_get]) (simp add: same_others_def st_auth_def)

lemma keeps_onAuth: "keeps (same_others i) (Access_onAuth env master i user)"
  unfolding Access_onAuth_def Access_attach_def Let_def
  by (intro others.rules keeps_SetPrivate keeps_others [OF keeps_client_get] keeps_others [OF core_auth [OF off_core]]
      keeps_others [OF core_auth [OF newtap_core]] keeps_others [OF core_auth [OF readtap_core]])
     (simp_all add: same_others_def st_auth_def)

lemma keeps_handleLogin: "keeps (same_others i) (Access_handleLogin env master i data)"
  unfolding Access_handleLogin_def Let_def
  by (intro others.rules keeps_SetStatus keeps_onAuth keeps_others [OF keeps_client_get] keeps_others [OF core_auth [OF off_core]])
     (simp_all add: same_others_def st_auth_def)

lemma keeps_Access: "keeps (same_others i) (Access_OnFrame env master i frame)"
  unfolding Access_OnFrame_def Let_def
  by (intro others.rules keeps_handleLogin keeps_others [OF keeps_write_control] keeps_others [OF keeps_Check])

lemma keeps_hook: "keeps (same_others i) (run_hook env master i frame h)"
  by (cases h) (simp_all add: keeps_Access keeps_others keeps_Request keeps_Neighbors keeps_Online)

lemma keeps_onFrame: "keeps (same_others i) (onFrame_loop env master i frame hs)"
  by (induction hs) (simp_all, (intro others.rules keeps_hook; simp)+)

lemma later_hooks: "HAccess \<notin> set hs \<Longrightarrow> keeps same_auth (onFrame_loop env master i frame hs)"
proof (induction hs)
  case (Cons h hs)
  then have "keeps same_auth (run_hook env master i frame h)"
    by (cases h) (simp_all add: keeps_Request keeps_Neighbors keeps_Online)
  then show ?case using Cons by (simp, intro auth.rules) simp_all
qed (simp add: auth.keeps_ret)

text \<open>A client becomes authenticated only when the user cache accepts the decoded login.\<close>

lemma handleLogin_accepts:
  assumes "Access_handleLogin env master i data s = Some (Inr (r, s'))" and "sys_heap (st_sys s) i = Some c"
    and "sc_status c \<noteq> ClAuth"
  shows "login_accepted env data s \<or> r \<noteq> None \<and> map_option fst (st_auth s' i) \<noteq> Some ClAuth"
proof (cases "login_accepted env data s")
  case False
  then have bad: "snd (user_Check (en_ldap env) (en_year env) (en_now env) (User_Update (en_now env) user) (st_user s)) \<noteq> Inr j"
    if "en_User env data = Some user" for user j using that unfolding login_accepted_def by blast
  show ?thesis
  proof (cases "en_User env data")
    case None
    with assms have "s' = s" "r \<noteq> None"
      unfolding Access_handleLogin_def by (auto simp: client_get_Some SocketClientImpl_Have_def SocketClientImpl_Status_def elim!: bnd_SomeE)
    with assms(2,3) show ?thesis by (simp add: st_auth_def)
  next
    case (Some user)
    obtain users e where chk: "user_Check (en_ldap env) (en_year env) (en_now env) (User_Update (en_now env) user) (st_user s) = (users, Inl e)"
      using bad [OF Some] by (metis prod.collapse sum.exhaust_sel)
    define s1 where "s1 = s\<lparr>st_user := users, st_access := (st_access s)\<lparr>ac_failed := ac_failed (st_access s) + 1\<rparr>\<rparr>"
    have "andthen (client_SetStatus ClUnAuth i) (ret (Some (NewErr ''Auth failed.''))) s1 = Some (Inr (r, s'))"
      using assms Some chk unfolding Access_handleLogin_def s1_def
      by (simp add: prog_defs client_get_def SocketClientImpl_Have_def SocketClientImpl_Status_def Let_def)
    moreover have "sys_heap (st_sys s1) i = Some c" using assms(2) by (simp add: s1_def)
    ultimately show ?thesis
      by (auto simp: client_SetStatus_def andthen_def client_put_def client_get_Some st_auth_def TcpClient_SetStatus_def
          elim!: bnd_SomeE split: if_splits)
  qed
qed blast

lemma Access_check_Some:
  "Access_check i s = Some (Inr (r, s')) \<Longrightarrow>
     s' = s \<and> (r = None \<longleftrightarrow> map_option fst (st_auth s i) = Some ClAuth)"
  unfolding Access_check_def
  by (auto simp: client_get_Some st_auth_def SocketClientImpl_Have_def SocketClientImpl_Status_def elim!: bnd_SomeE split: if_splits)

lemma Access_accepts:
  assumes "Access_OnFrame env master i frame s = Some (Inr (r, s'))" and "sys_heap (st_sys s) i = Some c" and "sc_status c \<noteq> ClAuth"
  shows "login_frame frame \<and> login_accepted env (fm_params frame) s \<or> r \<noteq> None \<and> map_option fst (st_auth s' i) \<noteq> Some ClAuth"
proof (cases "login_frame frame")
  case False
  then have "Access_check i s = Some (Inr (r, s'))" using assms(1) by (simp add: Access_OnFrame_other)
  from Access_check_Some [OF this] assms(2,3) show ?thesis by (simp add: st_auth_def)
next
  case True
  with assms(1) obtain r1 s1 where h: "Access_handleLogin env master i (fm_params frame) s = Some (Inr (r1, s1))"
    and rest: "(case r1 of Some err \<Rightarrow> andthen (write_control env LoginResp (bytes_of (error_text err)) i) (ret (Some err))
        | None \<Rightarrow> andthen (write_control env LoginResp (bytes_of ''okay'') i) (Access_check i)) s1 = Some (Inr (r, s'))"
    unfolding Access_OnFrame_def login_frame_def
    by (auto simp: FrameMessage_IsControl_def FrameMessage_CmdAndParams_def elim: bnd_SomeE)
  from handleLogin_accepts [OF h assms(2,3)] consider "login_accepted env (fm_params frame) s"
    | err where "r1 = Some err" "map_option fst (st_auth s1 i) \<noteq> Some ClAuth" by blast
  then show ?thesis
  proof cases
    case (2 err)
    from rest 2(1) have "andthen (write_control env LoginResp (bytes_of (error_text err)) i) (ret (Some err)) s1 = Some (Inr (r, s'))" by simp
    then have "r = Some err" "same_auth s1 s'"
      unfolding andthen_def by (auto elim!: bnd_SomeE dest: keepsD [OF keeps_write_control])
    with 2 show ?thesis by (simp add: same_auth_def)
  qed (use True in blast)
qed

lemma onFrame_accepts:
  assumes "onFrame_loop env master i frame (HAccess # hs) s = Some (Inr (r, s'))" and "HAccess \<notin> set hs"
    and "sys_heap (st_sys s) i = Some c" and "sc_status c \<noteq> ClAuth"
  shows "login_frame frame \<and> login_accepted env (fm_params frame) s \<or> r \<noteq> None \<and> map_option fst (st_auth s' i) \<noteq> Some ClAuth"
proof -
  from assms(1) obtain r1 s1 where 1: "Access_OnFrame env master i frame s = Some (Inr (r1, s1))"
    and rest: "(case r1 of Some err \<Rightarrow> ret (Some err) | None \<Rightarrow> onFrame_loop env master i frame hs) s1 = Some (Inr (r, s'))"
    by (auto elim: bnd_SomeE)
  from Access_accepts [OF 1 assms(3,4)] rest show ?thesis by auto
qed

end

text \<open>The switch fulfils the contract.\<close>

interpretation switch: master_contract "Switch_Master v" for v
proof unfold_locales
  show "keeps same_core (ms_OffClient (Switch_Master v) i)" for i
    unfolding Switch_Master_simps Switch_OffClient_def by (intro core.rules) (simp add: same_core_def)
  show "keeps same_core (ms_NewTap (Switch_Master v) tenant)" for tenant
    unfolding Switch_Master_simps Switch_NewTap_def by (intro core.rules) (simp add: same_core_def Let_def split: prod.split)
  show "keeps same_core (ms_ReadTap (Switch_Master v) d i)" for d i
    unfolding Switch_Master_simps Switch_ReadTap_def by (intro core.rules) (simp add: same_core_def)
qed

section \<open>Access\<close>

lemma preApps_hooks:
  assumes "sw_hooks v = []"
  obtains hs where "sw_hooks (Switch_preApps v) = HAccess # hs" and "HAccess \<notin> set hs"
  using assms by (auto simp: Switch_preApps_def Let_def)

lemma SignIn_effect:
  assumes "Switch_SignIn env i s = Some (Inr (r, s'))" and "sys_heap (st_sys s) i = Some c"
  shows "\<exists>c'. s' = s\<lparr>st_sys := (st_sys s)\<lparr>sys_heap := (sys_heap (st_sys s))(i \<mapsto> c')\<rparr>\<rparr> \<and>
    sc_status c' = sc_status c \<and> sc_private c' = sc_private c"
proof (cases "en_putSign env (StreamSocket_String c) (StreamSocket_LocalAddr c)")
  case None
  with assms have "s' = s" by (auto simp: Switch_SignIn_def client_get_Some elim!: bnd_SomeE)
  with assms(2) show ?thesis by (intro exI [of _ c]) (simp add: fun_upd_idem)
next
  case (Some body)
  with assms obtain m where "client_WriteMsg env m i s = Some (Inr (r, s'))"
    by (auto simp: Switch_SignIn_def client_get_Some elim!: bnd_SomeE split: sum.splits)
  then obtain c' where "StreamSocket_WriteMsg (en_ops env) m c = Some (c', r)"
    "s' = s\<lparr>st_sys := (st_sys s)\<lparr>sys_heap := (sys_heap (st_sys s))(i \<mapsto> c')\<rparr>\<rparr>"
    using assms(2) unfolding client_WriteMsg_def client_put_def
    by (auto simp: client_get_Some elim!: bnd_SomeE split: option.splits prod.splits)
  then show ?thesis using WriteMsg_auth by blast
qed

text \<open>C3. A frame of a client that is not authenticated has no effect on the switch, unless it is a login: no tap, no cache and no
  other client changes and the handler returns without error. Only a ping is answered, on the connection of this client.\<close>

theorem unauth_frames_ignored:
  assumes "sw_hooks v = []" and "sys_heap (st_sys s) i = Some c" and "sc_status c \<noteq> ClAuth"
    and "\<not> login_frame (fst (FrameMessage_Decode frame))"
  shows "if fm_action (fst (FrameMessage_Decode frame)) \<noteq> PingReq
    then Switch_ReadClient env (Switch_preApps v) i frame s = Some (Inr (None, s))
    else \<forall>r s'. Switch_ReadClient env (Switch_preApps v) i frame s = Some (Inr (r, s')) \<longrightarrow> r = None \<and>
      (\<exists>c'. s' = s\<lparr>st_sys := (st_sys s)\<lparr>sys_heap := (sys_heap (st_sys s))(i \<mapsto> c')\<rparr>\<rparr> \<and>
         sc_status c' = sc_status c \<and> sc_private c' = sc_private c)"
proof -
  let ?f = "fst (FrameMessage_Decode frame)"
  obtain hs where hs: "sw_hooks (Switch_preApps v) = HAccess # hs" by (rule preApps_hooks [OF assms(1)])
  have chk: "Access_check i s = Some (Inr (Some (NewErr ''unAuth client.''), s))"
    using assms(2,3) by (simp add: Access_check_def client_get_def prog_defs SocketClientImpl_Have_def SocketClientImpl_Status_def)
  then have on: "Switch_onFrame env (Switch_preApps v) i ?f s = Some (Inr (Some (NewErr ''unAuth client.''), s))"
    by (simp add: Switch_onFrame_def hs Access_OnFrame_other [OF assms(4)] bnd_def ret_def)
  have rc: "Switch_ReadClient env (Switch_preApps v) i frame s =
      bnd (if FrameMessage_Action ?f = PingReq then Switch_SignIn env i else ret None) (\<lambda>_. ret None) s"
    by (simp add: Switch_ReadClient_def Let_def bnd_def [of "Switch_onFrame _ _ _ _"] on)
  show ?thesis
  proof (cases "fm_action ?f = PingReq")
    case False
    then show ?thesis by (simp add: rc FrameMessage_Action_def ret_def)
  next
    case True
    then show ?thesis using SignIn_effect [OF _ assms(2)]
      by (auto simp: rc FrameMessage_Action_def elim!: bnd_SomeE)
  qed
qed

lemma ReadClient_cases:
  assumes "Switch_ReadClient env v i frame s = Some (Inr (r, s'))"
  obtains e s1 where "Switch_onFrame env v i (fst (FrameMessage_Decode frame)) s = Some (Inr (Some e, s1))" and "same_auth s1 s'"
  | s1 where "Switch_onFrame env v i (fst (FrameMessage_Decode frame)) s = Some (Inr (None, s1))" and "same_auth s1 s'"
proof -
  from assms obtain r1 s1 where 1: "Switch_onFrame env v i (fst (FrameMessage_Decode frame)) s = Some (Inr (r1, s1))"
    and rest: "(case r1 of
           Some err \<Rightarrow> bnd (if FrameMessage_Action (fst (FrameMessage_Decode frame)) = PingReq then Switch_SignIn env i else ret None) (\<lambda>_. ret None)
         | None \<Rightarrow> if FrameMessage_IsControl (fst (FrameMessage_Decode frame)) then ret None
             else write_device i (fst (FrameMessage_Decode frame))) s1 = Some (Inr (r, s'))"
    unfolding Switch_ReadClient_def Let_def by (rule bnd_SomeE)
  have "keeps same_auth (case r1 of
           Some err \<Rightarrow> bnd (if FrameMessage_Action (fst (FrameMessage_Decode frame)) = PingReq then Switch_SignIn env i else ret None) (\<lambda>_. ret None)
         | None \<Rightarrow> if FrameMessage_IsControl (fst (FrameMessage_Decode frame)) then ret None
             else write_device i (fst (FrameMessage_Decode frame)))"
    by (intro auth.rules keeps_SignIn keeps_write_device)
  from keepsD [OF this rest] 1 that show thesis by (cases r1) auto
qed


section \<open>Tenants\<close>

text \<open>A handler that touches neither the taps nor device and network of a point, and gives no client private data.\<close>

definition quiet :: "('c, 'l) state \<Rightarrow> ('c, 'l) state \<Rightarrow> bool" where
  "quiet s s' \<longleftrightarrow> st_taps s' = st_taps s \<and> st_tapnext s' = st_tapnext s \<and> pc_next (st_point s') = pc_next (st_point s) \<and>
     (\<forall>k. pt_Device (pc_heap (st_point s') k) = pt_Device (pc_heap (st_point s) k) \<and>
          pt_Network (pc_heap (st_point s') k) = pt_Network (pc_heap (st_point s) k)) \<and>
     (\<forall>i c'. sys_heap (st_sys s') i = Some c' \<longrightarrow>
        sc_private c' = None \<or> (\<exists>c. sys_heap (st_sys s) i = Some c \<and> sc_private c = sc_private c'))"

text \<open>The point has a tap of its network.\<close>

definition own_tap :: "('c, 'l) state \<Rightarrow> nat \<Rightarrow> bool" where
  "own_tap s k \<longleftrightarrow> k < pc_next (st_point s) \<and>
     (\<exists>d t. pt_Device (pc_heap (st_point s) k) = Some d \<and> st_taps s d = Some t \<and> vt_tenant t = pt_Network (pc_heap (st_point s) k))"

definition taps_fresh :: "('c, 'l) state \<Rightarrow> bool" where
  "taps_fresh s \<longleftrightarrow> (\<forall>d \<ge> st_tapnext s. st_taps s d = None)"

definition tenancy :: "('c, 'l) state \<Rightarrow> ('c, 'l) state \<Rightarrow> bool" where
  "tenancy s s' \<longleftrightarrow> (taps_fresh s \<longrightarrow> taps_fresh s' \<and>
     (\<forall>d t. st_taps s d = Some t \<longrightarrow> (\<exists>t'. st_taps s' d = Some t' \<and> vt_tenant t' = vt_tenant t)) \<and>
     pc_next (st_point s) \<le> pc_next (st_point s') \<and>
     (\<forall>k < pc_next (st_point s). pt_Device (pc_heap (st_point s') k) = pt_Device (pc_heap (st_point s) k) \<and>
        pt_Network (pc_heap (st_point s') k) = pt_Network (pc_heap (st_point s) k)) \<and>
     (\<forall>i c' k. sys_heap (st_sys s') i = Some c' \<and> sc_private c' = Some k \<longrightarrow>
        own_tap s' k \<or> (\<exists>c. sys_heap (st_sys s) i = Some c \<and> sc_private c = Some k)))"

lemma tenancy_own_tap: "tenancy s s' \<Longrightarrow> taps_fresh s \<Longrightarrow> own_tap s k \<Longrightarrow> own_tap s' k"
  unfolding tenancy_def own_tap_def by (metis order_less_le_trans)

lemma quiet_tenancy: "quiet s s' \<Longrightarrow> tenancy s s'"
  unfolding quiet_def tenancy_def taps_fresh_def by (metis option.distinct(1) order_refl)

interpretation quiet: kept_relation quiet
  by unfold_locales (unfold quiet_def, blast, metis)

lemma tenancy_trans:
  assumes "tenancy s t" and "tenancy t u"
  shows "tenancy s u"
proof (cases "taps_fresh s")
  case True
  then have t: "taps_fresh t" using assms(1) by (simp add: tenancy_def)
  have own: "own_tap t k \<Longrightarrow> own_tap u k" for k using tenancy_own_tap [OF assms(2) t] .
  show ?thesis unfolding tenancy_def
  proof (intro impI conjI allI)
    show "taps_fresh u" using assms(2) t by (simp add: tenancy_def)
    show "\<exists>t'. st_taps u d = Some t' \<and> vt_tenant t' = vt_tenant x" if "st_taps s d = Some x" for d x
      using that True t assms unfolding tenancy_def by metis
    show "pc_next (st_point s) \<le> pc_next (st_point u)" using True t assms unfolding tenancy_def by linarith
    show "pt_Device (pc_heap (st_point u) k) = pt_Device (pc_heap (st_point s) k)"
      "pt_Network (pc_heap (st_point u) k) = pt_Network (pc_heap (st_point s) k)" if "k < pc_next (st_point s)" for k
      using that True t assms unfolding tenancy_def by (metis order_less_le_trans)+
    show "own_tap u k \<or> (\<exists>c. sys_heap (st_sys s) i = Some c \<and> sc_private c = Some k)"
      if "sys_heap (st_sys u) i = Some c' \<and> sc_private c' = Some k" for i c' k
      using that True t assms own unfolding tenancy_def by metis
  qed
qed (simp add: tenancy_def)

interpretation tenancy: kept_relation tenancy
  by unfold_locales (simp add: quiet_tenancy quiet.rel_refl, rule tenancy_trans)

lemma keeps_tenancy: "keeps quiet m \<Longrightarrow> keeps tenancy m"
  by (auto simp: keeps_def intro: quiet_tenancy)

lemma quiet_client_get: "keeps quiet (client_get i)"
  unfolding client_get_def by (intro quiet.rules)

lemma quiet_WriteMsg: "keeps quiet (client_WriteMsg env frame i)"
  unfolding client_WriteMsg_def
  by (rule keepsI)
     (auto simp: client_get_Some client_put_def quiet_def dest!: WriteMsg_auth elim!: bnd_SomeE split: option.splits prod.splits if_splits)

lemma quiet_SetStatus: "keeps quiet (client_SetStatus st i)"
  unfolding client_SetStatus_def
  by (rule keepsI) (auto simp: client_get_Some TcpClient_SetStatus_def client_put_def quiet_def elim!: bnd_SomeE split: if_splits)

lemma quiet_write_control: "keeps quiet (write_control env action body i)"
  unfolding write_control_def by (intro quiet.rules quiet_WriteMsg)

lemma quiet_update:
  "(\<And>s. st_taps (f s) = st_taps s \<and> st_tapnext (f s) = st_tapnext s \<and> st_point (f s) = st_point s \<and>
     sys_heap (st_sys (f s)) = sys_heap (st_sys s)) \<Longrightarrow> keeps quiet (modify f)"
  by (rule quiet.keeps_modify) (simp add: quiet_def)

lemma quiet_Check: "keeps quiet (Access_check i)"
  unfolding Access_check_def by (intro quiet.rules quiet_client_get)

lemma quiet_Neighbors: "keeps quiet (Neighbors_OnFrame env i frame)"
  unfolding Neighbors_OnFrame_def Neighbors_AddNeighbor_def
  by (intro quiet.keeps_bnd quiet.keeps_andthen quiet.keeps_ret quiet.keeps_gets quiet.keeps_panic quiet.keeps_whenever quiet.keeps_if
      quiet.keeps_option quiet.keeps_prod quiet_update) (auto simp: Let_def split: option.split)

lemma quiet_Online: "keeps quiet (Online_OnFrame env i frame)"
  unfolding Online_OnFrame_def
  by (intro quiet.keeps_bnd quiet.keeps_andthen quiet.keeps_ret quiet.keeps_gets quiet.keeps_panic quiet.keeps_whenever quiet.keeps_if
      quiet.keeps_option quiet.keeps_prod quiet_update) (auto simp: Let_def split: prod.split)

lemma quiet_SignIn: "keeps quiet (Switch_SignIn env i)"
  unfolding Switch_SignIn_def by (intro quiet.rules quiet_client_get quiet_WriteMsg)

lemma quiet_OffClient: "keeps quiet (Switch_OffClient i)"
  unfolding Switch_OffClient_def by (intro quiet.rules) (simp add: quiet_def)

lemma point_upd_keeps: "pt_Device (point_upd env s p) = pt_Device p" "pt_Network (point_upd env s p) = pt_Network p"
  by (simp_all add: point_upd_def Point_Update_def Let_def split: option.split)

definition same_points :: "point \<Rightarrow> point \<Rightarrow> bool" where
  "same_points p q \<longleftrightarrow> pc_next q = pc_next p \<and> (\<forall>k. pt_Device (pc_heap q k) = pt_Device (pc_heap p k) \<and>
     pt_Network (pc_heap q k) = pt_Network (pc_heap p k))"

lemma same_points_Get: "same_points p (fst (point_Get (point_upd env s) a p))"
  by (auto simp: same_points_def point_Get_def point_upd_keeps split: option.split)

lemma same_points_ops:
  "same_points p (fst (point_GetByUUID (point_upd env s) uuid p))" "same_points p (point_Add addr k p)"
  "same_points p (fst (point_Del addr a p))" "same_points p p"
  using same_points_Get [of p env s]
  by (auto simp: point_GetByUUID_def point_Add_def point_Del_def Let_def same_points_def split: option.split)

lemma quiet_points:
  assumes "\<And>s a s'. m s = Some (Inr (a, s')) \<Longrightarrow> s' = s \<and> same_points (st_point s) (g a)" and "\<And>a. keeps quiet (f a)"
  shows "keeps quiet (bnd m (\<lambda>a. andthen (modify (\<lambda>s. s\<lparr>st_point := g a\<rparr>)) (f a)))"
proof (rule keepsI)
  fix s b s''
  assume "bnd m (\<lambda>a. andthen (modify (\<lambda>s. s\<lparr>st_point := g a\<rparr>)) (f a)) s = Some (Inr (b, s''))"
  then obtain a where a: "same_points (st_point s) (g a)" "f a (s\<lparr>st_point := g a\<rparr>) = Some (Inr (b, s''))"
    unfolding andthen_def by (auto elim!: bnd_SomeE dest!: assms(1))
  have "quiet s (s\<lparr>st_point := g a\<rparr>)" using a(1) by (simp add: quiet_def same_points_def)
  with keepsD [OF assms(2) a(2)] show "quiet s s''" by (rule quiet.rel_trans [rotated])
qed

lemma quiet_onIpAddr: "keeps quiet (Request_onIpAddr env i body)"
  unfolding Request_onIpAddr_def Let_def case_prod_unfold
  by (intro quiet_points quiet.rules quiet_write_control) (auto simp: quiet_def intro: same_points_Get)

lemma quiet_Request: "keeps quiet (Request_OnFrame env (Switch_Master v) i frame)"
  unfolding Request_OnFrame_def Request_onLeave_def Request_onNeighbor_def Request_onDefault_def Let_def
  by (intro quiet.rules quiet_onIpAddr quiet_write_control) (simp add: quiet_OffClient)

text \<open>A new tap belongs to the tenant it is made for.\<close>

lemma NewTap_cases:
  assumes "Switch_NewTap v tenant s = Some (Inr (r, s'))" and "taps_fresh s"
  shows "tenancy s s' \<and> st_point s' = st_point s \<and> sys_heap (st_sys s') = sys_heap (st_sys s) \<and>
    (\<forall>d. r = Inr d \<longrightarrow> (\<exists>t. st_taps s' d = Some t \<and> vt_tenant t = tenant))"
proof (cases "Switch_GetBridge tenant s")
  case (Inl err)
  with assms have "s' = s" "r = Inl err" by (auto simp: Switch_NewTap_def prog_defs)
  then show ?thesis by (simp add: tenancy.rel_refl)
next
  case (Inr br)
  let ?d = "st_tapnext s"
  have n: "st_taps s ?d = None" using assms(2) by (simp add: taps_fresh_def)
  obtain reg dev where nv: "NewVirtualTap tenant (tap_config v) ?d (st_tapers s) = (reg, dev)" by fastforce
  then have dev: "vt_tenant dev = tenant" "tapers_Get (vt_name dev) reg = Some ?d"
    by (auto simp: NewVirtualTap_def tap_config_def tapers_Get_def tapers_Add_def map_of_upd_del)
  define t where "t = fst (VirtualTap_SetMaster (vb_name br) (VirtualTap_Up dev))"
  have name: "vt_name (VirtualTap_Up dev) = vt_name dev" by (simp add: VirtualTap_Up_def VirtualTap_setFlags_def)
  obtain b where s': "s' = s\<lparr>st_tapnext := ?d + 1, st_tapers := reg, st_taps := (st_taps s)(?d \<mapsto> t), st_bridges := b\<rparr>" "r = Inr ?d"
    using assms(1) Inr by (auto simp: Switch_NewTap_def prog_defs nv VirtualBridge_AddSlave_def name dev(2) t_def)
  have "vt_tenant t = tenant" by (simp add: t_def VirtualTap_SetMaster_def VirtualTap_Up_def VirtualTap_setFlags_def dev(1) Let_def)
  note s' = s'(1) this s'(2)
  have "tenancy s s'" using n assms(2) unfolding s'(1) tenancy_def taps_fresh_def by (auto simp: own_tap_def)
  then show ?thesis using s' by simp
qed

lemma tenancy_SetPrivate:
  assumes "client_SetPrivate k i s = Some (Inr (u, s'))" and "own_tap s k"
  shows "tenancy s s'"
proof -
  from assms(1) obtain c where c: "sys_heap (st_sys s) i = Some c"
    "s' = s\<lparr>st_sys := (st_sys s)\<lparr>sys_heap := (sys_heap (st_sys s))(i \<mapsto> SocketClientImpl_SetPrivate (Some k) c)\<rparr>\<rparr>"
    unfolding client_SetPrivate_def client_put_def by (auto simp: client_get_Some elim!: bnd_SomeE)
  have "own_tap s' k" using assms(2) by (simp add: c(2) own_tap_def)
  then show ?thesis unfolding tenancy_def c(2) by (auto simp: taps_fresh_def SocketClientImpl_SetPrivate_def)
qed

lemma tenancy_attach:
  assumes run: "Access_attach env (Switch_Master v) i user c d s = Some (Inr (r, s'))" and fr: "taps_fresh s"
    and tap: "st_taps s d = Some t" "vt_tenant t = us_Network user"
  shows "tenancy s s'"
proof -
  define k where "k = pc_next (st_point s)"
  define m where "m = Point_SetUser user (NewPoint i c d (sw_Protocol v))"
  define s2 where "s2 = s\<lparr>st_point := (st_point s)\<lparr>pc_heap := (pc_heap (st_point s))(k := m), pc_next := k + 1\<rparr>\<rparr>"
  have t2: "tenancy s s2" by (simp add: s2_def k_def tenancy_def taps_fresh_def)
  have fr2: "taps_fresh s2" using t2 fr by (auto simp: tenancy_def)
  have own2: "own_tap s2 k" using tap by (simp add: own_tap_def s2_def m_def Point_SetUser_def NewPoint_def Let_def)
  obtain p om where p: "point_GetByUUID (point_upd env s2) (pt_UUID m) (st_point s2) = (p, om)" by fastforce
  let ?off = "case om of None \<Rightarrow> ret () | Some o' \<Rightarrow> Switch_OffClient (pt_Client (pc_heap p o'))"
  have t3: "tenancy s2 (s2\<lparr>st_point := p\<rparr>)"
    using same_points_ops(1) [of "st_point s2" env s2 "pt_UUID m"] by (intro quiet_tenancy) (simp add: p quiet_def same_points_def)
  have step: "bnd (gets f) g s = g (f s) s" "andthen (modify h) n s = n (h s)" for f g h n and s :: "('a, 'b) state"
    by (simp_all add: prog_defs)
  have "andthen ?off (andthen (client_SetPrivate k i)
      (andthen (modify (\<lambda>s. s\<lparr>st_point := point_Add (client_addr s) k (st_point s)\<rparr>))
      (andthen (Switch_ReadTap d i) (ret None)))) (s2\<lparr>st_point := p\<rparr>) = Some (Inr (r, s'))"
    using run unfolding Access_attach_def Let_def step k_def [symmetric]
    by (simp only: Switch_Master_simps m_def [symmetric] s2_def [symmetric] p prod.case)
  then obtain s4 s5 s6 where 4: "?off (s2\<lparr>st_point := p\<rparr>) = Some (Inr ((), s4))" and 5: "client_SetPrivate k i s4 = Some (Inr ((), s5))"
    and 6: "s6 = s5\<lparr>st_point := point_Add (client_addr s5) k (st_point s5)\<rparr>" "Switch_ReadTap d i s6 = Some (Inr ((), s'))"
    by (elim andthen_SomeE) simp
  have off: "keeps quiet ?off" by (intro quiet.rules quiet_OffClient)
  have t4: "tenancy (s2\<lparr>st_point := p\<rparr>) s4" by (rule quiet_tenancy [OF keepsD [OF off 4]])
  have "own_tap s4 k" using own2 fr2 t3 t4 by (meson tenancy_def tenancy_own_tap)
  then have t5: "tenancy s4 s5" by (rule tenancy_SetPrivate [OF 5])
  have t6: "tenancy s5 s6" using same_points_ops(2) [of "st_point s5" "client_addr s5" k]
    by (intro quiet_tenancy) (simp add: 6(1) quiet_def same_points_def)
  have t7: "tenancy s6 s'" using 6(2) by (intro quiet_tenancy) (auto simp: Switch_ReadTap_def quiet_def)
  show ?thesis using t2 t3 t4 t5 t6 t7 by (meson tenancy_trans)
qed

lemma tenancy_onAuth: "keeps tenancy (Access_onAuth env (Switch_Master v) i user)"
proof (rule keepsI)
  fix s r s'
  assume run: "Access_onAuth env (Switch_Master v) i user s = Some (Inr (r, s'))"
  then obtain c where c: "(if \<not> SocketClientImpl_Have ClAuth c then ret (Some (NewErr ''not auth.''))
     else bnd (Switch_NewTap v (us_Network user)) (\<lambda>r. case r of
       Inl err \<Rightarrow> ret (Some err)
     | Inr dev \<Rightarrow> Access_attach env (Switch_Master v) i user c dev)) s = Some (Inr (r, s'))"
    unfolding Access_onAuth_def Switch_Master_simps by (auto simp: client_get_Some elim!: bnd_SomeE)
  show "tenancy s s'"
  proof (cases "taps_fresh s \<and> SocketClientImpl_Have ClAuth c")
    case True
    with c obtain q s1 where nt: "Switch_NewTap v (us_Network user) s = Some (Inr (q, s1))"
      and rest: "(case q of Inl err \<Rightarrow> ret (Some err) | Inr dev \<Rightarrow> Access_attach env (Switch_Master v) i user c dev) s1 = Some (Inr (r, s'))"
      by (auto elim!: bnd_SomeE)
    note s1 = NewTap_cases [OF nt conjunct1 [OF True]]
    show ?thesis
    proof (cases q)
      case (Inr d)
      with s1 obtain t where "st_taps s1 d = Some t" "vt_tenant t = us_Network user" by blast
      moreover have "taps_fresh s1" using s1 True by (auto simp: tenancy_def)
      ultimately have "tenancy s1 s'" using tenancy_attach rest Inr by fastforce
      with s1 show ?thesis using tenancy_trans by blast
    qed (use s1 rest in simp)
  qed (use c in \<open>auto simp: tenancy_def [of s s'] tenancy.rel_refl\<close>)
qed

lemma tenancy_handleLogin: "keeps tenancy (Access_handleLogin env (Switch_Master v) i data)"
  unfolding Access_handleLogin_def Let_def case_prod_unfold
  by (intro tenancy.keeps_bnd tenancy.keeps_andthen tenancy.keeps_if tenancy.keeps_option tenancy.keeps_sum tenancy.keeps_ret
      tenancy.keeps_gets tenancy.keeps_whenever tenancy_onAuth keeps_tenancy [OF quiet_client_get] keeps_tenancy [OF quiet_SetStatus]
      keeps_tenancy [OF quiet_update]) (simp_all add: keeps_tenancy [OF quiet_OffClient])

lemma tenancy_Access: "keeps tenancy (Access_OnFrame env (Switch_Master v) i frame)"
  unfolding Access_OnFrame_def Let_def case_prod_unfold
  by (intro tenancy.rules tenancy_handleLogin keeps_tenancy [OF quiet_write_control] keeps_tenancy [OF quiet_Check])

lemma tenancy_onFrame: "keeps tenancy (onFrame_loop env (Switch_Master v) i frame hs)"
proof (induction hs)
  case (Cons h hs)
  have "keeps tenancy (run_hook env (Switch_Master v) i frame h)"
    by (cases h) (simp_all add: tenancy_Access keeps_tenancy quiet_Request quiet_Neighbors quiet_Online)
  with Cons show ?case by (simp, intro tenancy.rules) simp_all
qed (simp add: tenancy.keeps_ret)

lemma VirtualTap_tenant:
  "VirtualTap_Write p t = Some (t', r) \<Longrightarrow> vt_tenant t' = vt_tenant t"
  "VirtualTap_Read n t = Some (t', r') \<Longrightarrow> vt_tenant t' = vt_tenant t"
  "VirtualTap_Recv n t = Some (t', r') \<Longrightarrow> vt_tenant t' = vt_tenant t"
  "VirtualTap_Send p t = Some (t', r) \<Longrightarrow> vt_tenant t' = vt_tenant t"
  "VirtualTap_Close t reg = (t', reg', b) \<Longrightarrow> vt_tenant t' = vt_tenant t"
  by (auto simp: VirtualTap_Write_def VirtualTap_Read_def VirtualTap_Recv_def VirtualTap_Send_def VirtualTap_Close_def VirtualTap_Down_def
      VirtualTap_clearFlags_def VirtualTap_setFlags_def tap_drop_def Read_take_def Recv_take_def Read_done_def Recv_done_def Let_def
      split: if_splits option.splits list.splits)

lemma tenancy_tap:
  assumes "st_taps s d = Some t" and "vt_tenant t = vt_tenant t'"
  shows "tenancy s (s\<lparr>st_taps := (st_taps s)(d \<mapsto> t')\<rparr>)"
  using assms by (auto simp: tenancy_def taps_fresh_def own_tap_def)

lemma write_device_effect:
  assumes "write_device i frame s = Some (Inr (r, s'))"
  shows "s' = s \<or> (\<exists>c k d t t' q. sys_heap (st_sys s) i = Some c \<and> sc_private c = Some k \<and>
    pt_Device (pc_heap (st_point s) k) = Some d \<and> st_taps s d = Some t \<and>
    VirtualTap_Write (FrameMessage_Frame frame) t = Some (t', q) \<and> s' = s\<lparr>st_taps := (st_taps s)(d \<mapsto> t')\<rparr>)"
  using assms unfolding write_device_def
  by (auto simp: client_get_Some andthen_def SocketClientImpl_Private_def elim!: bnd_SomeE split: option.splits)

lemma tenancy_write_device: "keeps tenancy (write_device i frame)"
  by (rule keepsI, drule write_device_effect) (auto intro: tenancy.rel_refl tenancy_tap VirtualTap_tenant [symmetric])

lemma tenancy_ReadClient: "keeps tenancy (Switch_ReadClient env v i frame)"
  unfolding Switch_ReadClient_def Switch_onFrame_def Let_def
  by (intro tenancy.rules tenancy_onFrame tenancy_write_device keeps_tenancy [OF quiet_SignIn])

section \<open>All steps of the switch\<close>

inductive switch_step :: "Switch \<Rightarrow> ('c, 'l) state \<Rightarrow> ('c, 'l) state \<Rightarrow> bool" for v where
  read_client: "Switch_ReadClient env v i frame s = Some (Inr (r, s')) \<Longrightarrow> switch_step v s s'"
| new_client: "on_turn s = Some (Inr ((), s')) \<Longrightarrow> switch_step v s s'"
| off_client: "off_turn env s = Some (Inr ((), s')) \<Longrightarrow> switch_step v s s'"
| accept: "TcpServer_Accept na now cfg conn (st_sys s) = Some (Inr sys) \<Longrightarrow> switch_step v s (s\<lparr>st_sys := sys\<rparr>)"
| tap_read: "ReadTap_read d s = Some (Inr (f, s')) \<Longrightarrow> switch_step v s s'"
| tap_write: "ReadTap_write env d i frame s = Some (Inr (b, s')) \<Longrightarrow> switch_step v s s'"
| bridge_port: "map_of (st_bridges s) tenant = Some br \<Longrightarrow> port_loop now d (st_taps s) br = Some (Inr (ts, br', b)) \<Longrightarrow>
    switch_step v s (s\<lparr>st_taps := ts, st_bridges := AList.update tenant br' (st_bridges s)\<rparr>)"

inductive_cases switch_stepE: "switch_step v s s'"

definition tenants :: "taps \<Rightarrow> taps \<Rightarrow> bool" where
  "tenants ts ts' \<longleftrightarrow> (\<forall>d. map_option vt_tenant (ts' d) = map_option vt_tenant (ts d))"

lemma tenants_trans: "tenants ts ts' \<Longrightarrow> tenants ts' ts'' \<Longrightarrow> tenants ts ts''"
  by (simp add: tenants_def)

lemma tenants_upd: "ts d = Some t \<Longrightarrow> vt_tenant t' = vt_tenant t \<Longrightarrow> tenants ts (ts(d \<mapsto> t'))"
  by (simp add: tenants_def)

lemma tenancy_taps:
  assumes "tenants (st_taps s) ts"
  shows "tenancy s (s\<lparr>st_taps := ts, st_tapers := reg, st_bridges := b\<rparr>)"
proof -
  have d: "map_option vt_tenant (ts d) = map_option vt_tenant (st_taps s d)" for d using assms by (simp add: tenants_def)
  then have "ts d = None \<longleftrightarrow> st_taps s d = None" for d by (metis option.map_disc_iff)
  moreover have "\<exists>t'. ts d = Some t' \<and> vt_tenant t' = vt_tenant t" if "st_taps s d = Some t" for d t
    using d [of d] that by auto
  ultimately show ?thesis unfolding tenancy_def taps_fresh_def by simp
qed

lemma port_send_tenants: "port_send p d ts = Some ts' \<Longrightarrow> tenants ts ts'"
  by (auto simp: port_send_def tenants_def dest: VirtualTap_tenant split: option.splits)

lemma flood_tenants: "flood_out p is ts b = Some (ts', b') \<Longrightarrow> tenants ts ts'"
proof (induction "is" arbitrary: ts b)
  case (Cons d ds)
  then obtain ts1 where "port_send p d ts = Some ts1" "flood_out p ds ts1 (stat_send b) = Some (ts', b')"
    by (auto split: option.splits)
  with Cons.IH port_send_tenants tenants_trans show ?case by blast
qed (simp add: tenants_def)

lemma UniCast_tenants: "VirtualBridge_UniCast m ts b = Some (Inr (ts', b', e)) \<Longrightarrow> tenants ts ts'"
  using port_send_tenants
  by (auto simp: VirtualBridge_UniCast_def Let_def tenants_def [of ts' ts'] split: if_splits option.splits)

lemma Input_tenants: "VirtualBridge_Input now m ts b = Some (Inr (ts', b')) \<Longrightarrow> tenants ts ts'"
proof -
  assume "VirtualBridge_Input now m ts b = Some (Inr (ts', b'))"
  then obtain b1 where "VirtualBridge_Forward m ts b1 = Some (Inr (ts', b'))"
    by (auto simp: VirtualBridge_Input_def Let_def split: sum.splits)
  then consider b2 where "VirtualBridge_UniCast m ts b1 = Some (Inr (ts', b2, None))"
    | ts1 b2 e where "VirtualBridge_UniCast m ts b1 = Some (Inr (ts1, b2, Some e))" "VirtualBridge_Flood m ts1 b2 = Some (ts', b')"
    by (auto simp: VirtualBridge_Forward_def split: option.splits sum.splits prod.splits)
  then show ?thesis
  proof cases
    case 1
    then show ?thesis by (rule UniCast_tenants)
  next
    case 2
    have "tenants ts1 ts'" using 2(2) unfolding VirtualBridge_Flood_def by (rule flood_tenants)
    with UniCast_tenants [OF 2(1)] show ?thesis by (rule tenants_trans)
  qed
qed

lemma port_loop_tenants:
  assumes "port_loop now d ts b = Some (Inr (ts', b', g))"
  shows "tenants ts ts'"
proof -
  from assms obtain t t1 r where t: "ts d = Some t" "VirtualTap_Recv (nat (vb_ipMtu b)) t = Some (t1, r)"
    by (auto simp: port_loop_def split: option.splits)
  then have 1: "tenants ts (ts(d \<mapsto> t1))" using VirtualTap_tenant(3) tenants_upd by blast
  have "ts' = ts(d \<mapsto> t1) \<or> (\<exists>m. VirtualBridge_Input now m (ts(d \<mapsto> t1)) b = Some (Inr (ts', b')))"
    using assms t by (auto simp: port_loop_def split: sum.splits if_splits option.splits prod.splits)
  with 1 show ?thesis using Input_tenants tenants_trans by blast
qed

lemma tenancy_tap_Close: "tenancy s (tap_Close d s)"
proof (cases "st_taps s d")
  case (Some t)
  obtain t' reg b where c: "VirtualTap_Close t (st_tapers s) = (t', reg, b)" by (metis prod_cases3)
  then have "tenants (st_taps s) ((st_taps s)(d \<mapsto> t'))" using Some VirtualTap_tenant(5) tenants_upd by blast
  from tenancy_taps [OF this] show ?thesis by (simp add: tap_Close_def Some c)
qed (simp add: tap_Close_def tenancy.rel_refl)

lemma tenancy_OnClose: "keeps tenancy (Switch_OnClose i)"
proof (rule keepsI)
  fix s r s'
  assume "Switch_OnClose i s = Some (Inr (r, s'))"
  then obtain a uuid where d: "andthen (whenever (point_GetAddr uuid (st_point s) = a)
          (bnd (gets (\<lambda>s. network_DelLease uuid (st_network s))) (\<lambda>r. case r of
             Inl e \<Rightarrow> panic e | Inr w \<Rightarrow> modify (\<lambda>s. s\<lparr>st_network := w\<rparr>))))
       (bnd (gets (\<lambda>s. point_Del (client_addr s) a (st_point s))) (\<lambda>(p, dev).
        andthen (modify (\<lambda>s. (case dev of None \<Rightarrow> s | Some d \<Rightarrow> tap_Close d s)\<lparr>st_point := p\<rparr>))
       (ret None))) s = Some (Inr (r, s'))"
    unfolding Switch_OnClose_def Let_def by (auto simp: client_get_Some elim!: bnd_SomeE)
  then obtain s1 where 1: "whenever (point_GetAddr uuid (st_point s) = a)
          (bnd (gets (\<lambda>s. network_DelLease uuid (st_network s))) (\<lambda>r. case r of
             Inl e \<Rightarrow> panic e | Inr w \<Rightarrow> modify (\<lambda>s. s\<lparr>st_network := w\<rparr>))) s = Some (Inr ((), s1))"
    and 2: "bnd (gets (\<lambda>s. point_Del (client_addr s) a (st_point s))) (\<lambda>(p, dev).
        andthen (modify (\<lambda>s. (case dev of None \<Rightarrow> s | Some d \<Rightarrow> tap_Close d s)\<lparr>st_point := p\<rparr>))
       (ret None)) s1 = Some (Inr (r, s'))" by (rule andthen_SomeE)
  have "keeps quiet (whenever (point_GetAddr uuid (st_point s) = a)
          (bnd (gets (\<lambda>s. network_DelLease uuid (st_network s))) (\<lambda>r. case r of
             Inl e \<Rightarrow> panic e | Inr w \<Rightarrow> modify (\<lambda>s. s\<lparr>st_network := w\<rparr>)))) "
    by (intro quiet.rules) (simp add: quiet_def)
  from quiet_tenancy [OF keepsD [OF this 1]] have t1: "tenancy s s1" .
  obtain p dev where p: "point_Del (client_addr s1) a (st_point s1) = (p, dev)" by fastforce
  let ?s = "case dev of None \<Rightarrow> s1 | Some d \<Rightarrow> tap_Close d s1"
  have s': "s' = ?s\<lparr>st_point := p\<rparr>" using 2 by (simp add: bnd_def gets_def p andthen_def modify_def ret_def)
  have t2: "tenancy s1 ?s" by (cases dev) (simp_all add: tenancy_tap_Close tenancy.rel_refl)
  have "st_point ?s = st_point s1" by (cases dev) (simp_all add: tap_Close_def Let_def split: option.split prod.split)
  then have "quiet ?s s'" using same_points_ops(3) [of "st_point s1" "client_addr s1" a]
    by (simp add: s' p quiet_def same_points_def)
  then show "tenancy s s'" using t1 t2 tenancy_trans quiet_tenancy by metis
qed

lemma doOn_heap: "SocketServerImpl_doOnClient call i sys = Inr (sys', ev) \<Longrightarrow> sys_heap sys' = sys_heap sys"
  by (auto simp: SocketServerImpl_doOnClient_def Let_def split: option.splits)

lemma Close_private: "TcpClient_Close na now c = Inr (c', ev) \<Longrightarrow> sc_private c' = None \<or> sc_private c' = sc_private c"
  by (auto simp: TcpClient_Close_def Let_def split: if_splits sum.splits)

lemma quiet_doOff:
  assumes "SocketServerImpl_doOffClient na now call i (st_sys s) = Inr (sys, ev)"
  shows "quiet s (s\<lparr>st_sys := sys\<rparr>)"
proof -
  have "sys_heap sys = sys_heap (st_sys s) \<or> (\<exists>c c' ev. sys_heap (st_sys s) i = Some c \<and> TcpClient_Close na now c = Inr (c', ev) \<and>
      sys_heap sys = (sys_heap (st_sys s))(i \<mapsto> c'))"
    using assms by (auto simp: SocketServerImpl_doOffClient_def Let_def split: option.splits if_splits sum.splits)
  then show ?thesis by (auto simp: quiet_def dest!: Close_private split: if_splits)
qed

lemma tenancy_on_turn: "keeps tenancy on_turn"
proof (rule keepsI)
  fix s :: "('a, 'b) state" and r s'
  assume "on_turn s = Some (Inr (r, s'))"
  then obtain i rest sys ev where d: "SocketServerImpl_doOnClient Switch_listener i
        ((st_sys s)\<lparr>sys_srv := (sys_srv (st_sys s))\<lparr>srv_onClients := rest\<rparr>\<rparr>) = Inr (sys, ev)"
    and c: "\<exists>e. Switch_OnClient i (s\<lparr>st_sys := sys\<rparr>) = Some (Inr (e, s'))"
    unfolding on_turn_def andthen_def by (auto elim!: bnd_SomeE split: list.splits sum.splits; blast)
  have "quiet s (s\<lparr>st_sys := sys\<rparr>)" using doOn_heap [OF d] by (simp add: quiet_def)
  moreover have "keeps quiet (Switch_OnClient i :: (('a, 'b) state, error option) prog)"
    unfolding Switch_OnClient_def by (intro quiet.rules quiet_SetStatus)
  with c have "quiet (s\<lparr>st_sys := sys\<rparr>) s'" by (elim exE) (rule keepsD)
  ultimately show "tenancy s s'" using quiet_tenancy quiet.rel_trans by metis
qed

lemma tenancy_off_turn: "keeps tenancy (off_turn env)"
  unfolding off_turn_def
proof (intro tenancy.keeps_bnd tenancy.keeps_gets)
  fix q :: "nat list"
  show "keeps tenancy (case q of
       [] \<Rightarrow> block
     | i # rest \<Rightarrow>
         andthen (modify (\<lambda>s. s\<lparr>st_sys := (st_sys s)\<lparr>sys_srv := (sys_srv (st_sys s))\<lparr>srv_offClients := rest\<rparr>\<rparr>\<rparr>))
         (bnd (client_get i) (\<lambda>c. bnd (gets (\<lambda>s. snd (SafeStrMap_GetEx (StreamSocket_RemoteAddr c) (srv_clients (sys_srv (st_sys s)))))) (\<lambda>there.
          andthen (whenever there (bnd (Switch_OnClose i) (\<lambda>_. ret ())))
          (bnd (gets (\<lambda>s. SocketServerImpl_doOffClient (en_na env) (en_now env) Switch_listener i (st_sys s))) (\<lambda>r. case r of
            Inl e \<Rightarrow> panic e
          | Inr (sys, _) \<Rightarrow> modify (\<lambda>s. s\<lparr>st_sys := sys\<rparr>)))))))"
  proof (cases q)
    case (Cons i rest)
    have off: "keeps tenancy (bnd (gets (\<lambda>s. SocketServerImpl_doOffClient (en_na env) (en_now env) Switch_listener i (st_sys s))) (\<lambda>r. case r of
            Inl e \<Rightarrow> panic e
          | Inr (sys, _) \<Rightarrow> modify (\<lambda>s. s\<lparr>st_sys := sys\<rparr>)))"
      by (rule keepsI) (auto elim!: bnd_SomeE intro!: quiet_tenancy [OF quiet_doOff] split: sum.splits prod.splits)
    show ?thesis unfolding Cons list.case
      by (intro tenancy.keeps_bnd tenancy.keeps_andthen tenancy.keeps_whenever tenancy.keeps_ret tenancy.keeps_gets tenancy_OnClose off
          keeps_tenancy [OF quiet_client_get] keeps_tenancy [OF quiet_update]) simp
  qed (simp add: tenancy.keeps_block)
qed

lemma accept_private:
  assumes "TcpServer_Accept na now cfg conn sys = Some (Inr sys')" and "sys_heap sys' i = Some c"
  shows "sc_private c = None \<or> sys_heap sys i = Some c"
  using assms
  by (auto simp: TcpServer_Accept_def accept_iter_def NewTcpClientFromConn_def SocketClientImpl_updateConn_def NewTcpClient_def
      NewSocketClient_def split: prod.splits option.splits sum.splits if_splits)

lemma tenancy_step:
  assumes "switch_step v s s'"
  shows "tenancy s s'"
  using assms
proof cases
  case (accept na now cfg conn sys)
  have "quiet s s'" using accept_private [OF accept(2)] by (fastforce simp: accept(1) quiet_def)
  then show ?thesis by (rule quiet_tenancy)
next
  case (tap_read d f)
  then have "\<exists>t t' n q. st_taps s d = Some t \<and> VirtualTap_Read n t = Some (t', q) \<and> s' = s\<lparr>st_taps := (st_taps s)(d \<mapsto> t')\<rparr>"
    unfolding ReadTap_read_def Let_def andthen_def by (auto elim!: bnd_SomeE split: option.splits prod.splits; blast)
  then show ?thesis using tenancy_tap VirtualTap_tenant(2) by metis
next
  case (tap_write env d i frame b)
  have "keeps tenancy (ReadTap_write env d i frame)"
    unfolding ReadTap_write_def
    by (intro tenancy.rules keeps_tenancy [OF quiet_WriteMsg] keeps_tenancy [OF quiet_OffClient] tenancy_tap_Close)
  then show ?thesis using tap_write by (rule keepsD)
next
  case (bridge_port tenant br now d ts br' b)
  show ?thesis using tenancy_taps [OF port_loop_tenants [OF bridge_port(3)], where reg = "st_tapers s" and b = "AList.update tenant br' (st_bridges s)"] by (simp add: bridge_port(1))
qed (auto intro: keepsD [OF tenancy_ReadClient] keepsD [OF tenancy_on_turn] keepsD [OF tenancy_off_turn])

text \<open>At the start no tap beyond the counter exists and no client has private data.\<close>

definition switch_init :: "('c, 'l) state \<Rightarrow> bool" where
  "switch_init s \<longleftrightarrow> taps_fresh s \<and> (\<forall>i c. sys_heap (st_sys s) i = Some c \<longrightarrow> sc_private c = None)"

definition tenants_ok :: "('c, 'l) state \<Rightarrow> bool" where
  "tenants_ok s \<longleftrightarrow> taps_fresh s \<and> (\<forall>i c k. sys_heap (st_sys s) i = Some c \<and> sc_private c = Some k \<longrightarrow> own_tap s k)"

lemma tenants_ok_step: "tenancy s s' \<Longrightarrow> tenants_ok s \<Longrightarrow> tenants_ok s'"
  unfolding tenants_ok_def using tenancy_own_tap by (metis tenancy_def)

lemma tenants_ok_reachable:
  assumes "(switch_step v)\<^sup>*\<^sup>* s s'" and "switch_init s"
  shows "tenants_ok s'"
  using assms by (induction rule: rtranclp_induct) (auto simp: switch_init_def tenants_ok_def [of s] dest: tenancy_step tenants_ok_step)

lemma onFrame_ethernet:
  assumes "onFrame_loop env (Switch_Master v) i frame hs s = Some (Inr (r, s'))" and "\<not> login_frame frame"
  shows "quiet s s' \<and> same_auth s s'"
proof -
  have "keeps quiet (run_hook env (Switch_Master v) i frame h)" "keeps same_auth (run_hook env (Switch_Master v) i frame h)" for h
    using assms(2) by (cases h; simp add: Access_OnFrame_other quiet_Check keeps_Check quiet_Request quiet_Neighbors quiet_Online
        switch.keeps_Request keeps_Neighbors keeps_Online)+
  then have "keeps quiet (onFrame_loop env (Switch_Master v) i frame hs)" "keeps same_auth (onFrame_loop env (Switch_Master v) i frame hs)"
    by (induction hs) (simp_all add: quiet.rules auth.rules)
  then show ?thesis using assms(1) by (blast dest: keepsD)
qed


section \<open>A login and a frame\<close>

text \<open>A switch with one network, one user and one client that has just connected over UDP.\<close>

definition conn_demo :: "unit conn" where
  "conn_demo = \<lparr>conn_Read = (\<lambda>c n. (c, Inl (NewErr []))), conn_Write = (\<lambda>c p. (c, Inr (int (length p)))),
     conn_SetReadDeadline = (\<lambda>c. (c, None)), conn_SetWriteDeadline = (\<lambda>c. (c, None))\<rparr>"

definition env_demo :: "(unit, nat) env" where
  "env_demo = \<lparr>en_ops = conn_demo, en_na = \<lparr>na_Local = (\<lambda>_. []), na_Remote = (\<lambda>_. [])\<rparr>, en_now = 9,
     en_ldap = \<lparr>ld_New = (\<lambda>_. Inl (NewErr [])), ld_IsClosing = (\<lambda>_. False), ld_Login = (\<lambda>_ _ _. False)\<rparr>,
     en_year = (\<lambda>_. 1970), en_p6 = (\<lambda>_. None), en_s6 = (\<lambda>_. []), en_mask = (\<lambda>_. None),
     en_User = (\<lambda>_. Some (zero_user\<lparr>us_Name := ''b@n'', us_Password := ''p'', us_UUID := ''u''\<rparr>)), en_Network = (\<lambda>n _. None),
     en_putNetwork = (\<lambda>_. None), en_putNeighbors = (\<lambda>_. None), en_putSign = (\<lambda>_ _. None), en_putLeft = (\<lambda>_ _ _ _ _. None)\<rparr>"

definition sw_demo :: Switch where
  "sw_demo = \<lparr>sw_Protocol = ''udp'', sw_Alias = [], sw_VirWrt = 4, sw_VirSnd = 4, sw_Inspect = [], sw_hooks = [], sw_uuid = []\<rparr>"

definition client_demo :: "string \<Rightarrow> (unit, nat) SocketClientImpl" where
  "client_demo a = (NewUdpClient 1 a None)\<lparr>ss_connection := Some (), sc_status := ClConnected\<rparr>"

definition state_demo :: "(unit, nat) state" where
  "state_demo = \<lparr>st_sys = \<lparr>sys_srv = NewSocketServer [], sys_heap = (\<lambda>i. if i = 0 then Some (client_demo ''a'') else if i = 1 then Some (client_demo ''z'') else None), sys_next = 2\<rparr>,
     st_user = users_demo, st_point = \<lparr>pc_Clients = NewSafeStrMap 8, pc_UUIDAddr = NewSafeStrStr 8, pc_AddrUUID = NewSafeStrStr 8,
       pc_heap = (\<lambda>_. point_demo []), pc_next = 0\<rparr>,
     st_network = cache_Network, st_neighbor = \<lparr>nc_Neighbors = NewSafeStrMap 8, nc_heap = (\<lambda>_. NewNeighbor 0 [] [] [] None), nc_next = 0\<rparr>,
     st_online = \<lparr>oc_Lines = NewSafeStrMap 8, oc_heap = (\<lambda>_. NewLine 0 0), oc_next = 0\<rparr>, st_lines = NewOnline 8,
     st_access = \<lparr>ac_success = 0, ac_failed = 0\<rparr>, st_tapers = \<lparr>tps_index = 0, tps_devices = []\<rparr>, st_taps = (\<lambda>_. None),
     st_tapnext = 0, st_bridges = [(''n'', NewVirtualBridge ''br'' 1500)], st_readers = []\<rparr>"

definition frame_demo :: "byte list \<Rightarrow> FrameMessage" where
  "frame_demo p = \<lparr>fm_control = False, fm_action = [], fm_params = [], fm_buffer = [0, 0, 0, 0] @ p, fm_flo = 4, fm_fhi = 4 + length p,
     fm_size = int (length p), fm_total = int (length p), fm_proto = None\<rparr>"

definition login_demo :: FrameMessage where
  "login_demo = frame_demo (replicate 6 0 @ bytes_of LoginReq)"

definition eth_demo :: FrameMessage where
  "eth_demo = frame_demo [1, 2, 3, 4, 5, 6, 2, 2, 2, 2, 2, 2, 8, 0, 1, 2]"

definition demo_ok :: bool where
  "demo_ok = (case Switch_ReadClient env_demo (Switch_preApps sw_demo) 0 login_demo state_demo of
     Some (Inr (None, t)) \<Rightarrow> st_auth t 0 = Some (ClAuth, Some 0) \<and>
       (case Switch_ReadClient env_demo (Switch_preApps sw_demo) 0 eth_demo t of
          Some (Inr (None, t')) \<Rightarrow> map_option vt_virtC (st_taps t' 0) \<noteq> map_option vt_virtC (st_taps t 0) | _ \<Rightarrow> False)
   | _ \<Rightarrow> False)"

lemma demo_ok: demo_ok
  by code_simp

lemma returned_cases:
  assumes "case x of Some (Inr (None, t)) \<Rightarrow> P t | _ \<Rightarrow> False"
  obtains t where "x = Some (Inr (None, t))" and "P t"
  using assms by (auto split: option.splits sum.splits prod.splits)

lemma demo_run:
  obtains t t' where "Switch_ReadClient env_demo (Switch_preApps sw_demo) 0 login_demo state_demo = Some (Inr (None, t))"
    and "st_auth t 0 = Some (ClAuth, Some 0)"
    and "Switch_ReadClient env_demo (Switch_preApps sw_demo) 0 eth_demo t = Some (Inr (None, t'))" and "st_taps t' 0 \<noteq> st_taps t 0"
proof -
  obtain t where t: "Switch_ReadClient env_demo (Switch_preApps sw_demo) 0 login_demo state_demo = Some (Inr (None, t))"
    "st_auth t 0 = Some (ClAuth, Some 0) \<and>
       (case Switch_ReadClient env_demo (Switch_preApps sw_demo) 0 eth_demo t of
          Some (Inr (None, t')) \<Rightarrow> map_option vt_virtC (st_taps t' 0) \<noteq> map_option vt_virtC (st_taps t 0) | _ \<Rightarrow> False)"
    by (rule returned_cases [OF demo_ok [unfolded demo_ok_def]])
  obtain t' where t': "Switch_ReadClient env_demo (Switch_preApps sw_demo) 0 eth_demo t = Some (Inr (None, t'))"
    "map_option vt_virtC (st_taps t' 0) \<noteq> map_option vt_virtC (st_taps t 0)"
    by (rule returned_cases [OF conjunct2 [OF t(2)]])
  then have "st_taps t' 0 \<noteq> st_taps t 0" by (rule_tac notI) (erule notE, erule arg_cong)
  with that t t' show thesis by (elim conjE)
qed

lemma demo_facts:
  "sw_hooks sw_demo = []" "sys_heap (st_sys state_demo) 0 = Some (client_demo ''a'')" "sc_status (client_demo a) \<noteq> ClAuth"
  "switch_init state_demo"
  by (auto simp: sw_demo_def state_demo_def client_demo_def switch_init_def taps_fresh_def NewUdpClient_def NewSocketClient_def Let_def
      split: if_splits)

lemma eth_demo_frame: "\<not> login_frame (fst (FrameMessage_Decode eth_demo))" "fm_action (fst (FrameMessage_Decode eth_demo)) \<noteq> PingReq"
  by code_simp+

theorem unauth_frames_ignored_witness:
  "Switch_ReadClient env_demo (Switch_preApps sw_demo) 0 eth_demo state_demo = Some (Inr (None, state_demo))"
  using unauth_frames_ignored [OF demo_facts(1,2,3) eth_demo_frame(1), of env_demo] eth_demo_frame(2) by simp



end
