(* ===== verification/Cidr.thy ===== *)
theory Cidr
  imports Cache
begin

text \<open>Prefixes and masks: the parts of Go's package \<open>net\<close> that deal with them, and the functions of
  \<open>src/pkg/libol/utils.go\<close> built on these. The parser and the printer of IPv6 addresses are the parameters \<open>p6\<close> and \<open>s6\<close>.\<close>

section \<open>Masks (package net)\<close>

fun CIDRMask_loop :: "nat \<Rightarrow> nat \<Rightarrow> byte list" where
  "CIDRMask_loop 0 n = []"
| "CIDRMask_loop (Suc l) n =
     (if n \<ge> 8 then 0xff # CIDRMask_loop l (n - 8) else NOT (drop_bit n 0xff) # CIDRMask_loop l 0)"

definition CIDRMask :: "nat \<Rightarrow> nat \<Rightarrow> byte list" where
  "CIDRMask ones bits = CIDRMask_loop (bits div 8) ones"

text \<open>\<open>lead_ones\<close> counts the leading one bits and shifts them out.\<close>

fun lead_ones :: "nat \<Rightarrow> nat \<Rightarrow> byte \<Rightarrow> nat \<times> byte" where
  "lead_ones 0 n v = (n, v)"
| "lead_ones (Suc k) n v = (if v AND 0x80 \<noteq> 0 then lead_ones k (n + 1) (push_bit 1 v) else (n, v))"

text \<open>\<open>None\<close> is the result \<open>-1\<close>.\<close>

fun simpleMaskLength :: "byte list \<Rightarrow> nat option" where
  "simpleMaskLength [] = Some 0"
| "simpleMaskLength (v # msk) =
     (if v = 0xff then map_option (\<lambda>n. n + 8) (simpleMaskLength msk)
      else case lead_ones 8 0 v of (n, v) \<Rightarrow>
        if v \<noteq> 0 then None else if \<exists>b \<in> set msk. b \<noteq> 0 then None else Some n)"

definition IPMask_Size :: "byte list \<Rightarrow> nat \<times> nat" where
  "IPMask_Size m = (case simpleMaskLength m of None \<Rightarrow> (0, 0) | Some n \<Rightarrow> (n, 8 * length m))"

definition IP_Mask :: "byte list \<Rightarrow> byte list \<Rightarrow> byte list option" where
  "IP_Mask ip msk =
     (let msk = (if length msk = 16 \<and> length ip = 4 \<and> take 12 msk = replicate 12 0xff then drop 12 msk else msk);
          ip = (if length msk = 4 \<and> length ip = 16 \<and> take 12 ip = v4InV6Prefix then drop 12 ip else ip)
      in if length ip \<noteq> length msk then None else Some (map2 (AND) ip msk))"

record IPNet =
  in_IP :: "byte list"
  in_Mask :: "byte list"

text \<open>\<open>None\<close> stands for \<open>nil, nil\<close>.\<close>

definition networkNumberAndMask :: "IPNet \<Rightarrow> (byte list \<times> byte list) option" where
  "networkNumberAndMask n =
     (case (case To4 (in_IP n) of Some ip \<Rightarrow> Some ip | None \<Rightarrow> if length (in_IP n) = 16 then Some (in_IP n) else None) of
        None \<Rightarrow> None
      | Some ip \<Rightarrow>
          (if length (in_Mask n) = 4 then (if length ip \<noteq> 4 then None else Some (ip, in_Mask n))
           else if length (in_Mask n) = 16 then Some (ip, if length ip = 4 then drop 12 (in_Mask n) else in_Mask n)
           else None))"

definition IPNet_Contains :: "IPNet \<Rightarrow> byte list \<Rightarrow> bool" where
  "IPNet_Contains n ip =
     (let ip = (case To4 ip of Some x \<Rightarrow> x | None \<Rightarrow> ip)
      in case networkNumberAndMask n of
           None \<Rightarrow> ip = []
         | Some (nn, m) \<Rightarrow> length ip = length nn \<and> list_all2 (=) (map2 (AND) nn m) (map2 (AND) ip m))"

definition IPNet_String :: "(byte list \<Rightarrow> string) \<Rightarrow> IPNet \<Rightarrow> string" where
  "IPNet_String s6 n =
     (case networkNumberAndMask n of
        None \<Rightarrow> ''<nil>''
      | Some (nn, m) \<Rightarrow> (case simpleMaskLength m of
          None \<Rightarrow> IP_String s6 nn @ ''/'' @ concat (map hex_byte m)
        | Some l \<Rightarrow> IP_String s6 nn @ ''/'' @ digits l))"

text \<open>The two results are the address and the network.\<close>

definition ParseCIDR :: "(string \<Rightarrow> byte list option) \<Rightarrow> string \<Rightarrow> (byte list \<times> IPNet) option" where
  "ParseCIDR p6 s =
     (case split_at (CHR ''/'') s of
        (addr, None) \<Rightarrow> None
      | (addr, Some msk) \<Rightarrow>
          (let (iplen, ip) = (case parseIPv4 addr of Some ip \<Rightarrow> (4, Some ip) | None \<Rightarrow> (16, p6 addr));
               (n, i, ok) = dtoi msk
           in case ip of
                None \<Rightarrow> None
              | Some ip \<Rightarrow>
                  (if \<not> ok \<or> i \<noteq> length msk \<or> n > 8 * iplen then None
                   else let m = CIDRMask n (8 * iplen)
                        in Some (ip, \<lparr>in_IP = (case IP_Mask ip m of Some x \<Rightarrow> x | None \<Rightarrow> []), in_Mask = m\<rparr>))))"

section \<open>utils.go\<close>

text \<open>A text that is no IPv4 address gives the nil mask, of size zero.\<close>

definition Netmask2Len :: "(string \<Rightarrow> byte list option) \<Rightarrow> string \<Rightarrow> nat" where
  "Netmask2Len p6 s =
     fst (IPMask_Size (case ParseIP p6 s of None \<Rightarrow> [] | Some ip \<Rightarrow> (case To4 ip of None \<Rightarrow> [] | Some m \<Rightarrow> m)))"

definition IPNetmask :: "(string \<Rightarrow> byte list option) \<Rightarrow> (byte list \<Rightarrow> string) \<Rightarrow> string \<Rightarrow> string option" where
  "IPNetmask p6 s6 ipAddr =
     (case ParseCIDR p6 ipAddr of None \<Rightarrow> None | Some (i, n) \<Rightarrow> Some (IP_String s6 i @ ''/'' @ IP_String s6 (in_Mask n)))"

definition IPNetwork :: "(string \<Rightarrow> byte list option) \<Rightarrow> (byte list \<Rightarrow> string) \<Rightarrow> string \<Rightarrow> string \<times> bool" where
  "IPNetwork p6 s6 ipAddr =
     (case ParseCIDR p6 ipAddr of None \<Rightarrow> (ipAddr, False)
      | Some (_, n) \<Rightarrow> (IP_String s6 (in_IP n) @ ''/'' @ IP_String s6 (in_Mask n), True))"

section \<open>What the masks mean\<close>

text \<open>The bits of an address, the leading ones first.\<close>

definition byte_bits :: "byte \<Rightarrow> bool list" where
  "byte_bits b = map (bit b) (rev [0..<8])"

definition addr_bits :: "byte list \<Rightarrow> bool list" where
  "addr_bits ip = concat (map byte_bits ip)"

lemma length_addr_bits [simp]: "length (addr_bits ip) = 8 * length ip"
  by (induction ip) (simp_all add: addr_bits_def byte_bits_def)

lemma length_CIDRMask_loop [simp]: "length (CIDRMask_loop l n) = l"
  by (induction l n rule: CIDRMask_loop.induct) simp_all

lemma length_byte_bits: "length (byte_bits b) = 8"
  by (simp add: byte_bits_def)

lemma nth_byte_bits: "i < 8 \<Longrightarrow> byte_bits b ! i = bit b (7 - i)"
  by (simp add: byte_bits_def rev_nth)

lemma byte_bits_inj: "byte_bits b = byte_bits c \<longleftrightarrow> b = c"
proof
  assume *: "byte_bits b = byte_bits c"
  have "bit b k = bit c k" if "k < 8" for k
    using that nth_byte_bits [of "7 - k" b] nth_byte_bits [of "7 - k" c] * by simp
  then show "b = c" by (auto simp: bit_eq_iff dest: bit_imp_le_length)
qed simp

lemma bit_0xff: "bit (0xff :: byte) k \<longleftrightarrow> k < 8"
proof -
  have "(0xff :: byte) = Bit_Operations.mask 8" by (simp add: mask_eq_exp_minus_1)
  then show ?thesis by (simp only: bit_mask_iff) simp
qed

lemma CIDR_byte:
  assumes "n < 8"
  shows "b AND NOT (drop_bit n 0xff) = c AND NOT (drop_bit n (0xff :: byte)) \<longleftrightarrow> take n (byte_bits b) = take n (byte_bits c)"
proof -
  have "bit (b AND NOT (drop_bit n (0xff :: byte))) k \<longleftrightarrow> bit b k \<and> k < 8 \<and> 8 - n \<le> k" for b :: byte and k
    unfolding bit_and_iff bit_not_iff bit_drop_bit_eq comp_def bit_0xff by (auto dest: bit_imp_le_length)
  then have "b AND NOT (drop_bit n 0xff) = c AND NOT (drop_bit n (0xff :: byte)) \<longleftrightarrow> (\<forall>k. 8 - n \<le> k \<and> k < 8 \<longrightarrow> bit b k = bit c k)"
    unfolding bit_eq_iff by auto
  also have "\<dots> \<longleftrightarrow> (\<forall>i < n. bit b (7 - i) = bit c (7 - i))"
  proof (rule iffI; intro allI impI)
    fix k assume *: "\<forall>i < n. bit b (7 - i) = bit c (7 - i)" "8 - n \<le> k \<and> k < 8"
    then have "7 - k < n" "7 - (7 - k) = k" by auto
    with *(1) show "bit b k = bit c k" by metis
  next
    fix i assume "\<forall>k. 8 - n \<le> k \<and> k < 8 \<longrightarrow> bit b k = bit c k" "i < n"
    moreover from this assms have "8 - n \<le> 7 - i \<and> 7 - i < 8" by auto
    ultimately show "bit b (7 - i) = bit c (7 - i)" by blast
  qed
  also have "\<dots> \<longleftrightarrow> take n (byte_bits b) = take n (byte_bits c)"
    using assms by (auto simp: list_eq_iff_nth_eq nth_byte_bits length_byte_bits)
  finally show ?thesis .
qed

lemma CIDRMask_prefix:
  "length ip = l \<Longrightarrow> length jp = l \<Longrightarrow> n \<le> 8 * l \<Longrightarrow>
     map2 (AND) ip (CIDRMask_loop l n) = map2 (AND) jp (CIDRMask_loop l n) \<longleftrightarrow> take n (addr_bits ip) = take n (addr_bits jp)"
proof (induction l n arbitrary: ip jp rule: CIDRMask_loop.induct)
  case (2 l n)
  then obtain b ip' c jp' where s: "ip = b # ip'" "jp = c # jp'" by (metis length_Suc_conv)
  have bits: "take n (addr_bits (x # xs)) = take n (byte_bits x) @ take (n - 8) (addr_bits xs)" for x xs
    by (simp add: addr_bits_def length_byte_bits)
  show ?case
  proof (cases "n \<ge> 8")
    case True
    have "x AND 0xff = x" for x :: byte unfolding bit_eq_iff bit_and_iff bit_0xff by (auto dest: bit_imp_le_length)
    moreover have "map2 (AND) ip' (CIDRMask_loop l (n - 8)) = map2 (AND) jp' (CIDRMask_loop l (n - 8)) \<longleftrightarrow>
        take (n - 8) (addr_bits ip') = take (n - 8) (addr_bits jp')" using True 2 s by simp
    ultimately show ?thesis using True unfolding s bits by (simp add: length_byte_bits byte_bits_inj)
  next
    case False
    then have "map2 (AND) ip' (CIDRMask_loop l 0) = map2 (AND) jp' (CIDRMask_loop l 0)"
      using 2(2) [of ip' jp'] 2(3,4) s by simp
    with False have "map2 (AND) (b # ip') (CIDRMask_loop (Suc l) n) = map2 (AND) (c # jp') (CIDRMask_loop (Suc l) n) \<longleftrightarrow>
        b AND NOT (drop_bit n 0xff) = c AND NOT (drop_bit n (0xff :: byte))"
      by (simp only: CIDRMask_loop.simps if_False zip_Cons_Cons list.map case_prod_conv list.inject simp_thms)
    also have "\<dots> \<longleftrightarrow> take n (byte_bits b) = take n (byte_bits c)" using False by (intro CIDR_byte) simp
    finally show ?thesis using False unfolding s bits by simp
  qed
qed (simp add: addr_bits_def)

lemma simpleMaskLength_CIDRMask: "n \<le> 32 \<Longrightarrow> simpleMaskLength (CIDRMask n 32) = Some n"
proof -
  have "list_all (\<lambda>n. simpleMaskLength (CIDRMask n 32) = Some n) [0..<33]" by code_simp
  then show "n \<le> 32 \<Longrightarrow> ?thesis" by (auto simp: list_all_iff)
qed

lemma map2_AND_idem: "map2 (AND) (map2 (AND) xs ys) ys = map2 (AND) xs (ys :: byte list)"
  by (induction xs arbitrary: ys) (auto split: list.splits simp: zip_Cons1 and.assoc)

lemma length_CIDRMask [simp]: "length (CIDRMask n bits) = bits div 8"
  by (simp add: CIDRMask_def)

lemma parseIPv4_form:
  assumes "parseIPv4 s = Some ip"
  obtains a where "ip = v4InV6Prefix @ a" and "length a = 4"
proof -
  have "parseIPv4_loop k i s p = Some q \<Longrightarrow> length q = length p + k" for k i s p q
    by (induction k arbitrary: i s p) (auto simp: Let_def split: if_splits prod.splits)
  with assms that show thesis by (fastforce simp: parseIPv4_def split: option.splits)
qed

text \<open>A network that \<open>ParseCIDR\<close> returns for an IPv4 prefix contains exactly the addresses that agree with it in the leading
  bits, and is printed with the length of the prefix.\<close>

lemma ParseCIDR_IP4:
  assumes "ParseCIDR p6 s = Some (ip, n)" and "parseIPv4 (fst (split_at (CHR ''/'') s)) \<noteq> None"
  obtains a k where "ip = v4InV6Prefix @ a" and "length a = 4" and "k \<le> 32"
    and "n = \<lparr>in_IP = map2 (AND) a (CIDRMask k 32), in_Mask = CIDRMask k 32\<rparr>"
proof -
  from assms obtain k i ok msk where "parseIPv4 (fst (split_at (CHR ''/'') s)) = Some ip" "dtoi msk = (k, i, ok)" "k \<le> 32"
    "n = \<lparr>in_IP = (case IP_Mask ip (CIDRMask k 32) of Some x \<Rightarrow> x | None \<Rightarrow> []), in_Mask = CIDRMask k 32\<rparr>"
    by (auto simp: ParseCIDR_def Let_def split: prod.splits option.splits if_splits)
  moreover from this obtain a where a: "ip = v4InV6Prefix @ a" "length a = 4" by (auto elim: parseIPv4_form)
  moreover from a have "IP_Mask ip (CIDRMask k 32) = Some (map2 (AND) a (CIDRMask k 32))"
    by (simp add: IP_Mask_def v4InV6Prefix_def)
  ultimately show thesis using that by simp
qed

lemma IPNet_Contains_prefix:
  assumes "length a = 4" and "length d = 4" and "k \<le> 32"
  shows "IPNet_Contains \<lparr>in_IP = map2 (AND) a (CIDRMask k 32), in_Mask = CIDRMask k 32\<rparr> d \<longleftrightarrow>
    take k (addr_bits a) = take k (addr_bits d)"
proof -
  have "IPNet_Contains \<lparr>in_IP = map2 (AND) a (CIDRMask k 32), in_Mask = CIDRMask k 32\<rparr> d \<longleftrightarrow>
      map2 (AND) a (CIDRMask k 32) = map2 (AND) d (CIDRMask k 32)"
    using assms by (simp add: IPNet_Contains_def networkNumberAndMask_def To4_def list_all2_eq map2_AND_idem)
  also have "\<dots> \<longleftrightarrow> take k (addr_bits a) = take k (addr_bits d)"
    unfolding CIDRMask_def using assms by (intro CIDRMask_prefix) simp_all
  finally show ?thesis .
qed

end
