(* ===== verification/Config.thy ===== *)
theory Config
  imports Cidr Firewall
begin

text \<open>The configuration (\<open>src/pkg/config/*.go\<close>): its structures and the functions that fill in defaults. Reading and writing the
  JSON files and the command line are not modelled. What the functions take from the host is a record of parameters: the name of
  the host, the resolver, the address towards a gateway, random numbers, and the IPv6 part of package \<open>net\<close>. Pointers of a loaded
  configuration are not shared, so that a structure is a value; a nil pointer is \<open>None\<close>. The operating system is Linux.\<close>

record host =
  ho_Alias :: string
  ho_LookupIP :: "string \<Rightarrow> byte list list"
  ho_LocalByGw :: "string \<Rightarrow> byte list"
  ho_GenInt32 :: "nat \<Rightarrow> int"
  ho_p6 :: "string \<Rightarrow> byte list option"
  ho_s6 :: "byte list \<Rightarrow> string"

section \<open>Paths and numbers\<close>

fun Join :: "string \<Rightarrow> string list \<Rightarrow> string" where
  "Join sep [] = []"
| "Join sep [s] = s"
| "Join sep (s # ss) = s @ sep @ Join sep ss"

definition VarDir :: "string list \<Rightarrow> string" where
  "VarDir name = ''/var/openlan/'' @ Join ''/'' name"

text \<open>\<open>strings.Split\<close> at every separator.\<close>

fun Split :: "string \<Rightarrow> char \<Rightarrow> string list" where
  "Split [] sep = [[]]"
| "Split (c # s) sep = (if c = sep then [] # Split s sep else (c # hd (Split s sep)) # tl (Split s sep))"

text \<open>\<open>filepath.Clean\<close> on Unix: the elements of the path with \<open>.\<close> and \<open>..\<close> resolved, and \<open>filepath.Join\<close>.\<close>

fun clean_elems :: "bool \<Rightarrow> string list \<Rightarrow> string list \<Rightarrow> string list" where
  "clean_elems rooted acc [] = rev acc"
| "clean_elems rooted acc (e # es) =
     (if e = [] \<or> e = ''.'' then clean_elems rooted acc es
      else if e = ''..''
           then (if acc \<noteq> [] \<and> hd acc \<noteq> ''..'' then clean_elems rooted (tl acc) es
                 else if rooted then clean_elems rooted acc es
                 else clean_elems rooted (e # acc) es)
      else clean_elems rooted (e # acc) es)"

definition Clean :: "string \<Rightarrow> string" where
  "Clean path =
     (let rooted = (path \<noteq> [] \<and> hd path = CHR ''/'');
          out = (if rooted then ''/'' else []) @ Join ''/'' (clean_elems rooted [] (Split path (CHR ''/'')))
      in if out = [] then ''.'' else out)"

definition path_Join :: "string list \<Rightarrow> string" where
  "path_Join elem = (let elem = dropWhile (\<lambda>e. e = []) elem in if elem = [] then [] else Clean (Join ''/'' elem))"

text \<open>The value of \<open>strconv.Atoi\<close>, without the error: zero for a text that is not a number, the nearest int64 for one that is
  out of range.\<close>

fun atoi_loop :: "int \<Rightarrow> string \<Rightarrow> int option" where
  "atoi_loop n [] = Some n"
| "atoi_loop n (c # s) = (case digit_val c of None \<Rightarrow> None | Some d \<Rightarrow> atoi_loop (n * 10 + int d) s)"

definition Atoi :: "string \<Rightarrow> int" where
  "Atoi s =
     (let neg = (s \<noteq> [] \<and> hd s = CHR ''-'');
          ds = (if s \<noteq> [] \<and> (hd s = CHR ''-'' \<or> hd s = CHR ''+'') then tl s else s)
      in if ds = [] then 0
         else case atoi_loop 0 ds of
           None \<Rightarrow> 0
         | Some n \<Rightarrow> if neg then max (- (2 ^ 63)) (- n) else min (2 ^ 63 - 1) n)"

definition CorrectAddr :: "string \<Rightarrow> int \<Rightarrow> string" where
  "CorrectAddr listen port =
     (let values = Split listen (CHR '':'')
      in if length values = 1 then values ! 0 @ '':'' @ show_int port else listen)"

text \<open>An assignment of a default to an empty text or slice.\<close>

definition dflt :: "'a list \<Rightarrow> 'a list \<Rightarrow> 'a list" where
  "dflt x y = (if x = [] then y else x)"

section \<open>common.go\<close>

record Queue =
  qu_SockWr :: int
  qu_SockRd :: int
  qu_TapWr :: int
  qu_TapRd :: int
  qu_VirSnd :: int
  qu_VirWrt :: int

definition Queue_Default :: "Queue \<Rightarrow> Queue" where
  "Queue_Default q =
     \<lparr>qu_SockWr = (if qu_SockWr q = 0 then 1024 * 4 else qu_SockWr q),
      qu_SockRd = (if qu_SockRd q = 0 then 1024 * 4 else qu_SockRd q),
      qu_TapWr = (if qu_TapWr q = 0 then 1024 * 2 else qu_TapWr q),
      qu_TapRd = (if qu_TapRd q = 0 then 2 else qu_TapRd q),
      qu_VirSnd = (if qu_VirSnd q = 0 then 1024 * 8 else qu_VirSnd q),
      qu_VirWrt = (if qu_VirWrt q = 0 then 1024 * 4 else qu_VirWrt q)\<rparr>"

definition zero_queue :: Queue where
  "zero_queue = \<lparr>qu_SockWr = 0, qu_SockRd = 0, qu_TapWr = 0, qu_TapRd = 0, qu_VirSnd = 0, qu_VirWrt = 0\<rparr>"

record Log =
  lg_File :: string
  lg_Verbose :: int

record Http =
  ht_Listen :: string
  ht_Public :: string

record Crypt =
  cr_Algo :: string
  cr_Secret :: string

definition Crypt_IsZero :: "Crypt \<Rightarrow> bool" where
  "Crypt_IsZero c \<longleftrightarrow> cr_Algo c = [] \<and> cr_Secret c = []"

definition Crypt_Default :: "Crypt \<Rightarrow> Crypt" where
  "Crypt_Default c = (if cr_Secret c \<noteq> [] \<and> cr_Algo c = [] then c\<lparr>cr_Algo := ''xor''\<rparr> else c)"

record Cert =
  ce_Dir :: string
  ce_CrtFile :: string
  ce_KeyFile :: string
  ce_CaFile :: string
  ce_Insecure :: bool

definition Cert_Correct :: "Cert \<Rightarrow> Cert" where
  "Cert_Correct c =
     (if ce_Dir c = [] then c
      else let c = (if ce_CrtFile c = [] then c\<lparr>ce_CrtFile := ce_Dir c @ ''/crt''\<rparr> else c);
               c = (if ce_KeyFile c = [] then c\<lparr>ce_KeyFile := ce_Dir c @ ''/key''\<rparr> else c)
           in if ce_CaFile c = [] then c\<lparr>ce_CaFile := ce_Dir c @ ''/ca-trusted.crt''\<rparr> else c)"

record co_Bridge =
  br_Network :: string
  br_Peer :: string
  br_Name :: string
  br_IPMtu :: int
  br_Address :: string
  br_Provider :: string
  br_Stp :: string
  br_Delay :: int
  br_Mss :: int

definition zero_bridge :: co_Bridge where
  "zero_bridge = \<lparr>br_Network = [], br_Peer = [], br_Name = [], br_IPMtu = 0, br_Address = [], br_Provider = [], br_Stp = [],
     br_Delay = 0, br_Mss = 0\<rparr>"

definition Bridge_Correct :: "co_Bridge \<Rightarrow> co_Bridge" where
  "Bridge_Correct br =
     (let br = (if br_Name br = [] then br\<lparr>br_Name := ''br-'' @ br_Network br\<rparr> else br);
          br = (if br_Provider br = [] then br\<lparr>br_Provider := ''linux''\<rparr> else br);
          br = (if br_IPMtu br = 0 then br\<lparr>br_IPMtu := 1500\<rparr> else br);
          br = (if br_Delay br = 0 then br\<lparr>br_Delay := 2\<rparr> else br)
      in if br_Stp br = [] then br\<lparr>br_Stp := ''on''\<rparr> else br)"

record IpSubnet =
  is_Network :: string
  is_Start :: string
  is_End :: string
  is_Netmask :: string

record MultiPath =
  mp_NextHop :: string
  mp_Weight :: int

record PrefixRoute =
  pr_File :: string
  pr_Network :: string
  pr_Prefix :: string
  pr_NextHop :: string
  pr_MultiPath :: "MultiPath list option"
  pr_Metric :: int
  pr_Mode :: string

record HostLease =
  hl_Network :: string
  hl_Hostname :: string
  hl_Address :: string

record Password =
  pw_Network :: string
  pw_Username :: string
  pw_Password :: string

record Interface =
  if_Name :: string
  if_IPMtu :: int
  if_Address :: string
  if_Bridge :: string
  if_Provider :: string
  if_Cost :: int

text \<open>The block ciphers of the KCP library are parameters; a constructor that fails gives nil.\<close>

record 'b kcp =
  kc_AES :: "byte list \<Rightarrow> 'b option"
  kc_TEA :: "byte list \<Rightarrow> 'b option"
  kc_XTEA :: "byte list \<Rightarrow> 'b option"
  kc_SimpleXOR :: "byte list \<Rightarrow> 'b option"

definition GetBlock :: "'b kcp \<Rightarrow> Crypt option \<Rightarrow> 'b option" where
  "GetBlock kc cfg =
     (case cfg of
        None \<Rightarrow> None
      | Some cfg \<Rightarrow>
          (if Crypt_IsZero cfg then None
           else let secret = bytes_of (cr_Secret cfg);
                    pass = (if length secret \<le> 64 then secret @ replicate (64 - length secret) 0 else take 64 secret);
                    algo = cr_Algo cfg
                in if algo = ''aes-128'' then kc_AES kc (take 16 pass)
                   else if algo = ''aes-192'' then kc_AES kc (take 24 pass)
                   else if algo = ''aes-256'' then kc_AES kc (take 32 pass)
                   else if algo = ''tea'' then kc_TEA kc (take 16 pass)
                   else if algo = ''xtea'' then kc_XTEA kc (take 16 pass)
                   else kc_SimpleXOR kc pass))"

section \<open>openvpn.go\<close>

record OpenVPNClient =
  ovc_Name :: string
  ovc_Address :: string
  ovc_Netmask :: string

text \<open>A server and the further ones it breeds, which inherit from it.\<close>

record OpenVPN_data =
  ov_Network :: string
  ov_Directory :: string
  ov_Listen :: string
  ov_Protocol :: string
  ov_Subnet :: string
  ov_Device :: string
  ov_Version :: int
  ov_Auth :: string
  ov_DhPem :: string
  ov_RootCa :: string
  ov_ServerCrt :: string
  ov_ServerKey :: string
  ov_TlsAuth :: string
  ov_Cipher :: string
  ov_Routes :: "string list"
  ov_Renego :: int
  ov_Script :: string
  ov_Push :: "string list"
  ov_Clients :: "OpenVPNClient list"

datatype OpenVPN = OpenVPN (ov_data: OpenVPN_data) (ov_Breed: "OpenVPN list")

definition DefaultOpenVPN :: OpenVPN_data where
  "DefaultOpenVPN = \<lparr>ov_Network = [], ov_Directory = [], ov_Listen = [], ov_Protocol = ''tcp'', ov_Subnet = [], ov_Device = ''tun0'',
     ov_Version = 0, ov_Auth = ''xauth'', ov_DhPem = VarDir [''openvpn/dh.pem''], ov_RootCa = VarDir [''cert/ca.crt''],
     ov_ServerCrt = VarDir [''cert/crt''], ov_ServerKey = VarDir [''cert/key''], ov_TlsAuth = VarDir [''openvpn/ta.key''],
     ov_Cipher = ''AES-256-CBC'', ov_Routes = [], ov_Renego = 0, ov_Script = ''/usr/bin/openlan'', ov_Push = [], ov_Clients = []\<rparr>"

definition genTunName :: "int \<Rightarrow> int \<times> string" where
  "genTunName index = (index + 1, ''tun'' @ show_int (index + 1))"

text \<open>The fields a server takes from \<open>obj\<close>.\<close>

definition OpenVPN_inherit :: "OpenVPN_data \<Rightarrow> OpenVPN_data \<Rightarrow> OpenVPN_data" where
  "OpenVPN_inherit obj o' =
     (let network = dflt (ov_Network o') (ov_Network obj)
      in o'\<lparr>ov_Network := network,
         ov_Auth := dflt (ov_Auth o') (ov_Auth obj),
         ov_Protocol := dflt (ov_Protocol o') (ov_Protocol obj),
         ov_DhPem := dflt (ov_DhPem o') (ov_DhPem obj),
         ov_RootCa := dflt (ov_RootCa o') (ov_RootCa obj),
         ov_ServerCrt := dflt (ov_ServerCrt o') (ov_ServerCrt obj),
         ov_ServerKey := dflt (ov_ServerKey o') (ov_ServerKey obj),
         ov_TlsAuth := dflt (ov_TlsAuth o') (ov_TlsAuth obj),
         ov_Cipher := dflt (ov_Cipher o') (ov_Cipher obj),
         ov_Routes := dflt (ov_Routes o') (ov_Routes obj),
         ov_Push := dflt (ov_Push o') (ov_Push obj),
         ov_Script := dflt (ov_Script o') (ov_Script obj @ '' user check --network '' @ network),
         ov_Clients := dflt (ov_Clients o') (ov_Clients obj)\<rparr>)"

text \<open>The rest, for one server: directory, device with the counter of its name, and subnet.\<close>

definition OpenVPN_complete :: "string \<Rightarrow> OpenVPN_data \<Rightarrow> int \<Rightarrow> OpenVPN_data \<times> int" where
  "OpenVPN_complete pool o' index =
     (let o' = (if ov_Directory o' = [] then o'\<lparr>ov_Directory := VarDir [''openvpn'', ov_Network o']\<rparr> else o');
          (o', index) =
            (if ov_Device o' = []
             then let o' = (if \<not> Contains (ov_Listen o') '':'' then o'\<lparr>ov_Listen := ov_Listen o' @ '':1194''\<rparr> else o');
                      (index, name) = genTunName index
                  in (o'\<lparr>ov_Device := name\<rparr>, index)
             else (o', index));
          o' = (if ov_Subnet o' = []
                then o'\<lparr>ov_Subnet := pool @ ''.'' @ show_int (Atoi (snd (GetHostPort (ov_Listen o'))) mod 256) @ ''.0/24''\<rparr> else o')
      in (o', index))"

fun OpenVPN_Correct :: "string \<Rightarrow> OpenVPN_data option \<Rightarrow> OpenVPN \<Rightarrow> int \<Rightarrow> OpenVPN \<times> int"
  and OpenVPN_Corrects :: "string \<Rightarrow> OpenVPN_data \<Rightarrow> OpenVPN list \<Rightarrow> int \<Rightarrow> OpenVPN list \<times> int" where
  "OpenVPN_Correct pool obj (OpenVPN d breed) index =
     (let d = (case obj of None \<Rightarrow> d | Some obj \<Rightarrow> OpenVPN_inherit obj d);
          (d, index) = OpenVPN_complete pool d index;
          (breed, index) = OpenVPN_Corrects pool d breed index
      in (OpenVPN d breed, index))"
| "OpenVPN_Corrects pool d [] index = ([], index)"
| "OpenVPN_Corrects pool d (ch # chs) index =
     (let (ch, index) = OpenVPN_Correct pool (Some d) ch index; (chs, index) = OpenVPN_Corrects pool d chs index
      in (ch # chs, index))"

section \<open>esp.go, vxlan.go, fabric.go\<close>

record EspState =
  es_Local :: string
  es_LocalIp :: "byte list"
  es_Remote :: string
  es_RemotePort :: int
  es_RemoteIp :: "byte list"
  es_Encap :: string
  es_Auth :: string
  es_Crypt :: string

text \<open>The division by the length and the slice of the repeated text can panic.\<close>

definition EspState_Padding :: "string \<Rightarrow> int \<Rightarrow> string result" where
  "EspState_Padding value n =
     (if value = [] then Inl (Panic ''integer divide by zero'')
      else reslice 0 n (concat (replicate (64 div length value) value)))"

text \<open>All of \<open>Correct\<close> before the secrets are padded.\<close>

definition EspState_inherit :: "EspState option \<Rightarrow> EspState \<Rightarrow> EspState" where
  "EspState_inherit obj s =
     (case obj of
        None \<Rightarrow> s
      | Some obj \<Rightarrow> s\<lparr>es_Local := dflt (es_Local s) (es_Local obj), es_Auth := dflt (es_Auth s) (es_Auth obj),
          es_Crypt := dflt (es_Crypt s) (es_Crypt obj),
          es_RemotePort := (if es_RemotePort s = 0 then es_RemotePort obj else es_RemotePort s)\<rparr>)"

definition first_ip :: "byte list list \<Rightarrow> byte list \<Rightarrow> byte list" where
  "first_ip addr ip = (if length addr > 0 then addr ! 0 else ip)"

definition local_addr :: "host \<Rightarrow> string \<Rightarrow> string \<Rightarrow> string" where
  "local_addr ho l remote = (if l = [] \<and> remote \<noteq> [] then IP_String (ho_s6 ho) (ho_LocalByGw ho remote) else l)"

definition EspState_fill :: "host \<Rightarrow> EspState \<Rightarrow> EspState" where
  "EspState_fill ho s =
     (let s = s\<lparr>es_Local := local_addr ho (es_Local s) (es_Remote s)\<rparr>;
          s = s\<lparr>es_LocalIp := first_ip (ho_LookupIP ho (es_Local s)) (es_LocalIp s)\<rparr>;
          s = s\<lparr>es_RemoteIp := first_ip (ho_LookupIP ho (es_Remote s)) (es_RemoteIp s)\<rparr>;
          s = s\<lparr>es_Crypt := dflt (es_Crypt s) (es_Auth s)\<rparr>;
          s = s\<lparr>es_Auth := dflt (es_Auth s) ''8bc736635c0642aebc20ba5420c3e93a''\<rparr>;
          s = s\<lparr>es_Crypt := dflt (es_Crypt s) ''4ac161f6635843b8b02c60cc36822515''\<rparr>;
          s = s\<lparr>es_Encap := dflt (es_Encap s) ''udp''\<rparr>
      in s\<lparr>es_RemotePort := (if es_RemotePort s = 0 then 4600 else es_RemotePort s)\<rparr>)"

definition EspState_Correct :: "host \<Rightarrow> EspState option \<Rightarrow> EspState \<Rightarrow> EspState result" where
  "EspState_Correct ho obj s =
     (let s = EspState_fill ho (EspState_inherit obj s)
      in case EspState_Padding (es_Auth s) 32 of
           Inl e \<Rightarrow> Inl e
         | Inr auth \<Rightarrow> (case EspState_Padding (es_Crypt s) 32 of
             Inl e \<Rightarrow> Inl e
           | Inr crypt \<Rightarrow> Inr (s\<lparr>es_Auth := auth, es_Crypt := crypt\<rparr>)))"

record ESPPolicy =
  ep_Source :: string
  ep_Dest :: string

record ESPMember =
  em_Name :: string
  em_Address :: string
  em_Peer :: string
  em_Spi :: int
  em_State :: EspState
  em_Policies :: "ESPPolicy list"

record ESPSpecifies =
  esp_Name :: string
  esp_Address :: string
  esp_State :: EspState
  esp_Members :: "ESPMember list"

text \<open>One turn of the loop over the members; \<open>i\<close> numbers the random numbers.\<close>

definition with_len :: "string \<Rightarrow> string" where
  "with_len addr = (if \<not> Contains addr ''/'' then addr @ ''/32'' else addr)"

definition add_policy :: "string \<Rightarrow> string \<Rightarrow> ESPPolicy list \<Rightarrow> ESPPolicy list" where
  "add_policy addr peer pols =
     (let existed = (\<exists>pol \<in> set pols. ep_Dest pol = peer)
      in if \<not> existed then pols @ [\<lparr>ep_Source = addr, ep_Dest = peer\<rparr>] else pols)"

definition ESPMember_Correct :: "host \<Rightarrow> ESPSpecifies \<Rightarrow> nat \<Rightarrow> ESPMember \<Rightarrow> ESPMember result" where
  "ESPMember_Correct ho n i m =
     (let m = m\<lparr>em_Address := dflt (em_Address m) (esp_Address n)\<rparr>
      in if em_Address m = [] then Inr m
         else let m = m\<lparr>em_Address := with_len (em_Address m), em_Peer := with_len (em_Peer m)\<rparr>
              in case EspState_Correct ho (Some (esp_State n)) (em_State m) of
                   Inl e \<Rightarrow> Inl e
                 | Inr st \<Rightarrow>
                     (let m = m\<lparr>em_State := st, em_Policies := add_policy (em_Address m) (em_Peer m) (em_Policies m),
                                em_Spi := (if em_Spi m = 0 then ho_GenInt32 ho i else em_Spi m)\<rparr>
                      in Inr (m\<lparr>em_Name := dflt (em_Name m) (''spi'' @ show_int (em_Spi m))\<rparr>)))"

fun ESPMembers_Correct :: "host \<Rightarrow> ESPSpecifies \<Rightarrow> nat \<Rightarrow> ESPMember list \<Rightarrow> ESPMember list result" where
  "ESPMembers_Correct ho n i [] = Inr []"
| "ESPMembers_Correct ho n i (m # ms) =
     (case ESPMember_Correct ho n i m of
        Inl e \<Rightarrow> Inl e
      | Inr m \<Rightarrow> (case ESPMembers_Correct ho n (i + 1) ms of Inl e \<Rightarrow> Inl e | Inr ms \<Rightarrow> Inr (m # ms)))"

definition ESPSpecifies_Correct :: "host \<Rightarrow> ESPSpecifies \<Rightarrow> ESPSpecifies result" where
  "ESPSpecifies_Correct ho n =
     (case ESPMembers_Correct ho n 0 (esp_Members n) of Inl e \<Rightarrow> Inl e | Inr ms \<Rightarrow> Inr (n\<lparr>esp_Members := ms\<rparr>))"

record VxLANMember =
  vm_Name :: string
  vm_VNI :: int
  vm_Local :: string
  vm_Remote :: string
  vm_Network :: string
  vm_Port :: int

definition VxLANMember_Correct :: "VxLANMember \<Rightarrow> VxLANMember" where
  "VxLANMember_Correct m = (if vm_Name m = [] then m\<lparr>vm_Name := ''vni'' @ show_int (vm_VNI m)\<rparr> else m)"

record VxLANSpecifies =
  vs_Name :: string
  vs_Local :: string
  vs_Members :: "VxLANMember list"

definition VxLANSpecifies_Correct :: "VxLANSpecifies \<Rightarrow> VxLANSpecifies" where
  "VxLANSpecifies_Correct n = n\<lparr>vs_Members := map (\<lambda>m. VxLANMember_Correct
     (if vm_Local m = [] then m\<lparr>vm_Local := vs_Local n\<rparr> else m)) (vs_Members n)\<rparr>"

record FabricTunnel =
  ft_DstPort :: u32
  ft_Remote :: string
  ft_Local :: string
  ft_Mode :: string

record FabricOutput =
  fo_Vlan :: int
  fo_Interface :: string

record FabricNetwork =
  fn_Vni :: u32
  fn_Bridge :: string
  fn_Address :: string
  fn_Outputs :: "FabricOutput list"

text \<open>\<open>%08d\<close>.\<close>

definition pad8 :: "nat \<Rightarrow> string" where
  "pad8 n = (let s = digits n in replicate (8 - length s) (CHR ''0'') @ s)"

definition FabricNetwork_Correct :: "FabricNetwork \<Rightarrow> FabricNetwork" where
  "FabricNetwork_Correct c = (if fn_Bridge c = [] then c\<lparr>fn_Bridge := ''br-'' @ pad8 (unat (fn_Vni c))\<rparr> else c)"

record FabricSpecifies =
  fs_Mss :: int
  fs_Fragment :: bool
  fs_Driver :: string
  fs_Name :: string
  fs_Tunnels :: "FabricTunnel list"
  fs_Networks :: "FabricNetwork list"

definition FabricSpecifies_Correct :: "FabricSpecifies \<Rightarrow> FabricSpecifies" where
  "FabricSpecifies_Correct c = c\<lparr>fs_Networks := map FabricNetwork_Correct (fs_Networks c),
     fs_Tunnels := map (\<lambda>tun. if ft_DstPort tun = 0
        then tun\<lparr>ft_DstPort := (if fs_Driver c = ''stt'' then 7471 else 4789)\<rparr> else tun) (fs_Tunnels c)\<rparr>"

section \<open>network.go\<close>

record ACLRule =
  acr_Name :: string
  acr_SrcIp :: string
  acr_DstIp :: string
  acr_Proto :: string
  acr_SrcPort :: string
  acr_DstPort :: string
  acr_Action :: string

record ACL =
  acl_File :: string
  acl_Name :: string
  acl_Rules :: "ACLRule list"

record co_Point =
  cp_File :: string
  cp_Alias :: string
  cp_Connection :: string
  cp_Timeout :: int
  cp_Username :: string
  cp_Network :: string
  cp_Password :: string
  cp_Protocol :: string
  cp_Interface :: Interface
  cp_Log :: Log
  cp_Http :: "Http option"
  cp_Crypt :: "Crypt option"
  cp_PProf :: string
  cp_RequestAddr :: bool
  cp_ByPass :: bool
  cp_SaveFile :: string
  cp_Queue :: "Queue option"
  cp_Terminal :: string
  cp_Cert :: "Cert option"
  cp_StatusFile :: string
  cp_PidFile :: string

datatype Specifies = SpecESP ESPSpecifies | SpecVxLAN VxLANSpecifies | SpecFabric FabricSpecifies | SpecOther

record co_Network =
  cn_ConfDir :: string
  cn_File :: string
  cn_Alias :: string
  cn_Name :: string
  cn_Provider :: string
  cn_Bridge :: "co_Bridge option"
  cn_Subnet :: "IpSubnet option"
  cn_OpenVPN :: "OpenVPN option"
  cn_Links :: "co_Point list"
  cn_Hosts :: "HostLease list"
  cn_Routes :: "PrefixRoute list"
  cn_Password :: "Password list"
  cn_Acl :: string
  cn_Specifies :: Specifies

text \<open>What a network of the default provider gets: its bridge, the address and the mask of the bridge, the mask of its subnet, the
  defaults of its routes, and the VPN.\<close>

definition net_bridge :: "string \<Rightarrow> co_Bridge option \<Rightarrow> co_Bridge" where
  "net_bridge name br = Bridge_Correct ((case br of None \<Rightarrow> zero_bridge | Some br \<Rightarrow> br)\<lparr>br_Network := name\<rparr>)"

definition net_addr :: "host \<Rightarrow> co_Bridge \<Rightarrow> string \<times> string" where
  "net_addr ho br = (case ParseCIDR (ho_p6 ho) (br_Address br) of
     None \<Rightarrow> ([], []) | Some (i, n) \<Rightarrow> (IP_String (ho_s6 ho) i, IP_String (ho_s6 ho) (in_Mask n)))"

definition net_subnet :: "string \<Rightarrow> IpSubnet option \<Rightarrow> IpSubnet" where
  "net_subnet ipMask sub =
     (let sub = (case sub of None \<Rightarrow> \<lparr>is_Network = [], is_Start = [], is_End = [], is_Netmask = []\<rparr> | Some sub \<Rightarrow> sub)
      in sub\<lparr>is_Netmask := dflt (is_Netmask sub) ipMask\<rparr>)"

definition route_Correct :: "string \<Rightarrow> PrefixRoute \<Rightarrow> PrefixRoute" where
  "route_Correct ipAddr rt = rt\<lparr>pr_Metric := (if pr_Metric rt = 0 then 660 else pr_Metric rt),
     pr_NextHop := dflt (pr_NextHop rt) ipAddr, pr_Mode := dflt (pr_Mode rt) ''snat''\<rparr>"

definition net_vpn :: "string \<Rightarrow> string \<Rightarrow> OpenVPN option \<Rightarrow> int \<Rightarrow> OpenVPN option \<times> int" where
  "net_vpn pool name vpn index =
     (case vpn of
        None \<Rightarrow> (None, index)
      | Some v \<Rightarrow>
          (let (v, index) = OpenVPN_Correct pool (Some DefaultOpenVPN) (OpenVPN ((ov_data v)\<lparr>ov_Network := name\<rparr>) (ov_Breed v)) index
           in (Some v, index)))"

definition Network_default :: "host \<Rightarrow> string \<Rightarrow> co_Network \<Rightarrow> int \<Rightarrow> co_Network \<times> int" where
  "Network_default ho pool n index =
     (let br = net_bridge (cn_Name n) (cn_Bridge n);
          (ipAddr, ipMask) = net_addr ho br;
          (vpn, index) = net_vpn pool (cn_Name n) (cn_OpenVPN n) index
      in (n\<lparr>cn_Bridge := Some br, cn_Subnet := Some (net_subnet ipMask (cn_Subnet n)),
            cn_Routes := map (route_Correct ipAddr) (cn_Routes n), cn_OpenVPN := vpn\<rparr>, index))"

definition Network_Correct :: "host \<Rightarrow> string \<Rightarrow> co_Network \<Rightarrow> int \<Rightarrow> (co_Network \<times> int) result" where
  "Network_Correct ho pool n index =
     (if cn_Provider n = ''esp''
      then (case cn_Specifies n of
          SpecESP obj \<Rightarrow> (case ESPSpecifies_Correct ho obj of
              Inl e \<Rightarrow> Inl e | Inr obj \<Rightarrow> Inr (n\<lparr>cn_Specifies := SpecESP (obj\<lparr>esp_Name := cn_Name n\<rparr>)\<rparr>, index))
        | _ \<Rightarrow> Inr (n, index))
      else if cn_Provider n = ''vxlan''
      then let n = (case cn_Specifies n of
                 SpecVxLAN obj \<Rightarrow> n\<lparr>cn_Specifies := SpecVxLAN ((VxLANSpecifies_Correct obj)\<lparr>vs_Name := cn_Name n\<rparr>)\<rparr>
               | _ \<Rightarrow> n)
           in Inr (case cn_Bridge n of
                None \<Rightarrow> n
              | Some br \<Rightarrow> n\<lparr>cn_Bridge := Some (let br = Bridge_Correct (br\<lparr>br_Network := cn_Name n\<rparr>)
                                           in if br_Mss br = 0 then br\<lparr>br_Mss := 1332\<rparr> else br)\<rparr>, index)
      else if cn_Provider n = ''fabric''
      then Inr (case cn_Specifies n of
                 SpecFabric obj \<Rightarrow> n\<lparr>cn_Specifies := SpecFabric ((FabricSpecifies_Correct obj)\<lparr>fs_Name := cn_Name n\<rparr>)\<rparr>
               | _ \<Rightarrow> n, index)
      else Inr (Network_default ho pool n index))"

section \<open>point.go\<close>

definition Point_Id :: "co_Point \<Rightarrow> string" where
  "Point_Id ap = cp_Connection ap @ '':'' @ cp_Network ap"

definition Point_Correct :: "host \<Rightarrow> co_Point option \<Rightarrow> co_Point \<Rightarrow> co_Point" where
  "Point_Correct ho obj ap =
     (let ap = (if cp_Alias ap = [] then ap\<lparr>cp_Alias := ho_Alias ho\<rparr> else ap);
          ap = (if cp_Network ap = []
                then (if Contains (cp_Username ap) ''@'' then ap\<lparr>cp_Network := SplitN (cp_Username ap) (CHR ''@'') 2 ! 1\<rparr>
                      else case obj of Some obj \<Rightarrow> ap\<lparr>cp_Network := cp_Network obj\<rparr> | None \<Rightarrow> ap)
                else ap);
          ap = ap\<lparr>cp_Connection := CorrectAddr (cp_Connection ap) 10002\<rparr>;
          ap = (if cp_Protocol ap = ''tls'' \<or> cp_Protocol ap = ''wss''
                then (case (cp_Cert ap, obj) of (None, Some obj) \<Rightarrow> ap\<lparr>cp_Cert := cp_Cert obj\<rparr> | _ \<Rightarrow> ap) else ap);
          ap = ap\<lparr>cp_Cert := map_option (\<lambda>c. Cert_Correct (if ce_Dir c = [] then c\<lparr>ce_Dir := ''.''\<rparr> else c)) (cp_Cert ap)\<rparr>
      in if cp_Protocol ap = [] then ap\<lparr>cp_Protocol := ''tcp''\<rparr> else ap)"

definition DefaultPoint :: "host \<Rightarrow> co_Point" where
  "DefaultPoint ho = Point_Correct ho None
     \<lparr>cp_File = [], cp_Alias = [], cp_Connection = ''xx.openlan.net'', cp_Timeout = 60, cp_Username = [], cp_Network = ''default'',
      cp_Password = [], cp_Protocol = ''tcp'',
      cp_Interface = \<lparr>if_Name = [], if_IPMtu = 1500, if_Address = [], if_Bridge = [], if_Provider = ''kernel'', if_Cost = 0\<rparr>,
      cp_Log = \<lparr>lg_File = ''./point.log'', lg_Verbose = 20\<rparr>, cp_Http = None, cp_Crypt = Some \<lparr>cr_Algo = [], cr_Secret = []\<rparr>, cp_PProf = [],
      cp_RequestAddr = True, cp_ByPass = False, cp_SaveFile = ''./point.json'', cp_Queue = None, cp_Terminal = ''on'',
      cp_Cert = Some \<lparr>ce_Dir = [], ce_CrtFile = [], ce_KeyFile = [], ce_CaFile = [], ce_Insecure = False\<rparr>, cp_StatusFile = [], cp_PidFile = []\<rparr>"

definition Point_Default :: "host \<Rightarrow> co_Point \<Rightarrow> co_Point" where
  "Point_Default ho ap =
     (let obj = DefaultPoint ho;
          ap = Point_Correct ho (Some obj) ap;
          ap = ap\<lparr>cp_Queue := Some (Queue_Default (case cp_Queue ap of None \<Rightarrow> zero_queue | Some q \<Rightarrow> q))\<rparr>;
          ap = (if cp_Connection ap = [] then ap\<lparr>cp_Connection := cp_Connection obj\<rparr> else ap);
          ap = (if if_IPMtu (cp_Interface ap) = 0
                then ap\<lparr>cp_Interface := (cp_Interface ap)\<lparr>if_IPMtu := if_IPMtu (cp_Interface obj)\<rparr>\<rparr> else ap);
          ap = (if cp_Timeout ap = 0 then ap\<lparr>cp_Timeout := cp_Timeout obj\<rparr> else ap)
      in ap\<lparr>cp_Crypt := map_option Crypt_Default (cp_Crypt ap)\<rparr>)"

section \<open>switch.go\<close>

record Perf =
  pf_Point :: int
  pf_Neighbor :: int
  pf_OnLine :: int
  pf_Link :: int
  pf_User :: int
  pf_Esp :: int
  pf_State :: int
  pf_Policy :: int
  pf_VxLAN :: int

definition DefaultPerf :: Perf where
  "DefaultPerf = \<lparr>pf_Point = 1024, pf_Neighbor = 1024, pf_OnLine = 64, pf_Link = 1024, pf_User = 1024, pf_Esp = 1024,
     pf_State = 1024 * 10, pf_Policy = 1024 * 10, pf_VxLAN = 1024\<rparr>"

definition Perf_Correct :: "Perf option \<Rightarrow> Perf \<Rightarrow> Perf" where
  "Perf_Correct obj p =
     (case obj of
        None \<Rightarrow> p
      | Some obj \<Rightarrow>
          (let pick = (\<lambda>f. if f p = 0 then f obj else (f p :: int))
           in \<lparr>pf_Point = pick pf_Point, pf_Neighbor = pick pf_Neighbor, pf_OnLine = pick pf_OnLine, pf_Link = pick pf_Link,
               pf_User = pick pf_User, pf_Esp = pick pf_Esp, pf_State = pick pf_State, pf_Policy = pick pf_Policy,
               pf_VxLAN = pick pf_VxLAN\<rparr>))"

record LDAP =
  la_Server :: string
  la_BindDN :: string
  la_Password :: string
  la_BaseDN :: string
  la_Attribute :: string
  la_Filter :: string
  la_EnableTls :: bool

record co_Switch =
  cs_File :: string
  cs_Alias :: string
  cs_Perf :: Perf
  cs_Protocol :: string
  cs_Listen :: string
  cs_Timeout :: int
  cs_Http :: "Http option"
  cs_Log :: Log
  cs_Cert :: "Cert option"
  cs_Crypt :: "Crypt option"
  cs_Network :: "co_Network list"
  cs_Acl :: "ACL list"
  cs_FireWall :: "FlowRule list"
  cs_Inspect :: "string list"
  cs_Queue :: Queue
  cs_PassFile :: string
  cs_Ldap :: "LDAP option"
  cs_AddrPool :: string
  cs_ConfDir :: string
  cs_TokenFile :: string

text \<open>The argument of the source is never used: the limits are always completed from \<open>DefaultPerf\<close>.\<close>

definition co_Switch_Correct :: "host \<Rightarrow> co_Switch \<Rightarrow> co_Switch" where
  "co_Switch_Correct ho s =
     (let s = (if cs_Alias s = [] then s\<lparr>cs_Alias := ho_Alias ho\<rparr> else s);
          s = s\<lparr>cs_Listen := CorrectAddr (cs_Listen s) 10002,
                cs_Http := map_option (\<lambda>h. h\<lparr>ht_Listen := CorrectAddr (ht_Listen h) 10000\<rparr>) (cs_Http s),
                cs_TokenFile := path_Join [cs_ConfDir s, ''token''], cs_File := path_Join [cs_ConfDir s, ''switch.json''],
                cs_Cert := map_option Cert_Correct (cs_Cert s), cs_Perf := Perf_Correct (Some DefaultPerf) (cs_Perf s)\<rparr>;
          s = (if cs_PassFile s = [] then s\<lparr>cs_PassFile := path_Join [cs_ConfDir s, ''password'']\<rparr> else s);
          s = (if cs_Protocol s = [] then s\<lparr>cs_Protocol := ''tcp''\<rparr> else s)
      in if cs_AddrPool s = [] then s\<lparr>cs_AddrPool := ''100.44''\<rparr> else s)"

text \<open>\<open>LoadAcl\<close> and \<open>LoadNetwork\<close> after the files of the directory have been read; \<open>acls\<close> and \<open>nets\<close> are their contents. The loop
  calls \<open>Default\<close> on a copy of each link, so that only what the copy shares with it, certificate and cipher, changes.\<close>

definition co_Switch_LoadAcl :: "ACL list \<Rightarrow> co_Switch \<Rightarrow> co_Switch" where
  "co_Switch_LoadAcl acls s = s\<lparr>cs_Acl := map (\<lambda>obj. if acl_File obj = []
     then obj\<lparr>acl_File := path_Join [cs_ConfDir s, ''acl'', acl_Name obj @ ''.json'']\<rparr> else obj) (cs_Acl s @ acls)\<rparr>"

definition link_Default :: "co_Point \<Rightarrow> co_Point" where
  "link_Default l = l\<lparr>cp_Crypt := map_option Crypt_Default (cp_Crypt l),
     cp_Cert := map_option (\<lambda>c. Cert_Correct (if ce_Dir c = [] then c\<lparr>ce_Dir := ''.''\<rparr> else c)) (cp_Cert l)\<rparr>"

fun Networks_Correct :: "host \<Rightarrow> co_Switch \<Rightarrow> co_Network list \<Rightarrow> int \<Rightarrow> (co_Network list \<times> int) result" where
  "Networks_Correct ho s [] index = Inr ([], index)"
| "Networks_Correct ho s (obj # objs) index =
     (case Network_Correct ho (cs_AddrPool s) (obj\<lparr>cn_Links := map link_Default (cn_Links obj)\<rparr>) index of
        Inl e \<Rightarrow> Inl e
      | Inr (obj, index) \<Rightarrow>
          (let obj = obj\<lparr>cn_Alias := cs_Alias s,
                 cn_File := dflt (cn_File obj) (path_Join [cs_ConfDir s, ''network'', cn_Name obj @ ''.json''])\<rparr>
           in case Networks_Correct ho s objs index of Inl e \<Rightarrow> Inl e | Inr (objs, index) \<Rightarrow> Inr (obj # objs, index)))"

definition co_Switch_LoadNetwork :: "host \<Rightarrow> co_Network list \<Rightarrow> co_Switch \<Rightarrow> int \<Rightarrow> (co_Switch \<times> int) result" where
  "co_Switch_LoadNetwork ho nets s index =
     (case Networks_Correct ho s (cs_Network s @ nets) index of
        Inl e \<Rightarrow> Inl e | Inr (nets, index) \<Rightarrow> Inr (s\<lparr>cs_Network := nets\<rparr>, index))"

definition co_Switch_Default :: "host \<Rightarrow> ACL list \<Rightarrow> co_Network list \<Rightarrow> co_Switch \<Rightarrow> int \<Rightarrow> (co_Switch \<times> int) result" where
  "co_Switch_Default ho acls nets s index =
     (let s = co_Switch_Correct ho s;
          s = (if cs_Timeout s = 0 then s\<lparr>cs_Timeout := 120\<rparr> else s);
          s = s\<lparr>cs_Crypt := map_option Crypt_Default (cs_Crypt s), cs_Queue := Queue_Default (cs_Queue s)\<rparr>
      in co_Switch_LoadNetwork ho nets (co_Switch_LoadAcl acls s) index)"

definition GetNetwork :: "string \<Rightarrow> co_Switch \<Rightarrow> co_Network option" where
  "GetNetwork name s = find (\<lambda>n. cn_Name n = name) (cs_Network s)"

section \<open>Completing twice\<close>

lemma dflt_simps [simp]: "dflt (dflt x y) y = dflt x y" "dflt x y = [] \<longleftrightarrow> x = [] \<and> y = []"
  by (simp_all add: dflt_def)

lemma dflt_present: "x \<noteq> [] \<Longrightarrow> dflt x y = x"
  by (simp add: dflt_def)

lemma Bridge_Correct_Network: "br_Network (Bridge_Correct b) = br_Network b"
  by (simp add: Bridge_Correct_def Let_def)

lemma Bridge_Correct_idem: "Bridge_Correct (Bridge_Correct b) = Bridge_Correct b"
proof -
  have "br_Name (Bridge_Correct b) \<noteq> []" "br_Provider (Bridge_Correct b) \<noteq> []" "br_IPMtu (Bridge_Correct b) \<noteq> 0"
    "br_Delay (Bridge_Correct b) \<noteq> 0" "br_Stp (Bridge_Correct b) \<noteq> []" by (simp_all add: Bridge_Correct_def Let_def)
  then show ?thesis by (subst Bridge_Correct_def) (simp add: Let_def)
qed

lemma route_Correct_idem: "route_Correct a (route_Correct a r) = route_Correct a r"
  by (simp add: route_Correct_def Let_def)

text \<open>A server that is complete.\<close>

definition vpn_complete :: "OpenVPN_data \<Rightarrow> bool" where
  "vpn_complete d \<longleftrightarrow> ov_Directory d \<noteq> [] \<and> ov_Device d \<noteq> [] \<and> ov_Subnet d \<noteq> []"

lemma OpenVPN_complete_complete: "vpn_complete (fst (OpenVPN_complete pool d index))"
  by (simp add: OpenVPN_complete_def vpn_complete_def VarDir_def genTunName_def Let_def split: prod.split)

lemma OpenVPN_complete_idem: "vpn_complete d \<Longrightarrow> OpenVPN_complete pool d index = (d, index)"
  by (simp add: OpenVPN_complete_def vpn_complete_def Let_def)

lemma OpenVPN_complete_fields:
  "\<exists>a b c e. fst (OpenVPN_complete pool d index) = d\<lparr>ov_Directory := a, ov_Listen := b, ov_Device := c, ov_Subnet := e\<rparr>"
  by (cases d) (auto simp: OpenVPN_complete_def genTunName_def Let_def)

lemma OpenVPN_inherit_fields:
  "OpenVPN_inherit obj (d\<lparr>ov_Directory := a, ov_Listen := b, ov_Device := c, ov_Subnet := e\<rparr>) =
     (OpenVPN_inherit obj d)\<lparr>ov_Directory := a, ov_Listen := b, ov_Device := c, ov_Subnet := e\<rparr>"
  by (simp add: OpenVPN_inherit_def Let_def)

lemma OpenVPN_inherit_twice: "OpenVPN_inherit obj (OpenVPN_inherit obj d) = OpenVPN_inherit obj d"
  by (simp add: OpenVPN_inherit_def Let_def)

lemma OpenVPN_inherit_idem: "OpenVPN_inherit obj (fst (OpenVPN_complete pool (OpenVPN_inherit obj d) index)) =
    fst (OpenVPN_complete pool (OpenVPN_inherit obj d) index)"
  using OpenVPN_complete_fields [of pool "OpenVPN_inherit obj d" index] by (auto simp: OpenVPN_inherit_fields OpenVPN_inherit_twice)

lemma OpenVPN_data_idem:
  assumes "OpenVPN_complete pool (case obj of None \<Rightarrow> d | Some obj \<Rightarrow> OpenVPN_inherit obj d) index = (d1, i1)"
  shows "OpenVPN_complete pool (case obj of None \<Rightarrow> d1 | Some obj \<Rightarrow> OpenVPN_inherit obj d1) j = (d1, j)"
proof -
  have "vpn_complete d1" using OpenVPN_complete_complete assms by (metis fst_conv)
  moreover have "OpenVPN_inherit x d1 = d1" if "obj = Some x" for x
    using OpenVPN_inherit_idem [of x pool d index] assms that by simp
  ultimately show ?thesis by (cases obj) (simp_all add: OpenVPN_complete_idem)
qed

lemma OpenVPN_Correct_idem:
  "OpenVPN_Correct pool obj v index = (v', index') \<Longrightarrow> OpenVPN_Correct pool obj v' j = (v', j)"
  "OpenVPN_Corrects pool d vs index = (vs', index'') \<Longrightarrow> OpenVPN_Corrects pool d vs' j = (vs', j)"
proof (induction pool obj v index and pool d vs index arbitrary: v' index' j and vs' index'' j rule: OpenVPN_Correct_OpenVPN_Corrects.induct)
  case (1 pool obj d breed index)
  define d0 where "d0 = (case obj of None \<Rightarrow> d | Some obj \<Rightarrow> OpenVPN_inherit obj d)"
  obtain d1 i1 where c: "OpenVPN_complete pool d0 index = (d1, i1)" by fastforce
  obtain b1 i2 where b: "OpenVPN_Corrects pool d1 breed i1 = (b1, i2)" by fastforce
  have v': "v' = OpenVPN d1 b1" using 1(2) c b by (simp add: d0_def)
  have "OpenVPN_Corrects pool d1 b1 j = (b1, j)" using 1(1) [OF d0_def c [symmetric] refl] b by simp
  then show ?case using OpenVPN_data_idem [OF c [unfolded d0_def], of j] by (simp add: v')
next
  case (3 pool d ch chs index)
  obtain c1 i1 where c: "OpenVPN_Correct pool (Some d) ch index = (c1, i1)" by fastforce
  obtain cs i2 where cs: "OpenVPN_Corrects pool d chs i1 = (cs, i2)" by fastforce
  have "vs' = c1 # cs" using 3(3) c cs by simp
  then show ?case using 3(1) [OF c] 3(2) [OF c [symmetric] refl cs] by simp
qed simp

text \<open>The secrets have 32 characters after padding; an empty one, or one of more than 64 characters, makes it panic.\<close>

lemma EspState_Padding_spec:
  "EspState_Padding v 32 = (if 1 \<le> length v \<and> length v \<le> 64 then Inr (take 32 (concat (replicate (64 div length v) v)))
     else if v = [] then Inl (Panic ''integer divide by zero'') else Inl oor)"
  "1 \<le> length v \<Longrightarrow> length v \<le> 64 \<Longrightarrow> length (take 32 (concat (replicate (64 div length v) v))) = 32"
proof -
  have len: "length (concat (replicate k v)) = k * length v" for k by (induction k) auto
  have fits: "32 \<le> 64 div length v * length v" if "1 \<le> length v" "length v \<le> 64"
  proof -
    have "64 mod length v < length v" using that(1) by (intro mod_less_divisor) linarith
    moreover have "64 div length v * length v + 64 mod length v = 64" by simp
    moreover have "1 * length v \<le> 64 div length v * length v"
      using that by (intro mult_le_mono1) (simp add: Suc_le_eq div_greater_zero_iff)
    ultimately show ?thesis by linarith
  qed
  show "EspState_Padding v 32 = (if 1 \<le> length v \<and> length v \<le> 64 then Inr (take 32 (concat (replicate (64 div length v) v)))
     else if v = [] then Inl (Panic ''integer divide by zero'') else Inl oor)"
  proof (cases "1 \<le> length v \<and> length v \<le> 64")
    case True
    then have "32 \<le> int (64 div length v * length v)" using fits by linarith
    with True show ?thesis by (auto simp: EspState_Padding_def reslice_def len slice_def)
  next
    case False
    then show ?thesis by (cases v) (auto simp: EspState_Padding_def reslice_def len)
  qed
  show "1 \<le> length v \<Longrightarrow> length v \<le> 64 \<Longrightarrow> length (take 32 (concat (replicate (64 div length v) v))) = 32"
    using fits by (simp add: len)
qed

lemma EspState_Padding_padded: "EspState_Padding v 32 = Inr p \<Longrightarrow> length p = 32"
  using EspState_Padding_spec by (auto split: if_splits)

lemma EspState_Padding_idem: "length p = 32 \<Longrightarrow> EspState_Padding p 32 = Inr p"
  by (simp add: EspState_Padding_spec(1) numeral_2_eq_2)

lemma local_addr_idem [simp]: "local_addr ho (local_addr ho l r) r = local_addr ho l r"
  by (simp add: local_addr_def)

lemma first_ip_idem [simp]: "first_ip xs (first_ip xs d) = first_ip xs d"
  by (simp add: first_ip_def)

lemma EspState_fill_eq:
  "EspState_fill ho s = s\<lparr>es_Local := local_addr ho (es_Local s) (es_Remote s),
     es_LocalIp := first_ip (ho_LookupIP ho (local_addr ho (es_Local s) (es_Remote s))) (es_LocalIp s),
     es_RemoteIp := first_ip (ho_LookupIP ho (es_Remote s)) (es_RemoteIp s),
     es_Crypt := dflt (dflt (es_Crypt s) (es_Auth s)) ''4ac161f6635843b8b02c60cc36822515'',
     es_Auth := dflt (es_Auth s) ''8bc736635c0642aebc20ba5420c3e93a'', es_Encap := dflt (es_Encap s) ''udp'',
     es_RemotePort := (if es_RemotePort s = 0 then 4600 else es_RemotePort s)\<rparr>"
  by (simp add: EspState_fill_def Let_def)

lemma EspState_inherit_fill:
  assumes "a \<noteq> []" and "c \<noteq> []"
  shows "EspState_inherit obj ((EspState_fill ho (EspState_inherit obj s))\<lparr>es_Auth := a, es_Crypt := c\<rparr>) =
    (EspState_fill ho (EspState_inherit obj s))\<lparr>es_Auth := a, es_Crypt := c\<rparr>"
proof (cases obj)
  case (Some x)
  have "dflt (local_addr ho (dflt l x) r) x = local_addr ho (dflt l x) r" for l x r
    by (cases "l = [] \<and> x = []") (auto simp: local_addr_def dflt_def)
  with assms Some show ?thesis by (simp add: EspState_inherit_def EspState_fill_eq dflt_present)
qed (simp add: EspState_inherit_def)

lemma EspState_fill_twice:
  assumes "a \<noteq> []" and "c \<noteq> []"
  shows "EspState_fill ho ((EspState_fill ho s)\<lparr>es_Auth := a, es_Crypt := c\<rparr>) = (EspState_fill ho s)\<lparr>es_Auth := a, es_Crypt := c\<rparr>"
proof -
  have "dflt a y = a" "dflt c y = c" for y using assms by (simp_all add: dflt_present)
  then show ?thesis by (cases s) (simp add: EspState_fill_eq)
qed

lemma EspState_fill_idem:
  assumes "a \<noteq> []" and "c \<noteq> []"
  shows "EspState_fill ho (EspState_inherit obj ((EspState_fill ho (EspState_inherit obj s))\<lparr>es_Auth := a, es_Crypt := c\<rparr>)) =
    (EspState_fill ho (EspState_inherit obj s))\<lparr>es_Auth := a, es_Crypt := c\<rparr>"
  unfolding EspState_inherit_fill [OF assms] by (rule EspState_fill_twice [OF assms])

lemma EspState_Correct_idem:
  assumes "EspState_Correct ho obj s = Inr s'"
  shows "EspState_Correct ho obj s' = Inr s'"
proof -
  let ?t = "EspState_fill ho (EspState_inherit obj s)"
  from assms obtain a c where "s' = ?t\<lparr>es_Auth := a, es_Crypt := c\<rparr>" "EspState_Padding (es_Auth ?t) 32 = Inr a"
    "EspState_Padding (es_Crypt ?t) 32 = Inr c" by (auto simp: EspState_Correct_def Let_def split: sum.splits)
  moreover from this have "length a = 32" "length c = 32" by (auto dest: EspState_Padding_padded)
  moreover from this have "a \<noteq> []" "c \<noteq> []" by auto
  ultimately show ?thesis by (simp add: EspState_Correct_def Let_def EspState_fill_idem EspState_Padding_idem)
qed

lemma Contains_char: "Contains s [c] \<longleftrightarrow> c \<in> set s"
  by (induction s) auto

lemma with_len_simps [simp]: "with_len (with_len s) = with_len s" "s \<noteq> [] \<Longrightarrow> with_len s \<noteq> []"
  by (simp_all add: with_len_def Contains_char)

lemma add_policy_idem [simp]: "add_policy a p (add_policy a p pols) = add_policy a p pols"
  by (simp add: add_policy_def)

lemma ESPMember_Correct_idem:
  assumes "ESPMember_Correct ho n i m = Inr m'" and "esp_Address n' = esp_Address n" and "esp_State n' = esp_State n"
  shows "ESPMember_Correct ho n' i m' = Inr m'"
proof (cases "dflt (em_Address m) (esp_Address n) = []")
  case True
  with assms show ?thesis by (auto simp: ESPMember_Correct_def Let_def)
next
  case False
  with assms(1) obtain st where st: "EspState_Correct ho (Some (esp_State n)) (em_State m) = Inr st"
    and m': "m' = m\<lparr>em_Address := with_len (dflt (em_Address m) (esp_Address n)), em_Peer := with_len (em_Peer m), em_State := st,
        em_Policies := add_policy (with_len (dflt (em_Address m) (esp_Address n))) (with_len (em_Peer m)) (em_Policies m),
        em_Spi := (if em_Spi m = 0 then ho_GenInt32 ho i else em_Spi m),
        em_Name := dflt (em_Name m) (''spi'' @ show_int (if em_Spi m = 0 then ho_GenInt32 ho i else em_Spi m))\<rparr>"
    by (auto simp: ESPMember_Correct_def Let_def simp del: dflt_simps(2) split: sum.splits)
  have "dflt (with_len a) x = with_len a" if "a \<noteq> []" for a x using that by (simp add: dflt_present)
  then show ?thesis using False EspState_Correct_idem [OF st] assms(2,3) unfolding m'
    by (simp add: ESPMember_Correct_def Let_def with_len_simps(2) del: dflt_simps(2))
qed

lemma ESPMembers_Correct_idem:
  assumes "esp_Address n' = esp_Address n" and "esp_State n' = esp_State n"
  shows "ESPMembers_Correct ho n i ms = Inr ms' \<Longrightarrow> ESPMembers_Correct ho n' i ms' = Inr ms'"
  by (induction ms arbitrary: i ms') (auto split: sum.splits simp: ESPMember_Correct_idem [OF _ assms])

lemma VxLANSpecifies_Correct_idem: "VxLANSpecifies_Correct ((VxLANSpecifies_Correct n)\<lparr>vs_Name := x\<rparr>) = (VxLANSpecifies_Correct n)\<lparr>vs_Name := x\<rparr>"
  by (simp add: VxLANSpecifies_Correct_def VxLANMember_Correct_def)

lemma FabricSpecifies_Correct_idem:
  "FabricSpecifies_Correct ((FabricSpecifies_Correct c)\<lparr>fs_Name := x\<rparr>) = (FabricSpecifies_Correct c)\<lparr>fs_Name := x\<rparr>"
  by (simp add: FabricSpecifies_Correct_def FabricNetwork_Correct_def)

lemma net_bridge_idem: "net_bridge name (Some (net_bridge name br)) = net_bridge name br"
proof -
  have "(net_bridge name br)\<lparr>br_Network := name\<rparr> = net_bridge name br"
    using Bridge_Correct_Network unfolding net_bridge_def by (simp add: co_Bridge.equality)
  then show ?thesis by (subst net_bridge_def) (simp, simp add: net_bridge_def Bridge_Correct_idem)
qed

lemma net_subnet_idem: "net_subnet m (Some (net_subnet m sub)) = net_subnet m sub"
  by (simp add: net_subnet_def Let_def)

lemma OpenVPN_Correct_Network:
  assumes "OpenVPN_Correct pool (Some obj) (OpenVPN d breed) index = (v, i)" and "ov_Network obj = []"
  shows "ov_Network (ov_data v) = ov_Network d"
proof -
  obtain d1 i1 where c: "OpenVPN_complete pool (OpenVPN_inherit obj d) index = (d1, i1)" by fastforce
  obtain b1 i2 where "OpenVPN_Corrects pool d1 breed i1 = (b1, i2)" by fastforce
  with assms(1) c have "ov_data v = d1" by auto
  moreover obtain x y z w where "d1 = (OpenVPN_inherit obj d)\<lparr>ov_Directory := x, ov_Listen := y, ov_Device := z, ov_Subnet := w\<rparr>"
    using OpenVPN_complete_fields [of pool "OpenVPN_inherit obj d" index] c by auto
  ultimately show ?thesis using assms(2) by (simp add: OpenVPN_inherit_def Let_def dflt_def)
qed

lemma net_vpn_idem:
  assumes "net_vpn pool name vpn index = (vpn', index')"
  shows "net_vpn pool name vpn' j = (vpn', j)"
proof (cases vpn)
  case (Some v)
  then obtain v' where v': "vpn' = Some v'" "OpenVPN_Correct pool (Some DefaultOpenVPN) (OpenVPN ((ov_data v)\<lparr>ov_Network := name\<rparr>) (ov_Breed v)) index = (v', index')"
    using assms by (auto simp: net_vpn_def simp del: OpenVPN_Correct.simps split: prod.splits)
  have "ov_Network (ov_data v') = name" using OpenVPN_Correct_Network [OF v'(2)] by (simp add: DefaultOpenVPN_def)
  then have "OpenVPN ((ov_data v')\<lparr>ov_Network := name\<rparr>) (ov_Breed v') = v'" by (cases v') (auto simp: OpenVPN_data.equality)
  then show ?thesis using OpenVPN_Correct_idem(1) [OF v'(2)] v'(1) by (simp add: net_vpn_def)
qed (use assms in \<open>simp add: net_vpn_def\<close>)

lemma Network_default_idem:
  assumes "Network_default ho pool n index = (n', index')"
  shows "Network_default ho pool n' j = (n', j)"
proof -
  obtain ip msk where ip: "net_addr ho (net_bridge (cn_Name n) (cn_Bridge n)) = (ip, msk)" by fastforce
  obtain vpn i where vpn: "net_vpn pool (cn_Name n) (cn_OpenVPN n) index = (vpn, i)" by fastforce
  have n': "n' = n\<lparr>cn_Bridge := Some (net_bridge (cn_Name n) (cn_Bridge n)), cn_Subnet := Some (net_subnet msk (cn_Subnet n)),
      cn_Routes := map (route_Correct ip) (cn_Routes n), cn_OpenVPN := vpn\<rparr>"
    using assms ip vpn by (simp add: Network_default_def Let_def)
  show ?thesis unfolding n' Network_default_def
    by (simp add: Let_def net_bridge_idem net_subnet_idem ip net_vpn_idem [OF vpn] route_Correct_idem comp_def)
qed

text \<open>What the switch relies on in the configuration of a network.\<close>

fun vpn_ok :: "OpenVPN \<Rightarrow> bool" where
  "vpn_ok (OpenVPN d breed) \<longleftrightarrow> vpn_complete d \<and> (\<forall>v \<in> set breed. vpn_ok v)"

definition network_ok :: "co_Network \<Rightarrow> bool" where
  "network_ok n \<longleftrightarrow> (\<exists>br sub. cn_Bridge n = Some br \<and> cn_Subnet n = Some sub \<and> br_Network br = cn_Name n \<and> br_Name br \<noteq> [] \<and>
       br_Provider br \<noteq> [] \<and> br_IPMtu br \<noteq> 0 \<and> br_Delay br \<noteq> 0) \<and>
     list_all (\<lambda>rt. pr_Metric rt \<noteq> 0 \<and> pr_Mode rt \<noteq> []) (cn_Routes n) \<and>
     (case cn_OpenVPN n of None \<Rightarrow> True | Some v \<Rightarrow> ov_Network (ov_data v) = cn_Name n \<and> vpn_ok v)"

lemma OpenVPN_Correct_ok:
  "vpn_ok (fst (OpenVPN_Correct pool obj v index))" "list_all vpn_ok (fst (OpenVPN_Corrects pool d vs index))"
proof (induction pool obj v index and pool d vs index rule: OpenVPN_Correct_OpenVPN_Corrects.induct)
  case (1 pool obj d breed index)
  define d0 where "d0 = (case obj of None \<Rightarrow> d | Some obj \<Rightarrow> OpenVPN_inherit obj d)"
  obtain d1 i1 where c: "OpenVPN_complete pool d0 index = (d1, i1)" by fastforce
  obtain b1 i2 where b: "OpenVPN_Corrects pool d1 breed i1 = (b1, i2)" by fastforce
  have "vpn_complete d1" using OpenVPN_complete_complete [of pool d0 index] c by simp
  moreover have "list_all vpn_ok b1" using 1 [OF d0_def c [symmetric] refl] b by simp
  ultimately show ?case using c b by (simp add: d0_def list_all_iff)
next
  case (3 pool d ch chs index)
  obtain c1 i1 where c: "OpenVPN_Correct pool (Some d) ch index = (c1, i1)" by fastforce
  with 3(1) 3(2) [OF c [symmetric] refl] show ?case by (auto split: prod.split)
qed simp

lemma net_bridge_ok:
  "br_Network (net_bridge name br) = name" "br_Name (net_bridge name br) \<noteq> []" "br_Provider (net_bridge name br) \<noteq> []"
  "br_IPMtu (net_bridge name br) \<noteq> 0" "br_Delay (net_bridge name br) \<noteq> 0"
  by (simp_all add: net_bridge_def Bridge_Correct_def Let_def)

lemma net_vpn_ok:
  assumes "net_vpn pool name vpn index = (Some v, i)"
  shows "ov_Network (ov_data v) = name \<and> vpn_ok v"
proof (cases vpn)
  case (Some w)
  then have *: "OpenVPN_Correct pool (Some DefaultOpenVPN) (OpenVPN ((ov_data w)\<lparr>ov_Network := name\<rparr>) (ov_Breed w)) index = (v, i)"
    using assms by (auto simp: net_vpn_def simp del: OpenVPN_Correct.simps split: prod.splits)
  have "ov_Network (ov_data v) = name" using OpenVPN_Correct_Network [OF *] by (simp add: DefaultOpenVPN_def)
  moreover have "vpn_ok v" using OpenVPN_Correct_ok(1) [of pool "Some DefaultOpenVPN" _ index, unfolded *] * by (metis fst_conv)
  ultimately show ?thesis ..
qed (use assms in \<open>simp add: net_vpn_def\<close>)

lemma Network_default_ok:
  assumes "Network_default ho pool n index = (n', index')"
  shows "network_ok n'"
proof -
  obtain ip msk where ip: "net_addr ho (net_bridge (cn_Name n) (cn_Bridge n)) = (ip, msk)" by fastforce
  obtain vpn i where vpn: "net_vpn pool (cn_Name n) (cn_OpenVPN n) index = (vpn, i)" by fastforce
  have "n' = n\<lparr>cn_Bridge := Some (net_bridge (cn_Name n) (cn_Bridge n)), cn_Subnet := Some (net_subnet msk (cn_Subnet n)),
      cn_Routes := map (route_Correct ip) (cn_Routes n), cn_OpenVPN := vpn\<rparr>"
    using assms ip vpn by (simp add: Network_default_def Let_def)
  with net_vpn_ok [of pool "cn_Name n" "cn_OpenVPN n" index] vpn net_bridge_ok show ?thesis
    by (auto simp: network_ok_def list_all_iff route_Correct_def split: option.split)
qed

lemma Network_Correct_esp:
  assumes "cn_Provider n = ''esp''" and "Network_Correct ho pool n index = Inr (n', index')"
  shows "Network_Correct ho pool n' j = Inr (n', j)"
proof (cases "cn_Specifies n")
  case (SpecESP obj)
  with assms obtain ms where ms: "ESPMembers_Correct ho obj 0 (esp_Members obj) = Inr ms"
    and n': "n' = n\<lparr>cn_Specifies := SpecESP (obj\<lparr>esp_Members := ms, esp_Name := cn_Name n\<rparr>)\<rparr>"
    by (auto simp: Network_Correct_def ESPSpecifies_Correct_def split: sum.splits)
  have "ESPMembers_Correct ho (obj\<lparr>esp_Members := ms, esp_Name := cn_Name n\<rparr>) 0 ms = Inr ms"
    by (rule ESPMembers_Correct_idem [OF _ _ ms]) simp_all
  with assms(1) show ?thesis by (simp add: n' Network_Correct_def ESPSpecifies_Correct_def)
qed (use assms in \<open>auto simp: Network_Correct_def\<close>)

lemma Bridge_Mss_idem:
  assumes "br = (let br = Bridge_Correct (b\<lparr>br_Network := name\<rparr>) in if br_Mss br = 0 then br\<lparr>br_Mss := 1332\<rparr> else br)"
  shows "(let br = Bridge_Correct (br\<lparr>br_Network := name\<rparr>) in if br_Mss br = 0 then br\<lparr>br_Mss := 1332\<rparr> else br) = br"
proof -
  have "br_Network br = name" "br_Name br \<noteq> []" "br_Provider br \<noteq> []" "br_IPMtu br \<noteq> 0" "br_Delay br \<noteq> 0" "br_Stp br \<noteq> []" "br_Mss br \<noteq> 0"
    unfolding assms by (simp_all add: Bridge_Correct_def Let_def)
  moreover from this(1) have "br\<lparr>br_Network := name\<rparr> = br" by (simp add: co_Bridge.equality)
  ultimately show ?thesis by (simp add: Bridge_Correct_def Let_def)
qed

lemma Network_Correct_vxlan:
  assumes "cn_Provider n = ''vxlan''" and "Network_Correct ho pool n index = Inr (n', index')"
  shows "Network_Correct ho pool n' j = Inr (n', j)"
proof -
  define sp where "sp = (case cn_Specifies n of
      SpecVxLAN obj \<Rightarrow> SpecVxLAN ((VxLANSpecifies_Correct obj)\<lparr>vs_Name := cn_Name n\<rparr>) | x \<Rightarrow> x)"
  define fix_br where "fix_br b = (let br = Bridge_Correct (b\<lparr>br_Network := cn_Name n\<rparr>) in if br_Mss br = 0 then br\<lparr>br_Mss := 1332\<rparr> else br)" for b
  have same: "fix_br (fix_br b) = fix_br b" for b using Bridge_Mss_idem [of "fix_br b" "cn_Name n" b] by (simp add: fix_br_def)
  have eq: "Network_Correct ho pool m i = Inr (m\<lparr>cn_Specifies := (case cn_Specifies m of
      SpecVxLAN obj \<Rightarrow> SpecVxLAN ((VxLANSpecifies_Correct obj)\<lparr>vs_Name := cn_Name m\<rparr>) | x \<Rightarrow> x), cn_Bridge := map_option fix_br (cn_Bridge m)\<rparr>, i)"
    if "cn_Provider m = ''vxlan''" "cn_Name m = cn_Name n" for m i
    using that by (cases m; cases "cn_Specifies m"; cases "cn_Bridge m") (simp_all add: Network_Correct_def fix_br_def Let_def)
  have n': "n' = n\<lparr>cn_Specifies := sp, cn_Bridge := map_option fix_br (cn_Bridge n)\<rparr>"
    using eq [OF assms(1) refl, of index] assms(2) unfolding sp_def by simp
  have "(case sp of SpecVxLAN obj \<Rightarrow> SpecVxLAN ((VxLANSpecifies_Correct obj)\<lparr>vs_Name := cn_Name n\<rparr>) | x \<Rightarrow> x) = sp"
    by (simp add: sp_def VxLANSpecifies_Correct_idem split: Specifies.split)
  then show ?thesis using eq [of n' j] assms(1) unfolding n' by (simp add: option.map_comp comp_def same cong: Specifies.case_cong)
qed


text \<open>For the evaluation the large bound of \<open>dtoi\<close> is an integer.\<close>

lemma dtoi_loop_code [code]:
  "dtoi_loop n i [] = (n, i, i \<noteq> 0)"
  "dtoi_loop n i (c # s) = (case digit_val c of
     None \<Rightarrow> (n, i, i \<noteq> 0)
   | Some d \<Rightarrow> (let n = n * 10 + d in if int n \<ge> 0xFFFFFF then (nat 0xFFFFFF, i, False) else dtoi_loop n (i + 1) s))"
  by (simp_all add: Let_def split: option.split)

text \<open>A network with a VPN that breeds a second server.\<close>

definition host_demo :: host where
  "host_demo = \<lparr>ho_Alias = ''host'', ho_LookupIP = (\<lambda>_. []), ho_LocalByGw = (\<lambda>_. []), ho_GenInt32 = int, ho_p6 = (\<lambda>_. None), ho_s6 = (\<lambda>_. [])\<rparr>"

definition vpn_demo :: OpenVPN_data where
  "vpn_demo = DefaultOpenVPN\<lparr>ov_Script := [], ov_Device := [], ov_Listen := ''0.0.0.0:1194''\<rparr>"

definition conf_demo :: co_Network where
  "conf_demo = \<lparr>cn_ConfDir = [], cn_File = [], cn_Alias = [], cn_Name = ''dev'', cn_Provider = [],
     cn_Bridge = Some (zero_bridge\<lparr>br_Address := ''192.168.10.1/24''\<rparr>), cn_Subnet = None,
     cn_OpenVPN = Some (OpenVPN vpn_demo [OpenVPN (vpn_demo\<lparr>ov_Listen := ''0.0.0.0:1195''\<rparr>) []]), cn_Links = [], cn_Hosts = [],
     cn_Routes = [\<lparr>pr_File = [], pr_Network = [], pr_Prefix = ''10.0.0.0/8'', pr_NextHop = [], pr_MultiPath = None, pr_Metric = 0, pr_Mode = []\<rparr>],
     cn_Password = [], cn_Acl = [], cn_Specifies = SpecOther\<rparr>"

text \<open>The second server inherits the script of the first one, which has its arguments already, and gets them once more.\<close>

lemma OpenVPN_breed_script:
  "map (ov_Script \<circ> ov_data) (ov_Breed (fst (OpenVPN_Correct ''100.44'' (Some DefaultOpenVPN)
     (OpenVPN (vpn_demo\<lparr>ov_Network := ''dev''\<rparr>) [OpenVPN vpn_demo []]) 1194))) =
   [''/usr/bin/openlan user check --network dev user check --network dev'']"
  by code_simp

lemma conf_demo_corrected: "(case Network_Correct host_demo ''100.44'' conf_demo 1194 of Inl _ \<Rightarrow> False
    | Inr (n', _) \<Rightarrow> map pr_NextHop (cn_Routes n') = [''192.168.10.1''])"
  by code_simp


end
