(* ===== verification/Rules.thy ===== *)
theory Rules
  imports Config Switch
begin

text \<open>The rules that the switch derives from its configuration (the \<open>pre\<close> and \<open>enable\<close> functions of \<open>src/pkg/olsw/switch.go\<close>) and
  gives to the firewall, with the part of the network workers they read (\<open>src/pkg/olsw/openlan.go\<close>, \<open>network.go\<close>).\<close>

section \<open>Workers\<close>

text \<open>\<open>GetSubnet\<close> of the worker that \<open>NewNetworker\<close> makes for the provider: only the default one has a subnet. Its bridge and subnet
  are there after \<open>Correct\<close>; a nil pointer panics.\<close>

definition OpenLANWorker_GetSubnet :: "host \<Rightarrow> co_Network \<Rightarrow> string result" where
  "OpenLANWorker_GetSubnet ho cfg =
     (case (cn_Bridge cfg, cn_Subnet cfg) of
        (Some br, Some sub) \<Rightarrow>
          (let ipMask = is_Netmask sub;
               ipAddr = (if br_Address br = [] then is_Start sub else br_Address br)
           in if ipAddr \<noteq> []
              then let addr = (if ipMask \<noteq> []
                     then hd (SplitN ipAddr (CHR ''/'') 2) @ ''/'' @ digits (Netmask2Len (ho_p6 ho) ipMask) else ipAddr)
                   in Inr (case ParseCIDR (ho_p6 ho) addr of None \<Rightarrow> [] | Some (_, inet) \<Rightarrow> IPNet_String (ho_s6 ho) inet)
              else Inr [])
      | _ \<Rightarrow> Inl nil_deref)"

definition GetSubnet :: "host \<Rightarrow> co_Network \<Rightarrow> string result" where
  "GetSubnet ho cfg = (if cn_Provider cfg \<in> {''esp'', ''vxlan'', ''fabric''} then Inr [] else OpenLANWorker_GetSubnet ho cfg)"

section \<open>Rules\<close>

definition Switch_enablePort :: "string \<Rightarrow> string \<Rightarrow> FireWall \<Rightarrow> FireWall" where
  "Switch_enablePort protocol port = FireWall_AddRule (empty_rule\<lparr>ru_Table := ''filter'', ru_Chain := ''OPENLAN-IN'',
     ru_Proto := protocol, ru_Match := ''multiport'', ru_DstPort := port\<rparr>)"

definition fwd_rule :: "string \<Rightarrow> string \<Rightarrow> string \<Rightarrow> string \<Rightarrow> IpRule" where
  "fwd_rule input output source prefix = empty_rule\<lparr>ru_Table := ''filter'', ru_Chain := ''OPENLAN-FWD'', ru_Input := input,
     ru_Output := output, ru_Source := source, ru_Dest := prefix\<rparr>"

definition Switch_enableFwd :: "string \<Rightarrow> string \<Rightarrow> string \<Rightarrow> string \<Rightarrow> FireWall \<Rightarrow> FireWall" where
  "Switch_enableFwd input output source prefix f =
     (let f = FireWall_AddRule (fwd_rule input output source prefix) f
      in if source \<noteq> prefix then FireWall_AddRule (fwd_rule output input prefix source) f else f)"

definition masq_rule :: "string \<Rightarrow> string \<Rightarrow> IpRule" where
  "masq_rule source prefix = empty_rule\<lparr>ru_Table := ''nat'', ru_Chain := ''OPENLAN-POST'', ru_Source := source, ru_Dest := prefix,
     ru_Jump := ''MASQUERADE''\<rparr>"

definition Switch_enableMasq :: "string \<Rightarrow> string \<Rightarrow> string \<Rightarrow> string \<Rightarrow> FireWall \<Rightarrow> FireWall" where
  "Switch_enableMasq input output source prefix f =
     (if source = prefix then f else FireWall_AddRule (masq_rule source prefix) f)"

definition snat_rule :: "string \<Rightarrow> string \<Rightarrow> IpRule" where
  "snat_rule source prefix = empty_rule\<lparr>ru_Table := ''nat'', ru_Chain := ''OPENLAN-POST'', ru_ToSource := source, ru_Dest := prefix,
     ru_Jump := ''SNAT''\<rparr>"

definition Switch_enableSnat :: "string \<Rightarrow> string \<Rightarrow> string \<Rightarrow> string \<Rightarrow> FireWall \<Rightarrow> FireWall" where
  "Switch_enableSnat input output source prefix f =
     (if source = prefix then f else FireWall_AddRule (snat_rule source prefix) f)"

definition acl_rule :: "string \<Rightarrow> string \<Rightarrow> IpRule" where
  "acl_rule acl input = empty_rule\<lparr>ru_Table := ''raw'', ru_Chain := ''OPENLAN-PRE'', ru_Input := input, ru_Jump := acl\<rparr>"

definition Switch_enableAcl :: "string \<Rightarrow> string \<Rightarrow> FireWall \<Rightarrow> FireWall" where
  "Switch_enableAcl acl input f =
     (if input = [] then f else if acl \<noteq> [] then FireWall_AddRule (acl_rule acl input) f else f)"

text \<open>The routes that the clients of a VPN server are told: those of the network are added, a default route becomes an option.\<close>

definition vpn_routes :: "host \<Rightarrow> string \<Rightarrow> PrefixRoute list \<Rightarrow> OpenVPN_data \<Rightarrow> OpenVPN_data" where
  "vpn_routes ho subnet rts d =
     (let routes = ov_Routes d @ [ov_Subnet d];
          routes = (if subnet \<noteq> [] then routes @ [subnet] else routes);
          (routes, push) = fold (\<lambda>rt (routes, push).
              if pr_Prefix rt = ''0.0.0.0/0'' then (routes, push @ [''redirect-gateway def1''])
              else case ParseCIDR (ho_p6 ho) (pr_Prefix rt) of
                None \<Rightarrow> (routes, push) | Some (_, inet) \<Rightarrow> (routes @ [IPNet_String (ho_s6 ho) inet], push)) rts (routes, ov_Push d)
      in d\<lparr>ov_Routes := routes, ov_Push := push\<rparr>)"

fun Switch_preWorkerVPN :: "host \<Rightarrow> string \<Rightarrow> PrefixRoute list \<Rightarrow> OpenVPN \<Rightarrow> OpenVPN" where
  "Switch_preWorkerVPN ho subnet rts (OpenVPN d breed) =
     OpenVPN (vpn_routes ho subnet rts d) (map (Switch_preWorkerVPN ho subnet rts) breed)"

definition mss_rule :: "co_Bridge \<Rightarrow> IpRule" where
  "mss_rule br = empty_rule\<lparr>ru_Table := ''mangle'', ru_Chain := ''OPENLAN-POST'', ru_Output := br_Name br, ru_Proto := ''tcp'',
     ru_Match := ''tcp'', ru_TcpFlag := [''SYN,RST'', ''SYN''], ru_Jump := ''TCPMSS'', ru_SetMss := br_Mss br\<rparr>"

definition Switch_preWorker :: "host \<Rightarrow> string \<Rightarrow> co_Bridge \<Rightarrow> co_Network \<Rightarrow> FireWall \<Rightarrow> co_Network \<times> FireWall" where
  "Switch_preWorker ho subnet br cfg f =
     (cfg\<lparr>cn_OpenVPN := map_option (Switch_preWorkerVPN ho subnet (cn_Routes cfg)) (cn_OpenVPN cfg)\<rparr>,
      if br_Mss br > 0 then FireWall_AddRule (mss_rule br) f else f)"

fun Switch_preNetVPN0 :: "string \<Rightarrow> OpenVPN \<Rightarrow> FireWall \<Rightarrow> FireWall" where
  "Switch_preNetVPN0 acl (OpenVPN d breed) f =
     (let f = Switch_enableAcl acl (ov_Device d) f;
          f = fold (\<lambda>rt f. Switch_enableMasq (ov_Device d) [] (ov_Subnet d) rt (Switch_enableFwd (ov_Device d) [] (ov_Subnet d) rt f)) (ov_Routes d) f
      in fold (\<lambda>v f. Switch_preNetVPN0 acl v f) breed f)"

fun Switch_preNetVPN1 :: "string \<Rightarrow> string \<Rightarrow> OpenVPN \<Rightarrow> FireWall \<Rightarrow> FireWall" where
  "Switch_preNetVPN1 bridge prefix (OpenVPN d breed) f =
     (let f = Switch_enableMasq [] bridge (ov_Subnet d) prefix (Switch_enableFwd [] bridge (ov_Subnet d) prefix f)
      in fold (\<lambda>v f. Switch_preNetVPN1 bridge prefix v f) breed f)"

definition preNet_route :: "string \<Rightarrow> string \<Rightarrow> string \<Rightarrow> OpenVPN option \<Rightarrow> PrefixRoute \<Rightarrow> FireWall \<Rightarrow> FireWall" where
  "preNet_route brName ifAddr subnet vCfg rt f =
     (let f = (case vCfg of None \<Rightarrow> f | Some v \<Rightarrow> Switch_preNetVPN1 brName (pr_Prefix rt) v f)
      in if pr_NextHop rt \<noteq> ifAddr then f
         else let f = Switch_enableFwd brName [] subnet (pr_Prefix rt) f
              in if pr_MultiPath rt \<noteq> None then Switch_enableSnat brName [] ifAddr (pr_Prefix rt) f
                 else if pr_Mode rt = ''snat'' then Switch_enableMasq brName [] subnet (pr_Prefix rt) f
                 else f)"

definition preNet_rules :: "string \<Rightarrow> string \<Rightarrow> string \<Rightarrow> co_Network \<Rightarrow> FireWall \<Rightarrow> FireWall" where
  "preNet_rules brName ifAddr subnet nCfg f =
     (let f = Switch_enableAcl (cn_Acl nCfg) brName f;
          f = Switch_enableFwd brName brName [] [] f;
          f = (case cn_OpenVPN nCfg of None \<Rightarrow> f | Some v \<Rightarrow> Switch_preNetVPN0 (cn_Acl nCfg) v f)
      in if ifAddr = [] then f else fold (preNet_route brName ifAddr subnet (cn_OpenVPN nCfg)) (cn_Routes nCfg) f)"

text \<open>One turn of the loop of \<open>preNets\<close>; the subnet is asked for only when there is a VPN or an address.\<close>

definition preNet :: "host \<Rightarrow> co_Network \<Rightarrow> FireWall \<Rightarrow> (co_Network \<times> FireWall) result" where
  "preNet ho nCfg f =
     (case cn_Bridge nCfg of
        None \<Rightarrow> Inr (nCfg, f)
      | Some br \<Rightarrow>
          (let ifAddr = hd (SplitN (br_Address br) (CHR ''/'') 2)
           in case (if cn_OpenVPN nCfg = None \<and> ifAddr = [] then Inr [] else GetSubnet ho nCfg) of
                Inl e \<Rightarrow> Inl e
              | Inr subnet \<Rightarrow>
                  (let (nCfg, f) = Switch_preWorker ho subnet br nCfg f
                   in Inr (nCfg, preNet_rules (br_Name br) ifAddr subnet nCfg f))))"

fun Switch_preNets :: "host \<Rightarrow> co_Network list \<Rightarrow> FireWall \<Rightarrow> (co_Network list \<times> FireWall) result" where
  "Switch_preNets ho [] f = Inr ([], f)"
| "Switch_preNets ho (n # ns) f =
     (case preNet ho n f of
        Inl e \<Rightarrow> Inl e
      | Inr (n, f) \<Rightarrow> (case Switch_preNets ho ns f of Inl e \<Rightarrow> Inl e | Inr (ns, f) \<Rightarrow> Inr (n # ns, f)))"

definition Switch_preAcl :: "ACL list \<Rightarrow> FireWall \<Rightarrow> FireWall" where
  "Switch_preAcl acls f = fold (\<lambda>acl f.
     if acl_Name acl = [] then f
     else fold (\<lambda>rule. FireWall_AddRule (empty_rule\<lparr>ru_Table := ''raw'', ru_Chain := acl_Name acl, ru_Source := acr_SrcIp rule,
            ru_Dest := acr_DstIp rule, ru_Proto := acr_Proto rule, ru_SrcPort := acr_SrcPort rule, ru_DstPort := acr_DstPort rule,
            ru_Jump := acr_Action rule\<rparr>)) (acl_Rules acl)
          (FireWall_AddChain \<lparr>ch_Table = ''raw'', ch_Name = acl_Name acl\<rparr> f)) acls f"

definition Switch_GetPort :: "string \<Rightarrow> string" where
  "Switch_GetPort listen = snd (GetHostPort listen)"

fun Switch_preAllowVPN :: "OpenVPN \<Rightarrow> FireWall \<Rightarrow> FireWall" where
  "Switch_preAllowVPN (OpenVPN d breed) f =
     (let f = Switch_enablePort (if ov_Protocol d = ''udp'' then ''udp'' else ''tcp'') (Switch_GetPort (ov_Listen d)) f
      in fold (\<lambda>v f. Switch_preAllowVPN v f) breed f)"

definition Switch_preAllow :: "co_Switch \<Rightarrow> FireWall \<Rightarrow> FireWall" where
  "Switch_preAllow cfg f =
     (let port = Switch_GetPort (cs_Listen cfg);
          UdpPorts = [''4500'', ''4600'', ''8472'', ''4789'', port];
          TcpPorts = [''7471'', port];
          TcpPorts = (case cs_Http cfg of None \<Rightarrow> TcpPorts | Some h \<Rightarrow> TcpPorts @ [Switch_GetPort (ht_Listen h)]);
          f = Switch_enablePort ''udp'' (Join '','' UdpPorts) f;
          f = Switch_enablePort ''tcp'' (Join '','' TcpPorts) f
      in fold (\<lambda>nCfg f. case cn_OpenVPN nCfg of None \<Rightarrow> f | Some v \<Rightarrow> Switch_preAllowVPN v f) (cs_Network cfg) f)"

text \<open>What \<open>NewSwitch\<close> and \<open>Initialize\<close> do with the firewall, in this order.\<close>

definition Switch_firewall :: "host \<Rightarrow> co_Switch \<Rightarrow> FireWall result" where
  "Switch_firewall ho cfg =
     (let f = NewFireWall (cs_FireWall cfg);
          f = Switch_preAcl (cs_Acl cfg) f;
          f = Switch_preAllow cfg f
      in case Switch_preNets ho (cs_Network cfg) f of
           Inl e \<Rightarrow> Inl e
         | Inr (_, f) \<Rightarrow> Inr (FireWall_Initialize f))"

definition Switch_SetLdap :: "'l ldap \<Rightarrow> LDAP option \<Rightarrow> 'l user \<Rightarrow> 'l user" where
  "Switch_SetLdap ld cfg w =
     (case cfg of
        None \<Rightarrow> w
      | Some l \<Rightarrow> if la_Server l = [] then w
          else user_SetLdap ld \<lparr>lc_Server = la_Server l, lc_BindDN = la_BindDN l, lc_Password = la_Password l, lc_BaseDN = la_BaseDN l,
                 lc_Attr = la_Attribute l, lc_Filter = la_Filter l, lc_EnableTls = la_EnableTls l, lc_Timeout = 0\<rparr> w)"

section \<open>Rules and chains are only added\<close>

text \<open>\<open>f'\<close> is \<open>f\<close> with more chains, and more rules that can all be installed.\<close>

definition fw_ext :: "FireWall \<Rightarrow> FireWall \<Rightarrow> bool" where
  "fw_ext f f' \<longleftrightarrow> set (fw_chains f) \<subseteq> set (fw_chains f') \<and> set (fw_rules f) \<subseteq> set (fw_rules f') \<and>
     (\<forall>r \<in> set (fw_rules f') - set (fw_rules f). rule_ok r)"

named_theorems fw_exts

lemma fw_ext_refl [fw_exts]: "fw_ext f f"
  by (simp add: fw_ext_def)

lemma fw_ext_trans: "fw_ext f g \<Longrightarrow> fw_ext g h \<Longrightarrow> fw_ext f h"
  unfolding fw_ext_def by blast

lemma fw_ext_AddRule: "rule_ok r \<Longrightarrow> fw_ext f g \<Longrightarrow> fw_ext f (FireWall_AddRule r g)"
  by (auto simp: fw_ext_def FireWall_AddRule_def IpRules_Add_def)

lemma fw_ext_AddChain: "fw_ext f g \<Longrightarrow> fw_ext f (FireWall_AddChain c g)"
  by (auto simp: fw_ext_def FireWall_AddChain_def IpChains_Add_def)

lemma fw_ext_fold: "(\<And>x g. x \<in> set xs \<Longrightarrow> fw_ext g (h x g)) \<Longrightarrow> fw_ext f (fold h xs f)"
  by (induction xs arbitrary: f) (auto intro: fw_ext_refl fw_ext_trans)

lemma rule_ok_plain: "ru_TcpFlag r = [] \<Longrightarrow> ru_Order r = [] \<Longrightarrow> rule_ok r"
  by (simp add: rule_ok_def rule_order_def)

lemma rules_ok [simp]:
  "rule_ok (fwd_rule i o' s p)" "rule_ok (masq_rule s p)" "rule_ok (snat_rule s p)" "rule_ok (acl_rule a i)" "rule_ok (mss_rule br)"
  by (simp_all add: rule_ok_def rule_order_def fwd_rule_def masq_rule_def snat_rule_def acl_rule_def mss_rule_def empty_rule_def)

lemma enable_ext [fw_exts]:
  "fw_ext f (Switch_enablePort pr po f)" "fw_ext f (Switch_enableFwd i o' s p f)" "fw_ext f (Switch_enableMasq i o' s p f)"
  "fw_ext f (Switch_enableSnat i o' s p f)" "fw_ext f (Switch_enableAcl a i f)"
  unfolding Switch_enablePort_def Switch_enableFwd_def Switch_enableMasq_def Switch_enableSnat_def Switch_enableAcl_def Let_def
  by (auto intro!: fw_ext_AddRule fw_ext_refl rules_ok) (simp_all add: rule_ok_plain empty_rule_def)

lemma preNetVPN0_ext [fw_exts]: "fw_ext f (Switch_preNetVPN0 acl v f)"
proof (induction acl v f rule: Switch_preNetVPN0.induct)
  case (1 acl d breed f)
  show ?case unfolding Switch_preNetVPN0.simps Let_def
    by (rule fw_ext_trans [OF enable_ext(5)], rule fw_ext_trans, rule fw_ext_fold, rule fw_ext_trans [OF enable_ext(2) enable_ext(3)])
       (rule fw_ext_fold, rule 1 [OF refl refl])
qed

lemma preNetVPN1_ext [fw_exts]: "fw_ext f (Switch_preNetVPN1 bridge prefix v f)"
proof (induction bridge prefix v f rule: Switch_preNetVPN1.induct)
  case (1 bridge prefix d breed f)
  show ?case unfolding Switch_preNetVPN1.simps Let_def
    by (rule fw_ext_trans [OF fw_ext_trans [OF enable_ext(2) enable_ext(3)]], rule fw_ext_fold, rule 1 [OF refl])
qed

lemma preAllowVPN_ext [fw_exts]: "fw_ext f (Switch_preAllowVPN v f)"
proof (induction v f rule: Switch_preAllowVPN.induct)
  case (1 d breed f)
  show ?case unfolding Switch_preAllowVPN.simps Let_def
    by (rule fw_ext_trans [OF enable_ext(1)], rule fw_ext_fold, rule 1 [OF refl])
qed

lemma preNet_route_ext [fw_exts]: "fw_ext f (preNet_route br a s v rt f)"
proof -
  have "fw_ext f (case v of None \<Rightarrow> f | Some v \<Rightarrow> Switch_preNetVPN1 br (pr_Prefix rt) v f)"
    by (cases v) (simp_all add: fw_exts)
  then show ?thesis unfolding preNet_route_def Let_def
    by (auto intro: fw_ext_trans [OF _ enable_ext(2)] fw_ext_trans [OF fw_ext_trans [OF _ enable_ext(2)] enable_ext(3)]
        fw_ext_trans [OF fw_ext_trans [OF _ enable_ext(2)] enable_ext(4)])
qed

lemma preWorker_ext [fw_exts]: "fw_ext f (snd (Switch_preWorker ho s br cfg f))"
  by (simp add: Switch_preWorker_def fw_ext_refl fw_ext_AddRule)

lemma preNet_vpn_ext: "fw_ext f (case v of None \<Rightarrow> f | Some v \<Rightarrow> Switch_preNetVPN0 acl v f)"
  by (simp add: fw_exts split: option.split)

lemma preNet_fold_ext: "fw_ext f g \<Longrightarrow> fw_ext f (if a = [] then g else fold (preNet_route br a s v) rts g)"
  by (simp add: fw_ext_trans [OF _ fw_ext_fold [OF preNet_route_ext]])

lemma preNet_rules_ext [fw_exts]: "fw_ext f (preNet_rules br a s n f)"
  unfolding preNet_rules_def Let_def
  by (rule preNet_fold_ext, rule fw_ext_trans [OF fw_ext_trans [OF enable_ext(5) enable_ext(2)] preNet_vpn_ext])

lemma preNet_ext:
  assumes "preNet ho n f = Inr (n', f')"
  shows "fw_ext f f'"
proof (cases "cn_Bridge n")
  case (Some br)
  with assms obtain s g m where g: "Switch_preWorker ho s br n f = (m, g)" and "f' = preNet_rules (br_Name br) (hd (SplitN (br_Address br) (CHR ''/'') 2)) s m g"
    by (auto simp: preNet_def Let_def split: sum.splits prod.splits)
  moreover have "fw_ext f g" using preWorker_ext [of f ho s br n] g by simp
  ultimately show ?thesis by (auto intro: fw_ext_trans preNet_rules_ext)
qed (use assms in \<open>simp add: preNet_def fw_ext_refl\<close>)

lemma preNets_ext: "Switch_preNets ho ns f = Inr (ns', f') \<Longrightarrow> fw_ext f f'"
  by (induction ns arbitrary: f ns') (auto intro: fw_ext_refl fw_ext_trans dest!: preNet_ext split: sum.splits prod.splits)

lemma preAcl_ext [fw_exts]: "fw_ext f (Switch_preAcl acls f)"
  unfolding Switch_preAcl_def
  by (auto intro!: fw_ext_fold fw_ext_refl fw_ext_trans [OF fw_ext_AddChain [OF fw_ext_refl] fw_ext_fold] fw_ext_AddRule
      simp: rule_ok_plain empty_rule_def)

lemma preAllow_ext [fw_exts]: "fw_ext f (Switch_preAllow cfg f)"
  unfolding Switch_preAllow_def Let_def
  by (rule fw_ext_trans [OF fw_ext_trans [OF enable_ext(1) enable_ext(1)]], rule fw_ext_fold) (auto simp: fw_exts split: option.split)

lemma NewFireWall_ok: "\<forall>r \<in> set (fw_rules (NewFireWall flows)). rule_ok r"
proof -
  have "fw_ext \<lparr>fw_chains = [], fw_rules = []\<rparr> (NewFireWall flows)" unfolding NewFireWall_def
    by (rule fw_ext_fold) (auto simp: fw_ext_def IpRules_Add_def rule_ok_plain empty_rule_def)
  then show ?thesis by (simp add: fw_ext_def)
qed

lemma FireWall_Initialize_ext: "fw_ext f (FireWall_Initialize f)"
  unfolding FireWall_Initialize_def FireWall_jumpOLC_def FireWall_addOLC_def
  by (rule fw_ext_trans, rule fw_ext_fold, rule fw_ext_AddChain [OF fw_ext_refl], rule fw_ext_fold, rule fw_ext_AddRule [OF _ fw_ext_refl])
     (auto simp: rule_ok_def rule_order_def empty_rule_def)

lemma Switch_firewall_cases:
  assumes "Switch_firewall ho cfg = Inr f"
  obtains f0 f1 ns where "\<forall>r \<in> set (fw_rules f0). rule_ok r" and "Switch_preNets ho (cs_Network cfg) f0 = Inr (ns, f1)"
    and "fw_ext f1 f"
proof -
  let ?f = "Switch_preAllow cfg (Switch_preAcl (cs_Acl cfg) (NewFireWall (cs_FireWall cfg)))"
  from assms obtain ns f1 where "Switch_preNets ho (cs_Network cfg) ?f = Inr (ns, f1)" "f = FireWall_Initialize f1"
    by (auto simp: Switch_firewall_def Let_def split: sum.splits)
  moreover have "fw_ext (NewFireWall (cs_FireWall cfg)) ?f" by (rule fw_ext_trans [OF preAcl_ext preAllow_ext])
  then have "\<forall>r \<in> set (fw_rules ?f). rule_ok r" using NewFireWall_ok unfolding fw_ext_def by blast
  ultimately show thesis using that FireWall_Initialize_ext by blast
qed

section \<open>What the rules do\<close>


lemma fold_reaches:
  assumes "x \<in> set xs" and "\<And>g. R (h x g)" and "\<And>y g. R g \<Longrightarrow> R (h y g)"
  shows "R (fold h xs f)"
  using assms(1)
proof (induction xs arbitrary: f)
  case (Cons y xs)
  have keep: "R g \<Longrightarrow> R (fold h ys g)" for ys g by (induction ys arbitrary: g) (auto intro: assms(3))
  show ?case using Cons assms(2) keep by (cases "x = y") auto
qed simp

text \<open>The rules a network gets for a route that leaves through its bridge.\<close>

definition route_rules :: "string \<Rightarrow> string \<Rightarrow> string \<Rightarrow> PrefixRoute \<Rightarrow> IpRule set" where
  "route_rules br ifAddr subnet rt = {fwd_rule br [] subnet (pr_Prefix rt)} \<union>
     (if subnet \<noteq> pr_Prefix rt then {fwd_rule [] br (pr_Prefix rt) subnet} else {}) \<union>
     (if pr_MultiPath rt \<noteq> None then if ifAddr \<noteq> pr_Prefix rt then {snat_rule ifAddr (pr_Prefix rt)} else {}
      else if pr_Mode rt = ''snat'' \<and> subnet \<noteq> pr_Prefix rt then {masq_rule subnet (pr_Prefix rt)} else {})"

lemma preNet_route_rules: "pr_NextHop rt = a \<Longrightarrow> route_rules br a s rt \<subseteq> set (fw_rules (preNet_route br a s v rt f))"
  by (auto simp: preNet_route_def route_rules_def Let_def Switch_enableFwd_def Switch_enableMasq_def Switch_enableSnat_def
      FireWall_AddRule_def IpRules_Add_def)

lemma preNet_complete:
  assumes "preNet ho n f = Inr (n', f')" and "cn_Bridge n = Some br" and "hd (SplitN (br_Address br) (CHR ''/'') 2) = a" and "a \<noteq> []"
    and "GetSubnet ho n = Inr s" and "rt \<in> set (cn_Routes n)" and "pr_NextHop rt = a"
  shows "route_rules (br_Name br) a s rt \<subseteq> set (fw_rules f')"
proof -
  obtain m g where g: "Switch_preWorker ho s br n f = (m, g)" by fastforce
  then have m: "cn_Routes m = cn_Routes n" by (auto simp: Switch_preWorker_def)
  obtain g' where "f' = fold (preNet_route (br_Name br) a s (cn_OpenVPN m)) (cn_Routes m) g'"
    using assms g by (auto simp: preNet_def preNet_rules_def Let_def)
  moreover have "route_rules (br_Name br) a s rt \<subseteq> set (fw_rules (fold (preNet_route (br_Name br) a s (cn_OpenVPN m)) (cn_Routes m) g'))"
  proof (rule fold_reaches)
    show "rt \<in> set (cn_Routes m)" using m assms(6) by simp
    show "route_rules (br_Name br) a s rt \<subseteq> set (fw_rules (preNet_route (br_Name br) a s (cn_OpenVPN m) rt g))" for g
      by (rule preNet_route_rules [OF assms(7)])
    show "route_rules (br_Name br) a s rt \<subseteq> set (fw_rules (preNet_route (br_Name br) a s (cn_OpenVPN m) y g))"
      if "route_rules (br_Name br) a s rt \<subseteq> set (fw_rules g)" for y g
      using that preNet_route_ext [of g "br_Name br" a s "cn_OpenVPN m" y] unfolding fw_ext_def by blast
  qed
  ultimately show ?thesis by simp
qed

lemma preNet_acl:
  assumes "preNet ho n f = Inr (n', f')" and "cn_Bridge n = Some br" and "br_Name br \<noteq> []" and "cn_Acl n \<noteq> []"
  shows "acl_rule (cn_Acl n) (br_Name br) \<in> set (fw_rules f')"
proof -
  obtain s m g where g: "Switch_preWorker ho s br n f = (m, g)" "f' = preNet_rules (br_Name br) (hd (SplitN (br_Address br) (CHR ''/'') 2)) s m g"
    using assms by (auto simp: preNet_def Let_def split: sum.splits prod.splits)
  then have m: "cn_Acl m = cn_Acl n" by (auto simp: Switch_preWorker_def)
  let ?g = "Switch_enableAcl (cn_Acl m) (br_Name br) g"
  have "acl_rule (cn_Acl n) (br_Name br) \<in> set (fw_rules ?g)"
    using assms m by (simp add: Switch_enableAcl_def FireWall_AddRule_def IpRules_Add_def)
  moreover have "fw_ext ?g f'" unfolding g(2) preNet_rules_def Let_def
    by (rule preNet_fold_ext, rule fw_ext_trans [OF enable_ext(2) preNet_vpn_ext])
  ultimately show ?thesis by (auto simp: fw_ext_def)
qed

lemma preNets_each:
  assumes "Switch_preNets ho ns f = Inr (ns', f')" and "n \<in> set ns"
  obtains g n' g' where "preNet ho n g = Inr (n', g')" and "fw_ext g' f'"
  using assms
proof (induction ns arbitrary: f ns' thesis)
  case (Cons m ns)
  then obtain m' g ms where m: "preNet ho m f = Inr (m', g)" "Switch_preNets ho ns g = Inr (ms, f')"
    by (auto split: sum.splits prod.splits)
  show ?case
  proof (cases "n = m")
    case True
    with m preNets_ext [OF m(2)] Cons.prems(1) show ?thesis by blast
  next
    case False
    with Cons.IH [OF _ m(2)] Cons.prems(1,3) show ?thesis by auto
  qed
qed simp


text \<open>A switch with one network and a route to translate.\<close>

definition bridge_demo :: co_Bridge where
  "bridge_demo = zero_bridge\<lparr>br_Network := ''dev'', br_Name := ''br-dev'', br_Address := ''192.168.10.1/24''\<rparr>"

definition route_demo :: PrefixRoute where
  "route_demo = \<lparr>pr_File = [], pr_Network = [], pr_Prefix = ''10.0.0.0/8'', pr_NextHop = ''192.168.10.1'', pr_MultiPath = None,
     pr_Metric = 660, pr_Mode = ''snat''\<rparr>"

definition network_demo :: co_Network where
  "network_demo = conf_demo\<lparr>cn_Bridge := Some bridge_demo, cn_Routes := [route_demo], cn_Acl := ''a'',
     cn_Subnet := Some \<lparr>is_Network = [], is_Start = [], is_End = [], is_Netmask = ''255.255.255.0''\<rparr>\<rparr>"

definition switch_demo :: co_Switch where
  "switch_demo = \<lparr>cs_File = [], cs_Alias = [], cs_Perf = DefaultPerf, cs_Protocol = ''tcp'', cs_Listen = ''0.0.0.0:10002'', cs_Timeout = 120,
     cs_Http = None, cs_Log = \<lparr>lg_File = [], lg_Verbose = 20\<rparr>, cs_Cert = None, cs_Crypt = None, cs_Network = [network_demo],
     cs_Acl = [\<lparr>acl_File = [], acl_Name = ''a'', acl_Rules = []\<rparr>], cs_FireWall = [], cs_Inspect = [], cs_Queue = zero_queue, cs_PassFile = [],
     cs_Ldap = None, cs_AddrPool = ''100.44'', cs_ConfDir = [], cs_TokenFile = []\<rparr>"

lemma network_demo_facts:
  "network_demo \<in> set (cs_Network switch_demo)" "cn_Bridge network_demo = Some bridge_demo" "br_Name bridge_demo \<noteq> []"
  "fst (split_at (CHR ''/'') (br_Address bridge_demo)) = ''192.168.10.1''" "''192.168.10.1'' \<noteq> ([] :: string)"
  "route_demo \<in> set (cn_Routes network_demo)" "pr_NextHop route_demo = ''192.168.10.1''"
  by (simp_all add: switch_demo_def network_demo_def bridge_demo_def route_demo_def)

lemma network_demo_subnet: "GetSubnet host_demo network_demo = Inr ''192.168.10.0/24''"
  by code_simp

lemma preNet_returns: "GetSubnet ho n = Inr s \<Longrightarrow> \<exists>n' f'. preNet ho n f = Inr (n', f')"
  by (auto simp: preNet_def Let_def split: option.split prod.split)

lemma switch_demo_firewall: obtains f where "Switch_firewall host_demo switch_demo = Inr f"
proof -
  let ?f = "Switch_preAllow switch_demo (Switch_preAcl (cs_Acl switch_demo) (NewFireWall (cs_FireWall switch_demo)))"
  obtain n' f' where "preNet host_demo network_demo ?f = Inr (n', f')" using preNet_returns [OF network_demo_subnet] by blast
  moreover have "cs_Network switch_demo = [network_demo]" by (simp add: switch_demo_def)
  ultimately have "Switch_firewall host_demo switch_demo = Inr (FireWall_Initialize f')" by (simp add: Switch_firewall_def Let_def)
  with that show thesis .
qed



end
