(* ===== verification/Fabric.thy ===== *)
theory Fabric
  imports Rules
begin

text \<open>The worker of a fabric network (\<open>src/pkg/olsw/fabric.go\<close>): it makes an Open vSwitch bridge, adds tunnels to other switches and a
  patch port for each network, and installs the flows that learn addresses and forward between them. The worker is modelled with
  the sequence of commands it gives to Open vSwitch and to the kernel; errors that are only logged do not appear. What a command
  returns is a field of the environment.\<close>

section \<open>Flows\<close>

text \<open>A match is a field and a value; \<open>Learn\<close> has the fields of \<open>LearnedFlow\<close> that are used: table, matches, priority, hard timeout and
  actions.\<close>

datatype Action = Drop | Load string string | Resubmit int int | Output int | OutputField string
  | Learn int "(string \<times> string) list" int int "Action list"

record Flow =
  of_Table :: int
  of_Priority :: int
  of_InPort :: int
  of_Matches :: "(string \<times> string) list"
  of_Actions :: "Action list"

definition zero_flow :: Flow where
  "zero_flow = \<lparr>of_Table = 0, of_Priority = 0, of_InPort = 0, of_Matches = [], of_Actions = []\<rparr>"

definition TLsToTun :: int where "TLsToTun = 2"
definition TTunToLs :: int where "TTunToLs = 4"
definition TSourceLearn :: int where "TSourceLearn = 10"
definition TUcastToTun :: int where "TUcastToTun = 20"
definition TFloodToTun :: int where "TFloodToTun = 30"
definition TFloodToBor :: int where "TFloodToBor = 31"
definition TFloodLoop :: int where "TFloodLoop = 32"
definition FFromLs :: u32 where "FFromLs = 2"
definition FFromTun :: u32 where "FFromTun = 4"
definition MatchRegFlag :: string where "MatchRegFlag = ''reg10''"
definition NxmRegFlag :: string where "NxmRegFlag = ''NXM_NX_REG10[0..31]''"
definition NxmRegEthDst :: string where "NxmRegEthDst = ''NXM_OF_ETH_DST[]''"
definition NxmRegEthSrc :: string where "NxmRegEthSrc = ''NXM_OF_ETH_SRC[]''"
definition NxmRegTunId :: string where "NxmRegTunId = ''NXM_NX_TUN_ID[0..31]''"
definition NxmRegInPort :: string where "NxmRegInPort = ''NXM_OF_IN_PORT[]''"

lemmas table_defs = TLsToTun_def TTunToLs_def TSourceLearn_def TUcastToTun_def TFloodToTun_def TFloodToBor_def TFloodLoop_def
lemmas field_defs = MatchRegFlag_def NxmRegFlag_def NxmRegEthDst_def NxmRegEthSrc_def NxmRegTunId_def NxmRegInPort_def

section \<open>The worker\<close>

record InterfaceOptions =
  io_Type :: string
  io_BfdEnable :: bool
  io_RemoteIP :: string
  io_Key :: string
  io_DstPort :: u32
  io_DfDefault :: string

record OvsPort =
  op_name :: string
  op_portId :: int
  op_options :: "InterfaceOptions option"

record OvsNetwork =
  on_bridge :: string
  on_vni :: u32
  on_patch :: OvsPort

datatype ovs_call = AddBridge | SetFailMode string | AddFlow Flow | DelFlows | AddPort string | SetInterface string InterfaceOptions
  | DeletePort string | VethAdd string string | LinkSetUp string | BridgeOpen string string | BridgeAddSlave string string
  | BridgeCallIptables string | VlanAdd string string int | BrAddPort string string | LinkDel string | BridgeClose string

record FabricWorker =
  fa_cfg :: co_Network
  fa_spec :: "FabricSpecifies option"
  fa_ovs :: string
  fa_tunnels :: "(string \<times> OvsPort) list"
  fa_borders :: "(string \<times> OvsPort) list"
  fa_networks :: "(u32 \<times> OvsNetwork) list"
  fa_bridges :: "string list"
  fa_calls :: "ovs_call list"

text \<open>What the commands return: \<open>DumpPort\<close> gives the number of a port, \<open>LinkByName\<close> whether there is such a link.\<close>

record fabricenv =
  fe_AddBridge :: "error option"
  fe_AddPort :: "string \<Rightarrow> error option"
  fe_SetInterface :: "string \<Rightarrow> error option"
  fe_DumpPort :: "string \<Rightarrow> int option"
  fe_LinkByName :: "string \<Rightarrow> bool"
  fe_LinkAdd :: "string \<Rightarrow> error option"

abbreviation call :: "ovs_call \<Rightarrow> FabricWorker \<Rightarrow> FabricWorker" where
  "call c w \<equiv> w\<lparr>fa_calls := fa_calls w @ [c]\<rparr>"

definition OvsBridge_addFlow :: "Flow \<Rightarrow> FabricWorker \<Rightarrow> FabricWorker" where
  "OvsBridge_addFlow flow w = call (AddFlow flow) w"

definition OvsBridge_addPort :: "fabricenv \<Rightarrow> string \<Rightarrow> InterfaceOptions option \<Rightarrow> FabricWorker \<Rightarrow> FabricWorker upd" where
  "OvsBridge_addPort env name options w =
     (let w = call (AddPort name) w
      in case fe_AddPort env name of
           Some e \<Rightarrow> (w, Some e)
         | None \<Rightarrow> (case options of
             None \<Rightarrow> (w, None)
           | Some o' \<Rightarrow> (call (SetInterface name o') w, fe_SetInterface env name)))"

definition OvsBridge_delPort :: "string \<Rightarrow> FabricWorker \<Rightarrow> FabricWorker" where
  "OvsBridge_delPort name w = call (DeletePort name) w"

definition NewFabricWorker :: "co_Network \<Rightarrow> FabricWorker result" where
  "NewFabricWorker c =
     (case cn_Bridge c of
        None \<Rightarrow> Inl nil_deref
      | Some br \<Rightarrow> Inr \<lparr>fa_cfg = c, fa_spec = (case cn_Specifies c of SpecFabric s \<Rightarrow> Some s | _ \<Rightarrow> None), fa_ovs = br_Name br,
          fa_tunnels = [], fa_borders = [], fa_networks = [], fa_bridges = [], fa_calls = []\<rparr>)"

definition FabricWorker_addLearning :: "FabricWorker \<Rightarrow> FabricWorker" where
  "FabricWorker_addLearning w =
     (let learnSpecs = [(NxmRegTunId, NxmRegTunId), (NxmRegEthDst, NxmRegEthSrc)];
          learnActions = [OutputField NxmRegInPort]
      in OvsBridge_addFlow (zero_flow\<lparr>of_Table := TSourceLearn,
           of_Actions := [Learn TUcastToTun learnSpecs 1 300 learnActions, Resubmit 0 TUcastToTun]\<rparr>) w)"

definition FabricWorker_upTables :: "FabricWorker \<Rightarrow> FabricWorker" where
  "FabricWorker_upTables w =
     (let w = OvsBridge_addFlow (zero_flow\<lparr>of_Actions := [Drop]\<rparr>) w;
          w = OvsBridge_addFlow (zero_flow\<lparr>of_Table := TLsToTun, of_Priority := 1,
                of_Actions := [Load (Uint2S FFromLs) NxmRegFlag, Resubmit 0 TSourceLearn]\<rparr>) w;
          w = OvsBridge_addFlow (zero_flow\<lparr>of_Table := TTunToLs, of_Priority := 1,
                of_Actions := [Load (Uint2S FFromTun) NxmRegFlag, Resubmit 0 TSourceLearn]\<rparr>) w;
          w = FabricWorker_addLearning w;
          w = OvsBridge_addFlow (zero_flow\<lparr>of_Table := TUcastToTun, of_Actions := [Resubmit 0 TFloodToTun]\<rparr>) w;
          w = OvsBridge_addFlow (zero_flow\<lparr>of_Table := TFloodToTun, of_Actions := [Drop]\<rparr>) w
      in OvsBridge_addFlow (zero_flow\<lparr>of_Table := TFloodToBor, of_Actions := [Drop]\<rparr>) w)"

definition FabricWorker_Initialize :: "fabricenv \<Rightarrow> FabricWorker \<Rightarrow> FabricWorker" where
  "FabricWorker_Initialize env w =
     (let w = call AddBridge w
      in if fe_AddBridge env \<noteq> None then w
         else FabricWorker_upTables (call (SetFailMode ''secure'') w))"

definition vni2peer :: "u32 \<Rightarrow> string \<times> string" where
  "vni2peer vni = (''vt-'' @ pad8 (unat vni), ''vb-'' @ pad8 (unat vni))"

text \<open>The port number of a port that \<open>DumpPort\<close> does not find stays zero.\<close>

definition FabricWorker_UpLink :: "fabricenv \<Rightarrow> string \<Rightarrow> u32 \<Rightarrow> string \<Rightarrow> FabricWorker \<Rightarrow> FabricWorker \<times> OvsNetwork" where
  "FabricWorker_UpLink env bridge vni addr w =
     (let (brPort, tunPort) = vni2peer vni;
          w = call (VethAdd tunPort brPort) w;
          w = call (LinkSetUp tunPort) w;
          w = call (BridgeOpen bridge addr) w;
          w = call (BridgeAddSlave bridge brPort) w;
          w = call (BridgeCallIptables bridge) w;
          w = w\<lparr>fa_bridges := List.insert bridge (fa_bridges w)\<rparr>;
          (w, _) = OvsBridge_addPort env tunPort None w
      in (w, \<lparr>on_bridge = bridge, on_vni = vni, on_patch = \<lparr>op_name = tunPort,
            op_portId = (case fe_DumpPort env tunPort of None \<Rightarrow> 0 | Some n \<Rightarrow> n), op_options = None\<rparr>\<rparr>))"

definition FabricWorker_AddNetwork :: "fabricenv \<Rightarrow> FabricNetwork \<Rightarrow> FabricWorker \<Rightarrow> FabricWorker" where
  "FabricWorker_AddNetwork env cfg w =
     (let (w, net) = FabricWorker_UpLink env (fn_Bridge cfg) (fn_Vni cfg) (fn_Address cfg) w;
          patchPort = op_portId (on_patch net);
          w = OvsBridge_addFlow (zero_flow\<lparr>of_InPort := patchPort, of_Priority := 1,
                of_Actions := [Load (Uint2S (fn_Vni cfg)) NxmRegTunId, Resubmit 0 TLsToTun]\<rparr>) w;
          w = w\<lparr>fa_networks := AList.update (fn_Vni cfg) net (fa_networks w)\<rparr>;
          w = OvsBridge_addFlow (zero_flow\<lparr>of_Table := TFloodToTun, of_Priority := 2,
                of_Matches := [(NxmRegTunId, Uint2S (fn_Vni cfg)), (MatchRegFlag, Uint2S FFromTun)],
                of_Actions := [Output patchPort, Resubmit 0 TFloodToBor]\<rparr>) w
      in OvsBridge_addFlow (zero_flow\<lparr>of_Table := TFloodLoop, of_Priority := 2,
                of_Matches := [(NxmRegTunId, Uint2S (fn_Vni cfg)), (MatchRegFlag, Uint2S FFromLs)],
                of_Actions := [Output patchPort]\<rparr>) w)"

definition FabricWorker_AddOutput :: "fabricenv \<Rightarrow> string \<Rightarrow> int \<Rightarrow> string \<Rightarrow> FabricWorker \<Rightarrow> FabricWorker" where
  "FabricWorker_AddOutput env bridge vlan output w =
     (if \<not> fe_LinkByName env output then w
      else let w = call (LinkSetUp output) w;
               name = output @ ''.'' @ show_int vlan;
               w = call (VlanAdd name output vlan) w
           in if fe_LinkAdd env name \<noteq> None then w else call (BrAddPort bridge name) w)"

definition Addr2Port :: "string \<Rightarrow> string \<Rightarrow> string" where
  "Addr2Port addr pre = IfName (pre @ filter (\<lambda>c. c \<noteq> CHR ''.'') addr)"

definition FabricWorker_flood2Tunnel :: "FabricWorker \<Rightarrow> FabricWorker" where
  "FabricWorker_flood2Tunnel w =
     (let actions = map (\<lambda>(_, tun). Output (op_portId tun)) (fa_tunnels w) @ [Resubmit 0 TFloodToBor]
      in OvsBridge_addFlow (zero_flow\<lparr>of_Table := TFloodToTun, of_Priority := 1, of_Matches := [(MatchRegFlag, Uint2S FFromLs)],
           of_Actions := actions\<rparr>) w)"

definition FabricWorker_flood2Border :: "FabricWorker \<Rightarrow> FabricWorker" where
  "FabricWorker_flood2Border w =
     (let actions = map (\<lambda>(_, port). Output (op_portId port)) (fa_borders w);
          w = OvsBridge_addFlow (zero_flow\<lparr>of_Table := TFloodToBor, of_Priority := 1, of_Matches := [(MatchRegFlag, Uint2S FFromTun)],
                of_Actions := actions\<rparr>) w
      in OvsBridge_addFlow (zero_flow\<lparr>of_Table := TFloodToBor, of_Priority := 1, of_Matches := [(MatchRegFlag, Uint2S FFromLs)],
           of_Actions := actions @ [Resubmit 0 TFloodLoop]\<rparr>) w)"

definition tunnelType :: "FabricSpecifies \<Rightarrow> string" where
  "tunnelType spec = (if fs_Driver spec = ''stt'' then ''stt'' else ''vxlan'')"

definition tunnel_options :: "FabricSpecifies \<Rightarrow> FabricTunnel \<Rightarrow> InterfaceOptions" where
  "tunnel_options spec cfg = \<lparr>io_Type = tunnelType spec, io_BfdEnable = True, io_RemoteIP = ft_Remote cfg, io_Key = ''flow'',
     io_DstPort = ft_DstPort cfg, io_DfDefault = (if fs_Fragment spec then ''false'' else ''true'')\<rparr>"

definition FabricWorker_AddTunnel :: "fabricenv \<Rightarrow> FabricSpecifies \<Rightarrow> FabricTunnel \<Rightarrow> FabricWorker \<Rightarrow> FabricWorker" where
  "FabricWorker_AddTunnel env spec cfg w =
     (let name = Addr2Port (ft_Remote cfg) ''vx-'';
          options = tunnel_options spec cfg
      in case OvsBridge_addPort env name (Some options) w of
           (w, Some e) \<Rightarrow> w
         | (w, None) \<Rightarrow> (case fe_DumpPort env name of
             None \<Rightarrow> w
           | Some n \<Rightarrow>
               (let port = \<lparr>op_name = name, op_portId = n, op_options = Some options\<rparr>
                in if ft_Mode cfg = ''border''
                   then let w = OvsBridge_addFlow (zero_flow\<lparr>of_InPort := n, of_Priority := 1, of_Actions := [Resubmit 0 TLsToTun]\<rparr>) w
                        in FabricWorker_flood2Border (w\<lparr>fa_borders := AList.update name port (fa_borders w)\<rparr>)
                   else let w = OvsBridge_addFlow (zero_flow\<lparr>of_InPort := n, of_Priority := 1, of_Actions := [Resubmit 0 TTunToLs]\<rparr>) w
                        in FabricWorker_flood2Tunnel (w\<lparr>fa_tunnels := AList.update name port (fa_tunnels w)\<rparr>))))"

definition fabric_rules :: "FabricSpecifies \<Rightarrow> FabricNetwork \<Rightarrow> FireWall \<Rightarrow> FireWall" where
  "fabric_rules spec net f =
     (let f = (if fs_Mss spec > 0
               then FireWall_AddRule (empty_rule\<lparr>ru_Table := ''mangle'', ru_Chain := ''OPENLAN-POST'', ru_Output := fn_Bridge net,
                      ru_Proto := ''tcp'', ru_Match := ''tcp'', ru_TcpFlag := [''SYN,RST'', ''SYN''], ru_Jump := ''TCPMSS'',
                      ru_SetMss := fs_Mss spec\<rparr>) f
               else f)
      in FireWall_AddRule (empty_rule\<lparr>ru_Table := ''filter'', ru_Chain := ''OPENLAN-FWD'', ru_Input := fn_Bridge net,
           ru_Output := fn_Bridge net\<rparr>) f)"

definition FabricWorker_Start :: "fabricenv \<Rightarrow> FireWall \<Rightarrow> FabricWorker \<Rightarrow> (FireWall \<times> FabricWorker) result" where
  "FabricWorker_Start env f w =
     (case fa_spec w of
        None \<Rightarrow> Inl nil_deref
      | Some spec \<Rightarrow>
          (let w = fold (FabricWorker_AddTunnel env spec) (fs_Tunnels spec) w
           in Inr (fold (\<lambda>net (f, w). (fabric_rules spec net f,
                 fold (\<lambda>port. FabricWorker_AddOutput env (fn_Bridge net) (fo_Vlan port) (fo_Interface port)) (fn_Outputs net)
                   (FabricWorker_AddNetwork env net w))) (fs_Networks spec) (f, w))))"

definition FabricWorker_DelNetwork :: "u32 \<Rightarrow> FabricWorker \<Rightarrow> FabricWorker" where
  "FabricWorker_DelNetwork vni w =
     (let (brPort, tunPort) = vni2peer vni in call (LinkDel tunPort) (OvsBridge_delPort tunPort w))"

definition FabricWorker_DelOutput :: "int \<Rightarrow> string \<Rightarrow> FabricWorker \<Rightarrow> FabricWorker" where
  "FabricWorker_DelOutput vlan output w = call (LinkDel (output @ ''.'' @ show_int vlan)) w"

definition FabricWorker_DelTunnel :: "string \<Rightarrow> FabricWorker \<Rightarrow> FabricWorker" where
  "FabricWorker_DelTunnel remote w = OvsBridge_delPort (Addr2Port remote ''vx-'') w"

definition FabricWorker_Stop :: "FabricWorker \<Rightarrow> FabricWorker result" where
  "FabricWorker_Stop w =
     (let w = call DelFlows w
      in case fa_spec w of
           None \<Rightarrow> Inl nil_deref
         | Some spec \<Rightarrow>
             (let w = fold (\<lambda>tunnel. FabricWorker_DelTunnel (ft_Remote tunnel)) (fs_Tunnels spec) w;
                  w = fold (\<lambda>net w. FabricWorker_DelNetwork (fn_Vni net)
                        (fold (\<lambda>port. FabricWorker_DelOutput (fo_Vlan port) (fo_Interface port)) (fn_Outputs net) w)) (fs_Networks spec) w
              in Inr (fold (\<lambda>br. call (BridgeClose br)) (fa_bridges w) w)))"

end
