(* ===== verification/FabricNet.thy ===== *)
theory FabricNet
  imports Fabric
begin

text \<open>What the flows of a fabric worker do to frames. Open vSwitch is not part of the program: it is a parameter, and the locale
  \<open>openflow\<close> states what its documentation says of the flows the worker uses. With it the tables implement one learning switch per
  network, which is the abstract specification \<open>fabric_switch\<close>. Timeouts of learned flows are left out.\<close>

section \<open>The meaning of flows\<close>

definition flow_key :: "Flow \<Rightarrow> int \<times> int \<times> int \<times> (string \<times> string) list" where
  "flow_key f = (of_Table f, of_Priority f, of_InPort f, of_Matches f)"

record pkt =
  pk_in :: int
  pk_flag :: string
  pk_tun :: string
  pk_src :: string
  pk_dst :: string

definition pk_field :: "pkt \<Rightarrow> string \<Rightarrow> string" where
  "pk_field p k = (if k = MatchRegFlag \<or> k = NxmRegFlag then pk_flag p else if k = NxmRegTunId then pk_tun p
     else if k = NxmRegEthSrc then pk_src p else if k = NxmRegEthDst then pk_dst p else [])"

definition pk_load :: "string \<Rightarrow> string \<Rightarrow> pkt \<Rightarrow> pkt" where
  "pk_load k v p = (if k = NxmRegFlag then p\<lparr>pk_flag := v\<rparr> else if k = NxmRegTunId then p\<lparr>pk_tun := v\<rparr> else p)"

definition hits :: "Flow \<Rightarrow> pkt \<Rightarrow> bool" where
  "hits f p \<longleftrightarrow> (of_InPort f = 0 \<or> of_InPort f = pk_in p) \<and> (\<forall>(k, v) \<in> set (of_Matches f). pk_field p k = v)"

definition learned :: "int \<Rightarrow> (string \<times> string) list \<Rightarrow> int \<Rightarrow> pkt \<Rightarrow> Flow" where
  "learned t ms pr p = \<lparr>of_Table = t, of_Priority = pr, of_InPort = 0, of_Matches = map (\<lambda>(k, v). (k, pk_field p v)) ms,
     of_Actions = [Output (pk_in p)]\<rparr>"

lemma names [simp]:
  "MatchRegFlag \<noteq> NxmRegTunId" "NxmRegTunId \<noteq> MatchRegFlag" "NxmRegFlag \<noteq> NxmRegTunId" "NxmRegTunId \<noteq> NxmRegFlag"
  "NxmRegEthDst \<noteq> MatchRegFlag" "NxmRegEthDst \<noteq> NxmRegFlag" "NxmRegEthDst \<noteq> NxmRegTunId" "NxmRegEthDst \<noteq> NxmRegEthSrc"
  "NxmRegEthSrc \<noteq> MatchRegFlag" "NxmRegEthSrc \<noteq> NxmRegFlag" "NxmRegEthSrc \<noteq> NxmRegTunId" "FFromLs \<noteq> FFromTun" "FFromTun \<noteq> FFromLs" "NxmRegTunId \<noteq> NxmRegEthDst" "MatchRegFlag \<noteq> NxmRegEthDst"
  by (simp_all add: field_defs FFromLs_def FFromTun_def)

lemma pk_field_simps [simp]:
  "pk_field p MatchRegFlag = pk_flag p" "pk_field p NxmRegTunId = pk_tun p" "pk_field p NxmRegEthSrc = pk_src p" "pk_field p NxmRegEthDst = pk_dst p"
  "pk_load NxmRegFlag v p = p\<lparr>pk_flag := v\<rparr>" "pk_load NxmRegTunId v p = p\<lparr>pk_tun := v\<rparr>"
  by (simp_all add: pk_field_def pk_load_def)

text \<open>The flows after a sequence of commands, from those of a new bridge.\<close>

definition flow_effect :: "'s \<Rightarrow> (Flow \<Rightarrow> 's \<Rightarrow> 's) \<Rightarrow> ovs_call \<Rightarrow> 's \<Rightarrow> 's" where
  "flow_effect none add c s = (case c of AddFlow f \<Rightarrow> add f s | DelFlows \<Rightarrow> none | _ \<Rightarrow> s)"

definition flow_table :: "'s \<Rightarrow> (Flow \<Rightarrow> 's \<Rightarrow> 's) \<Rightarrow> ovs_call list \<Rightarrow> 's" where
  "flow_table none add cs = fold (flow_effect none add) cs none"

text \<open>A switch with states \<open>'s\<close>. A flow replaces the one with the same table, priority and match. A table applies the matching flow that has
  the highest priority, when there is only one; without a matching flow nothing happens. Actions run in order, a resubmission runs another
  table and comes back, output to the port a frame came from does nothing, and a learned flow takes the values of the frame. The first
  argument of \<open>run\<close> and \<open>acts\<close> is the depth of resubmissions that is left; Open vSwitch allows 64.\<close>

locale openflow =
  fixes content :: "'s \<Rightarrow> Flow set"
    and none :: 's
    and add :: "Flow \<Rightarrow> 's \<Rightarrow> 's"
    and lookup :: "'s \<Rightarrow> int \<Rightarrow> pkt \<Rightarrow> Flow option"
    and run :: "nat \<Rightarrow> 's \<Rightarrow> int \<Rightarrow> pkt \<Rightarrow> int list \<times> 's \<times> pkt"
    and acts :: "nat \<Rightarrow> 's \<Rightarrow> Action list \<Rightarrow> pkt \<Rightarrow> int list \<times> 's \<times> pkt"
  assumes content_none: "content none = {}"
    and content_add: "content (add f s) = insert f {g \<in> content s. flow_key g \<noteq> flow_key f}"
    and lookup_eq: "f \<in> content s \<Longrightarrow> of_Table f = t \<Longrightarrow> hits f p \<Longrightarrow>
      (\<And>g. g \<in> content s \<Longrightarrow> of_Table g = t \<Longrightarrow> hits g p \<Longrightarrow> g = f \<or> of_Priority g < of_Priority f) \<Longrightarrow> lookup s t p = Some f"
    and lookup_none: "(\<And>g. g \<in> content s \<Longrightarrow> of_Table g = t \<Longrightarrow> \<not> hits g p) \<Longrightarrow> lookup s t p = None"
    and run_Suc [simp]: "run (Suc n) s t p = (case lookup s t p of None \<Rightarrow> ([], s, p) | Some f \<Rightarrow> acts n s (of_Actions f) p)"
    and acts_Nil [simp]: "acts n s [] p = ([], s, p)"
    and acts_Output [simp]: "acts n s (Output k # as) p = (let (out, res) = acts n s as p in (if k = pk_in p then out else k # out, res))"
    and acts_Load [simp]: "acts n s (Load v r # as) p = acts n s as (pk_load r v p)"
    and acts_Resubmit [simp]: "acts n s (Resubmit 0 t # as) p = (let (out, s, p) = run n s t p; (out', res) = acts n s as p in (out @ out', res))"
    and acts_Learn [simp]: "acts n s (Learn t ms pr h [OutputField NxmRegInPort] # as) p = acts n (add (learned t ms pr p) s) as p"
    and acts_Drop [simp]: "acts n s [Drop] p = ([], s, p)"
begin

lemma acts_outputs:
  "acts n s (map Output ks @ as) p = (let (out, r) = acts n s as p in (filter (\<lambda>k. k \<noteq> pk_in p) ks @ out, r))"
  by (induction ks) (auto simp: split_beta Let_def)

end

section \<open>The tables of the worker\<close>

definition drop_flow :: "int \<Rightarrow> Flow" where
  "drop_flow t = zero_flow\<lparr>of_Table := t, of_Actions := [Drop]\<rparr>"

definition flag_flow :: "int \<Rightarrow> u32 \<Rightarrow> Flow" where
  "flag_flow t c = zero_flow\<lparr>of_Table := t, of_Priority := 1, of_Actions := [Load (Uint2S c) NxmRegFlag, Resubmit 0 TSourceLearn]\<rparr>"

definition learn_flow :: Flow where
  "learn_flow = zero_flow\<lparr>of_Table := TSourceLearn, of_Actions :=
     [Learn TUcastToTun [(NxmRegTunId, NxmRegTunId), (NxmRegEthDst, NxmRegEthSrc)] 1 300 [OutputField NxmRegInPort], Resubmit 0 TUcastToTun]\<rparr>"

definition ucast_flow :: Flow where
  "ucast_flow = zero_flow\<lparr>of_Table := TUcastToTun, of_Actions := [Resubmit 0 TFloodToTun]\<rparr>"

definition in_flow :: "int \<Rightarrow> int \<Rightarrow> Flow" where
  "in_flow k t = zero_flow\<lparr>of_InPort := k, of_Priority := 1, of_Actions := [Resubmit 0 t]\<rparr>"

definition patch_flow :: "u32 \<Rightarrow> int \<Rightarrow> Flow" where
  "patch_flow v k = zero_flow\<lparr>of_InPort := k, of_Priority := 1, of_Actions := [Load (Uint2S v) NxmRegTunId, Resubmit 0 TLsToTun]\<rparr>"

definition down_flow :: "u32 \<Rightarrow> int \<Rightarrow> Flow" where
  "down_flow v k = zero_flow\<lparr>of_Table := TFloodToTun, of_Priority := 2,
     of_Matches := [(NxmRegTunId, Uint2S v), (MatchRegFlag, Uint2S FFromTun)], of_Actions := [Output k, Resubmit 0 TFloodToBor]\<rparr>"

definition loop_flow :: "u32 \<Rightarrow> int \<Rightarrow> Flow" where
  "loop_flow v k = zero_flow\<lparr>of_Table := TFloodLoop, of_Priority := 2,
     of_Matches := [(NxmRegTunId, Uint2S v), (MatchRegFlag, Uint2S FFromLs)], of_Actions := [Output k]\<rparr>"

definition floodT :: "int list \<Rightarrow> Flow" where
  "floodT ks = zero_flow\<lparr>of_Table := TFloodToTun, of_Priority := 1, of_Matches := [(MatchRegFlag, Uint2S FFromLs)],
     of_Actions := map Output ks @ [Resubmit 0 TFloodToBor]\<rparr>"

definition floodB :: "u32 \<Rightarrow> Action list \<Rightarrow> Flow" where
  "floodB c as = zero_flow\<lparr>of_Table := TFloodToBor, of_Priority := 1, of_Matches := [(MatchRegFlag, Uint2S c)], of_Actions := as\<rparr>"

definition learned_flow :: "string \<Rightarrow> string \<Rightarrow> int \<Rightarrow> Flow" where
  "learned_flow v m k = zero_flow\<lparr>of_Table := TUcastToTun, of_Priority := 1, of_Matches := [(NxmRegTunId, v), (NxmRegEthDst, m)],
     of_Actions := [Output k]\<rparr>"

lemmas flow_defs = drop_flow_def flag_flow_def learn_flow_def ucast_flow_def in_flow_def patch_flow_def down_flow_def loop_flow_def
  floodT_def floodB_def learned_flow_def zero_flow_def

definition base :: "Flow set" where
  "base = {drop_flow 0, flag_flow TLsToTun FFromLs, flag_flow TTunToLs FFromTun, learn_flow, ucast_flow, drop_flow TFloodToTun,
     drop_flow TFloodToBor}"

text \<open>The flows for the tunnels \<open>T\<close>, the borders \<open>B\<close> and the networks \<open>N\<close> with their patch ports, and the addresses \<open>L\<close> that were learned.\<close>

definition flows_of :: "int list \<Rightarrow> int list \<Rightarrow> (u32 \<times> int) list \<Rightarrow> (string \<times> string \<rightharpoonup> int) \<Rightarrow> Flow set" where
  "flows_of T B N L = base \<union> {f. \<exists>k \<in> set T. f = in_flow k TTunToLs} \<union> {f. \<exists>k \<in> set B. f = in_flow k TLsToTun} \<union>
     {f. \<exists>v k. (v, k) \<in> set N \<and> (f = patch_flow v k \<or> f = down_flow v k \<or> f = loop_flow v k)} \<union>
     {f. T \<noteq> [] \<and> f = floodT T} \<union>
     {f. B \<noteq> [] \<and> (f = floodB FFromTun (map Output B) \<or> f = floodB FFromLs (map Output B @ [Resubmit 0 TFloodLoop]))} \<union>
     {f. \<exists>v m k. L (v, m) = Some k \<and> f = learned_flow v m k}"

definition ports :: "int list \<Rightarrow> int list \<Rightarrow> (u32 \<times> int) list \<Rightarrow> bool" where
  "ports T B N \<longleftrightarrow> distinct (T @ B @ map snd N) \<and> 0 \<notin> set (T @ B @ map snd N) \<and> distinct (map fst N)"

lemma flow_fields [simp]:
  "of_Table (drop_flow t) = t" "of_Priority (drop_flow t) = 0" "of_InPort (drop_flow t) = 0" "of_Matches (drop_flow t) = []" "of_Actions (drop_flow t) = [Drop]"
  "of_Table (flag_flow t c) = t" "of_Priority (flag_flow t c) = 1" "of_InPort (flag_flow t c) = 0" "of_Matches (flag_flow t c) = []"
  "of_Actions (flag_flow t c) = [Load (Uint2S c) NxmRegFlag, Resubmit 0 TSourceLearn]"
  "of_Table learn_flow = TSourceLearn" "of_Priority learn_flow = 0" "of_InPort learn_flow = 0" "of_Matches learn_flow = []"
  "of_Table ucast_flow = TUcastToTun" "of_Priority ucast_flow = 0" "of_InPort ucast_flow = 0" "of_Matches ucast_flow = []" "of_Actions ucast_flow = [Resubmit 0 TFloodToTun]"
  "of_Table (in_flow k t) = 0" "of_Priority (in_flow k t) = 1" "of_InPort (in_flow k t) = k" "of_Matches (in_flow k t) = []" "of_Actions (in_flow k t) = [Resubmit 0 t]"
  "of_Table (patch_flow v k) = 0" "of_Priority (patch_flow v k) = 1" "of_InPort (patch_flow v k) = k" "of_Matches (patch_flow v k) = []"
  "of_Actions (patch_flow v k) = [Load (Uint2S v) NxmRegTunId, Resubmit 0 TLsToTun]"
  "of_Table (down_flow v k) = TFloodToTun" "of_Priority (down_flow v k) = 2" "of_InPort (down_flow v k) = 0"
  "of_Matches (down_flow v k) = [(NxmRegTunId, Uint2S v), (MatchRegFlag, Uint2S FFromTun)]" "of_Actions (down_flow v k) = [Output k, Resubmit 0 TFloodToBor]"
  "of_Table (loop_flow v k) = TFloodLoop" "of_Priority (loop_flow v k) = 2" "of_InPort (loop_flow v k) = 0"
  "of_Matches (loop_flow v k) = [(NxmRegTunId, Uint2S v), (MatchRegFlag, Uint2S FFromLs)]" "of_Actions (loop_flow v k) = [Output k]"
  "of_Table (floodT ks) = TFloodToTun" "of_Priority (floodT ks) = 1" "of_InPort (floodT ks) = 0" "of_Matches (floodT ks) = [(MatchRegFlag, Uint2S FFromLs)]"
  "of_Actions (floodT ks) = map Output ks @ [Resubmit 0 TFloodToBor]"
  "of_Table (floodB c as) = TFloodToBor" "of_Priority (floodB c as) = 1" "of_InPort (floodB c as) = 0" "of_Matches (floodB c as) = [(MatchRegFlag, Uint2S c)]"
  "of_Actions (floodB c as) = as"
  "of_Table (learned_flow w m k) = TUcastToTun" "of_Priority (learned_flow w m k) = 1" "of_InPort (learned_flow w m k) = 0"
  "of_Matches (learned_flow w m k) = [(NxmRegTunId, w), (NxmRegEthDst, m)]" "of_Actions (learned_flow w m k) = [Output k]"
  by (simp_all add: flow_defs)

lemma flow_hits [simp]:
  "hits (drop_flow t) p" "hits (flag_flow t c) p" "hits learn_flow p" "hits ucast_flow p" "hits (in_flow k t) p \<longleftrightarrow> k = 0 \<or> k = pk_in p"
  "hits (patch_flow v k) p \<longleftrightarrow> k = 0 \<or> k = pk_in p" "hits (down_flow v k) p \<longleftrightarrow> pk_tun p = Uint2S v \<and> pk_flag p = Uint2S FFromTun"
  "hits (loop_flow v k) p \<longleftrightarrow> pk_tun p = Uint2S v \<and> pk_flag p = Uint2S FFromLs" "hits (floodT ks) p \<longleftrightarrow> pk_flag p = Uint2S FFromLs"
  "hits (floodB c as) p \<longleftrightarrow> pk_flag p = Uint2S c" "hits (learned_flow w m k) p \<longleftrightarrow> pk_tun p = w \<and> pk_dst p = m"
  by (simp_all add: hits_def)

text \<open>Which flows are in a table.\<close>

lemma in_tables:
  assumes "g \<in> flows_of T B N L"
  shows "of_Table g = 0 \<Longrightarrow> g = drop_flow 0 \<or> (\<exists>k \<in> set T. g = in_flow k TTunToLs) \<or> (\<exists>k \<in> set B. g = in_flow k TLsToTun) \<or>
      (\<exists>v k. (v, k) \<in> set N \<and> g = patch_flow v k)"
    and "of_Table g = TLsToTun \<Longrightarrow> g = flag_flow TLsToTun FFromLs"
    and "of_Table g = TTunToLs \<Longrightarrow> g = flag_flow TTunToLs FFromTun"
    and "of_Table g = TSourceLearn \<Longrightarrow> g = learn_flow"
    and "of_Table g = TUcastToTun \<Longrightarrow> g = ucast_flow \<or> (\<exists>v m k. L (v, m) = Some k \<and> g = learned_flow v m k)"
    and "of_Table g = TFloodToTun \<Longrightarrow> g = drop_flow TFloodToTun \<or> (\<exists>v k. (v, k) \<in> set N \<and> g = down_flow v k) \<or> T \<noteq> [] \<and> g = floodT T"
    and "of_Table g = TFloodToBor \<Longrightarrow> g = drop_flow TFloodToBor \<or> B \<noteq> [] \<and>
      (g = floodB FFromTun (map Output B) \<or> g = floodB FFromLs (map Output B @ [Resubmit 0 TFloodLoop]))"
    and "of_Table g = TFloodLoop \<Longrightarrow> (\<exists>v k. (v, k) \<in> set N \<and> g = loop_flow v k)"
  using assms by (auto simp: flows_of_def base_def table_defs)

lemma digits_inj: "digits m = digits n \<Longrightarrow> m = n"
proof (induction m arbitrary: n rule: less_induct)
  case (less m)
  have ch: "char_of (48 + a :: nat) = (char_of (48 + b) :: char) \<longleftrightarrow> a = b" if "a < 10" "b < 10" for a b :: nat
    using that by (simp add: char_of_eq_iff take_bit_nat_eq_self)
  show ?case
  proof (cases "m < 10"; cases "n < 10")
    assume "\<not> m < 10" "\<not> n < 10"
    with less.prems have "digits (m div 10) = digits (n div 10)" and e: "char_of (48 + m mod 10) = (char_of (48 + n mod 10) :: char)"
      by (simp_all add: digits.simps [of m] digits.simps [of n])
    with less.IH [of "m div 10" "n div 10"] \<open>\<not> m < 10\<close> have "m div 10 = n div 10" by simp
    moreover have "m mod 10 = n mod 10" using e ch by simp
    ultimately show ?thesis by (metis div_mult_mod_eq)
  qed (use less.prems ch in \<open>auto simp: digits.simps [of m] digits.simps [of n] split: if_splits\<close>)
qed

lemma Uint2S_inj [simp]: "Uint2S v = Uint2S w \<longleftrightarrow> v = w"
proof -
  have "Uint2S x = digits (unat x)" for x by (simp add: Uint2S_def show_int_def del: digits.simps)
  then show ?thesis using digits_inj word_unat_eq_iff by metis
qed

definition patch :: "(u32 \<times> int) list \<Rightarrow> string \<Rightarrow> int set" where
  "patch N v = {k. \<exists>u. (u, k) \<in> set N \<and> v = Uint2S u}"

lemma network_unique: "ports T B N \<Longrightarrow> (u, k) \<in> set N \<Longrightarrow> (u, k') \<in> set N \<Longrightarrow> k' = k"
  unfolding ports_def by (metis eq_key_imp_eq_value)

lemma patch_known: "ports T B N \<Longrightarrow> (u, k) \<in> set N \<Longrightarrow> patch N (Uint2S u) = {k}"
  using network_unique by (fastforce simp: patch_def)

lemma learned_in: "L (v, m) = Some k \<Longrightarrow> learned_flow v m k \<in> flows_of T B N L"
  unfolding flows_of_def by blast

lemma learned_key: "flow_key g = flow_key (learned_flow v m k) \<Longrightarrow> g \<in> flows_of T B N L \<Longrightarrow> \<exists>k'. L (v, m) = Some k' \<and> g = learned_flow v m k'"
  using in_tables(5) [of g T B N L] by (auto simp: flow_key_def)

lemma flows_of_learned: "g \<in> flows_of T B N L \<longleftrightarrow> g \<in> flows_of T B N (\<lambda>_. None) \<or> (\<exists>v m k. L (v, m) = Some k \<and> g = learned_flow v m k)"
  by (simp add: flows_of_def)

lemma fixed_key: "g \<in> flows_of T B N (\<lambda>_. None) \<Longrightarrow> flow_key g \<noteq> flow_key (learned_flow v m k)"
  using learned_key [of g v m k T B N "\<lambda>_. None"] by auto

definition fresh :: "int \<Rightarrow> int list \<Rightarrow> int list \<Rightarrow> (u32 \<times> int) list \<Rightarrow> bool" where
  "fresh k T B N \<longleftrightarrow> k \<noteq> 0 \<and> k \<notin> set T \<union> set B \<union> snd ` set N"

lemma key_in: "fresh k T B N \<Longrightarrow> g \<in> flows_of T B N L \<Longrightarrow> of_Table g = 0 \<Longrightarrow> of_InPort g \<noteq> k"
  using in_tables(1) [of g T B N L] by (force simp: fresh_def)

lemma key_floodT: "g \<in> flows_of T B N L \<Longrightarrow> flow_key g = flow_key (floodT S) \<Longrightarrow> T \<noteq> [] \<and> g = floodT T"
  using in_tables(6) [of g T B N L] by (auto simp: flow_key_def)

lemma key_floodB:
  "g \<in> flows_of T B N L \<Longrightarrow> flow_key g = flow_key (floodB c as) \<Longrightarrow> B \<noteq> [] \<and>
     (g = floodB FFromTun (map Output B) \<or> g = floodB FFromLs (map Output B @ [Resubmit 0 TFloodLoop]))"
  using in_tables(7) [of g T B N L] by (auto simp: flow_key_def)

section \<open>One learning switch per network\<close>

text \<open>The specification. A frame from a tunnel goes to the patch port of its network and to the borders; one from a patch port or a border
  goes to all tunnels, and when there is a border, to the borders and to the patch port of its network. A known destination gets
  the frame alone. A frame from any other port is dropped.\<close>

definition vni_of :: "(u32 \<times> int) list \<Rightarrow> pkt \<Rightarrow> string" where
  "vni_of N p = (case find (\<lambda>(v, k). k = pk_in p) N of None \<Rightarrow> pk_tun p | Some (v, k) \<Rightarrow> Uint2S v)"

definition fabric_flood :: "int list \<Rightarrow> int list \<Rightarrow> (u32 \<times> int) list \<Rightarrow> string \<Rightarrow> int \<Rightarrow> int set" where
  "fabric_flood T B N v i =
     (if i \<in> set T then (if patch N v = {} then {} else patch N v \<union> set B)
      else if T = [] then {} else set T \<union> (if B = [] then {} else set B \<union> patch N v))"

definition fabric_switch :: "int list \<Rightarrow> int list \<Rightarrow> (u32 \<times> int) list \<Rightarrow> (string \<times> string \<rightharpoonup> int) \<Rightarrow> pkt \<Rightarrow>
    int set \<times> (string \<times> string \<rightharpoonup> int)" where
  "fabric_switch T B N L p =
     (if pk_in p \<notin> set T \<union> set B \<union> snd ` set N then ({}, L)
      else let v = vni_of N p; L = L((v, pk_src p) \<mapsto> pk_in p)
           in ((case L (v, pk_dst p) of None \<Rightarrow> fabric_flood T B N v (pk_in p) | Some k \<Rightarrow> {k}) - {pk_in p}, L))"

lemma vni_of_patch: "ports T B N \<Longrightarrow> (v, pk_in p) \<in> set N \<Longrightarrow> vni_of N p = Uint2S v"
proof -
  assume po: "ports T B N" and v: "(v, pk_in p) \<in> set N"
  obtain u k where u: "find (\<lambda>(v, k). k = pk_in p) N = Some (u, k)"
    using v by (cases "find (\<lambda>(v, k). k = pk_in p) N") (auto simp: find_None_iff)
  then have "(u, pk_in p) \<in> set N" by (auto simp: find_Some_iff in_set_conv_nth)
  moreover have "inj_on snd (set N)" using po by (auto simp: ports_def distinct_map)
  ultimately have "u = v" using v inj_onD [of snd "set N" "(u, pk_in p)" "(v, pk_in p)"] by simp
  with u show ?thesis by (simp add: vni_of_def)
qed

lemma vni_of_other: "pk_in p \<notin> snd ` set N \<Longrightarrow> vni_of N p = pk_tun p"
  by (force simp: vni_of_def find_Some_iff in_set_conv_nth split: option.split)

section \<open>Running the tables\<close>

context openflow
begin

definition tables :: "'s \<Rightarrow> int list \<Rightarrow> int list \<Rightarrow> (u32 \<times> int) list \<Rightarrow> (string \<times> string \<rightharpoonup> int) \<Rightarrow> bool" where
  "tables s T B N L \<longleftrightarrow> content s = flows_of T B N L"

text \<open>\<open>sends n fs t p S\<close>: table \<open>t\<close> sends the frame to the ports \<open>S\<close>, without the one it came from, and changes nothing.\<close>

definition sends :: "nat \<Rightarrow> 's \<Rightarrow> int \<Rightarrow> pkt \<Rightarrow> int set \<Rightarrow> bool" where
  "sends n fs t p S \<longleftrightarrow> (\<exists>out. run n fs t p = (out, fs, p) \<and> set out = S - {pk_in p})"

lemma tb_set: "tables fs T B N L \<Longrightarrow> g \<in> content fs \<longleftrightarrow> g \<in> flows_of T B N L"
  by (simp add: tables_def)

text \<open>The flow of a table that applies, by the flows of the worker.\<close>

lemma tb_lookup:
  assumes "tables fs T B N L" and "f \<in> flows_of T B N L" and "hits f p"
    and "\<And>g. g \<in> flows_of T B N L \<Longrightarrow> of_Table g = of_Table f \<Longrightarrow> hits g p \<Longrightarrow> g = f \<or> of_Priority g < of_Priority f"
  shows "lookup fs (of_Table f) p = Some f"
  using assms by (intro lookup_eq) (simp_all add: tables_def)

lemma sends_loop:
  assumes tb: "tables fs T B N L" and po: "ports T B N" and flag: "pk_flag p = Uint2S FFromLs"
  shows "sends (Suc n) fs TFloodLoop p (patch N (pk_tun p))"
proof (cases "\<exists>u k. (u, k) \<in> set N \<and> pk_tun p = Uint2S u")
  case True
  then obtain u k where u: "(u, k) \<in> set N" "pk_tun p = Uint2S u" by blast
  have "lookup fs (of_Table (loop_flow u k)) p = Some (loop_flow u k)"
  proof (rule tb_lookup [OF tb])
    show "loop_flow u k \<in> flows_of T B N L" using u(1) by (auto simp: flows_of_def)
    show "g = loop_flow u k \<or> of_Priority g < of_Priority (loop_flow u k)"
      if g: "g \<in> flows_of T B N L" "of_Table g = of_Table (loop_flow u k)" "hits g p" for g
      using in_tables(8) [OF g(1)] g(2,3) u network_unique [OF po] by auto
  qed (use u flag in simp)
  then show ?thesis using patch_known [OF po u(1)] u(2) by (auto simp: sends_def)
next
  case False
  then have "lookup fs TFloodLoop p = None"
    using in_tables(8) tb_set [OF tb] by (intro lookup_none) fastforce
  with False show ?thesis by (auto simp: sends_def patch_def)
qed

lemma sends_drop:
  assumes tb: "tables fs T B N L" and t: "t = TFloodToTun \<or> t = TFloodToBor"
    and only: "\<And>g. g \<in> flows_of T B N L \<Longrightarrow> of_Table g = t \<Longrightarrow> hits g p \<Longrightarrow> g = drop_flow t"
  shows "sends (Suc n) fs t p {}"
proof -
  have "drop_flow t \<in> flows_of T B N L" using t by (auto simp: flows_of_def base_def)
  from tb_lookup [OF tb this] only show ?thesis by (simp add: sends_def)
qed

lemma sends_border_ls:
  assumes tb: "tables fs T B N L" and po: "ports T B N" and flag: "pk_flag p = Uint2S FFromLs"
  shows "sends (Suc (Suc n)) fs TFloodToBor p (if B = [] then {} else set B \<union> patch N (pk_tun p))"
proof (cases "B = []")
  case True
  with sends_drop [OF tb, of TFloodToBor p] in_tables(7) [where T = T and B = B and N = N and L = L] show ?thesis by auto
next
  case False
  let ?f = "floodB FFromLs (map Output B @ [Resubmit 0 TFloodLoop])"
  have "lookup fs (of_Table ?f) p = Some ?f"
  proof (rule tb_lookup [OF tb])
    show "?f \<in> flows_of T B N L" using False by (simp add: flows_of_def)
    show "g = ?f \<or> of_Priority g < of_Priority ?f" if g: "g \<in> flows_of T B N L" "of_Table g = of_Table ?f" "hits g p" for g
      using in_tables(7) [OF g(1)] g(2,3) flag by auto
  qed (use flag in simp)
  then show ?thesis using sends_loop [OF tb po flag, of n] False by (auto simp: sends_def acts_outputs)
qed

lemma sends_border_tun:
  assumes tb: "tables fs T B N L" and flag: "pk_flag p = Uint2S FFromTun"
  shows "sends (Suc n) fs TFloodToBor p (set B)"
proof (cases "B = []")
  case True
  with sends_drop [OF tb, of TFloodToBor p] in_tables(7) [where T = T and B = B and N = N and L = L] show ?thesis by auto
next
  case False
  let ?f = "floodB FFromTun (map Output B)"
  have "lookup fs (of_Table ?f) p = Some ?f"
  proof (rule tb_lookup [OF tb])
    show "?f \<in> flows_of T B N L" using False by (simp add: flows_of_def)
    show "g = ?f \<or> of_Priority g < of_Priority ?f" if g: "g \<in> flows_of T B N L" "of_Table g = of_Table ?f" "hits g p" for g
      using in_tables(7) [OF g(1)] g(2,3) flag by auto
  qed (use flag in simp)
  then show ?thesis using acts_outputs [of n fs B "[]" p] by (auto simp: sends_def)
qed

lemma sends_flood_ls:
  assumes tb: "tables fs T B N L" and po: "ports T B N" and flag: "pk_flag p = Uint2S FFromLs"
  shows "sends (Suc (Suc (Suc n))) fs TFloodToTun p (if T = [] then {} else set T \<union> (if B = [] then {} else set B \<union> patch N (pk_tun p)))"
proof (cases "T = []")
  case True
  then have "sends (Suc (Suc (Suc n))) fs TFloodToTun p {}"
    using in_tables(6) [where T = T and B = B and N = N and L = L] flag by (intro sends_drop [OF tb]) fastforce+
  with True show ?thesis by simp
next
  case False
  have "lookup fs (of_Table (floodT T)) p = Some (floodT T)"
  proof (rule tb_lookup [OF tb])
    show "floodT T \<in> flows_of T B N L" using False by (simp add: flows_of_def)
    show "g = floodT T \<or> of_Priority g < of_Priority (floodT T)"
      if g: "g \<in> flows_of T B N L" "of_Table g = of_Table (floodT T)" "hits g p" for g
      using in_tables(6) [OF g(1)] g(2,3) flag by auto
  qed (use flag in simp)
  then show ?thesis using sends_border_ls [OF tb po flag, of n] False by (auto simp: sends_def acts_outputs)
qed

lemma sends_flood_tun:
  assumes tb: "tables fs T B N L" and po: "ports T B N" and flag: "pk_flag p = Uint2S FFromTun"
  shows "sends (Suc (Suc n)) fs TFloodToTun p (if patch N (pk_tun p) = {} then {} else patch N (pk_tun p) \<union> set B)"
proof (cases "\<exists>u k. (u, k) \<in> set N \<and> pk_tun p = Uint2S u")
  case True
  then obtain u k where u: "(u, k) \<in> set N" "pk_tun p = Uint2S u" by blast
  have "lookup fs (of_Table (down_flow u k)) p = Some (down_flow u k)"
  proof (rule tb_lookup [OF tb])
    show "down_flow u k \<in> flows_of T B N L" using u(1) by (auto simp: flows_of_def)
    show "g = down_flow u k \<or> of_Priority g < of_Priority (down_flow u k)"
      if g: "g \<in> flows_of T B N L" "of_Table g = of_Table (down_flow u k)" "hits g p" for g
      using in_tables(6) [OF g(1)] g(2,3) u network_unique [OF po] flag by auto
  qed (use u flag in simp)
  then show ?thesis using sends_border_tun [OF tb flag, of n] patch_known [OF po u(1)] u(2) by (auto simp: sends_def)
next
  case False
  then have "sends (Suc (Suc n)) fs TFloodToTun p {}"
    using in_tables(6) [where T = T and B = B and N = N and L = L] flag by (intro sends_drop [OF tb]) fastforce+
  moreover have "patch N (pk_tun p) = {}" using False by (auto simp: patch_def)
  ultimately show ?thesis by simp
qed

text \<open>Unicast: the port learned for the destination, or flooding.\<close>

lemma sends_ucast:
  assumes tb: "tables fs T B N L" and flood: "L (pk_tun p, pk_dst p) = None \<Longrightarrow> sends n fs TFloodToTun p S"
  shows "sends (Suc n) fs TUcastToTun p (case L (pk_tun p, pk_dst p) of None \<Rightarrow> S | Some k \<Rightarrow> {k})"
proof (cases "L (pk_tun p, pk_dst p)")
  case None
  have "ucast_flow \<in> flows_of T B N L" by (simp add: flows_of_def base_def)
  from tb_lookup [OF tb this, of p] have "lookup fs TUcastToTun p = Some ucast_flow"
    using in_tables(5) [where T = T and B = B and N = N and L = L] None by fastforce
  then show ?thesis using flood [OF None] None by (auto simp: sends_def)
next
  case (Some k)
  let ?f = "learned_flow (pk_tun p) (pk_dst p) k"
  have "?f \<in> flows_of T B N L" using Some by (rule learned_in)
  from tb_lookup [OF tb this, of p] have "lookup fs TUcastToTun p = Some ?f"
    using in_tables(5) [where T = T and B = B and N = N and L = L] Some by fastforce
  then show ?thesis using Some by (simp add: sends_def)
qed

lemma tables_learn:
  assumes "tables fs T B N L"
  shows "tables (add (learned_flow v m k) fs) T B N (L((v, m) \<mapsto> k))"
proof -
  let ?f = "learned_flow v m k"
  let ?L = "L((v, m) \<mapsto> k)"
  have key: "flow_key (learned_flow a b c) = flow_key ?f \<longleftrightarrow> a = v \<and> b = m" for a b c by (auto simp: flow_key_def)
  have keep: "g \<in> flows_of T B N ?L" if g: "g \<in> flows_of T B N L" "flow_key g \<noteq> flow_key ?f" for g
  proof (cases "g \<in> flows_of T B N (\<lambda>_. None)")
    case False
    with g(1) obtain a b c where "L (a, b) = Some c" "g = learned_flow a b c" unfolding flows_of_learned [of g T B N L] by blast
    with g(2) key have "?L (a, b) = Some c" by auto
    from learned_in [of ?L, OF this] show ?thesis using \<open>g = _\<close> by simp
  qed (simp add: flows_of_learned [of g T B N ?L])
  have new: "g = ?f \<or> g \<in> flows_of T B N L \<and> flow_key g \<noteq> flow_key ?f" if g: "g \<in> flows_of T B N ?L" for g
  proof (cases "g \<in> flows_of T B N (\<lambda>_. None)")
    case True
    then show ?thesis using fixed_key flows_of_learned [of g T B N L] by blast
  next
    case False
    with g obtain a b c where "?L (a, b) = Some c" "g = learned_flow a b c" unfolding flows_of_learned [of g T B N ?L] by blast
    then show ?thesis using key learned_in [of L] by (auto split: if_splits)
  qed
  have "?f \<in> flows_of T B N ?L" by (rule learned_in) simp
  with keep new have "g \<in> flows_of T B N ?L \<longleftrightarrow> g = ?f \<or> g \<in> flows_of T B N L \<and> flow_key g \<noteq> flow_key ?f" for g by blast
  then show ?thesis using assms by (auto simp: tables_def content_add)
qed

text \<open>Table 10 learns the source of the frame and goes on.\<close>

lemma run_learn:
  assumes tb: "tables fs T B N L"
    and L': "L' = L((pk_tun p, pk_src p) \<mapsto> pk_in p)"
    and flood: "\<And>fs. tables fs T B N L' \<Longrightarrow> sends n fs TFloodToTun p S"
  obtains out fs' where "run (Suc (Suc n)) fs TSourceLearn p = (out, fs', p)" and "tables fs' T B N L'"
    and "set out = (case L' (pk_tun p, pk_dst p) of None \<Rightarrow> S | Some k \<Rightarrow> {k}) - {pk_in p}"
proof -
  let ?fs = "add (learned_flow (pk_tun p) (pk_src p) (pk_in p)) fs"
  have "learn_flow \<in> flows_of T B N L" by (simp add: flows_of_def base_def)
  from tb_lookup [OF tb this, of p] have l: "lookup fs TSourceLearn p = Some learn_flow"
    using in_tables(4) [where T = T and B = B and N = N and L = L] by fastforce
  have lf: "learned TUcastToTun [(NxmRegTunId, NxmRegTunId), (NxmRegEthDst, NxmRegEthSrc)] 1 p = learned_flow (pk_tun p) (pk_src p) (pk_in p)"
    by (simp add: learned_def learned_flow_def zero_flow_def)
  have tb': "tables ?fs T B N L'" unfolding L' by (rule tables_learn [OF tb])
  from sends_ucast [OF tb' flood [OF tb']] obtain out where "run (Suc n) ?fs TUcastToTun p = (out, ?fs, p)"
    "set out = (case L' (pk_tun p, pk_dst p) of None \<Rightarrow> S | Some k \<Rightarrow> {k}) - {pk_in p}" by (auto simp: sends_def)
  with l lf tb' that [of out ?fs] show thesis by (simp add: learn_flow_def zero_flow_def)
qed

lemma run_flag:
  assumes tb: "tables fs T B N L" and t: "(t, c) \<in> {(TLsToTun, FFromLs), (TTunToLs, FFromTun)}"
  shows "run (Suc n) fs t p = (let (out, r) = run n fs TSourceLearn (p\<lparr>pk_flag := Uint2S c\<rparr>) in (out, r))"
proof -
  have f: "flag_flow t c \<in> flows_of T B N L" using t by (auto simp: flows_of_def base_def)
  have "g = flag_flow t c" if "g \<in> flows_of T B N L" "of_Table g = t" for g
    using in_tables(2,3) [OF that(1)] that(2) t by (elim insertE) simp_all
  then have "lookup fs (of_Table (flag_flow t c)) p = Some (flag_flow t c)" by (intro tb_lookup [OF tb f]) simp_all
  then show ?thesis by (simp add: split_beta)
qed

text \<open>What table 2 (\<open>c = FFromLs\<close>) or 4 does to a frame whose network is known.\<close>

lemma run_classified:
  assumes tb: "tables fs T B N L" and po: "ports T B N"
    and t: "t = (if pk_in p \<in> set T then TTunToLs else TLsToTun)"
    and L': "L' = L((pk_tun p, pk_src p) \<mapsto> pk_in p)"
  obtains out fs' q where "run (Suc (Suc (Suc (Suc (Suc (Suc (Suc n))))))) fs t p = (out, fs', q)" and "tables fs' T B N L'"
    and "set out = (case L' (pk_tun p, pk_dst p) of None \<Rightarrow> fabric_flood T B N (pk_tun p) (pk_in p) | Some k \<Rightarrow> {k}) - {pk_in p}"
proof -
  define c where "c = (if pk_in p \<in> set T then FFromTun else FFromLs)"
  let ?p = "p\<lparr>pk_flag := Uint2S c\<rparr>"
  have "sends (Suc (Suc (Suc (Suc n)))) fs TFloodToTun ?p (fabric_flood T B N (pk_tun p) (pk_in p))" if "tables fs T B N L'" for fs
    using sends_flood_ls [OF that po, of ?p "Suc n"] sends_flood_tun [OF that po, of ?p "Suc (Suc n)"]
    by (cases "pk_in p \<in> set T") (simp_all add: c_def fabric_flood_def cong: if_cong)
  then obtain out fs' where "run (Suc (Suc (Suc (Suc (Suc (Suc n)))))) fs TSourceLearn ?p = (out, fs', ?p)" "tables fs' T B N L'"
    "set out = (case L' (pk_tun p, pk_dst p) of None \<Rightarrow> fabric_flood T B N (pk_tun p) (pk_in p) | Some k \<Rightarrow> {k}) - {pk_in p}"
    using run_learn [OF tb, of L' ?p "Suc (Suc (Suc (Suc n)))" "fabric_flood T B N (pk_tun p) (pk_in p)"] L' by auto
  moreover have "(t, c) \<in> {(TLsToTun, FFromLs), (TTunToLs, FFromTun)}" by (simp add: t c_def)
  from run_flag [OF tb this, of "Suc (Suc (Suc (Suc (Suc (Suc n)))))" p] have "run (Suc (Suc (Suc (Suc (Suc (Suc (Suc n))))))) fs t p = (let (out, r) = run (Suc (Suc (Suc (Suc (Suc (Suc n)))))) fs TSourceLearn ?p in (out, r))" by (simp del: run_Suc)
  ultimately show thesis using that by (simp del: run_Suc)
qed

text \<open>Table 0 tells by the port where a frame comes from.\<close>

lemma lookup_in:
  assumes tb: "tables fs T B N L" and po: "ports T B N" and f: "f \<in> flows_of T B N L" "of_Table f = 0" "of_InPort f = pk_in p" "hits f p" "pk_in p \<noteq> 0"
  shows "lookup fs 0 p = Some f"
proof -
  have g: "g = drop_flow 0 \<or> g = f" if "g \<in> flows_of T B N L" "of_Table g = 0" "hits g p" for g
  proof -
    have TB: "k \<notin> set T" if "k \<in> set B" for k using po that by (auto simp: ports_def)
    have TN: "k \<notin> set T \<and> k \<notin> set B" if "(v, k) \<in> set N" for v k using po that by (force simp: ports_def)
    have NN: "v = v'" if "(v, k) \<in> set N" "(v', k) \<in> set N" for v v' k
      using po that inj_onD [of snd "set N" "(v, k)" "(v', k)"] by (auto simp: ports_def distinct_map)
    have z: "0 \<notin> set T" "0 \<notin> set B" "(v, 0) \<notin> set N" for v using po by (force simp: ports_def)+
    note g = in_tables(1) [OF that(1,2)]
    from in_tables(1) [OF f(1,2)] consider "f = drop_flow 0" | k where "k \<in> set T" "f = in_flow k TTunToLs" | k where "k \<in> set B" "f = in_flow k TLsToTun"
      | v k where "(v, k) \<in> set N" "f = patch_flow v k" by blast
    then show ?thesis
    proof cases
      case 1 with f(3,5) show ?thesis by simp
    next
      case 2 with g that(3) f(3) TB TN z show ?thesis by auto
    next
      case 3 with g that(3) f(3) TB TN z show ?thesis by auto
    next
      case 4 with g that(3) f(3) TN NN z show ?thesis by auto
    qed
  qed
  have "of_Priority f = 1 \<or> f = drop_flow 0" using in_tables(1) [OF f(1,2)] by auto
  with f(3,5) have "of_Priority f = 1" by auto
  with tb_lookup [OF tb f(1,4)] g f(2) show ?thesis by fastforce
qed

lemma run_fabric:
  assumes tb: "tables fs T B N L" and po: "ports T B N"
  obtains out fs' q where "run (n + 8) fs 0 p = (out, fs', q)" and "set out = fst (fabric_switch T B N L p)"
    and "tables fs' T B N (snd (fabric_switch T B N L p))"
proof -
  have d: "set T \<inter> set B = {}" "(set T \<union> set B) \<inter> snd ` set N = {}" "0 \<notin> set T \<union> set B \<union> snd ` set N"
    using po by (auto simp: ports_def)
  have r8: "run (n + 8) fs 0 p = (case lookup fs 0 p of None \<Rightarrow> ([], fs, p) | Some f \<Rightarrow> acts (Suc (Suc (Suc (Suc (Suc (Suc (Suc n))))))) fs (of_Actions f) p)"
    using run_Suc [of "Suc (Suc (Suc (Suc (Suc (Suc (Suc n))))))" fs 0 p] by (simp add: eval_nat_numeral)
  let ?t = "if pk_in p \<in> set T then TTunToLs else TLsToTun"
  consider (tun) "pk_in p \<in> set T \<union> set B" | (patch) v where "(v, pk_in p) \<in> set N" | (no) "pk_in p \<notin> set T \<union> set B \<union> snd ` set N" by force
  then show thesis
  proof cases
    case tun
    have "in_flow (pk_in p) ?t \<in> flows_of T B N L" using tun d(1) by (auto simp: flows_of_def)
    then have "lookup fs 0 p = Some (in_flow (pk_in p) ?t)" using tun d(3) by (intro lookup_in [OF tb po]) auto
    then have r: "run (n + 8) fs 0 p = (let (out, r) = run (Suc (Suc (Suc (Suc (Suc (Suc (Suc n))))))) fs ?t p in (out, r))" by (simp add: r8 split_beta del: run_Suc)
    have v: "vni_of N p = pk_tun p" using tun d(2) by (intro vni_of_other) auto
    obtain out fs' q where "run (Suc (Suc (Suc (Suc (Suc (Suc (Suc n))))))) fs ?t p = (out, fs', q)" "tables fs' T B N (L((pk_tun p, pk_src p) \<mapsto> pk_in p))"
      "set out = (case (L((pk_tun p, pk_src p) \<mapsto> pk_in p)) (pk_tun p, pk_dst p) of None \<Rightarrow> fabric_flood T B N (pk_tun p) (pk_in p) | Some k \<Rightarrow> {k}) - {pk_in p}"
      by (rule run_classified [OF tb po refl refl])
    moreover have "fabric_switch T B N L p = ((case (L((pk_tun p, pk_src p) \<mapsto> pk_in p)) (pk_tun p, pk_dst p) of
        None \<Rightarrow> fabric_flood T B N (pk_tun p) (pk_in p) | Some k \<Rightarrow> {k}) - {pk_in p}, L((pk_tun p, pk_src p) \<mapsto> pk_in p))"
      using tun v by (auto simp: fabric_switch_def Let_def)
    ultimately show ?thesis using r by (intro that [of out fs' q]) (simp_all del: run_Suc)
  next
    case (patch v)
    let ?p = "p\<lparr>pk_tun := Uint2S v\<rparr>"
    have nT: "pk_in p \<notin> set T" using patch d(2) by force
    have "patch_flow v (pk_in p) \<in> flows_of T B N L" using patch by (auto simp: flows_of_def)
    then have "lookup fs 0 p = Some (patch_flow v (pk_in p))" using patch d(3) by (intro lookup_in [OF tb po]) force+
    then have r: "run (n + 8) fs 0 p = (let (out, r) = run (Suc (Suc (Suc (Suc (Suc (Suc (Suc n))))))) fs TLsToTun ?p in (out, r))" by (simp add: r8 split_beta del: run_Suc)
    have v: "vni_of N p = Uint2S v" by (rule vni_of_patch [OF po patch])
    have ps: "pk_tun ?p = Uint2S v" "pk_in ?p = pk_in p" "pk_src ?p = pk_src p" "pk_dst ?p = pk_dst p" by simp_all
    have "TLsToTun = (if pk_in ?p \<in> set T then TTunToLs else TLsToTun)" using nT by simp
    from run_classified [OF tb po this refl, unfolded ps] obtain out fs' q where "run (Suc (Suc (Suc (Suc (Suc (Suc (Suc n))))))) fs TLsToTun ?p = (out, fs', q)"
      "tables fs' T B N (L((Uint2S v, pk_src p) \<mapsto> pk_in p))"
      "set out = (case (L((Uint2S v, pk_src p) \<mapsto> pk_in p)) (Uint2S v, pk_dst p) of None \<Rightarrow> fabric_flood T B N (Uint2S v) (pk_in p) | Some k \<Rightarrow> {k}) - {pk_in p}"
      by blast
    moreover have "pk_in p \<in> snd ` set N" using patch by force
    then have "fabric_switch T B N L p = ((case (L((Uint2S v, pk_src p) \<mapsto> pk_in p)) (Uint2S v, pk_dst p) of
        None \<Rightarrow> fabric_flood T B N (Uint2S v) (pk_in p) | Some k \<Rightarrow> {k}) - {pk_in p}, L((Uint2S v, pk_src p) \<mapsto> pk_in p))"
      using v by (auto simp: fabric_switch_def Let_def)
    ultimately show ?thesis using r by (intro that [of out fs' q]) (simp_all del: run_Suc)
  next
    case no
    have "g = drop_flow 0" if "g \<in> flows_of T B N L" "of_Table g = 0" "hits g p" for g
      using in_tables(1) [OF that(1,2)] that(3) no d(3) by force
    then have "lookup fs (of_Table (drop_flow 0)) p = Some (drop_flow 0)"
      by (intro tb_lookup [OF tb]) (auto simp: flows_of_def base_def)
    moreover have "fabric_switch T B N L p = ({}, L)" using no by (simp add: fabric_switch_def)
    ultimately show ?thesis using r8 tb by (intro that [of "[]" fs p]) simp_all
  qed
qed

end

section \<open>The worker installs these tables\<close>

text \<open>The name and the number of the port of a tunnel and of a network.\<close>

definition tun_name :: "FabricTunnel \<Rightarrow> string" where
  "tun_name t = Addr2Port (ft_Remote t) ''vx-''"

definition net_name :: "FabricNetwork \<Rightarrow> string" where
  "net_name n = snd (vni2peer (fn_Vni n))"

definition pid :: "fabricenv \<Rightarrow> string \<Rightarrow> int" where
  "pid env n = (case fe_DumpPort env n of None \<Rightarrow> 0 | Some k \<Rightarrow> k)"

definition port_up :: "fabricenv \<Rightarrow> string \<Rightarrow> bool" where
  "port_up env n \<longleftrightarrow> fe_AddPort env n = None \<and> fe_SetInterface env n = None \<and> fe_DumpPort env n = Some (pid env n) \<and> pid env n \<noteq> 0"

definition border :: "FabricTunnel \<Rightarrow> bool" where
  "border t \<longleftrightarrow> ft_Mode t = ''border''"

lemma update_new: "n \<notin> fst ` set al \<Longrightarrow> AList.update n p al = al @ [(n, p)]"
  by (induction al) auto

definition names_of :: "FabricWorker \<Rightarrow> string set" where
  "names_of w = fst ` set (fa_tunnels w) \<union> fst ` set (fa_borders w)"

text \<open>The ports of a specification, in the order in which they are added.\<close>

definition tunnel_ids :: "fabricenv \<Rightarrow> FabricTunnel list \<Rightarrow> int list" where
  "tunnel_ids env ts = map (\<lambda>t. pid env (tun_name t)) (filter (\<lambda>t. \<not> border t) ts)"

definition border_ids :: "fabricenv \<Rightarrow> FabricTunnel list \<Rightarrow> int list" where
  "border_ids env ts = map (\<lambda>t. pid env (tun_name t)) (filter border ts)"

definition network_ids :: "fabricenv \<Rightarrow> FabricNetwork list \<Rightarrow> (u32 \<times> int) list" where
  "network_ids env ns = map (\<lambda>n. (fn_Vni n, pid env (net_name n))) ns"

text \<open>The ports that Open vSwitch gives to a specification: every command succeeds and every port has a number of its own, and the networks
  have different identifiers.\<close>

definition fabric_up :: "fabricenv \<Rightarrow> FabricSpecifies \<Rightarrow> bool" where
  "fabric_up env spec \<longleftrightarrow> fe_AddBridge env = None \<and> list_all (\<lambda>t. port_up env (tun_name t)) (fs_Tunnels spec) \<and>
     list_all (\<lambda>n. pid env (net_name n) \<noteq> 0) (fs_Networks spec) \<and> distinct (map fn_Vni (fs_Networks spec)) \<and>
     distinct (map (\<lambda>t. pid env (tun_name t)) (fs_Tunnels spec) @ map (\<lambda>n. pid env (net_name n)) (fs_Networks spec))"

lemma fabric_up_ports:
  assumes "fabric_up env spec"
  shows "ports (tunnel_ids env (fs_Tunnels spec)) (border_ids env (fs_Tunnels spec)) (network_ids env (fs_Networks spec))"
proof -
  let ?p = "\<lambda>t. pid env (tun_name t)" and ?q = "\<lambda>n. pid env (net_name n)" and ?ts = "fs_Tunnels spec" and ?ns = "fs_Networks spec"
  have d: "distinct (map ?p ?ts)" "distinct (map ?q ?ns)" "set (map ?p ?ts) \<inter> set (map ?q ?ns) = {}" "distinct (map fn_Vni ?ns)"
    "0 \<notin> set (map ?p ?ts)" "0 \<notin> set (map ?q ?ns)"
    using assms by (auto simp: fabric_up_def list_all_iff port_up_def)
  have "inj_on ?p (set ?ts)" using d(1) by (simp add: distinct_map)
  then have "set (tunnel_ids env ?ts) \<inter> set (border_ids env ?ts) = {}" by (auto simp: tunnel_ids_def border_ids_def dest: inj_onD)
  moreover have "distinct (tunnel_ids env ?ts)" "distinct (border_ids env ?ts)"
    using d(1) by (simp_all add: tunnel_ids_def border_ids_def distinct_map_filter)
  moreover have "set (tunnel_ids env ?ts) \<union> set (border_ids env ?ts) \<subseteq> set (map ?p ?ts)" by (auto simp: tunnel_ids_def border_ids_def)
  moreover have "map snd (network_ids env ?ns) = map ?q ?ns" "map fst (network_ids env ?ns) = map fn_Vni ?ns" by (simp_all add: network_ids_def)
  ultimately show ?thesis using d(2-6) unfolding ports_def by (simp only: distinct_append set_append) blast
qed

abbreviation add_net :: "fabricenv \<Rightarrow> FabricNetwork \<Rightarrow> FabricWorker \<Rightarrow> FabricWorker" where
  "add_net env n w \<equiv> fold (\<lambda>port. FabricWorker_AddOutput env (fn_Bridge n) (fo_Vlan port) (fo_Interface port)) (fn_Outputs n) (FabricWorker_AddNetwork env n w)"

lemma flow_table_append: "flow_table none add (cs @ ds) = fold (flow_effect none add) ds (flow_table none add cs)"
  by (simp add: flow_table_def)

lemma flow_effect_simps [simp]:
  "flow_effect z a (AddFlow f) s = a f s" "flow_effect z a AddBridge s = s" "flow_effect z a (SetFailMode m) s = s" "flow_effect z a (AddPort n) s = s"
  "flow_effect z a (SetInterface n o') s = s" "flow_effect z a (VethAdd x y) s = s" "flow_effect z a (LinkSetUp n) s = s"
  "flow_effect z a (BridgeOpen b x) s = s" "flow_effect z a (BridgeAddSlave b n) s = s" "flow_effect z a (BridgeCallIptables b) s = s"
  "flow_effect z a (VlanAdd n i vl) s = s" "flow_effect z a (BrAddPort b n) s = s"
  by (simp_all add: flow_effect_def)

context openflow
begin

lemma tables_tunnel:
  assumes tb: "tables fs T B N L" and k: "fresh k T B N"
  shows "tables (add (floodT (T @ [k])) (add (in_flow k TTunToLs) fs)) (T @ [k]) B N L"
proof -
  let ?i = "in_flow k TTunToLs" and ?f = "floodT (T @ [k])"
  have "g \<in> flows_of (T @ [k]) B N L \<longleftrightarrow> g = ?f \<or> (g = ?i \<or> g \<in> flows_of T B N L \<and> flow_key g \<noteq> flow_key ?i) \<and> flow_key g \<noteq> flow_key ?f" for g
  proof (cases "g = ?f \<or> g = ?i")
    case True
    then show ?thesis by (auto simp: flows_of_def flow_key_def table_defs)
  next
    case False
    have "flow_key g = flow_key ?i \<Longrightarrow> g \<notin> flows_of T B N L" using key_in [OF k] by (auto simp: flow_key_def)
    moreover have "g \<in> flows_of T B N L \<Longrightarrow> g \<noteq> floodT T \<Longrightarrow> g \<in> flows_of (T @ [k]) B N L" by (auto simp: flows_of_def)
    moreover have "g \<in> flows_of (T @ [k]) B N L \<Longrightarrow> g \<in> flows_of T B N L" using False by (auto simp: flows_of_def)
    moreover have "g \<in> flows_of (T @ [k]) B N L \<Longrightarrow> flow_key g \<noteq> flow_key ?f" using key_floodT [of g "T @ [k]"] False by auto
    moreover have "flow_key (floodT T) = flow_key ?f" by (simp add: flow_key_def)
    ultimately show ?thesis using False by auto
  qed
  then show ?thesis using tb unfolding tables_def by (auto simp: content_add)
qed

lemma tables_border:
  assumes tb: "tables fs T B N L" and k: "fresh k T B N"
  defines "B' \<equiv> B @ [k]"
  shows "tables (add (floodB FFromLs (map Output B' @ [Resubmit 0 TFloodLoop])) (add (floodB FFromTun (map Output B'))
    (add (in_flow k TLsToTun) fs))) T B' N L"
proof -
  let ?i = "in_flow k TLsToTun" and ?a = "floodB FFromTun (map Output B')" and ?b = "floodB FFromLs (map Output B' @ [Resubmit 0 TFloodLoop])"
  let ?oa = "floodB FFromTun (map Output B)" and ?ob = "floodB FFromLs (map Output B @ [Resubmit 0 TFloodLoop])"
  have "g \<in> flows_of T B' N L \<longleftrightarrow> g = ?b \<or> (g = ?a \<or> (g = ?i \<or> g \<in> flows_of T B N L \<and> flow_key g \<noteq> flow_key ?i) \<and> flow_key g \<noteq> flow_key ?a) \<and>
      flow_key g \<noteq> flow_key ?b" for g
  proof (cases "g = ?a \<or> g = ?b \<or> g = ?i")
    case True
    moreover have "?a \<in> flows_of T B' N L" "?b \<in> flows_of T B' N L" "?i \<in> flows_of T B' N L" by (simp_all add: flows_of_def B'_def)
    moreover have "flow_key ?a \<noteq> flow_key ?b" "flow_key ?i \<noteq> flow_key ?a" "flow_key ?i \<noteq> flow_key ?b" by (simp_all add: flow_key_def table_defs)
    ultimately show ?thesis by blast
  next
    case False
    have "flow_key g = flow_key ?i \<Longrightarrow> g \<notin> flows_of T B N L" using key_in [OF k] by (auto simp: flow_key_def)
    moreover have "g \<in> flows_of T B N L \<Longrightarrow> g \<noteq> ?oa \<Longrightarrow> g \<noteq> ?ob \<Longrightarrow> g \<in> flows_of T B' N L" by (auto simp: flows_of_def B'_def)
    moreover have "g \<in> flows_of T B' N L \<Longrightarrow> g \<in> flows_of T B N L" using False by (auto simp: flows_of_def B'_def)
    moreover have "g \<in> flows_of T B' N L \<Longrightarrow> flow_key g \<noteq> flow_key ?a \<and> flow_key g \<noteq> flow_key ?b" using key_floodB [of g T B'] False by auto
    moreover have "flow_key ?oa = flow_key ?a" "flow_key ?ob = flow_key ?b" by (simp_all add: flow_key_def)
    ultimately show ?thesis using False by auto
  qed
  then show ?thesis using tb unfolding tables_def by (auto simp: content_add)
qed

lemma tables_network:
  assumes tb: "tables fs T B N L" and k: "fresh k T B N" and v: "v \<notin> fst ` set N"
  shows "tables (add (loop_flow v k) (add (down_flow v k) (add (patch_flow v k) fs))) T B (N @ [(v, k)]) L"
proof -
  let ?p = "patch_flow v k" and ?d = "down_flow v k" and ?l = "loop_flow v k"
  have "g \<in> flows_of T B (N @ [(v, k)]) L \<longleftrightarrow> g = ?l \<or> (g = ?d \<or> (g = ?p \<or> g \<in> flows_of T B N L \<and> flow_key g \<noteq> flow_key ?p) \<and> flow_key g \<noteq> flow_key ?d) \<and>
      flow_key g \<noteq> flow_key ?l" for g
  proof (cases "g = ?p \<or> g = ?d \<or> g = ?l")
    case True
    moreover have "?p \<in> flows_of T B (N @ [(v, k)]) L" "?d \<in> flows_of T B (N @ [(v, k)]) L" "?l \<in> flows_of T B (N @ [(v, k)]) L"
      by (auto simp: flows_of_def)
    moreover have "flow_key ?d \<noteq> flow_key ?l" "flow_key ?p \<noteq> flow_key ?d" "flow_key ?p \<noteq> flow_key ?l" by (simp_all add: flow_key_def table_defs)
    ultimately show ?thesis by blast
  next
    case False
    have "flow_key g = flow_key ?p \<Longrightarrow> g \<notin> flows_of T B N L" using key_in [OF k] by (auto simp: flow_key_def)
    moreover have "flow_key g = flow_key ?d \<Longrightarrow> g \<notin> flows_of T B N L" using in_tables(6) [of g T B N L] v by (force simp: flow_key_def)
    moreover have "flow_key g = flow_key ?l \<Longrightarrow> g \<notin> flows_of T B N L" using in_tables(8) [of g T B N L] v by (force simp: flow_key_def)
    moreover have "g \<in> flows_of T B (N @ [(v, k)]) L \<longleftrightarrow> g \<in> flows_of T B N L" using False by (auto simp: flows_of_def)
    ultimately show ?thesis using False by auto
  qed
  then show ?thesis using tb unfolding tables_def by (auto simp: content_add)
qed

abbreviation flows :: "FabricWorker \<Rightarrow> 's" where
  "flows w \<equiv> flow_table none add (fa_calls w)"

lemma content_new: "\<forall>g \<in> content s. flow_key g \<noteq> flow_key f \<Longrightarrow> content (add f s) = insert f (content s)"
  by (auto simp: content_add)

lemma Initialize_flows:
  assumes "fa_calls w = []" and "fe_AddBridge env = None"
  shows "tables (flows (FabricWorker_Initialize env w)) [] [] [] (\<lambda>_. None)"
proof -
  have f: "flows (FabricWorker_Initialize env w) = add (drop_flow TFloodToBor) (add (drop_flow TFloodToTun) (add ucast_flow (add learn_flow
      (add (flag_flow TTunToLs FFromTun) (add (flag_flow TLsToTun FFromLs) (add (drop_flow 0) none))))))"
    using assms by (simp add: FabricWorker_Initialize_def FabricWorker_upTables_def FabricWorker_addLearning_def OvsBridge_addFlow_def
        flow_table_def flow_defs table_defs)
  have "content (flows (FabricWorker_Initialize env w)) = base"
    unfolding f by (simp add: content_new content_none base_def flow_key_def table_defs insert_commute)
  then show ?thesis by (auto simp: tables_def flows_of_def)
qed

definition fab_ok :: "FabricWorker \<Rightarrow> int list \<Rightarrow> int list \<Rightarrow> (u32 \<times> int) list \<Rightarrow> bool" where
  "fab_ok w T B N \<longleftrightarrow> tables (flows w) T B N (\<lambda>_. None) \<and> map (op_portId \<circ> snd) (fa_tunnels w) = T \<and> map (op_portId \<circ> snd) (fa_borders w) = B"

lemma AddTunnel_flows:
  assumes up: "port_up env (tun_name t)" and ok: "fab_ok w T B N" and fr: "fresh (pid env (tun_name t)) T B N" and new: "tun_name t \<notin> names_of w"
    and w': "w' = FabricWorker_AddTunnel env spec t w"
  shows "fab_ok w' (if border t then T else T @ [pid env (tun_name t)]) (if border t then B @ [pid env (tun_name t)] else B) N \<and>
    names_of w' = insert (tun_name t) (names_of w)"
proof -
  let ?k = "pid env (tun_name t)"
  have tb: "tables (flows w) T B N (\<lambda>_. None)" and T: "map (op_portId \<circ> snd) (fa_tunnels w) = T" and B: "map (op_portId \<circ> snd) (fa_borders w) = B"
    using ok by (simp_all add: fab_ok_def)
  have outs: "map (\<lambda>(_, p). Output (op_portId p)) (fa_tunnels w) = map Output T" "map (\<lambda>(_, p). Output (op_portId p)) (fa_borders w) = map Output B"
    unfolding T [symmetric] B [symmetric] by auto
  have upd: "AList.update (tun_name t) p (fa_tunnels w) = fa_tunnels w @ [(tun_name t, p)]"
    "AList.update (tun_name t) p (fa_borders w) = fa_borders w @ [(tun_name t, p)]" for p using new by (simp_all add: update_new names_of_def)
  note defs = FabricWorker_AddTunnel_def OvsBridge_addPort_def OvsBridge_addFlow_def FabricWorker_flood2Border_def FabricWorker_flood2Tunnel_def
    tun_name_def [symmetric] Let_def outs flow_table_append upd fab_ok_def names_of_def
  have up': "fe_AddPort env (tun_name t) = None" "fe_SetInterface env (tun_name t) = None" "fe_DumpPort env (tun_name t) = Some ?k"
    using up by (simp_all add: port_up_def)
  show ?thesis
  proof (cases "border t")
    case True
    then show ?thesis using tables_border [OF tb fr] up' T B unfolding w' border_def by (simp add: defs flow_defs)
  next
    case False
    then show ?thesis using tables_tunnel [OF tb fr] up' T B unfolding w' border_def by (simp add: defs flow_defs)
  qed
qed

lemma AddOutput_ok: "fab_ok w T B N \<Longrightarrow> fab_ok (FabricWorker_AddOutput env b v o' w) T B N"
  by (simp add: FabricWorker_AddOutput_def Let_def fab_ok_def flow_table_append)

lemma AddOutputs_ok:
  "fab_ok w T B N \<Longrightarrow> fab_ok (fold (\<lambda>p. FabricWorker_AddOutput env b (fo_Vlan p) (fo_Interface p)) ps w) T B N"
  by (induction ps arbitrary: w) (simp_all add: AddOutput_ok)

lemma AddNetwork_flows:
  assumes ok: "fab_ok w T B N" and fr: "fresh (pid env (net_name n)) T B N" and new: "fn_Vni n \<notin> fst ` set N"
  shows "fab_ok (FabricWorker_AddNetwork env n w) T B (N @ [(fn_Vni n, pid env (net_name n))])"
proof -
  let ?k = "pid env (net_name n)" and ?w = "FabricWorker_AddNetwork env n w"
  have tb: "tables (flows w) T B N (\<lambda>_. None)" using ok by (simp add: fab_ok_def)
  have "flows ?w = add (loop_flow (fn_Vni n) ?k) (add (down_flow (fn_Vni n) ?k) (add (patch_flow (fn_Vni n) ?k) (flows w)))"
    by (simp add: FabricWorker_AddNetwork_def FabricWorker_UpLink_def OvsBridge_addPort_def OvsBridge_addFlow_def vni2peer_def Let_def net_name_def pid_def
        flow_defs flow_table_append split: option.splits)
  moreover have "fa_tunnels ?w = fa_tunnels w" "fa_borders ?w = fa_borders w"
    by (simp_all add: FabricWorker_AddNetwork_def FabricWorker_UpLink_def OvsBridge_addPort_def OvsBridge_addFlow_def vni2peer_def Let_def split: option.splits)
  ultimately show ?thesis using ok tables_network [OF tb fr new] by (simp add: fab_ok_def)
qed

lemma AddTunnels_flows:
  assumes "fab_ok w T B []" and "\<forall>t \<in> set ts. port_up env (tun_name t)" and "distinct (T @ B @ map (\<lambda>t. pid env (tun_name t)) ts)"
    and "names_of w \<inter> tun_name ` set ts = {}"
  shows "fab_ok (fold (FabricWorker_AddTunnel env spec) ts w) (T @ tunnel_ids env ts) (B @ border_ids env ts) []"
  using assms
proof (induction ts arbitrary: w T B)
  case Nil
  then show ?case by (simp add: tunnel_ids_def border_ids_def)
next
  case (Cons t ts)
  let ?k = "pid env (tun_name t)" and ?w = "FabricWorker_AddTunnel env spec t w"
  let ?T = "if border t then T else T @ [?k]" and ?B = "if border t then B @ [?k] else B"
  have "tun_name t \<noteq> tun_name u" if "u \<in> set ts" for u using Cons.prems(3) that by (auto simp: image_iff)
  moreover have "port_up env (tun_name t)" "fresh ?k T B []" "tun_name t \<notin> names_of w"
    using Cons.prems by (auto simp: fresh_def port_up_def)
  ultimately have "fab_ok ?w ?T ?B []" "names_of ?w \<inter> tun_name ` set ts = {}"
    using AddTunnel_flows [OF _ Cons.prems(1) _ _ refl, of env t spec] Cons.prems(4) by auto
  then have "fab_ok (fold (FabricWorker_AddTunnel env spec) ts ?w) (?T @ tunnel_ids env ts) (?B @ border_ids env ts) []"
    using Cons.prems(2,3) by (intro Cons.IH) auto
  then show ?case by (auto simp: tunnel_ids_def border_ids_def split: if_splits)
qed

lemma AddNetworks_flows:
  assumes "fab_ok w T B N" and "ports T B (N @ network_ids env ns)"
  shows "fab_ok (fold (add_net env) ns w) T B (N @ network_ids env ns)"
  using assms
proof (induction ns arbitrary: w N)
  case Nil
  then show ?case by (simp add: network_ids_def)
next
  case (Cons n ns)
  have "fresh (pid env (net_name n)) T B N" "fn_Vni n \<notin> fst ` set N" using Cons.prems(2) by (auto simp: fresh_def ports_def network_ids_def)
  then have "fab_ok (add_net env n w) T B (N @ [(fn_Vni n, pid env (net_name n))])"
    by (intro AddOutputs_ok AddNetwork_flows Cons.prems(1))
  from Cons.IH [OF this] Cons.prems(2) show ?case by (simp add: network_ids_def)
qed

lemma Start_worker:
  "FabricWorker_Start env f w = Inr (f', w') \<Longrightarrow> fa_spec w = Some spec \<Longrightarrow>
     w' = fold (add_net env) (fs_Networks spec) (fold (FabricWorker_AddTunnel env spec) (fs_Tunnels spec) w)"
proof -
  have "snd (fold (\<lambda>net (f, w). (fabric_rules spec net f, add_net env net w)) ns (f, w)) = fold (add_net env) ns w" for ns f w
    by (induction ns arbitrary: f w) simp_all
  then show "FabricWorker_Start env f w = Inr (f', w') \<Longrightarrow> fa_spec w = Some spec \<Longrightarrow> ?thesis"
    by (auto simp: FabricWorker_Start_def Let_def dest: arg_cong [of _ _ snd])
qed

lemma Initialize_ok:
  assumes "NewFabricWorker c = Inr w" and "fe_AddBridge env = None"
  shows "fab_ok (FabricWorker_Initialize env w) [] [] [] \<and> names_of (FabricWorker_Initialize env w) = {} \<and> fa_spec (FabricWorker_Initialize env w) = fa_spec w"
proof -
  have w: "fa_calls w = []" "fa_tunnels w = []" "fa_borders w = []" using assms(1) by (auto simp: NewFabricWorker_def split: option.splits)
  have "fa_tunnels (FabricWorker_Initialize env w) = []" "fa_borders (FabricWorker_Initialize env w) = []"
    "fa_spec (FabricWorker_Initialize env w) = fa_spec w"
    using w assms(2) by (simp_all add: FabricWorker_Initialize_def FabricWorker_upTables_def FabricWorker_addLearning_def OvsBridge_addFlow_def Let_def)
  then show ?thesis using Initialize_flows [OF w(1) assms(2)] by (simp add: fab_ok_def names_of_def)
qed

lemma Start_tables:
  assumes "NewFabricWorker c = Inr w" and "cn_Specifies c = SpecFabric spec" and up: "fabric_up env spec"
  obtains f' w' where "FabricWorker_Start env f (FabricWorker_Initialize env w) = Inr (f', w')"
    and "tables (flows w') (tunnel_ids env (fs_Tunnels spec)) (border_ids env (fs_Tunnels spec)) (network_ids env (fs_Networks spec)) (\<lambda>_. None)"
proof -
  let ?i = "FabricWorker_Initialize env w" and ?T = "tunnel_ids env (fs_Tunnels spec)" and ?B = "border_ids env (fs_Tunnels spec)"
  let ?N = "network_ids env (fs_Networks spec)"
  have i: "fab_ok ?i [] [] []" "names_of ?i = {}" "fa_spec ?i = fa_spec w" using Initialize_ok [OF assms(1)] up by (simp_all add: fabric_up_def)
  have "fa_spec w = Some spec" using assms(1,2) by (auto simp: NewFabricWorker_def split: option.splits)
  then have sp: "fa_spec ?i = Some spec" using i(3) by simp
  obtain f' w' where s: "FabricWorker_Start env f ?i = Inr (f', w')"
    using sp by (cases "FabricWorker_Start env f ?i") (auto simp: FabricWorker_Start_def Let_def)
  have "fab_ok (fold (FabricWorker_AddTunnel env spec) (fs_Tunnels spec) ?i) ([] @ ?T) ([] @ ?B) []"
    using up i by (intro AddTunnels_flows) (auto simp: fabric_up_def list_all_iff)
  then have "fab_ok w' ?T ?B ([] @ ?N)"
    using fabric_up_ports [OF up] unfolding Start_worker [OF s sp] by (intro AddNetworks_flows) simp_all
  then show thesis using that [OF s] by (simp add: fab_ok_def)
qed

end

section \<open>Runs\<close>

text \<open>The ports that each frame of a sequence goes out of, by the flows and by the abstract switch.\<close>

fun frames :: "('s \<Rightarrow> int \<Rightarrow> pkt \<Rightarrow> int list \<times> 's \<times> pkt) \<Rightarrow> 's \<Rightarrow> pkt list \<Rightarrow> int set list" where
  "frames run fs [] = []"
| "frames run fs (p # ps) = (let (out, fs, _) = run fs 0 p in set out # frames run fs ps)"

fun switched :: "int list \<Rightarrow> int list \<Rightarrow> (u32 \<times> int) list \<Rightarrow> (string \<times> string \<rightharpoonup> int) \<Rightarrow> pkt list \<Rightarrow> int set list" where
  "switched T B N L [] = []"
| "switched T B N L (p # ps) = (let (out, L) = fabric_switch T B N L p in out # switched T B N L ps)"

text \<open>The addresses learned at the patch port of a network are of that network.\<close>

definition learned_ok :: "(u32 \<times> int) list \<Rightarrow> (string \<times> string \<rightharpoonup> int) \<Rightarrow> bool" where
  "learned_ok N L \<longleftrightarrow> (\<forall>v m k u. L (v, m) = Some k \<longrightarrow> (u, k) \<in> set N \<longrightarrow> v = Uint2S u)"

lemma fabric_switch_isolated:
  assumes po: "ports T B N" and ok: "learned_ok N L" and s: "fabric_switch T B N L p = (out, L')"
  shows "learned_ok N L'" and "(v, k) \<in> set N \<Longrightarrow> k \<in> out \<Longrightarrow> vni_of N p = Uint2S v"
proof -
  let ?v = "vni_of N p" and ?L = "L((vni_of N p, pk_src p) \<mapsto> pk_in p)"
  have L: "learned_ok N ?L" using ok vni_of_patch [OF po] unfolding learned_ok_def by (auto split: if_splits)
  then show "learned_ok N L'" using s ok by (auto simp: fabric_switch_def Let_def split: if_splits)
  assume v: "(v, k) \<in> set N" and k: "k \<in> out"
  have "k \<in> snd ` set N" using v by force
  then have d: "k \<notin> set T" "k \<notin> set B" using po by (auto simp: ports_def)
  have u: "u = v" if "(u, k) \<in> set N" for u
  proof -
    have "inj_on snd (set N)" using po by (simp add: ports_def distinct_map)
    from inj_onD [OF this _ that v] show ?thesis by simp
  qed
  have "k \<in> (case ?L (?v, pk_dst p) of None \<Rightarrow> fabric_flood T B N ?v (pk_in p) | Some j \<Rightarrow> {j})"
    using s k by (auto simp: fabric_switch_def Let_def split: if_splits)
  then consider "?L (?v, pk_dst p) = Some k" | "k \<in> fabric_flood T B N ?v (pk_in p)" by (auto split: option.splits)
  then show "?v = Uint2S v"
  proof cases
    case 1
    then show ?thesis using L v unfolding learned_ok_def by blast
  next
    case 2
    then have "k \<in> patch N ?v" using d by (auto simp: fabric_flood_def split: if_splits)
    then show ?thesis using u by (auto simp: patch_def)
  qed
qed

lemma switched_isolated:
  "ports T B N \<Longrightarrow> learned_ok N L \<Longrightarrow>
     list_all2 (\<lambda>p out. \<forall>(v, k) \<in> set N. k \<in> out \<longrightarrow> vni_of N p = Uint2S v) ps (switched T B N L ps)"
proof (induction ps arbitrary: L)
  case Nil
  then show ?case by simp
next
  case (Cons p ps)
  obtain out L' where s: "fabric_switch T B N L p = (out, L')" by fastforce
  show ?case using Cons.IH [OF Cons.prems(1) fabric_switch_isolated(1) [OF Cons.prems s]] fabric_switch_isolated(2) [OF Cons.prems s] s by auto
qed

context openflow
begin

lemma frames_switched: "ports T B N \<Longrightarrow> tables fs T B N L \<Longrightarrow> frames (run (n + 8)) fs ps = switched T B N L ps"
proof (induction ps arbitrary: fs L)
  case Nil
  then show ?case by simp
next
  case (Cons p ps)
  from run_fabric [OF Cons.prems(2,1), of n p] obtain out fs' q where r: "run (n + 8) fs 0 p = (out, fs', q)" "set out = fst (fabric_switch T B N L p)"
    "tables fs' T B N (snd (fabric_switch T B N L p))" by blast
  then show ?case using Cons.IH [OF Cons.prems(1) r(3)] by (simp add: split_beta)
qed

end

text \<open>The networks whose patch port is among given ports.\<close>

definition reached :: "(u32 \<times> int) list \<Rightarrow> int set \<Rightarrow> string set" where
  "reached N out = (\<lambda>(v, k). Uint2S v) ` {(v, k) \<in> set N. k \<in> out}"

text \<open>C12. The flow tables of a started fabric refine a learning switch. On every switch that handles flows as Open vSwitch documents it, for
  every configuration of tunnels, borders and networks whose ports come up, and for every sequence of frames, each frame goes out of
  exactly the ports of the abstract switch: the port where its destination was last seen in its network, or, when it was not seen, the
  flood of its network. Eight levels of resubmission are enough.\<close>

theorem fabric_refines_switch:
  assumes "openflow content none add lookup run acts" and "NewFabricWorker c = Inr w" and "cn_Specifies c = SpecFabric spec" and "fabric_up env spec"
  shows "\<exists>f' w'. FabricWorker_Start env f (FabricWorker_Initialize env w) = Inr (f', w') \<and>
    frames (run (n + 8)) (flow_table none add (fa_calls w')) ps =
      switched (tunnel_ids env (fs_Tunnels spec)) (border_ids env (fs_Tunnels spec)) (network_ids env (fs_Networks spec)) (\<lambda>_. None) ps"
  using openflow.Start_tables [OF assms, of f] openflow.frames_switched [OF assms(1) fabric_up_ports [OF assms(4)]] by metis

text \<open>C13. Networks of a fabric are isolated: in every sequence of frames a frame reaches the patch port of a network only when it belongs to
  that network, by the patch port it came from or by the tunnel identifier it carries.\<close>

theorem fabric_networks_isolated:
  assumes "openflow content none add lookup run acts" and "NewFabricWorker c = Inr w" and "cn_Specifies c = SpecFabric spec" and "fabric_up env spec"
  shows "\<exists>f' w'. FabricWorker_Start env f (FabricWorker_Initialize env w) = Inr (f', w') \<and>
    list_all2 (\<lambda>p out. reached (network_ids env (fs_Networks spec)) out \<subseteq> {vni_of (network_ids env (fs_Networks spec)) p})
      ps (frames (run (n + 8)) (flow_table none add (fa_calls w')) ps)"
proof -
  let ?N = "network_ids env (fs_Networks spec)"
  obtain f' w' where s: "FabricWorker_Start env f (FabricWorker_Initialize env w) = Inr (f', w')"
    and tb: "openflow.tables content (flow_table none add (fa_calls w')) (tunnel_ids env (fs_Tunnels spec)) (border_ids env (fs_Tunnels spec)) ?N (\<lambda>_. None)"
    by (rule openflow.Start_tables [OF assms])
  have "learned_ok ?N (\<lambda>_. None)" by (simp add: learned_ok_def)
  from switched_isolated [OF fabric_up_ports [OF assms(4)] this, of ps]
  have "list_all2 (\<lambda>p out. reached ?N out \<subseteq> {vni_of ?N p}) ps (frames (run (n + 8)) (flow_table none add (fa_calls w')) ps)"
    unfolding openflow.frames_switched [OF assms(1) fabric_up_ports [OF assms(4)] tb, symmetric, of ps n] by (rule list_all2_mono) (auto simp: reached_def)
  with s show ?thesis by (intro exI conjI)
qed

section \<open>An executable switch\<close>

text \<open>A switch that keeps its flows in a list has the documented behaviour.\<close>

definition list_add :: "Flow \<Rightarrow> Flow list \<Rightarrow> Flow list" where
  "list_add f fs = f # filter (\<lambda>g. flow_key g \<noteq> flow_key f) fs"

definition list_lookup :: "Flow list \<Rightarrow> int \<Rightarrow> pkt \<Rightarrow> Flow option" where
  "list_lookup fs t p =
     (let ms = remdups (filter (\<lambda>f. of_Table f = t \<and> hits f p) fs)
      in case filter (\<lambda>f. \<forall>g \<in> set ms. of_Priority g \<le> of_Priority f) ms of [f] \<Rightarrow> Some f | _ \<Rightarrow> None)"

fun list_run :: "nat \<Rightarrow> Flow list \<Rightarrow> int \<Rightarrow> pkt \<Rightarrow> int list \<times> Flow list \<times> pkt"
  and list_acts :: "nat \<Rightarrow> Flow list \<Rightarrow> Action list \<Rightarrow> pkt \<Rightarrow> int list \<times> Flow list \<times> pkt" where
  "list_run 0 fs t p = ([], fs, p)"
| "list_run (Suc n) fs t p = (case list_lookup fs t p of None \<Rightarrow> ([], fs, p) | Some f \<Rightarrow> list_acts n fs (of_Actions f) p)"
| "list_acts n fs [] p = ([], fs, p)"
| "list_acts n fs (Output k # as) p = (let (out, r) = list_acts n fs as p in (if k = pk_in p then out else k # out, r))"
| "list_acts n fs (Load v k # as) p = list_acts n fs as (pk_load k v p)"
| "list_acts n fs (Resubmit _ t # as) p = (let (out, fs, p) = list_run n fs t p; (out', r) = list_acts n fs as p in (out @ out', r))"
| "list_acts n fs (Learn t ms pr _ _ # as) p = list_acts n (list_add (learned t ms pr p) fs) as p"
| "list_acts n fs (Drop # as) p = list_acts n fs as p"
| "list_acts n fs (OutputField _ # as) p = list_acts n fs as p"

lemma distinct_single: "distinct xs \<Longrightarrow> set xs = {x} \<Longrightarrow> xs = [x]"
  by (cases xs; cases "tl xs") (auto simp: insert_eq_iff)

lemma list_lookup_eq:
  assumes "f \<in> set fs" and "of_Table f = t" and "hits f p"
    and "\<And>g. g \<in> set fs \<Longrightarrow> of_Table g = t \<Longrightarrow> hits g p \<Longrightarrow> g = f \<or> of_Priority g < of_Priority f"
  shows "list_lookup fs t p = Some f"
proof -
  let ?ms = "remdups (filter (\<lambda>f. of_Table f = t \<and> hits f p) fs)"
  let ?top = "filter (\<lambda>f. \<forall>g \<in> set ?ms. of_Priority g \<le> of_Priority f) ?ms"
  have "set ?top = {f}"
  proof
    show "set ?top \<subseteq> {f}" using assms by force
    show "{f} \<subseteq> set ?top" using assms by fastforce
  qed
  moreover have "distinct ?top" by simp
  ultimately have "?top = [f]" by (rule distinct_single [rotated])
  then show ?thesis unfolding list_lookup_def Let_def by simp
qed

lemma list_lookup_none: "(\<And>g. g \<in> set fs \<Longrightarrow> of_Table g = t \<Longrightarrow> \<not> hits g p) \<Longrightarrow> list_lookup fs t p = None"
proof -
  assume "\<And>g. g \<in> set fs \<Longrightarrow> of_Table g = t \<Longrightarrow> \<not> hits g p"
  then have "filter (\<lambda>f. of_Table f = t \<and> hits f p) fs = []" by (auto simp: filter_empty_conv)
  then show ?thesis by (simp add: list_lookup_def)
qed

interpretation ovs: openflow set "[]" list_add list_lookup list_run list_acts
  by unfold_locales (auto simp: list_add_def intro: list_lookup_eq list_lookup_none)

section \<open>Witnesses\<close>

definition fabric_spec_demo :: FabricSpecifies where
  "fabric_spec_demo = \<lparr>fs_Mss = 1300, fs_Fragment = False, fs_Driver = ''vxlan'', fs_Name = ''f'',
     fs_Tunnels = [\<lparr>ft_DstPort = 4789, ft_Remote = ''10.0.0.1'', ft_Local = [], ft_Mode = []\<rparr>,
       \<lparr>ft_DstPort = 4789, ft_Remote = ''10.0.0.2'', ft_Local = [], ft_Mode = ''border''\<rparr>],
     fs_Networks = [\<lparr>fn_Vni = 7, fn_Bridge = ''br-a'', fn_Address = [], fn_Outputs = []\<rparr>,
       \<lparr>fn_Vni = 8, fn_Bridge = ''br-b'', fn_Address = [], fn_Outputs = []\<rparr>]\<rparr>"

definition fabric_net_demo :: co_Network where
  "fabric_net_demo = network_demo\<lparr>cn_Specifies := SpecFabric fabric_spec_demo\<rparr>"

definition fabric_env_demo :: fabricenv where
  "fabric_env_demo = \<lparr>fe_AddBridge = None, fe_AddPort = (\<lambda>_. None), fe_SetInterface = (\<lambda>_. None),
     fe_DumpPort = map_of [(''vx-10001'', 1), (''vx-10002'', 2), (''vb-00000007'', 3), (''vb-00000008'', 4)],
     fe_LinkByName = (\<lambda>_. False), fe_LinkAdd = (\<lambda>_. None)\<rparr>"

lemma fabric_demo_up: "fabric_up fabric_env_demo fabric_spec_demo"
  by code_simp

lemma fabric_demo_ids:
  "tunnel_ids fabric_env_demo (fs_Tunnels fabric_spec_demo) = [1]" "border_ids fabric_env_demo (fs_Tunnels fabric_spec_demo) = [2]"
  "network_ids fabric_env_demo (fs_Networks fabric_spec_demo) = [(7, 3), (8, 4)]"
  by code_simp+

lemma fabric_demo_vnis: "Uint2S 7 = ''7''" "Uint2S 8 = ''8''"
  by code_simp+

lemma fabric_demo_worker: obtains w where "NewFabricWorker fabric_net_demo = Inr w" and "cn_Specifies fabric_net_demo = SpecFabric fabric_spec_demo"
  by (simp add: NewFabricWorker_def fabric_net_demo_def network_demo_facts)

text \<open>A host of network 7 behind a patch port asks a host behind the tunnel, which answers; a frame of network 8 with the same addresses is
  flooded.\<close>

definition fabric_frames_demo :: "pkt list" where
  "fabric_frames_demo = [\<lparr>pk_in = 3, pk_flag = ''0'', pk_tun = ''0'', pk_src = ''a'', pk_dst = ''b''\<rparr>,
     \<lparr>pk_in = 1, pk_flag = ''0'', pk_tun = ''7'', pk_src = ''b'', pk_dst = ''a''\<rparr>,
     \<lparr>pk_in = 1, pk_flag = ''0'', pk_tun = ''8'', pk_src = ''b'', pk_dst = ''a''\<rparr>]"

lemma patch_Cons: "patch [] v = {}" "patch ((u, k) # N) v = (if v = Uint2S u then {k} else {}) \<union> patch N v"
  by (auto simp: patch_def)

theorem fabric_refines_switch_witness:
  "\<exists>w f' w'. NewFabricWorker fabric_net_demo = Inr w \<and>
     FabricWorker_Start fabric_env_demo (NewFireWall []) (FabricWorker_Initialize fabric_env_demo w) = Inr (f', w') \<and>
     frames (list_run 64) (flow_table [] list_add (fa_calls w')) fabric_frames_demo = [{1, 2}, {3}, {2, 4}]"
proof -
  obtain w where w: "NewFabricWorker fabric_net_demo = Inr w" "cn_Specifies fabric_net_demo = SpecFabric fabric_spec_demo" by (rule fabric_demo_worker)
  have "switched [1] [2] [(7, 3), (8, 4)] (\<lambda>_. None) fabric_frames_demo = [{1, 2}, {3}, {2, 4}]"
    by (simp add: fabric_frames_demo_def fabric_switch_def fabric_flood_def vni_of_def patch_Cons fabric_demo_vnis Let_def insert_Diff_if insert_commute)
  with fabric_refines_switch [OF ovs.openflow_axioms w fabric_demo_up, of "NewFireWall []" 56 fabric_frames_demo] w(1) show ?thesis
    by (simp add: fabric_demo_ids)
qed

theorem fabric_networks_isolated_witness:
  "\<exists>w f' w' out. NewFabricWorker fabric_net_demo = Inr w \<and>
     FabricWorker_Start fabric_env_demo (NewFireWall []) (FabricWorker_Initialize fabric_env_demo w) = Inr (f', w') \<and>
     frames (list_run 64) (flow_table [] list_add (fa_calls w')) [hd fabric_frames_demo] = [out] \<and> reached [(7, 3), (8, 4)] out \<subseteq> {''7''}"
proof -
  obtain w where w: "NewFabricWorker fabric_net_demo = Inr w" "cn_Specifies fabric_net_demo = SpecFabric fabric_spec_demo" by (rule fabric_demo_worker)
  have "vni_of [(7, 3), (8, 4)] (hd fabric_frames_demo) = ''7''" by (simp add: fabric_frames_demo_def vni_of_def fabric_demo_vnis)
  with fabric_networks_isolated [OF ovs.openflow_axioms w fabric_demo_up, of "NewFireWall []" "[hd fabric_frames_demo]" 56] w(1) show ?thesis
    by (auto simp: fabric_demo_ids split_beta)
qed

end
