(* ===== verification/Netlink.thy ===== *)
theory Netlink
  imports Config
begin

text \<open>The operations of the kernel that the workers of the switch call through netlink (\<open>src/pkg/olsw/esp.go\<close>, \<open>vxlan.go\<close>,
  \<open>openlan.go\<close>). The kernel is a parameter: \<open>ke_has\<close> says whether there is a link of a name after a sequence of commands, \<open>ke_err\<close>
  what a command returns after a sequence of commands. A worker leaves the sequence of its commands. Then the bridges of the kernel
  (\<open>src/pkg/network/brctl_linux.go\<close>, \<open>bridge_linux.go\<close>). \<open>VirOpen\<close> and \<open>VirClose\<close> stand for opening and closing a virtual bridge.\<close>

record XfrmStateEncap =
  xe_SrcPort :: int
  xe_DstPort :: int
  xe_OriginalAddress :: "byte list"

record XfrmStateAlgo =
  xa_Name :: string
  xa_Key :: string

record XfrmState =
  xs_Dst :: "byte list"
  xs_Src :: "byte list"
  xs_Proto :: byte
  xs_Mode :: byte
  xs_Spi :: int
  xs_Auth :: XfrmStateAlgo
  xs_Crypt :: XfrmStateAlgo
  xs_Encap :: "XfrmStateEncap option"

datatype xfrm_Dir = XFRM_DIR_IN | XFRM_DIR_OUT | XFRM_DIR_FWD

record XfrmPolicyTmpl =
  xt_Dst :: "byte list"
  xt_Src :: "byte list"
  xt_Proto :: byte
  xt_Mode :: byte
  xt_Spi :: int

record XfrmPolicy =
  xp_Dst :: IPNet
  xp_Src :: IPNet
  xp_Dir :: xfrm_Dir
  xp_Tmpls :: "XfrmPolicyTmpl list"

text \<open>A route names its link instead of giving its index.\<close>

record NexthopInfo =
  nh_Hops :: int
  nh_Gw :: "byte list option"

record nl_Route =
  nr_Link :: "string option"
  nr_Dst :: IPNet
  nr_Gw :: "byte list option"
  nr_Priority :: int
  nr_MultiPath :: "NexthopInfo list"

datatype nl_call =
    XfrmStateAdd XfrmState | XfrmStateDel XfrmState | XfrmPolicyAdd XfrmPolicy | XfrmPolicyDel XfrmPolicy
  | DummyAdd string | VxlanAdd string int "byte list option" "byte list option" int | VethPair string string | BridgeAdd string int
  | LinkUp string | LinkMtu string int | SetMaster string string | NoMaster string | LinkDelete string | AddrAdd string IPNet | AddrDel string IPNet
  | RouteAdd nl_Route | RouteDel nl_Route | SysWrite string string | VirOpen string string | VirClose string

record kernel =
  ke_has :: "nl_call list \<Rightarrow> string \<Rightarrow> bool"
  ke_err :: "nl_call list \<Rightarrow> nl_call \<Rightarrow> error option"

definition nl_do :: "kernel \<Rightarrow> nl_call \<Rightarrow> nl_call list \<Rightarrow> nl_call list \<times> error option" where
  "nl_do k c cs = (cs @ [c], ke_err k cs c)"

text \<open>A link that was added without an error is there.\<close>

definition adds_link :: "nl_call \<Rightarrow> string \<Rightarrow> bool" where
  "adds_link c name \<longleftrightarrow> (case c of DummyAdd n \<Rightarrow> n = name | VxlanAdd n _ _ _ _ \<Rightarrow> n = name | VethPair n m \<Rightarrow> n = name \<or> m = name | BridgeAdd n _ \<Rightarrow> n = name | _ \<Rightarrow> False)"

definition kernel_ok :: "kernel \<Rightarrow> bool" where
  "kernel_ok k \<longleftrightarrow> (\<forall>cs c name. adds_link c name \<and> ke_err k cs c = None \<longrightarrow> ke_has k (cs @ [c]) name)"

definition ParseNet :: "host \<Rightarrow> string \<Rightarrow> IPNet option" where
  "ParseNet ho addr = (case ParseCIDR (ho_p6 ho) addr of None \<Rightarrow> None | Some (ip, ipNet) \<Rightarrow> Some (ipNet\<lparr>in_IP := ip\<rparr>))"

text \<open>\<open>nl.ParseAddr\<close>: the label after a space is dropped here.\<close>

definition nl_ParseAddr :: "host \<Rightarrow> string \<Rightarrow> IPNet option" where
  "nl_ParseAddr ho s = ParseNet ho (fst (split_at (CHR '' '') s))"

section \<open>Bridge control\<close>

record BrCtl =
  bc_Name :: string
  bc_Path :: string
  bc_Mtu :: int

definition NewBrCtl :: "string \<Rightarrow> int \<Rightarrow> BrCtl" where
  "NewBrCtl name mtu = \<lparr>bc_Name = name, bc_Path = [], bc_Mtu = (if mtu = 0 then 1500 else mtu)\<rparr>"

definition BrCtl_Has :: "kernel \<Rightarrow> nl_call list \<Rightarrow> BrCtl \<Rightarrow> bool" where
  "BrCtl_Has k cs b = ke_has k cs (bc_Name b)"

definition BrCtl_SysPath :: "string \<Rightarrow> BrCtl \<Rightarrow> BrCtl \<times> string" where
  "BrCtl_SysPath func b =
     (let b = (if bc_Path b = [] then b\<lparr>bc_Path := ''/sys/devices/virtual/net/'' @ bc_Name b @ ''/bridge''\<rparr> else b)
      in (b, bc_Path b @ ''/'' @ func))"

text \<open>Opening the file and writing to it is one command.\<close>

definition BrCtl_Stp :: "kernel \<Rightarrow> bool \<Rightarrow> BrCtl \<Rightarrow> nl_call list \<Rightarrow> BrCtl \<times> nl_call list \<times> error option" where
  "BrCtl_Stp k on b cs = (case BrCtl_SysPath ''stp_state'' b of (b, file) \<Rightarrow> (b, nl_do k (SysWrite file (if on then ''1'' else ''0'')) cs))"

definition BrCtl_Delay :: "kernel \<Rightarrow> int \<Rightarrow> BrCtl \<Rightarrow> nl_call list \<Rightarrow> BrCtl \<times> nl_call list \<times> error option" where
  "BrCtl_Delay k delay b cs = (case BrCtl_SysPath ''forward_delay'' b of (b, file) \<Rightarrow> (b, nl_do k (SysWrite file (show_int (delay * 100))) cs))"

definition BrCtl_CallIptables :: "kernel \<Rightarrow> int \<Rightarrow> BrCtl \<Rightarrow> nl_call list \<Rightarrow> BrCtl \<times> nl_call list \<times> error option" where
  "BrCtl_CallIptables k value b cs = (case BrCtl_SysPath ''nf_call_iptables'' b of (b, file) \<Rightarrow> (b, nl_do k (SysWrite file (show_int value)) cs))"

text \<open>The name of the kernel's error is cut to the operation that failed.\<close>

definition BrCtl_AddPort :: "kernel \<Rightarrow> string \<Rightarrow> BrCtl \<Rightarrow> nl_call list \<Rightarrow> nl_call list \<times> error option" where
  "BrCtl_AddPort k port b cs =
     (if \<not> ke_has k cs port then (cs, Some (NewErr ''LinkByName''))
      else case nl_do k (LinkUp port) cs of
             (cs, Some e) \<Rightarrow> (cs, Some (NewErr ''LinkSetUp''))
           | (cs, None) \<Rightarrow> (case nl_do k (LinkMtu port (bc_Mtu b)) cs of
               (cs, Some e) \<Rightarrow> (cs, Some e)
             | (cs, None) \<Rightarrow> (case nl_do k (SetMaster port (bc_Name b)) cs of
                 (cs, Some e) \<Rightarrow> (cs, Some (NewErr ''LinkSetMaster''))
               | (cs, None) \<Rightarrow> (cs, None))))"

definition BrCtl_DelPort :: "kernel \<Rightarrow> string \<Rightarrow> BrCtl \<Rightarrow> nl_call list \<Rightarrow> nl_call list \<times> error option" where
  "BrCtl_DelPort k port b cs = (if \<not> ke_has k cs port then (cs, Some (NewErr ''Link not found'')) else nl_do k (NoMaster port) cs)"

record BrPort =
  bp_Name :: string
  bp_Path :: string

definition NewBrPort :: "string \<Rightarrow> BrPort" where
  "NewBrPort name = \<lparr>bp_Name = name, bp_Path = []\<rparr>"

definition BrPort_SysPath :: "string \<Rightarrow> BrPort \<Rightarrow> BrPort \<times> string" where
  "BrPort_SysPath func p =
     (let p = (if bp_Path p = [] then p\<lparr>bp_Path := ''/sys/devices/virtual/net/'' @ bp_Name p @ ''/brport/''\<rparr> else p)
      in (p, bp_Path p @ ''/'' @ func))"

definition BrPort_Cost :: "kernel \<Rightarrow> int \<Rightarrow> BrPort \<Rightarrow> nl_call list \<Rightarrow> BrPort \<times> nl_call list \<times> error option" where
  "BrPort_Cost k cost p cs = (case BrPort_SysPath ''path_cost'' p of (p, file) \<Rightarrow> (p, nl_do k (SysWrite file (show_int cost)) cs))"

section \<open>Bridges of the kernel\<close>

record LinuxBridge =
  lb_address :: "IPNet option"
  lb_ipMtu :: int
  lb_name :: string
  lb_device :: "string option"
  lb_ctl :: BrCtl

text \<open>Every bridge is also entered in the registry \<open>Bridges\<close>, which the workers do not read.\<close>

definition NewLinuxBridge :: "string \<Rightarrow> int \<Rightarrow> LinuxBridge" where
  "NewLinuxBridge name mtu =
     (let mtu = (if mtu = 0 then 1500 else mtu)
      in \<lparr>lb_address = None, lb_ipMtu = mtu, lb_name = name, lb_device = None, lb_ctl = NewBrCtl name mtu\<rparr>)"

text \<open>An address that cannot be parsed is passed on as nil, which \<open>AddrAdd\<close> dereferences.\<close>

definition LinuxBridge_Open :: "kernel \<Rightarrow> host \<Rightarrow> string \<Rightarrow> LinuxBridge \<Rightarrow> nl_call list \<Rightarrow> (LinuxBridge \<times> nl_call list) result" where
  "LinuxBridge_Open k ho addr b cs =
     (let name = lb_name b;
          up = (\<lambda>cs.
            let (cs, _) = nl_do k (LinkUp name) cs
            in if addr = [] then Inr (b\<lparr>lb_device := Some name\<rparr>, cs)
               else case nl_ParseAddr ho addr of
                      None \<Rightarrow> Inl nil_deref
                    | Some ipAddr \<Rightarrow> Inr (b\<lparr>lb_address := Some ipAddr, lb_device := Some name\<rparr>, fst (nl_do k (AddrAdd name ipAddr) cs)))
      in if ke_has k cs name then up cs
         else case nl_do k (BridgeAdd name (lb_ipMtu b)) cs of
                (cs, Some e) \<Rightarrow> Inr (b, cs)
              | (cs, None) \<Rightarrow> if \<not> ke_has k cs name then Inr (b, cs) else up cs)"

definition LinuxBridge_Close :: "kernel \<Rightarrow> LinuxBridge \<Rightarrow> nl_call list \<Rightarrow> nl_call list \<times> error option" where
  "LinuxBridge_Close k b cs =
     (case (lb_device b, lb_address b) of
        (Some dev, Some addr) \<Rightarrow> nl_do k (AddrDel dev addr) cs
      | _ \<Rightarrow> (cs, None))"

definition LinuxBridge_AddSlave :: "kernel \<Rightarrow> string \<Rightarrow> LinuxBridge \<Rightarrow> nl_call list \<Rightarrow> nl_call list \<times> error option" where
  "LinuxBridge_AddSlave k name b cs = BrCtl_AddPort k name (lb_ctl b) cs"

definition LinuxBridge_DelSlave :: "kernel \<Rightarrow> string \<Rightarrow> LinuxBridge \<Rightarrow> nl_call list \<Rightarrow> nl_call list \<times> error option" where
  "LinuxBridge_DelSlave k name b cs = BrCtl_DelPort k name (lb_ctl b) cs"

definition LinuxBridge_Stp :: "kernel \<Rightarrow> bool \<Rightarrow> LinuxBridge \<Rightarrow> nl_call list \<Rightarrow> LinuxBridge \<times> nl_call list \<times> error option" where
  "LinuxBridge_Stp k enable b cs = (case BrCtl_Stp k enable (lb_ctl b) cs of (c, r) \<Rightarrow> (b\<lparr>lb_ctl := c\<rparr>, r))"

definition LinuxBridge_Delay :: "kernel \<Rightarrow> int \<Rightarrow> LinuxBridge \<Rightarrow> nl_call list \<Rightarrow> LinuxBridge \<times> nl_call list \<times> error option" where
  "LinuxBridge_Delay k value b cs = (case BrCtl_Delay k value (lb_ctl b) cs of (c, r) \<Rightarrow> (b\<lparr>lb_ctl := c\<rparr>, r))"

definition LinuxBridge_CallIptables :: "kernel \<Rightarrow> int \<Rightarrow> LinuxBridge \<Rightarrow> nl_call list \<Rightarrow> LinuxBridge \<times> nl_call list \<times> error option" where
  "LinuxBridge_CallIptables k value b cs = (case BrCtl_CallIptables k value (lb_ctl b) cs of (c, r) \<Rightarrow> (b\<lparr>lb_ctl := c\<rparr>, r))"

end
