(* ===== verification/Esp.thy ===== *)
theory Esp
  imports Netlink
begin

text \<open>The worker of an ESP network (\<open>src/pkg/olsw/esp.go\<close>) and the caches of its states and policies (\<open>src/pkg/olsw/cache/esp.go\<close>,
  \<open>src/pkg/models/esp.go\<close>). The configuration has been corrected before, which fails for missing members and policies: the lists
  hold no nil pointers. An address that is not known is the empty one.\<close>

section \<open>Models and caches\<close>

record md_Esp =
  me_Name :: string
  me_Address :: string

definition Esp_ID :: "md_Esp \<Rightarrow> string" where
  "Esp_ID l = me_Name l"

text \<open>The fields of the schema and of the model; \<open>Auth\<close>, \<open>Crypt\<close> and \<open>NewTime\<close> are never set.\<close>

record md_EspState =
  ms_Name :: string
  ms_AliveTime :: int
  ms_Spi :: int
  ms_Source :: string
  ms_Mode :: byte
  ms_Proto :: byte
  ms_Dest :: string
  ms_TxBytes :: int
  ms_TxPackages :: int
  ms_RxBytes :: int
  ms_RxPackages :: int

definition EspState_ID :: "md_EspState \<Rightarrow> string" where
  "EspState_ID l = show_int (ms_Spi l) @ ''-'' @ ms_Source l @ ''-'' @ ms_Dest l"

text \<open>What the kernel knows of a state: bytes, packets and the time of its use, as \<open>uint64\<close>; \<open>stats\<close> looks it up by number, source and
  destination.\<close>

record xfrm_stats =
  xu_Bytes :: "64 word"
  xu_Packets :: "64 word"
  xu_UseTime :: "64 word"

type_synonym xfrm_get = "int \<Rightarrow> byte list option \<Rightarrow> byte list option \<Rightarrow> xfrm_stats option"

definition EspState_Update :: "(string \<Rightarrow> byte list option) \<Rightarrow> xfrm_get \<Rightarrow> int \<Rightarrow> md_EspState \<Rightarrow> md_EspState" where
  "EspState_Update p6 stats now l =
     (let src = ParseIP p6 (ms_Source l); dst = ParseIP p6 (ms_Dest l);
          (l, used) = (case stats (ms_Spi l) src dst of
            None \<Rightarrow> (l, 0)
          | Some x \<Rightarrow> (l\<lparr>ms_TxBytes := sint (xu_Bytes x), ms_TxPackages := sint (xu_Packets x)\<rparr>, sint (xu_UseTime x)));
          l = (case stats (ms_Spi l) dst src of
            None \<Rightarrow> l
          | Some x \<Rightarrow> l\<lparr>ms_RxBytes := sint (xu_Bytes x), ms_RxPackages := sint (xu_Packets x)\<rparr>)
      in if used > 0 then l\<lparr>ms_AliveTime := now - used\<rparr> else l)"

text \<open>The second result is the entry itself, which is brought up to date.\<close>

definition NewEspStateSchema :: "(string \<Rightarrow> byte list option) \<Rightarrow> xfrm_get \<Rightarrow> int \<Rightarrow> md_EspState \<Rightarrow> md_EspState \<times> md_EspState" where
  "NewEspStateSchema p6 stats now e =
     (let e = EspState_Update p6 stats now e in (e\<lparr>ms_Mode := 0, ms_Proto := 0\<rparr>, e))"

record md_EspPolicy =
  mp_Name :: string
  mp_Spi :: int
  mp_Source :: string
  mp_Dest :: string

definition EspPolicy_ID :: "md_EspPolicy \<Rightarrow> string" where
  "EspPolicy_ID l = show_int (mp_Spi l) @ ''-'' @ mp_Source l @ ''-'' @ mp_Dest l"

definition NewEspPolicySchema :: "md_EspPolicy \<Rightarrow> md_EspPolicy" where
  "NewEspPolicySchema e = e\<lparr>mp_Spi := 0\<rparr>"

record espcache =
  ec_Esp :: "md_Esp SafeStrMap"
  ec_State :: "md_EspState SafeStrMap"
  ec_Policy :: "md_EspPolicy SafeStrMap"

definition cache_Esp :: espcache where
  "cache_Esp = \<lparr>ec_Esp = NewSafeStrMap 1024, ec_State = NewSafeStrMap 1024, ec_Policy = NewSafeStrMap 1024\<rparr>"

definition esp_Init :: "int \<Rightarrow> espcache \<Rightarrow> espcache" where
  "esp_Init n p = p\<lparr>ec_Esp := NewSafeStrMap n\<rparr>"

definition espState_Init :: "int \<Rightarrow> espcache \<Rightarrow> espcache" where
  "espState_Init n p = p\<lparr>ec_State := NewSafeStrMap n\<rparr>"

definition espPolicy_Init :: "int \<Rightarrow> espcache \<Rightarrow> espcache" where
  "espPolicy_Init n p = p\<lparr>ec_Policy := NewSafeStrMap n\<rparr>"

definition esp_Add :: "md_Esp \<Rightarrow> espcache \<Rightarrow> espcache" where
  "esp_Add e p = p\<lparr>ec_Esp := fst (SafeStrMap_Set (Esp_ID e) (Some e) (ec_Esp p))\<rparr>"

definition esp_Del :: "string \<Rightarrow> espcache \<Rightarrow> espcache" where
  "esp_Del key p = p\<lparr>ec_Esp := SafeStrMap_Del key (ec_Esp p)\<rparr>"

definition esp_Get :: "string \<Rightarrow> espcache \<Rightarrow> md_Esp option" where
  "esp_Get key p = SafeStrMap_Get key (ec_Esp p)"

definition esp_List :: "espcache \<Rightarrow> md_Esp list" where
  "esp_List p = List.map_filter snd (ssm_data (ec_Esp p))"

definition espState_Add :: "md_EspState \<Rightarrow> espcache \<Rightarrow> espcache" where
  "espState_Add e p = p\<lparr>ec_State := fst (SafeStrMap_Set (EspState_ID e) (Some e) (ec_State p))\<rparr>"

definition espState_Get :: "string \<Rightarrow> espcache \<Rightarrow> md_EspState option" where
  "espState_Get key p = SafeStrMap_Get key (ec_State p)"

definition espState_Del :: "string \<Rightarrow> espcache \<Rightarrow> espcache" where
  "espState_Del key p = p\<lparr>ec_State := SafeStrMap_Del key (ec_State p)\<rparr>"

definition espState_Clear :: "espcache \<Rightarrow> espcache" where
  "espState_Clear p = p\<lparr>ec_State := SafeStrMap_Clear (ec_State p)\<rparr>"

text \<open>The listed states are brought up to date where they are stored.\<close>

definition espState_List :: "(string \<Rightarrow> byte list option) \<Rightarrow> xfrm_get \<Rightarrow> int \<Rightarrow> string \<Rightarrow> espcache \<Rightarrow> md_EspState list \<times> espcache" where
  "espState_List p6 stats now name p =
     (let up = (\<lambda>m. if ms_Name m = name \<or> name = [] then EspState_Update p6 stats now m else m);
          data = map (\<lambda>(k, v). (k, map_option up v)) (ssm_data (ec_State p))
      in (filter (\<lambda>m. ms_Name m = name \<or> name = []) (List.map_filter snd data), p\<lparr>ec_State := (ec_State p)\<lparr>ssm_data := data\<rparr>\<rparr>))"

definition espPolicy_Add :: "md_EspPolicy \<Rightarrow> espcache \<Rightarrow> espcache" where
  "espPolicy_Add e p = p\<lparr>ec_Policy := fst (SafeStrMap_Set (EspPolicy_ID e) (Some e) (ec_Policy p))\<rparr>"

definition espPolicy_Get :: "string \<Rightarrow> espcache \<Rightarrow> md_EspPolicy option" where
  "espPolicy_Get key p = SafeStrMap_Get key (ec_Policy p)"

definition espPolicy_Del :: "string \<Rightarrow> espcache \<Rightarrow> espcache" where
  "espPolicy_Del key p = p\<lparr>ec_Policy := SafeStrMap_Del key (ec_Policy p)\<rparr>"

definition espPolicy_Clear :: "espcache \<Rightarrow> espcache" where
  "espPolicy_Clear p = p\<lparr>ec_Policy := SafeStrMap_Clear (ec_Policy p)\<rparr>"

definition espPolicy_List :: "string \<Rightarrow> espcache \<Rightarrow> md_EspPolicy list" where
  "espPolicy_List name p = filter (\<lambda>m. mp_Name m = name \<or> name = []) (List.map_filter snd (ssm_data (ec_Policy p)))"

section \<open>The worker\<close>

definition UDPPort :: int where "UDPPort = 4600"

definition UDPBin :: string where "UDPBin = ''openudp''"

definition GetStateEncap :: "string \<Rightarrow> int \<Rightarrow> int \<Rightarrow> XfrmStateEncap option" where
  "GetStateEncap mode sport dport =
     (let sport = (if sport = 0 then UDPPort else sport);
          dport = (if dport = 0 then UDPPort else dport)
      in if mode = ''udp''
         then Some \<lparr>xe_SrcPort = sport, xe_DstPort = dport, xe_OriginalAddress = v4InV6Prefix @ [0, 0, 0, 0]\<rparr>
         else None)"

record EspWorker =
  ew_uuid :: string
  ew_cfg :: co_Network
  ew_states :: "XfrmState list"
  ew_policies :: "XfrmPolicy list"
  ew_spec :: "ESPSpecifies option"
  ew_proto :: byte
  ew_mode :: byte

definition NewESPWorker :: "co_Network \<Rightarrow> EspWorker" where
  "NewESPWorker c = \<lparr>ew_uuid = [], ew_cfg = c, ew_states = [], ew_policies = [],
     ew_spec = (case cn_Specifies c of SpecESP s \<Rightarrow> Some s | _ \<Rightarrow> None), ew_proto = 50, ew_mode = 1\<rparr>"

record StateParameters =
  sp_spi :: int
  sp_local :: "byte list"
  sp_remote :: "byte list"
  sp_auth :: string
  sp_crypt :: string

definition EspWorker_newState :: "EspWorker \<Rightarrow> StateParameters \<Rightarrow> XfrmState" where
  "EspWorker_newState w args = \<lparr>xs_Dst = sp_remote args, xs_Src = sp_local args, xs_Proto = ew_proto w, xs_Mode = ew_mode w, xs_Spi = sp_spi args,
     xs_Auth = \<lparr>xa_Name = ''hmac(sha256)'', xa_Key = sp_auth args\<rparr>, xs_Crypt = \<lparr>xa_Name = ''cbc(aes)'', xa_Key = sp_crypt args\<rparr>,
     xs_Encap = None\<rparr>"

record PolicyParameter =
  pp_spi :: int
  pp_local :: "byte list"
  pp_remote :: "byte list"
  pp_src :: IPNet
  pp_dst :: IPNet
  pp_dir :: xfrm_Dir

definition EspWorker_newPolicy :: "EspWorker \<Rightarrow> PolicyParameter \<Rightarrow> XfrmPolicy" where
  "EspWorker_newPolicy w args = \<lparr>xp_Dst = pp_dst args, xp_Src = pp_src args, xp_Dir = pp_dir args,
     xp_Tmpls = [\<lparr>xt_Dst = pp_remote args, xt_Src = pp_local args, xt_Proto = ew_proto w, xt_Mode = ew_mode w, xt_Spi = pp_spi args\<rparr>]\<rparr>"

text \<open>The state of the cache that stands for a member; \<open>addState\<close> and \<open>delState\<close> build the same one.\<close>

definition state_model :: "host \<Rightarrow> EspWorker \<Rightarrow> ESPSpecifies \<Rightarrow> ESPMember \<Rightarrow> md_EspState" where
  "state_model ho w spec mem = \<lparr>ms_Name = esp_Name spec, ms_AliveTime = 0, ms_Spi = em_Spi mem,
     ms_Source = IP_String (ho_s6 ho) (es_LocalIp (em_State mem)), ms_Mode = ew_mode w, ms_Proto = ew_proto w,
     ms_Dest = IP_String (ho_s6 ho) (es_RemoteIp (em_State mem)), ms_TxBytes = 0, ms_TxPackages = 0, ms_RxBytes = 0, ms_RxPackages = 0\<rparr>"

definition EspWorker_addState :: "host \<Rightarrow> ESPSpecifies \<Rightarrow> ESPMember \<Rightarrow> EspWorker \<times> espcache \<Rightarrow> EspWorker \<times> espcache" where
  "EspWorker_addState ho spec mem = (\<lambda>(w, ca).
     let spi = em_Spi mem; ste = em_State mem;
         st = (EspWorker_newState w \<lparr>sp_spi = spi, sp_local = es_LocalIp ste, sp_remote = es_RemoteIp ste, sp_auth = es_Auth ste,
                 sp_crypt = es_Crypt ste\<rparr>)\<lparr>xs_Encap := GetStateEncap (es_Encap ste) 0 (es_RemotePort ste)\<rparr>;
         w = w\<lparr>ew_states := ew_states w @ [st]\<rparr>;
         st = (EspWorker_newState w \<lparr>sp_spi = spi, sp_local = es_RemoteIp ste, sp_remote = es_LocalIp ste, sp_auth = es_Auth ste,
                 sp_crypt = es_Crypt ste\<rparr>)\<lparr>xs_Encap := GetStateEncap (es_Encap ste) (es_RemotePort ste) 0\<rparr>;
         w = w\<lparr>ew_states := ew_states w @ [st]\<rparr>
     in (w, espState_Add (state_model ho w spec mem) ca))"

definition EspWorker_delState :: "host \<Rightarrow> ESPSpecifies \<Rightarrow> ESPMember \<Rightarrow> EspWorker \<times> espcache \<Rightarrow> EspWorker \<times> espcache" where
  "EspWorker_delState ho spec mem = (\<lambda>(w, ca). (w, espState_Del (EspState_ID (state_model ho w spec mem)) ca))"

definition policy_model :: "ESPSpecifies \<Rightarrow> ESPMember \<Rightarrow> ESPPolicy \<Rightarrow> md_EspPolicy" where
  "policy_model spec mem pol = \<lparr>mp_Name = esp_Name spec, mp_Spi = em_Spi mem, mp_Source = ep_Source pol, mp_Dest = ep_Dest pol\<rparr>"

definition EspWorker_addPolicy :: "host \<Rightarrow> ESPSpecifies \<Rightarrow> ESPMember \<Rightarrow> ESPPolicy \<Rightarrow> EspWorker \<times> espcache \<Rightarrow> EspWorker \<times> espcache" where
  "EspWorker_addPolicy ho spec mem pol = (\<lambda>(w, ca).
     let spi = em_Spi mem; ste = em_State mem
     in case ParseNet ho (ep_Source pol) of
          None \<Rightarrow> (w, ca)
        | Some src \<Rightarrow> (case ParseNet ho (ep_Dest pol) of
            None \<Rightarrow> (w, ca)
          | Some dst \<Rightarrow>
              (let w = w\<lparr>ew_policies := ew_policies w @ [EspWorker_newPolicy w \<lparr>pp_spi = spi, pp_local = es_LocalIp ste,
                     pp_remote = es_RemoteIp ste, pp_src = src, pp_dst = dst, pp_dir = XFRM_DIR_OUT\<rparr>]\<rparr>;
                   w = w\<lparr>ew_policies := ew_policies w @ [EspWorker_newPolicy w \<lparr>pp_spi = spi, pp_local = es_RemoteIp ste,
                     pp_remote = es_LocalIp ste, pp_src = dst, pp_dst = src, pp_dir = XFRM_DIR_FWD\<rparr>]\<rparr>;
                   w = w\<lparr>ew_policies := ew_policies w @ [EspWorker_newPolicy w \<lparr>pp_spi = spi, pp_local = es_RemoteIp ste,
                     pp_remote = es_LocalIp ste, pp_src = dst, pp_dst = src, pp_dir = XFRM_DIR_IN\<rparr>]\<rparr>
               in (w, espPolicy_Add (policy_model spec mem pol) ca))))"

definition EspWorker_delPolicy :: "ESPSpecifies \<Rightarrow> ESPMember \<Rightarrow> ESPPolicy \<Rightarrow> EspWorker \<times> espcache \<Rightarrow> EspWorker \<times> espcache" where
  "EspWorker_delPolicy spec mem pol = (\<lambda>(w, ca). (w, espPolicy_Del (EspPolicy_ID (policy_model spec mem pol)) ca))"

text \<open>The loop of \<open>updateXfrm\<close> fills in the defaults of the policies, which stay in the specification.\<close>

definition fill_policy :: "ESPMember \<Rightarrow> ESPPolicy \<Rightarrow> ESPPolicy" where
  "fill_policy mem pol =
     (let pol = (if ep_Dest pol = [] then pol\<lparr>ep_Dest := em_Peer mem\<rparr> else pol)
      in if ep_Source pol = [] then pol\<lparr>ep_Source := em_Address mem\<rparr> else pol)"

definition ips_known :: "ESPMember \<Rightarrow> bool" where
  "ips_known mem \<longleftrightarrow> es_LocalIp (em_State mem) \<noteq> [] \<and> es_RemoteIp (em_State mem) \<noteq> []"

definition fill_member :: "ESPMember \<Rightarrow> ESPMember" where
  "fill_member mem = (if ips_known mem then mem\<lparr>em_Policies := map (fill_policy mem) (em_Policies mem)\<rparr> else mem)"

definition update_member :: "host \<Rightarrow> ESPSpecifies \<Rightarrow> ESPMember \<Rightarrow> EspWorker \<times> espcache \<Rightarrow> EspWorker \<times> espcache" where
  "update_member ho spec mem x =
     (if \<not> ips_known mem then x
      else fold (\<lambda>pol. EspWorker_addPolicy ho spec mem (fill_policy mem pol)) (em_Policies mem) (EspWorker_addState ho spec mem x))"

definition EspWorker_updateXfrm :: "host \<Rightarrow> EspWorker \<times> espcache \<Rightarrow> (EspWorker \<times> espcache) result" where
  "EspWorker_updateXfrm ho = (\<lambda>(w, ca).
     case ew_spec w of
       None \<Rightarrow> Inl nil_deref
     | Some spec \<Rightarrow>
         (let (w, ca) = fold (update_member ho spec) (esp_Members spec) (w, ca)
          in Inr (w\<lparr>ew_spec := Some (spec\<lparr>esp_Members := map fill_member (esp_Members spec)\<rparr>)\<rparr>, ca)))"

definition EspWorker_Initialize :: "host \<Rightarrow> EspWorker \<times> espcache \<Rightarrow> (EspWorker \<times> espcache) result" where
  "EspWorker_Initialize ho = (\<lambda>(w, ca). if ew_spec w = None then Inr (w, ca) else EspWorker_updateXfrm ho (w, ca))"

text \<open>\<open>LinkSetUp\<close> and the route dereference the link that was looked up again.\<close>

definition EspWorker_UpDummy :: "kernel \<Rightarrow> host \<Rightarrow> string \<Rightarrow> string \<Rightarrow> string \<Rightarrow> nl_call list \<Rightarrow> (nl_call list \<times> error option) result" where
  "EspWorker_UpDummy k ho name addr peer cs =
     (let up = (\<lambda>cs.
            if \<not> ke_has k cs name then Inl nil_deref
            else let (cs, _) = nl_do k (LinkUp name) cs;
                     route = (\<lambda>cs. case ParseCIDR (ho_p6 ho) peer of
                         None \<Rightarrow> Inr (cs, Some (NewErr ''invalid CIDR address''))
                       | Some (_, dst) \<Rightarrow> Inr (nl_do k (RouteAdd \<lparr>nr_Link = Some name, nr_Dst = dst,
                             nr_Gw = ParseIP (ho_p6 ho) (fst (split_at (CHR ''/'') addr)), nr_Priority = 0, nr_MultiPath = []\<rparr>) cs))
                 in if addr = [] then route cs
                    else case nl_ParseAddr ho addr of
                           None \<Rightarrow> Inr (cs, Some (NewErr ''invalid CIDR address''))
                         | Some ipAddr \<Rightarrow> (case nl_do k (AddrAdd name ipAddr) cs of
                             (cs, Some e) \<Rightarrow> Inr (cs, Some e)
                           | (cs, None) \<Rightarrow> route cs))
      in if ke_has k cs name then up cs
         else case nl_do k (DummyAdd name) cs of (cs, Some e) \<Rightarrow> Inr (cs, Some e) | (cs, None) \<Rightarrow> up cs)"

definition EspWorker_DownDummy :: "kernel \<Rightarrow> string \<Rightarrow> nl_call list \<Rightarrow> nl_call list \<times> error option" where
  "EspWorker_DownDummy k name cs = (if \<not> ke_has k cs name then (cs, None) else nl_do k (LinkDelete name) cs)"

definition EspWorker_addXfrm :: "EspWorker \<Rightarrow> nl_call list \<Rightarrow> nl_call list" where
  "EspWorker_addXfrm w cs = cs @ map XfrmStateAdd (ew_states w) @ map XfrmPolicyAdd (ew_policies w)"

definition EspWorker_delXfrm :: "EspWorker \<Rightarrow> nl_call list \<Rightarrow> EspWorker \<times> nl_call list" where
  "EspWorker_delXfrm w cs = (w\<lparr>ew_states := [], ew_policies := []\<rparr>,
     cs @ map XfrmPolicyDel (ew_policies w) @ map XfrmStateDel (ew_states w))"

fun upMembers :: "kernel \<Rightarrow> host \<Rightarrow> ESPMember list \<Rightarrow> nl_call list \<Rightarrow> nl_call list result" where
  "upMembers k ho [] cs = Inr cs"
| "upMembers k ho (mem # mems) cs =
     (case EspWorker_UpDummy k ho (em_Name mem) (em_Address mem) (em_Peer mem) cs of
        Inl e \<Rightarrow> Inl e
      | Inr (cs, _) \<Rightarrow> upMembers k ho mems cs)"

definition EspWorker_upMember :: "kernel \<Rightarrow> host \<Rightarrow> EspWorker \<Rightarrow> nl_call list \<Rightarrow> nl_call list result" where
  "EspWorker_upMember k ho w cs = (case ew_spec w of None \<Rightarrow> Inl nil_deref | Some spec \<Rightarrow> upMembers k ho (esp_Members spec) cs)"

definition EspWorker_downMember :: "kernel \<Rightarrow> EspWorker \<Rightarrow> nl_call list \<Rightarrow> nl_call list result" where
  "EspWorker_downMember k w cs =
     (case ew_spec w of
        None \<Rightarrow> Inl nil_deref
      | Some spec \<Rightarrow> Inr (fold (\<lambda>mem cs. fst (EspWorker_DownDummy k (em_Name mem) cs)) (esp_Members spec) cs))"

definition EspWorker_Start :: "kernel \<Rightarrow> host \<Rightarrow> string \<Rightarrow> EspWorker \<times> espcache \<times> nl_call list \<Rightarrow> (EspWorker \<times> espcache \<times> nl_call list) result" where
  "EspWorker_Start k ho uuid = (\<lambda>(w, ca, cs).
     case ew_spec w of
       None \<Rightarrow> Inr (w, ca, cs)
     | Some spec \<Rightarrow>
         (let w = w\<lparr>ew_uuid := uuid\<rparr>
          in case EspWorker_upMember k ho w (EspWorker_addXfrm w cs) of
               Inl e \<Rightarrow> Inl e
             | Inr cs \<Rightarrow> Inr (w, esp_Add \<lparr>me_Name = cn_Name (ew_cfg w), me_Address = esp_Address spec\<rparr> ca, cs)))"

definition EspWorker_Stop :: "kernel \<Rightarrow> EspWorker \<times> espcache \<times> nl_call list \<Rightarrow> (EspWorker \<times> espcache \<times> nl_call list) result" where
  "EspWorker_Stop k = (\<lambda>(w, ca, cs).
     if ew_spec w = None then Inr (w, ca, cs)
     else case EspWorker_downMember k w cs of
            Inl e \<Rightarrow> Inl e
          | Inr cs \<Rightarrow> (case EspWorker_delXfrm w cs of (w, cs) \<Rightarrow> Inr (w, ca, cs)))"

definition EspWorker_Reload :: "kernel \<Rightarrow> host \<Rightarrow> EspWorker \<times> espcache \<times> nl_call list \<Rightarrow> (EspWorker \<times> espcache \<times> nl_call list) result" where
  "EspWorker_Reload k ho = (\<lambda>(w, ca, cs).
     let (w, cs) = EspWorker_delXfrm w cs
     in case EspWorker_updateXfrm ho (w, ca) of
          Inl e \<Rightarrow> Inl e
        | Inr (w, ca) \<Rightarrow> (case EspWorker_upMember k ho w (EspWorker_addXfrm w cs) of Inl e \<Rightarrow> Inl e | Inr cs \<Rightarrow> Inr (w, ca, cs)))"

text \<open>The command that is run for states in UDP, with its arguments.\<close>

definition OpenUDP :: "string \<times> string list" where
  "OpenUDP = (UDPBin, [''-p'', show_int UDPPort, ''-vconsole:emer'', ''--log-file=/var/openlan/openudp.log''])"

section \<open>What is installed\<close>

text \<open>The states and policies that were added and not deleted since.\<close>

definition state_effect :: "nl_call \<Rightarrow> XfrmState set \<Rightarrow> XfrmState set" where
  "state_effect c S = (case c of XfrmStateAdd s \<Rightarrow> insert s S | XfrmStateDel s \<Rightarrow> S - {s} | _ \<Rightarrow> S)"

definition policy_effect :: "nl_call \<Rightarrow> XfrmPolicy set \<Rightarrow> XfrmPolicy set" where
  "policy_effect c P = (case c of XfrmPolicyAdd p \<Rightarrow> insert p P | XfrmPolicyDel p \<Rightarrow> P - {p} | _ \<Rightarrow> P)"

definition states_left :: "nl_call list \<Rightarrow> XfrmState set" where
  "states_left cs = fold state_effect cs {}"

definition policies_left :: "nl_call list \<Rightarrow> XfrmPolicy set" where
  "policies_left cs = fold policy_effect cs {}"

text \<open>What the specification of a network asks for: two states for each member whose addresses are known, and three policies for each
  pair of prefixes.\<close>

definition sassoc :: "byte list \<Rightarrow> byte list \<Rightarrow> ESPMember \<Rightarrow> XfrmStateEncap option \<Rightarrow> XfrmState" where
  "sassoc src dst m e = \<lparr>xs_Dst = dst, xs_Src = src, xs_Proto = 50, xs_Mode = 1, xs_Spi = em_Spi m,
     xs_Auth = \<lparr>xa_Name = ''hmac(sha256)'', xa_Key = es_Auth (em_State m)\<rparr>,
     xs_Crypt = \<lparr>xa_Name = ''cbc(aes)'', xa_Key = es_Crypt (em_State m)\<rparr>, xs_Encap = e\<rparr>"

definition member_states :: "ESPMember \<Rightarrow> XfrmState list" where
  "member_states m = (let st = em_State m in if \<not> ips_known m then []
     else [sassoc (es_LocalIp st) (es_RemoteIp st) m (GetStateEncap (es_Encap st) 0 (es_RemotePort st)),
           sassoc (es_RemoteIp st) (es_LocalIp st) m (GetStateEncap (es_Encap st) (es_RemotePort st) 0)])"

definition spolicy :: "xfrm_Dir \<Rightarrow> IPNet \<Rightarrow> IPNet \<Rightarrow> byte list \<Rightarrow> byte list \<Rightarrow> int \<Rightarrow> XfrmPolicy" where
  "spolicy dir src dst from to spi = \<lparr>xp_Dst = dst, xp_Src = src, xp_Dir = dir,
     xp_Tmpls = [\<lparr>xt_Dst = to, xt_Src = from, xt_Proto = 50, xt_Mode = 1, xt_Spi = spi\<rparr>]\<rparr>"

definition pair_policies :: "host \<Rightarrow> ESPMember \<Rightarrow> ESPPolicy \<Rightarrow> XfrmPolicy list" where
  "pair_policies ho m pol = (let l = es_LocalIp (em_State m); r = es_RemoteIp (em_State m) in
     case (ParseNet ho (ep_Source pol), ParseNet ho (ep_Dest pol)) of
       (Some s, Some d) \<Rightarrow> [spolicy XFRM_DIR_OUT s d l r (em_Spi m), spolicy XFRM_DIR_FWD d s r l (em_Spi m), spolicy XFRM_DIR_IN d s r l (em_Spi m)]
     | _ \<Rightarrow> [])"

definition member_policies :: "host \<Rightarrow> ESPMember \<Rightarrow> XfrmPolicy list" where
  "member_policies ho m = (if ips_known m then concat (map (\<lambda>pol. pair_policies ho m (fill_policy m pol)) (em_Policies m)) else [])"

definition esp_states :: "ESPSpecifies \<Rightarrow> XfrmState list" where
  "esp_states spec = concat (map member_states (esp_Members spec))"

definition esp_policies :: "host \<Rightarrow> ESPSpecifies \<Rightarrow> XfrmPolicy list" where
  "esp_policies ho spec = concat (map (member_policies ho) (esp_Members spec))"

text \<open>A worker of proto ESP in tunnel mode, and what the operations do to its lists.\<close>

abbreviation esp_tunnel :: "EspWorker \<Rightarrow> bool" where
  "esp_tunnel w \<equiv> ew_proto w = 50 \<and> ew_mode w = 1"

lemma addState_fst:
  assumes "esp_tunnel w" and "ips_known m"
  shows "fst (EspWorker_addState ho spec m (w, ca)) = w\<lparr>ew_states := ew_states w @ member_states m\<rparr>"
  using assms by (simp add: EspWorker_addState_def EspWorker_newState_def member_states_def sassoc_def Let_def)

lemma addPolicy_fst:
  assumes "esp_tunnel w"
  shows "fst (EspWorker_addPolicy ho spec m pol (w, ca)) = w\<lparr>ew_policies := ew_policies w @ pair_policies ho m pol\<rparr>"
  using assms by (auto simp: EspWorker_addPolicy_def EspWorker_newPolicy_def pair_policies_def spolicy_def Let_def split: option.splits)

lemma addPolicies_fst:
  assumes "esp_tunnel (fst x)"
  shows "fst (fold (\<lambda>pol. EspWorker_addPolicy ho spec m (g pol)) pols x) =
    (fst x)\<lparr>ew_policies := ew_policies (fst x) @ concat (map (\<lambda>pol. pair_policies ho m (g pol)) pols)\<rparr>"
  using assms
proof (induction pols arbitrary: x)
  case (Cons pol pols)
  obtain w ca where x: "x = (w, ca)" by fastforce
  have "fst (EspWorker_addPolicy ho spec m (g pol) x) = w\<lparr>ew_policies := ew_policies w @ pair_policies ho m (g pol)\<rparr>"
    using Cons.prems unfolding x by (simp add: addPolicy_fst)
  with Cons.IH [of "EspWorker_addPolicy ho spec m (g pol) x"] Cons.prems x show ?case by simp
qed simp

lemma update_member_fst:
  assumes "esp_tunnel (fst x)"
  shows "fst (update_member ho spec m x) =
    (fst x)\<lparr>ew_states := ew_states (fst x) @ member_states m, ew_policies := ew_policies (fst x) @ member_policies ho m\<rparr>"
proof (cases "ips_known m")
  case True
  obtain w ca where x: "x = (w, ca)" by fastforce
  have "fst (EspWorker_addState ho spec m x) = w\<lparr>ew_states := ew_states w @ member_states m\<rparr>"
    using assms True unfolding x by (simp add: addState_fst)
  with addPolicies_fst [of "EspWorker_addState ho spec m x" ho spec m "fill_policy m" "em_Policies m"] assms True x show ?thesis
    by (simp add: update_member_def member_policies_def)
qed (simp add: update_member_def member_states_def member_policies_def)

lemma update_members_fst:
  "esp_tunnel (fst x) \<Longrightarrow> fst (fold (update_member ho spec) ms x) =
    (fst x)\<lparr>ew_states := ew_states (fst x) @ concat (map member_states ms), ew_policies := ew_policies (fst x) @ concat (map (member_policies ho) ms)\<rparr>"
  by (induction ms arbitrary: x) (simp_all add: update_member_fst)

text \<open>Filling in defaults changes nothing the second time.\<close>

lemma fill_member_simps [simp]:
  "em_State (fill_member m) = em_State m" "em_Spi (fill_member m) = em_Spi m" "em_Name (fill_member m) = em_Name m"
  "em_Address (fill_member m) = em_Address m" "em_Peer (fill_member m) = em_Peer m" "ips_known (fill_member m) = ips_known m"
  by (auto simp: fill_member_def ips_known_def)

lemma fill_policy_idem: "em_Address m' = em_Address m \<Longrightarrow> em_Peer m' = em_Peer m \<Longrightarrow> fill_policy m' (fill_policy m pol) = fill_policy m pol"
  by (auto simp: fill_policy_def Let_def)

lemma fill_member_states: "member_states (fill_member m) = member_states m"
  by (simp add: member_states_def sassoc_def Let_def)

lemma fill_member_policies: "member_policies ho (fill_member m) = member_policies ho m"
proof (cases "ips_known m")
  case True
  then have "em_Policies (fill_member m) = map (fill_policy m) (em_Policies m)" by (simp add: fill_member_def)
  moreover have "pair_policies ho (fill_member m) pol = pair_policies ho m pol" for pol
    by (simp add: pair_policies_def Let_def split: option.split)
  ultimately show ?thesis using True by (simp add: member_policies_def comp_def fill_policy_idem)
qed (simp add: member_policies_def)

definition filled :: "ESPSpecifies \<Rightarrow> ESPSpecifies" where
  "filled spec = spec\<lparr>esp_Members := map fill_member (esp_Members spec)\<rparr>"

lemma esp_filled: "esp_states (filled spec) = esp_states spec" "esp_policies ho (filled spec) = esp_policies ho spec"
  by (simp_all add: esp_states_def esp_policies_def filled_def comp_def fill_member_states fill_member_policies)

lemma updateXfrm_spec:
  assumes "ew_spec w = Some spec" and "esp_tunnel w" and "ew_states w = []" and "ew_policies w = []"
  obtains w' ca' where "EspWorker_updateXfrm ho (w, ca) = Inr (w', ca')" and "ew_spec w' = Some (filled spec)" and "esp_tunnel w'"
    and "ew_states w' = esp_states spec" and "ew_policies w' = esp_policies ho spec" and "ew_cfg w' = ew_cfg w"
proof -
  obtain w1 ca' where f: "fold (update_member ho spec) (esp_Members spec) (w, ca) = (w1, ca')" by fastforce
  have "w1 = w\<lparr>ew_states := esp_states spec, ew_policies := esp_policies ho spec\<rparr>"
    using update_members_fst [of "(w, ca)" ho spec "esp_Members spec"] assms f by (simp add: esp_states_def esp_policies_def)
  with f assms that show thesis by (simp add: EspWorker_updateXfrm_def filled_def)
qed

section \<open>Starting, reloading, stopping\<close>

lemma left_append:
  "states_left (cs @ ds) = fold state_effect ds (states_left cs)" "policies_left (cs @ ds) = fold policy_effect ds (policies_left cs)"
  by (simp_all add: states_left_def policies_left_def)

lemma effect_simps [simp]:
  "state_effect (XfrmStateAdd s) S = insert s S" "state_effect (XfrmStateDel s) S = S - {s}" "state_effect (XfrmPolicyAdd p) S = S"
  "state_effect (XfrmPolicyDel p) S = S" "policy_effect (XfrmPolicyAdd p) P = insert p P" "policy_effect (XfrmPolicyDel p) P = P - {p}"
  "policy_effect (XfrmStateAdd s) P = P" "policy_effect (XfrmStateDel s) P = P"
  by (simp_all add: state_effect_def policy_effect_def)

lemma fold_states [simp]:
  "fold state_effect (map XfrmStateAdd ss) S = set ss \<union> S" "fold state_effect (map XfrmStateDel ss) S = S - set ss"
  "fold policy_effect (map XfrmStateAdd ss) P = P" "fold policy_effect (map XfrmStateDel ss) P = P"
  by (induction ss arbitrary: S) auto

lemma fold_policies [simp]:
  "fold policy_effect (map XfrmPolicyAdd ps) P = set ps \<union> P" "fold policy_effect (map XfrmPolicyDel ps) P = P - set ps"
  "fold state_effect (map XfrmPolicyAdd ps) S = S" "fold state_effect (map XfrmPolicyDel ps) S = S"
  by (induction ps arbitrary: P) auto

text \<open>Commands on links leave states and policies alone; \<open>link_calls cs ds\<close>: \<open>ds\<close> has more of them at its end.\<close>

definition link_call :: "nl_call \<Rightarrow> bool" where
  "link_call c \<longleftrightarrow> (case c of XfrmStateAdd _ \<Rightarrow> False | XfrmStateDel _ \<Rightarrow> False | XfrmPolicyAdd _ \<Rightarrow> False | XfrmPolicyDel _ \<Rightarrow> False | _ \<Rightarrow> True)"

definition link_calls :: "nl_call list \<Rightarrow> nl_call list \<Rightarrow> bool" where
  "link_calls cs ds \<longleftrightarrow> (\<exists>es. ds = cs @ es \<and> list_all link_call es)"

lemma link_calls_left: "link_calls cs ds \<Longrightarrow> states_left ds = states_left cs \<and> policies_left ds = policies_left cs"
proof -
  have "fold state_effect es S = S" "fold policy_effect es P = P" if "list_all link_call es" for es S P
    using that by (induction es arbitrary: S P) (auto simp: link_call_def state_effect_def policy_effect_def split: nl_call.splits)
  then show "link_calls cs ds \<Longrightarrow> ?thesis" by (auto simp: link_calls_def left_append)
qed

lemma link_calls_refl [simp]: "link_calls cs cs"
  by (simp add: link_calls_def)

lemma link_calls_trans [trans]: "link_calls cs ds \<Longrightarrow> link_calls ds es \<Longrightarrow> link_calls cs es"
  by (auto simp: link_calls_def)

lemma link_calls_snoc [simp]: "link_call c \<Longrightarrow> link_calls cs (cs @ [c])"
  by (simp add: link_calls_def)

lemma link_call_simps [simp]:
  "link_call (DummyAdd n)" "link_call (LinkUp n)" "link_call (AddrAdd n a)" "link_call (RouteAdd r)" "link_call (LinkDelete n)"
  by (simp_all add: link_call_def)

lemma UpDummy_links: "EspWorker_UpDummy k ho name addr peer cs = Inr (ds, e) \<Longrightarrow> link_calls cs ds"
  by (auto simp: EspWorker_UpDummy_def nl_do_def Let_def link_calls_def split: if_splits option.splits)

lemma UpDummy_returns: "kernel_ok k \<Longrightarrow> \<exists>ds e. EspWorker_UpDummy k ho name addr peer cs = Inr (ds, e)"
  by (auto simp: EspWorker_UpDummy_def nl_do_def Let_def kernel_ok_def adds_link_def split: if_splits option.splits)

lemma upMembers_links: "upMembers k ho ms cs = Inr ds \<Longrightarrow> link_calls cs ds"
  by (induction ms arbitrary: cs) (auto split: sum.splits dest: UpDummy_links intro: link_calls_trans)

lemma upMembers_returns: "kernel_ok k \<Longrightarrow> \<exists>ds. upMembers k ho ms cs = Inr ds"
proof (induction ms arbitrary: cs)
  case (Cons m ms)
  from UpDummy_returns [OF Cons.prems] obtain ds e where "EspWorker_UpDummy k ho (em_Name m) (em_Address m) (em_Peer m) cs = Inr (ds, e)" by blast
  with Cons show ?case by simp
qed simp

lemma DownDummy_links: "link_calls cs (fst (EspWorker_DownDummy k name cs))"
  by (simp add: EspWorker_DownDummy_def nl_do_def)

lemma downMembers_links: "link_calls cs (fold (\<lambda>m cs. fst (EspWorker_DownDummy k (em_Name m) cs)) ms cs)"
  by (induction ms arbitrary: cs) (auto intro: link_calls_trans DownDummy_links)

text \<open>The runs of a worker: it is initialised and started; a reload of the switch clears the caches before.\<close>

inductive esp_run :: "kernel \<Rightarrow> host \<Rightarrow> co_Network \<Rightarrow> EspWorker \<times> espcache \<times> nl_call list \<Rightarrow> bool" for k ho c where
  esp_start: "EspWorker_Initialize ho (NewESPWorker c, ca) = Inr (w, ca') \<Longrightarrow> EspWorker_Start k ho uuid (w, ca', []) = Inr s \<Longrightarrow> esp_run k ho c s"
| esp_reload: "esp_run k ho c (w, ca, cs) \<Longrightarrow> EspWorker_Reload k ho (w, espPolicy_Clear (espState_Clear ca), cs) = Inr s \<Longrightarrow> esp_run k ho c s"

definition esp_inv :: "host \<Rightarrow> ESPSpecifies \<Rightarrow> EspWorker \<times> espcache \<times> nl_call list \<Rightarrow> bool" where
  "esp_inv ho spec = (\<lambda>(w, ca, cs). esp_tunnel w \<and> (\<exists>sp. ew_spec w = Some sp \<and> esp_states sp = esp_states spec \<and> esp_policies ho sp = esp_policies ho spec) \<and>
     ew_states w = esp_states spec \<and> ew_policies w = esp_policies ho spec \<and>
     states_left cs = set (esp_states spec) \<and> policies_left cs = set (esp_policies ho spec))"

lemma up_inv:
  assumes "esp_tunnel w" and "ew_spec w = Some sp" and "esp_states sp = esp_states spec" and "esp_policies ho sp = esp_policies ho spec"
    and "ew_states w = esp_states spec" and "ew_policies w = esp_policies ho spec"
    and "states_left cs = {}" and "policies_left cs = {}" and "EspWorker_upMember k ho w (EspWorker_addXfrm w cs) = Inr ds"
  shows "esp_inv ho spec (w, ca, ds)"
proof -
  have "link_calls (EspWorker_addXfrm w cs) ds" using assms(2,9) by (auto simp: EspWorker_upMember_def intro: upMembers_links)
  from link_calls_left [OF this] assms(1-8) show ?thesis
    by (simp add: esp_inv_def EspWorker_addXfrm_def left_append)
qed

lemma esp_run_inv:
  assumes "esp_run k ho c s" and c: "cn_Specifies c = SpecESP spec"
  shows "esp_inv ho spec s"
  using assms(1)
proof induction
  case (esp_start ca w ca' uuid s)
  let ?n = "NewESPWorker c"
  have n: "ew_spec ?n = Some spec" "esp_tunnel ?n" "ew_states ?n = []" "ew_policies ?n = []" using c by (simp_all add: NewESPWorker_def)
  from updateXfrm_spec [OF n, of ho ca] esp_start.hyps(1) n(1) have w: "ew_spec w = Some (filled spec)" "esp_tunnel w"
    "ew_states w = esp_states spec" "ew_policies w = esp_policies ho spec" by (auto simp: EspWorker_Initialize_def)
  let ?w = "w\<lparr>ew_uuid := uuid\<rparr>"
  from esp_start.hyps(2) w(1) obtain ds ca'' where s: "s = (?w, ca'', ds)" "EspWorker_upMember k ho ?w (EspWorker_addXfrm ?w []) = Inr ds"
    by (auto simp: EspWorker_Start_def Let_def split: sum.splits)
  show ?case unfolding s(1) using w by (intro up_inv [where sp = "filled spec", OF _ _ _ _ _ _ _ _ s(2)]) (simp_all add: esp_filled states_left_def policies_left_def)
next
  case (esp_reload w ca cs s)
  let ?w = "w\<lparr>ew_states := [], ew_policies := []\<rparr>" and ?cs = "cs @ map XfrmPolicyDel (ew_policies w) @ map XfrmStateDel (ew_states w)"
  from esp_reload.IH obtain sp where w: "esp_tunnel w" "ew_spec w = Some sp" "esp_states sp = esp_states spec"
    "esp_policies ho sp = esp_policies ho spec" "ew_states w = esp_states spec" "ew_policies w = esp_policies ho spec"
    "states_left cs = set (esp_states spec)" "policies_left cs = set (esp_policies ho spec)" by (auto simp: esp_inv_def)
  have n: "ew_spec ?w = Some sp" "esp_tunnel ?w" "ew_states ?w = []" "ew_policies ?w = []" using w by simp_all
  obtain w' ca' where u: "EspWorker_updateXfrm ho (?w, espPolicy_Clear (espState_Clear ca)) = Inr (w', ca')" "ew_spec w' = Some (filled sp)"
    "esp_tunnel w'" "ew_states w' = esp_states sp" "ew_policies w' = esp_policies ho sp" by (rule updateXfrm_spec [OF n])
  from esp_reload.hyps(2) u(1) obtain ds where s: "s = (w', ca', ds)" "EspWorker_upMember k ho w' (EspWorker_addXfrm w' ?cs) = Inr ds"
    by (auto simp: EspWorker_Reload_def EspWorker_delXfrm_def split: sum.splits)
  show ?case unfolding s(1) using u w by (intro up_inv [where sp = "filled sp", OF _ _ _ _ _ _ _ _ s(2)]) (simp_all add: esp_filled left_append)
qed

lemma Reload_returns:
  assumes "kernel_ok k" and "esp_inv ho spec (w, ca, cs)"
  shows "\<exists>s. EspWorker_Reload k ho (w, ca', cs) = Inr s"
proof -
  let ?w = "w\<lparr>ew_states := [], ew_policies := []\<rparr>"
  from assms(2) obtain sp where w: "esp_tunnel w" "ew_spec w = Some sp" by (auto simp: esp_inv_def)
  then have n: "ew_spec ?w = Some sp" "esp_tunnel ?w" "ew_states ?w = []" "ew_policies ?w = []" by simp_all
  obtain w' ca'' where u: "EspWorker_updateXfrm ho (?w, ca') = Inr (w', ca'')" "ew_spec w' = Some (filled sp)" by (rule updateXfrm_spec [OF n])
  obtain ds where "upMembers k ho (esp_Members (filled sp)) (EspWorker_addXfrm w'
      (cs @ map XfrmPolicyDel (ew_policies w) @ map XfrmStateDel (ew_states w))) = Inr ds" using upMembers_returns [OF assms(1)] by blast
  with u show ?thesis by (simp add: EspWorker_Reload_def EspWorker_delXfrm_def EspWorker_upMember_def)
qed

lemma Stop_left:
  assumes "esp_inv ho spec (w, ca, cs)"
  obtains w' cs' where "EspWorker_Stop k (w, ca, cs) = Inr (w', ca, cs')" and "states_left cs' = {}" and "policies_left cs' = {}"
proof -
  from assms obtain sp where w: "ew_spec w = Some sp" "ew_states w = esp_states spec" "ew_policies w = esp_policies ho spec"
    "states_left cs = set (esp_states spec)" "policies_left cs = set (esp_policies ho spec)" by (auto simp: esp_inv_def)
  define ds where "ds = fold (\<lambda>m cs. fst (EspWorker_DownDummy k (em_Name m) cs)) (esp_Members sp) cs"
  have "link_calls cs ds" unfolding ds_def by (rule downMembers_links)
  from link_calls_left [OF this] w that show thesis
    by (auto simp: EspWorker_Stop_def EspWorker_downMember_def EspWorker_delXfrm_def left_append ds_def [symmetric])
qed

lemma esp_run_starts:
  assumes "kernel_ok k" and "cn_Specifies c = SpecESP spec"
  obtains w ca cs where "esp_run k ho c (w, ca, cs)"
proof -
  let ?n = "NewESPWorker c"
  have n: "ew_spec ?n = Some spec" "esp_tunnel ?n" "ew_states ?n = []" "ew_policies ?n = []" using assms(2) by (simp_all add: NewESPWorker_def)
  obtain w ca where u: "EspWorker_updateXfrm ho (?n, cache_Esp) = Inr (w, ca)" "ew_spec w = Some (filled spec)" by (rule updateXfrm_spec [OF n])
  obtain ds where "upMembers k ho (esp_Members (filled spec)) (EspWorker_addXfrm (w\<lparr>ew_uuid := []\<rparr>) []) = Inr ds"
    using upMembers_returns [OF assms(1)] by blast
  then obtain w' ca' where "EspWorker_Start k ho [] (w, ca, []) = Inr (w', ca', ds)" using u(2) by (simp add: EspWorker_Start_def EspWorker_upMember_def)
  with u(1) n(1) have "esp_run k ho c (w', ca', ds)" by (intro esp_start) (simp_all add: EspWorker_Initialize_def)
  with that show thesis .
qed

section \<open>Two ends of a tunnel\<close>

text \<open>The member for the other end: addresses, peers and prefixes exchanged, secrets and number the same, the ports those of the
  default.\<close>

definition mirrored :: "ESPMember \<Rightarrow> ESPMember \<Rightarrow> bool" where
  "mirrored m m' \<longleftrightarrow> em_Spi m' = em_Spi m \<and> em_Address m' = em_Peer m \<and> em_Peer m' = em_Address m \<and>
     (let s = em_State m; s' = em_State m' in es_LocalIp s' = es_RemoteIp s \<and> es_RemoteIp s' = es_LocalIp s \<and> es_Auth s' = es_Auth s \<and>
        es_Crypt s' = es_Crypt s \<and> es_Encap s' = es_Encap s \<and> es_RemotePort s \<in> {0, UDPPort} \<and> es_RemotePort s' \<in> {0, UDPPort}) \<and>
     map (\<lambda>p. (ep_Source p, ep_Dest p)) (em_Policies m') = map (\<lambda>p. (ep_Dest p, ep_Source p)) (em_Policies m)"

lemma mirrored_states: "mirrored m m' \<Longrightarrow> set (member_states m') = set (member_states m)"
  by (auto simp: mirrored_def member_states_def sassoc_def ips_known_def GetStateEncap_def Let_def)

definition accepted :: "XfrmPolicy set \<Rightarrow> XfrmPolicy set" where
  "accepted P = {p \<in> P. xp_Dir p = XFRM_DIR_IN}"

definition sent :: "XfrmPolicy set \<Rightarrow> XfrmPolicy set" where
  "sent P = (\<lambda>p. p\<lparr>xp_Dir := XFRM_DIR_IN\<rparr>) ` {p \<in> P. xp_Dir p = XFRM_DIR_OUT}"

lemma sent_accepted_Union: "sent (P \<union> Q) = sent P \<union> sent Q" "accepted (P \<union> Q) = accepted P \<union> accepted Q" "sent {} = {}" "accepted {} = {}"
  by (auto simp: sent_def accepted_def)

lemma sent_accepted_insert [simp]:
  "sent (insert p P) = (if xp_Dir p = XFRM_DIR_OUT then insert (p\<lparr>xp_Dir := XFRM_DIR_IN\<rparr>) (sent P) else sent P)"
  "accepted (insert p P) = (if xp_Dir p = XFRM_DIR_IN then insert p (accepted P) else accepted P)"
  by (auto simp: sent_def accepted_def)

lemma mirrored_pair:
  assumes "mirrored m m'" and "ep_Source q = ep_Dest p" and "ep_Dest q = ep_Source p" and "ho_p6 ho' = ho_p6 ho"
  shows "sent (set (pair_policies ho m p)) = accepted (set (pair_policies ho' m' q))"
proof -
  have "ParseNet ho' = ParseNet ho" using assms(4) by (auto simp: ParseNet_def)
  moreover have "es_LocalIp (em_State m') = es_RemoteIp (em_State m)" "es_RemoteIp (em_State m') = es_LocalIp (em_State m)" "em_Spi m' = em_Spi m"
    using assms(1) by (simp_all add: mirrored_def Let_def)
  ultimately show ?thesis using assms(2,3)
    by (cases "ParseNet ho (ep_Source p)"; cases "ParseNet ho (ep_Dest p)") (simp_all add: pair_policies_def spolicy_def sent_accepted_Union Let_def)
qed

lemma mirrored_policies:
  assumes m: "mirrored m m'" and ho: "ho_p6 ho' = ho_p6 ho"
  shows "sent (set (member_policies ho m)) = accepted (set (member_policies ho' m'))"
proof -
  have kn: "ips_known m' = ips_known m" using m by (auto simp: mirrored_def ips_known_def Let_def)
  have pairs: "sent (set (concat (map (\<lambda>p. pair_policies ho m (fill_policy m p)) ps))) =
      accepted (set (concat (map (\<lambda>p. pair_policies ho' m' (fill_policy m' p)) qs)))"
    if "map (\<lambda>p. (ep_Source p, ep_Dest p)) qs = map (\<lambda>p. (ep_Dest p, ep_Source p)) ps" for ps qs
    using that
  proof (induction ps arbitrary: qs)
    case (Cons p ps)
    then obtain q qs' where qs: "qs = q # qs'" "ep_Source q = ep_Dest p" "ep_Dest q = ep_Source p" by auto
    have "em_Address m' = em_Peer m" "em_Peer m' = em_Address m" using m by (simp_all add: mirrored_def)
    then have "ep_Source (fill_policy m' q) = ep_Dest (fill_policy m p)" "ep_Dest (fill_policy m' q) = ep_Source (fill_policy m p)"
      using qs by (auto simp: fill_policy_def Let_def)
    from mirrored_pair [OF m this ho] Cons qs show ?case by (simp add: sent_accepted_Union)
  qed (simp add: sent_accepted_Union)
  have "map (\<lambda>p. (ep_Source p, ep_Dest p)) (em_Policies m') = map (\<lambda>p. (ep_Dest p, ep_Source p)) (em_Policies m)"
    using m by (simp add: mirrored_def)
  from pairs [OF this] show ?thesis unfolding member_policies_def kn by (cases "ips_known m") (simp_all only: if_True if_False list.set(1) sent_accepted_Union)
qed

lemma mirrored_spec:
  assumes "list_all2 mirrored ms ms'" and "ho_p6 ho' = ho_p6 ho"
  shows "set (concat (map member_states ms')) = set (concat (map member_states ms))"
    and "sent (set (concat (map (member_policies ho) ms))) = accepted (set (concat (map (member_policies ho') ms')))"
proof -
  from assms(1) show "set (concat (map member_states ms')) = set (concat (map member_states ms))"
    by (induction ms ms' rule: list_all2_induct) (simp_all add: mirrored_states)
  from assms(1) show "sent (set (concat (map (member_policies ho) ms))) = accepted (set (concat (map (member_policies ho') ms')))"
    by (induction ms ms' rule: list_all2_induct) (simp_all add: mirrored_policies [where ho' = ho' and ho = ho, OF _ assms(2)] sent_accepted_Union)
qed

section \<open>Properties\<close>


text \<open>C15. The two ends of a tunnel agree: when the members of two networks mirror each other, both workers install the same states, with
  the same keys, and what one end sends by its outgoing policies is what the other accepts by its incoming policies.\<close>

theorem esp_peers_agree:
  assumes "cn_Specifies c = SpecESP spec" and "cn_Specifies c' = SpecESP spec'" and "list_all2 mirrored (esp_Members spec) (esp_Members spec')"
    and "ho_p6 ho' = ho_p6 ho" and "esp_run k ho c (w, ca, cs)" and "esp_run k' ho' c' (w', ca', cs')"
  shows "states_left cs' = states_left cs \<and> sent (policies_left cs) = accepted (policies_left cs')"
proof -
  have "esp_inv ho spec (w, ca, cs)" "esp_inv ho' spec' (w', ca', cs')" using esp_run_inv assms(1,2,5,6) by blast+
  with mirrored_spec [OF assms(3,4)] show ?thesis by (simp add: esp_inv_def esp_states_def esp_policies_def)
qed

section \<open>Witnesses\<close>

text \<open>A kernel that does everything, and the two ends of a tunnel between 10.0.0.1 and 10.0.0.2.\<close>

definition kernel_demo :: kernel where
  "kernel_demo = \<lparr>ke_has = (\<lambda>cs name. \<exists>c \<in> set cs. adds_link c name), ke_err = (\<lambda>_ _. None)\<rparr>"

lemma kernel_demo_ok: "kernel_ok kernel_demo"
  by (auto simp: kernel_ok_def kernel_demo_def)

definition esp_member_demo :: "string \<Rightarrow> string \<Rightarrow> byte \<Rightarrow> byte \<Rightarrow> ESPMember" where
  "esp_member_demo a b l r = \<lparr>em_Name = ''spi9'', em_Address = a, em_Peer = b, em_Spi = 9,
     em_State = \<lparr>es_Local = [], es_LocalIp = [10, 0, 0, l], es_Remote = [], es_RemotePort = 4600, es_RemoteIp = [10, 0, 0, r],
       es_Encap = ''udp'', es_Auth = ''a'', es_Crypt = ''c''\<rparr>,
     em_Policies = [\<lparr>ep_Source = a, ep_Dest = b\<rparr>]\<rparr>"

definition esp_spec_demo :: "string \<Rightarrow> string \<Rightarrow> byte \<Rightarrow> byte \<Rightarrow> ESPSpecifies" where
  "esp_spec_demo a b l r = \<lparr>esp_Name = ''e'', esp_Address = a, esp_State = em_State (esp_member_demo a b l r),
     esp_Members = [esp_member_demo a b l r]\<rparr>"

definition esp_net_demo :: "string \<Rightarrow> string \<Rightarrow> byte \<Rightarrow> byte \<Rightarrow> co_Network" where
  "esp_net_demo a b l r = conf_demo\<lparr>cn_Specifies := SpecESP (esp_spec_demo a b l r)\<rparr>"

lemma esp_demo_spec: "cn_Specifies (esp_net_demo a b l r) = SpecESP (esp_spec_demo a b l r)"
  by (simp add: esp_net_demo_def)

lemma esp_demo_mirrored: "list_all2 mirrored (esp_Members (esp_spec_demo a b l r)) (esp_Members (esp_spec_demo b a r l))"
  by (simp add: esp_spec_demo_def esp_member_demo_def mirrored_def UDPPort_def)

lemma esp_demo_states:
  "esp_states (esp_spec_demo a b l r) =
     [sassoc [10, 0, 0, l] [10, 0, 0, r] (esp_member_demo a b l r) (GetStateEncap ''udp'' 0 4600),
      sassoc [10, 0, 0, r] [10, 0, 0, l] (esp_member_demo a b l r) (GetStateEncap ''udp'' 4600 0)]"
  by (simp add: esp_states_def esp_spec_demo_def esp_member_demo_def member_states_def ips_known_def Let_def)


theorem esp_peers_agree_witness:
  "\<exists>w ca cs w' ca' cs'. esp_run kernel_demo host_demo (esp_net_demo ''1.1.1.1/32'' ''2.2.2.2/32'' 1 2) (w, ca, cs) \<and>
     esp_run kernel_demo host_demo (esp_net_demo ''2.2.2.2/32'' ''1.1.1.1/32'' 2 1) (w', ca', cs') \<and>
     states_left cs' = states_left cs \<and> sent (policies_left cs) = accepted (policies_left cs')"
proof -
  obtain w ca cs where r: "esp_run kernel_demo host_demo (esp_net_demo ''1.1.1.1/32'' ''2.2.2.2/32'' 1 2) (w, ca, cs)"
    by (rule esp_run_starts [OF kernel_demo_ok esp_demo_spec])
  obtain w' ca' cs' where r': "esp_run kernel_demo host_demo (esp_net_demo ''2.2.2.2/32'' ''1.1.1.1/32'' 2 1) (w', ca', cs')"
    by (rule esp_run_starts [OF kernel_demo_ok esp_demo_spec])
  from esp_peers_agree [OF esp_demo_spec esp_demo_spec esp_demo_mirrored refl r r'] r r' show ?thesis by blast
qed

end
