(* ===== verification/OpenVpn.thy ===== *)
theory OpenVpn
  imports Config
begin

text \<open>The OpenVPN servers of a network (\<open>src/pkg/olsw/openvpn.go\<close>) and the cache that reads their files
  (\<open>src/pkg/olsw/cache/openvpn.go\<close>). The state is the content of files by path, and the processes that were started and killed. Whether a
  file can be written is a parameter. A template is a list of lines, of which both its source text and its output are computed.\<close>

section \<open>Templates\<close>

text \<open>\<open>Field f\<close> is \<open>{{ .f }}\<close>, \<open>Trim f\<close> is \<open>{{ .f -}}\<close> with the line end after it. \<open>Range\<close> and \<open>IfElse\<close> stand on lines of their own that
  take away the line end before them; in the body of a range the field is the element.\<close>

datatype piece = Txt string | Field string | Trim string

datatype tline = Line "piece list" | Range string string string | IfElse string string string

type_synonym template = "tline list"

abbreviation nl :: char where "nl \<equiv> CHR 0x0A"

fun piece_text :: "piece \<Rightarrow> string" where
  "piece_text (Txt s) = s"
| "piece_text (Field f) = ''{{ .'' @ f @ '' }}''"
| "piece_text (Trim f) = ''{{ .'' @ f @ '' -}}'' @ [nl]"

fun tline_text :: "tline \<Rightarrow> string" where
  "tline_text (Line ps) = concat (map piece_text ps)"
| "tline_text (Range f a b) = ''{{- range .'' @ f @ '' }}'' @ [nl] @ a @ ''{{ . }}'' @ b @ [nl] @ ''{{- end }}''"
| "tline_text (IfElse f a b) = ''{{- if .'' @ f @ '' }}'' @ [nl] @ a @ [nl] @ ''{{- else }}'' @ [nl] @ b @ [nl] @ ''{{- end }}''"

definition template_text :: "template \<Rightarrow> string" where
  "template_text t = concat (map (\<lambda>l. tline_text l @ [nl]) t)"

record fields =
  fi_str :: "string \<Rightarrow> string"
  fi_list :: "string \<Rightarrow> string list"
  fi_bool :: "string \<Rightarrow> bool"

fun piece_out :: "fields \<Rightarrow> piece \<Rightarrow> string" where
  "piece_out d (Txt s) = s"
| "piece_out d (Field f) = fi_str d f"
| "piece_out d (Trim f) = fi_str d f"

fun tline_out :: "fields \<Rightarrow> tline \<Rightarrow> string list" where
  "tline_out d (Line ps) = [concat (map (piece_out d) ps)]"
| "tline_out d (Range f a b) = map (\<lambda>x. a @ x @ b) (fi_list d f)"
| "tline_out d (IfElse f a b) = [if fi_bool d f then a else b]"

definition Execute :: "template \<Rightarrow> fields \<Rightarrow> string" where
  "Execute t d = concat (map (\<lambda>l. l @ [nl]) (concat (map (tline_out d) t)))"

definition xAuthConfTmpl :: template where
  "xAuthConfTmpl = [Line [Txt ''# Generate by OpenLAN''], Line [Txt ''local '', Field ''Local''], Line [Txt ''port '', Field ''Port''],
     Line [Txt ''proto '', Field ''Protocol''], Line [Txt ''dev '', Field ''Device''], Line [Txt ''reneg-sec '', Field ''Renego''],
     Line [Txt ''keepalive 10 120''], Line [Txt ''persist-key''], Line [Txt ''persist-tun''], Line [Txt ''ca '', Field ''Ca''],
     Line [Txt ''cert '', Field ''Cert''], Line [Txt ''key '', Field ''Key''], Line [Txt ''dh '', Field ''DhPem''],
     Line [Txt ''server '', Field ''Server''], Range ''Routes'' ''push \"route '' ''\"'', Range ''Push'' ''push \"'' ''\"'',
     Line [Txt ''ifconfig-pool-persist '', Field ''Protocol'', Field ''Port'', Txt ''ipp''], Line [Txt ''tls-auth '', Field ''TlsAuth'', Txt '' 0''],
     Line [Txt ''cipher '', Field ''Cipher''], Line [Txt ''status '', Field ''Protocol'', Field ''Port'', Txt ''server.status 5''],
     IfElse ''CertNot'' ''client-cert-not-required'' ''verify-client-cert none'', Line [Txt ''script-security 3''],
     Line [Txt ''auth-user-pass-verify \"'', Field ''Script'', Txt ''\" via-env''], Line [Txt ''username-as-common-name''],
     Line [Txt ''client-config-dir '', Field ''ClientConfigDir''], Line [Txt ''verb 3'']]"

definition certConfTmpl :: template where
  "certConfTmpl = [Line [Txt ''# Generate by OpenLAN''], Line [Txt ''local '', Field ''Local''], Line [Txt ''port '', Field ''Port''],
     Line [Txt ''proto '', Field ''Protocol''], Line [Txt ''dev '', Field ''Device''], Line [Txt ''reneg-sec '', Field ''Renego''],
     Line [Txt ''keepalive 10 120''], Line [Txt ''persist-key''], Line [Txt ''persist-tun''], Line [Txt ''ca '', Field ''Ca''],
     Line [Txt ''cert '', Field ''Cert''], Line [Txt ''key '', Field ''Key''], Line [Txt ''dh '', Field ''DhPem''],
     Line [Txt ''server '', Field ''Server''], Range ''Routes'' ''push \"route '' ''\"'',
     Line [Txt ''ifconfig-pool-persist '', Field ''Protocol'', Field ''Port'', Txt ''ipp''], Line [Txt ''tls-auth '', Field ''TlsAuth'', Txt '' 0''],
     Line [Txt ''cipher '', Field ''Cipher''], Line [Txt ''status '', Field ''Protocol'', Field ''Port'', Txt ''server.status 5''],
     Line [Txt ''client-config-dir '', Field ''ClientConfigDir''], Line [Txt ''verb 3'']]"

definition certClientProfile :: template where
  "certClientProfile = [Line [Txt ''# Generate by OpenLAN''], Line [Txt ''client''], Line [Txt ''dev '', Field ''Device''], Line [Txt ''route-metric 300''],
     Line [Txt ''proto '', Field ''Protocol''], Line [Txt ''remote '', Field ''Server'', Txt '' '', Field ''Port''], Line [Txt ''reneg-sec '', Field ''Renego''],
     Line [Txt ''resolv-retry infinite''], Line [Txt ''nobind''], Line [Txt ''persist-key''], Line [Txt ''persist-tun''], Line [Txt ''<ca>''],
     Line [Trim ''Ca'', Txt ''</ca>''], Line [Txt ''remote-cert-tls server''], Line [Txt ''<tls-auth>''], Line [Trim ''TlsAuth'', Txt ''</tls-auth>''],
     Line [Txt ''key-direction 1''], Line [Txt ''cipher '', Field ''Cipher''], Line [Txt ''auth-nocache''], Line [Txt ''verb 4'']]"

definition xAuthClientProfile :: template where
  "xAuthClientProfile = certClientProfile @ [Line [Txt ''auth-user-pass'']]"

section \<open>The server\<close>

definition DefaultCurDir :: string where "DefaultCurDir = ''/var/openlan/openvpn/default''"

definition OpenVPNBin :: string where "OpenVPNBin = ''openvpn''"

record OpenVPNData =
  vd_Local :: string
  vd_Port :: string
  vd_CertNot :: bool
  vd_Ca :: string
  vd_Cert :: string
  vd_Key :: string
  vd_DhPem :: string
  vd_TlsAuth :: string
  vd_Cipher :: string
  vd_Server :: string
  vd_Device :: string
  vd_Protocol :: string
  vd_Script :: string
  vd_Routes :: "string list"
  vd_Renego :: int
  vd_Push :: "string list"
  vd_ClientConfigDir :: string

definition data_fields :: "OpenVPNData \<Rightarrow> fields" where
  "data_fields d = \<lparr>fi_str = (\<lambda>f. case map_of [(''Local'', vd_Local d), (''Port'', vd_Port d), (''Ca'', vd_Ca d), (''Cert'', vd_Cert d), (''Key'', vd_Key d),
       (''DhPem'', vd_DhPem d), (''TlsAuth'', vd_TlsAuth d), (''Cipher'', vd_Cipher d), (''Server'', vd_Server d), (''Device'', vd_Device d),
       (''Protocol'', vd_Protocol d), (''Script'', vd_Script d), (''Renego'', show_int (vd_Renego d)), (''ClientConfigDir'', vd_ClientConfigDir d)] f of
         None \<Rightarrow> [] | Some v \<Rightarrow> v),
     fi_list = (\<lambda>f. if f = ''Routes'' then vd_Routes d else vd_Push d), fi_bool = (\<lambda>_. vd_CertNot d)\<rparr>"

record vpn =
  vp_Cfg :: "OpenVPN_data option"
  vp_Protocol :: string
  vp_Local :: string
  vp_Port :: string

datatype vpn_call = Mkdir string | Run string "string list" | Kill string

record vpnworld =
  vw_files :: "string \<rightharpoonup> string"
  vw_calls :: "vpn_call list"

text \<open>Whether a file can be created or written; the IPv6 part of package \<open>net\<close>.\<close>

record vpnenv =
  ve_open :: "string \<Rightarrow> error option"
  ve_p6 :: "string \<Rightarrow> byte list option"
  ve_s6 :: "byte list \<Rightarrow> string"

definition NewOpenVPN :: "OpenVPN_data \<Rightarrow> vpn" where
  "NewOpenVPN cfg =
     (let values = SplitN (ov_Listen cfg) (CHR '':'') 2
      in \<lparr>vp_Cfg = Some cfg, vp_Protocol = ov_Protocol cfg, vp_Local = values ! 0,
          vp_Port = (if Contains (ov_Listen cfg) '':'' then values ! 1 else ''4494'')\<rparr>)"

definition OpenVPN_ID :: "vpn \<Rightarrow> string" where
  "OpenVPN_ID o' = vp_Protocol o' @ vp_Port o'"

definition OpenVPN_Directory :: "vpn \<Rightarrow> string" where
  "OpenVPN_Directory o' = (case vp_Cfg o' of None \<Rightarrow> DefaultCurDir | Some cfg \<Rightarrow> ov_Directory cfg)"

definition vpn_file :: "string \<Rightarrow> vpn \<Rightarrow> bool \<Rightarrow> string" where
  "vpn_file suffix o' full =
     (case vp_Cfg o' of
        None \<Rightarrow> []
      | Some cfg \<Rightarrow> (let name = OpenVPN_ID o' @ suffix in if \<not> full then name else path_Join [ov_Directory cfg, name]))"

definition OpenVPN_FileCfg :: "vpn \<Rightarrow> bool \<Rightarrow> string" where "OpenVPN_FileCfg = vpn_file ''server.conf''"
definition OpenVPN_FileClient :: "vpn \<Rightarrow> bool \<Rightarrow> string" where "OpenVPN_FileClient = vpn_file ''client.ovpn''"
definition OpenVPN_FileLog :: "vpn \<Rightarrow> bool \<Rightarrow> string" where "OpenVPN_FileLog = vpn_file ''server.log''"
definition OpenVPN_FilePid :: "vpn \<Rightarrow> bool \<Rightarrow> string" where "OpenVPN_FilePid = vpn_file ''server.pid''"
definition OpenVPN_FileStats :: "vpn \<Rightarrow> bool \<Rightarrow> string" where "OpenVPN_FileStats = vpn_file ''server.stats''"
definition OpenVPN_FileIpp :: "vpn \<Rightarrow> bool \<Rightarrow> string" where "OpenVPN_FileIpp = vpn_file ''ipp''"

lemmas vpn_file_defs = OpenVPN_FileCfg_def OpenVPN_FileClient_def OpenVPN_FileLog_def OpenVPN_FilePid_def OpenVPN_FileStats_def OpenVPN_FileIpp_def vpn_file_def

definition OpenVPN_DirectoryClientConfig :: "vpn \<Rightarrow> string" where
  "OpenVPN_DirectoryClientConfig o' = path_Join [case vp_Cfg o' of None \<Rightarrow> DefaultCurDir | Some cfg \<Rightarrow> ov_Directory cfg, ''ccd'']"

definition slash2space :: "string \<Rightarrow> string" where
  "slash2space s = map (\<lambda>c. if c = CHR ''/'' then CHR '' '' else c) s"

definition NewOpenVpnDataFromConf :: "vpnenv \<Rightarrow> OpenVPN_data \<Rightarrow> vpn \<Rightarrow> OpenVPNData" where
  "NewOpenVpnDataFromConf env cfg obj =
     \<lparr>vd_Local = vp_Local obj, vd_Port = vp_Port obj, vd_CertNot = \<not> ov_Version cfg > 23, vd_Ca = ov_RootCa cfg, vd_Cert = ov_ServerCrt cfg,
      vd_Key = ov_ServerKey cfg, vd_DhPem = ov_DhPem cfg, vd_TlsAuth = ov_TlsAuth cfg, vd_Cipher = ov_Cipher cfg,
      vd_Server = slash2space (fst (IPNetwork (ve_p6 env) (ve_s6 env) (ov_Subnet cfg))), vd_Device = ov_Device cfg, vd_Protocol = ov_Protocol cfg,
      vd_Script = ov_Script cfg,
      vd_Routes = map slash2space (List.map_filter (\<lambda>rt. case IPNetwork (ve_p6 env) (ve_s6 env) rt of (a, ok) \<Rightarrow> if ok then Some a else None) (ov_Routes cfg)),
      vd_Renego = ov_Renego cfg, vd_Push = ov_Push cfg, vd_ClientConfigDir = OpenVPN_DirectoryClientConfig obj\<rparr>"

definition WriteFile :: "vpnenv \<Rightarrow> string \<Rightarrow> string \<Rightarrow> vpnworld \<Rightarrow> vpnworld upd" where
  "WriteFile env path text w = (case ve_open env path of Some e \<Rightarrow> (w, Some e) | None \<Rightarrow> (w\<lparr>vw_files := (vw_files w)(path \<mapsto> text)\<rparr>, None))"

abbreviation vcall :: "vpn_call \<Rightarrow> vpnworld \<Rightarrow> vpnworld" where
  "vcall c w \<equiv> w\<lparr>vw_calls := vw_calls w @ [c]\<rparr>"

definition OpenVPN_ServerTmpl :: "vpnenv \<Rightarrow> OpenVPN_data \<Rightarrow> vpn \<Rightarrow> vpnworld \<Rightarrow> vpnworld \<times> template" where
  "OpenVPN_ServerTmpl env cfg o' w =
     (let tmpl = (if ov_Auth cfg = ''cert'' then certConfTmpl else xAuthConfTmpl)
      in (fst (WriteFile env (path_Join [ov_Directory cfg, OpenVPN_ID o' @ ''server.tmpl'']) (template_text tmpl) w), tmpl))"

definition OpenVPN_writeClientConfig :: "vpnenv \<Rightarrow> OpenVPN_data \<Rightarrow> vpn \<Rightarrow> vpnworld \<Rightarrow> vpnworld" where
  "OpenVPN_writeClientConfig env cfg o' w =
     (let ccd = OpenVPN_DirectoryClientConfig o';
          w = vcall (Mkdir ccd) w
      in fold (\<lambda>fic w. if ovc_Name fic = [] \<or> ovc_Address fic = [] then w
           else fst (WriteFile env (path_Join [ccd, ovc_Name fic]) (''ifconfig-push '' @ ovc_Address fic @ '' '' @ ovc_Netmask fic) w)) (ov_Clients cfg) w)"

text \<open>The file is created empty at first and filled by the template at the end.\<close>

definition OpenVPN_WriteConf :: "vpnenv \<Rightarrow> OpenVPN_data \<Rightarrow> string \<Rightarrow> vpn \<Rightarrow> vpnworld \<Rightarrow> vpnworld upd" where
  "OpenVPN_WriteConf env cfg path o' w =
     (case WriteFile env path [] w of
        (w, Some e) \<Rightarrow> (w, Some e)
      | (w, None) \<Rightarrow>
          (let d = NewOpenVpnDataFromConf env cfg o';
               w = (if vd_ClientConfigDir d \<noteq> [] then OpenVPN_writeClientConfig env cfg o' w else w);
               (w, tmpl) = OpenVPN_ServerTmpl env cfg o' w
           in (w\<lparr>vw_files := (vw_files w)(path \<mapsto> Execute tmpl (data_fields d))\<rparr>, None)))"

definition remove_file :: "string \<Rightarrow> vpnworld \<Rightarrow> vpnworld" where
  "remove_file path w = w\<lparr>vw_files := (vw_files w)(path := None)\<rparr>"

definition OpenVPN_Clean :: "OpenVPN_data \<Rightarrow> vpn \<Rightarrow> vpnworld \<Rightarrow> vpnworld" where
  "OpenVPN_Clean cfg o' w =
     (let ccd = OpenVPN_DirectoryClientConfig o';
          w = fold (\<lambda>fic w. if ovc_Name fic = [] \<or> ovc_Address fic = [] then w else remove_file (path_Join [ccd, ovc_Name fic]) w) (ov_Clients cfg) w
      in fold remove_file [OpenVPN_FileStats o' True, OpenVPN_FileIpp o' True] w)"

record OpenVPNProfile =
  vf_Server :: string
  vf_Port :: string
  vf_Ca :: string
  vf_TlsAuth :: string
  vf_Cipher :: string
  vf_Device :: string
  vf_Protocol :: string
  vf_Renego :: int

definition profile_fields :: "OpenVPNProfile \<Rightarrow> fields" where
  "profile_fields d = \<lparr>fi_str = (\<lambda>f. case map_of [(''Server'', vf_Server d), (''Port'', vf_Port d), (''Ca'', vf_Ca d), (''TlsAuth'', vf_TlsAuth d),
       (''Cipher'', vf_Cipher d), (''Device'', vf_Device d), (''Protocol'', vf_Protocol d), (''Renego'', show_int (vf_Renego d))] f of
         None \<Rightarrow> [] | Some v \<Rightarrow> v), fi_list = (\<lambda>_. []), fi_bool = (\<lambda>_. False)\<rparr>"

text \<open>The name of the device is cut to three characters, which panics for a shorter one.\<close>

definition NewOpenVpnProfileFromConf :: "OpenVPN_data \<Rightarrow> vpn \<Rightarrow> vpnworld \<Rightarrow> OpenVPNProfile result" where
  "NewOpenVpnProfileFromConf cfg obj w =
     (case reslice 0 3 (ov_Device cfg) of
        Inl e \<Rightarrow> Inl e
      | Inr dev \<Rightarrow> Inr \<lparr>vf_Server = vp_Local obj, vf_Port = vp_Port obj, vf_Ca = (case vw_files w (ov_RootCa cfg) of None \<Rightarrow> [] | Some t \<Rightarrow> t),
          vf_TlsAuth = (case vw_files w (ov_TlsAuth cfg) of None \<Rightarrow> [] | Some t \<Rightarrow> t), vf_Cipher = ov_Cipher cfg, vf_Device = dev,
          vf_Protocol = ov_Protocol cfg, vf_Renego = ov_Renego cfg\<rparr>)"

definition OpenVPN_ProfileTmpl :: "vpnenv \<Rightarrow> OpenVPN_data \<Rightarrow> vpn \<Rightarrow> vpnworld \<Rightarrow> vpnworld \<times> template" where
  "OpenVPN_ProfileTmpl env cfg o' w =
     (let tmpl = (if ov_Auth cfg = ''cert'' then certClientProfile else xAuthClientProfile)
      in (fst (WriteFile env (path_Join [ov_Directory cfg, OpenVPN_ID o' @ ''client.tmpl'']) (template_text tmpl) w), tmpl))"

definition OpenVPN_Profile :: "vpnenv \<Rightarrow> OpenVPN_data \<Rightarrow> vpn \<Rightarrow> vpnworld \<Rightarrow> (vpnworld \<times> string) result" where
  "OpenVPN_Profile env cfg o' w =
     (case NewOpenVpnProfileFromConf cfg o' w of
        Inl e \<Rightarrow> Inl e
      | Inr d \<Rightarrow> (case OpenVPN_ProfileTmpl env cfg o' w of (w, tmpl) \<Rightarrow> Inr (w, Execute tmpl (profile_fields d))))"

definition OpenVPN_ValidConf :: "vpn \<Rightarrow> bool" where
  "OpenVPN_ValidConf o' = (case vp_Cfg o' of None \<Rightarrow> False | Some cfg \<Rightarrow> \<not> (ov_Listen cfg = [] \<or> ov_Subnet cfg = []))"

definition OpenVPN_Initialize :: "vpnenv \<Rightarrow> vpn \<Rightarrow> vpnworld \<Rightarrow> vpnworld result" where
  "OpenVPN_Initialize env o' w =
     (case vp_Cfg o' of
        None \<Rightarrow> Inr w
      | Some cfg \<Rightarrow>
          (if \<not> OpenVPN_ValidConf o' then Inr w
           else let w = OpenVPN_Clean cfg o' w;
                    w = vcall (Mkdir (OpenVPN_Directory o')) w
                in case OpenVPN_WriteConf env cfg (OpenVPN_FileCfg o' True) o' w of
                     (w, Some e) \<Rightarrow> Inr w
                   | (w, None) \<Rightarrow> (case OpenVPN_Profile env cfg o' w of
                       Inl e \<Rightarrow> Inl e
                     | Inr (w, ctx) \<Rightarrow> Inr (fst (WriteFile env (OpenVPN_FileClient o' True) ctx w)))))"

definition OpenVPN_Start :: "vpnenv \<Rightarrow> vpn \<Rightarrow> vpnworld \<Rightarrow> vpnworld" where
  "OpenVPN_Start env o' w =
     (if \<not> OpenVPN_ValidConf o' then w
      else case WriteFile env (OpenVPN_FileLog o' True) [] w of
             (w, Some e) \<Rightarrow> w
           | (w, None) \<Rightarrow> vcall (Run OpenVPNBin [''--cd'', OpenVPN_Directory o', ''--config'', OpenVPN_FileCfg o' False,
               ''--writepid'', OpenVPN_FilePid o' False]) w)"

definition is_space :: "char \<Rightarrow> bool" where
  "is_space c \<longleftrightarrow> c \<in> {CHR '' '', CHR 0x09, CHR 0x0A, CHR 0x0B, CHR 0x0C, CHR 0x0D}"

definition TrimSpace :: "string \<Rightarrow> string" where
  "TrimSpace s = rev (dropWhile is_space (rev (dropWhile is_space s)))"

definition OpenVPN_Stop :: "vpn \<Rightarrow> vpnworld \<Rightarrow> vpnworld" where
  "OpenVPN_Stop o' w =
     (case vp_Cfg o' of
        None \<Rightarrow> w
      | Some cfg \<Rightarrow>
          (if \<not> OpenVPN_ValidConf o' then w
           else let w = (case vw_files w (OpenVPN_FilePid o' True) of None \<Rightarrow> w | Some text \<Rightarrow> vcall (Kill (TrimSpace text)) w)
                in OpenVPN_Clean cfg o' w))"

section \<open>The cache of clients\<close>

record VPNClient =
  vc_Uptime :: int
  vc_Name :: string
  vc_Remote :: string
  vc_Device :: string
  vc_RxBytes :: int
  vc_TxBytes :: int
  vc_State :: string
  vc_AliveTime :: int
  vc_Address :: string

text \<open>\<open>strconv.ParseInt\<close> to base 10 and 64 bits; \<open>None\<close> is an error.\<close>

definition ParseInt64 :: "string \<Rightarrow> int option" where
  "ParseInt64 s =
     (let neg = (s \<noteq> [] \<and> hd s = CHR ''-'');
          ds = (if s \<noteq> [] \<and> (hd s = CHR ''-'' \<or> hd s = CHR ''+'') then tl s else s)
      in if ds = [] then None
         else case atoi_loop 0 ds of
           None \<Rightarrow> None
         | Some n \<Rightarrow> (let v = (if neg then - n else n) in if - (2 ^ 63) \<le> v \<and> v < 2 ^ 63 then Some v else None))"

definition vpnClient_GetDevice :: "co_Network list option \<Rightarrow> string \<Rightarrow> string" where
  "vpnClient_GetDevice sw name =
     (case sw of
        None \<Rightarrow> []
      | Some nets \<Rightarrow>
          (case find (\<lambda>n. case cn_OpenVPN n of None \<Rightarrow> False | Some v \<Rightarrow> ov_Network (ov_data v) = name) nets of
             None \<Rightarrow> []
           | Some n \<Rightarrow> (case cn_OpenVPN n of None \<Rightarrow> [] | Some v \<Rightarrow> ov_Device (ov_data v))))"

datatype status_section = Header | Common | Routing | Global

text \<open>\<open>time\<close> is \<open>GetLocalTime\<close> with the layout \<open>ANSIC\<close>, in seconds.\<close>

record scan =
  sn_readAt :: status_section
  sn_offset :: int
  sn_clients :: "(string \<times> VPNClient) list"

definition scan_client :: "(string \<Rightarrow> int option) \<Rightarrow> int \<Rightarrow> string \<Rightarrow> string list \<Rightarrow> VPNClient" where
  "scan_client time now device columns =
     (let client = \<lparr>vc_Uptime = 0, vc_Name = columns ! 0, vc_Remote = columns ! 1, vc_Device = device, vc_RxBytes = 0, vc_TxBytes = 0,
            vc_State = ''success'', vc_AliveTime = 0, vc_Address = []\<rparr>;
          client = (case ParseInt64 (columns ! 2) of None \<Rightarrow> client | Some rxc \<Rightarrow> client\<lparr>vc_RxBytes := rxc\<rparr>);
          client = (case ParseInt64 (columns ! 3) of None \<Rightarrow> client | Some txc \<Rightarrow> client\<lparr>vc_TxBytes := txc\<rparr>)
      in case time (columns ! 4) of None \<Rightarrow> client | Some t \<Rightarrow> client\<lparr>vc_Uptime := t, vc_AliveTime := now - t\<rparr>)"

definition scan_line :: "(string \<Rightarrow> int option) \<Rightarrow> int \<Rightarrow> string \<Rightarrow> string \<Rightarrow> scan \<Rightarrow> scan" where
  "scan_line time now device line s =
     (let s = (if line = ''OpenVPN CLIENT LIST'' then s\<lparr>sn_readAt := Common, sn_offset := 3\<rparr> else s);
          s = (if line = ''ROUTING TABLE'' then s\<lparr>sn_readAt := Routing, sn_offset := 2\<rparr> else s);
          s = (if line = ''GLOBAL STATS'' then s\<lparr>sn_readAt := Global, sn_offset := 1\<rparr> else s)
      in if sn_offset s > 0 then s\<lparr>sn_offset := sn_offset s - 1\<rparr>
         else let columns = SplitN line (CHR '','') 5
              in case sn_readAt s of
                   Common \<Rightarrow> if length columns = 5
                     then s\<lparr>sn_clients := AList.update (columns ! 1) (scan_client time now device columns) (sn_clients s)\<rparr> else s
                 | Routing \<Rightarrow> if length columns = 4
                     then (case map_of (sn_clients s) (columns ! 2) of
                             None \<Rightarrow> s
                           | Some client \<Rightarrow> s\<lparr>sn_clients := AList.update (columns ! 2) (client\<lparr>vc_Address := columns ! 0\<rparr>) (sn_clients s)\<rparr>)
                     else s
                 | _ \<Rightarrow> s)"

definition vpnClient_scanStatus :: "(string \<Rightarrow> int option) \<Rightarrow> int \<Rightarrow> string \<Rightarrow> string \<Rightarrow> (string \<times> VPNClient) list \<Rightarrow> (string \<times> VPNClient) list" where
  "vpnClient_scanStatus time now device text clients =
     sn_clients (fold (scan_line time now device) (scan_lines text) \<lparr>sn_readAt = Header, sn_offset = 0, sn_clients = clients\<rparr>)"

definition vpnClient_Dir :: "string list \<Rightarrow> string" where
  "vpnClient_Dir args = path_Join (VarDir [''openvpn''] # args)"

text \<open>\<open>glob\<close> are the paths that match a pattern; a file that cannot be opened ends the list with no clients.\<close>

fun readStatus_loop :: "(string \<Rightarrow> int option) \<Rightarrow> int \<Rightarrow> string \<Rightarrow> (string \<rightharpoonup> string) \<Rightarrow> string list \<Rightarrow> (string \<times> VPNClient) list \<Rightarrow> (string \<times> VPNClient) list" where
  "readStatus_loop time now device files [] clients = clients"
| "readStatus_loop time now device files (file # fs) clients =
     (case files file of
        None \<Rightarrow> []
      | Some text \<Rightarrow> readStatus_loop time now device files fs (vpnClient_scanStatus time now device text clients))"

definition vpnClient_readStatus ::
    "(string \<Rightarrow> int option) \<Rightarrow> int \<Rightarrow> co_Network list option \<Rightarrow> (string \<rightharpoonup> string) \<Rightarrow> (string \<Rightarrow> string list) \<Rightarrow> string \<Rightarrow> (string \<times> VPNClient) list" where
  "vpnClient_readStatus time now sw files glob network =
     readStatus_loop time now (vpnClient_GetDevice sw network) files (glob (vpnClient_Dir [network, ''*server.status''])) []"

definition vpnClient_List ::
    "(string \<Rightarrow> int option) \<Rightarrow> int \<Rightarrow> co_Network list option \<Rightarrow> (string \<rightharpoonup> string) \<Rightarrow> (string \<Rightarrow> string list) \<Rightarrow> string \<Rightarrow> VPNClient list" where
  "vpnClient_List time now sw files glob name = map snd (vpnClient_readStatus time now sw files glob name)"

text \<open>\<open>strings.Replace\<close> of the first occurrence; \<open>HasPrefix\<close>.\<close>

fun replace_first :: "string \<Rightarrow> string \<Rightarrow> string \<Rightarrow> string" where
  "replace_first [] old new = (if old = [] then new else [])"
| "replace_first (c # s) old new = (if take (length old) (c # s) = old then new @ drop (length old) (c # s) else c # replace_first s old new)"

definition HasPrefix :: "string \<Rightarrow> string \<Rightarrow> bool" where
  "HasPrefix s pre = (take (length pre) s = pre)"

definition remote_line :: "string \<Rightarrow> string \<Rightarrow> string" where
  "remote_line remote line = (if HasPrefix line ''remote 0.0.0.0'' then replace_first line ''0.0.0.0'' remote else line)"

definition scan_fails :: "string \<Rightarrow> bool" where
  "scan_fails text = list_ex (\<lambda>l. length l \<ge> 65536) (Split text nl)"

definition vpnClient_GetClientProfile :: "(string \<rightharpoonup> string) \<Rightarrow> string \<Rightarrow> string \<Rightarrow> string \<Rightarrow> string result" where
  "vpnClient_GetClientProfile files network client remote =
     (case files (vpnClient_Dir [network, client @ ''client.ovpn'']) of
        None \<Rightarrow> Inl (NewErr ''no such file or directory'')
      | Some text \<Rightarrow> if scan_fails text then Inl (NewErr ''token too long'')
          else Inr (concat (map (\<lambda>line. remote_line remote line @ [nl]) (scan_lines text))))"

section \<open>Lines\<close>

definition unlines :: "string list \<Rightarrow> string" where
  "unlines ls = concat (map (\<lambda>l. l @ [nl]) ls)"

lemma unlines_simps [simp]: "unlines [] = []" "unlines (l # ls) = l @ nl # unlines ls" "unlines (ls @ ms) = unlines ls @ unlines ms"
  by (simp_all add: unlines_def)

lemma Split_nonempty [simp]: "Split s sep \<noteq> []"
  by (induction s) auto

lemma Split_append: "Split (a @ sep # r) sep = Split a sep @ Split r sep"
  by (induction a) auto

lemma Split_plain: "sep \<notin> set a \<Longrightarrow> Split a sep = [a]"
  by (induction a) auto

lemma Split_tail: "sep \<notin> set s \<Longrightarrow> Split (x @ s) sep = butlast (Split x sep) @ [last (Split x sep) @ s]"
proof (induction x)
  case (Cons c x)
  then show ?case by (cases "Split x sep"; cases "tl (Split x sep)") (auto split: if_splits)
qed (simp add: Split_plain)

text \<open>Texts all of whose lines are short enough for the scanner.\<close>

definition fits :: "nat \<Rightarrow> string \<Rightarrow> bool" where
  "fits n s \<longleftrightarrow> list_all (\<lambda>l. length l < n) (Split s nl)"

lemma fits_tail: "fits n x \<Longrightarrow> nl \<notin> set s \<Longrightarrow> n + length s \<le> k \<Longrightarrow> fits k (x @ s)"
proof -
  assume f: "fits n x" and s: "nl \<notin> set s" and k: "n + length s \<le> k"
  have a: "length l < n" if "l \<in> set (Split x nl)" for l using f that by (simp add: fits_def list_all_iff)
  have "length (last (Split x nl)) < n" by (rule a) simp
  then have "length (last (Split x nl) @ s) < k" using k by simp
  moreover have "length l < k" if "l \<in> set (butlast (Split x nl))" for l using a [OF in_set_butlastD [OF that]] k by simp
  ultimately show ?thesis unfolding fits_def Split_tail [OF s] by (simp add: list_all_iff)
qed

lemma scan_lines_append: "fits 65536 l \<Longrightarrow> scan_lines (l @ nl # r) = map drop_cr (Split l nl) @ scan_lines r"
proof (induction l rule: length_induct)
  case (1 l)
  show ?case
  proof (cases "nl \<in> set l")
    case True
    then obtain a b where l: "l = a @ nl # b" "nl \<notin> set a" by (meson split_list_first)
    then have "length a < 65536" "fits 65536 b" "length b < length l" using "1.prems" by (simp_all add: fits_def Split_append Split_plain)
    with 1 l show ?thesis by (simp add: scan_lines_cons Split_append Split_plain)
  next
    case False
    then show ?thesis using "1.prems" by (simp add: scan_lines_cons Split_plain fits_def)
  qed
qed

lemma scan_unlines: "list_all (fits 65536) ls \<Longrightarrow> scan_lines (unlines ls) = concat (map (\<lambda>l. map drop_cr (Split l nl)) ls)"
  by (induction ls) (simp_all add: scan_lines_Nil scan_lines_append)

lemma unlines_fits: "list_all (fits 65536) ls \<Longrightarrow> \<not> scan_fails (unlines ls)"
  by (induction ls) (auto simp: scan_fails_def fits_def Split_append list_ex_iff list_all_iff)

definition plain :: "string \<Rightarrow> bool" where
  "plain s \<longleftrightarrow> nl \<notin> set s \<and> CHR 0x0D \<notin> set s \<and> length s < 10000"

lemma plain_scan: "plain s \<Longrightarrow> map drop_cr (Split s nl) = [s]"
proof -
  assume s: "plain s"
  then have "drop_cr s = s" unfolding drop_cr_def plain_def by (metis last_in_set)
  with s show ?thesis by (simp add: plain_def Split_plain)
qed

lemma plain_fits: "nl \<notin> set s \<Longrightarrow> length s < 65536 \<Longrightarrow> fits 65536 s"
  by (simp add: fits_def Split_plain)

section \<open>The profile of a client\<close>

text \<open>The lines of a profile, in which the certificate and the key may be several.\<close>

definition profile_out :: "OpenVPN_data \<Rightarrow> OpenVPNProfile \<Rightarrow> string list" where
  "profile_out cfg d = [''# Generate by OpenLAN'', ''client'', ''dev '' @ vf_Device d, ''route-metric 300'', ''proto '' @ vf_Protocol d,
     ''remote '' @ vf_Server d @ '' '' @ vf_Port d, ''reneg-sec '' @ show_int (vf_Renego d), ''resolv-retry infinite'', ''nobind'', ''persist-key'',
     ''persist-tun'', ''<ca>'', vf_Ca d @ ''</ca>'', ''remote-cert-tls server'', ''<tls-auth>'', vf_TlsAuth d @ ''</tls-auth>'', ''key-direction 1'',
     ''cipher '' @ vf_Cipher d, ''auth-nocache'', ''verb 4''] @ (if ov_Auth cfg = ''cert'' then [] else [''auth-user-pass''])"

lemma Execute_profile:
  "Execute (if ov_Auth cfg = ''cert'' then certClientProfile else xAuthClientProfile) (profile_fields d) = unlines (profile_out cfg d)"
  by (simp add: Execute_def certClientProfile_def xAuthClientProfile_def profile_fields_def profile_out_def)

text \<open>A configuration whose values fit on a line, and certificates whose lines the scanner takes.\<close>

definition profile_ok :: "OpenVPNProfile \<Rightarrow> bool" where
  "profile_ok d \<longleftrightarrow> list_all plain [vf_Server d, vf_Port d, vf_Cipher d, vf_Device d, vf_Protocol d, show_int (vf_Renego d)] \<and>
     fits 60000 (vf_Ca d) \<and> fits 60000 (vf_TlsAuth d)"

lemma profile_fits: "profile_ok d \<Longrightarrow> list_all (fits 65536) (profile_out cfg d)"
proof -
  assume ok: "profile_ok d"
  have "fits 65536 (vf_Ca d @ ''</ca>'')" "fits 65536 (vf_TlsAuth d @ ''</tls-auth>'')"
    using ok by (auto simp: profile_ok_def intro: fits_tail [of 60000])
  then show ?thesis using ok by (auto simp: profile_out_def profile_ok_def plain_def intro!: plain_fits)
qed

lemma remote_replaced: "replace_first (''remote 0.0.0.0 '' @ port) ''0.0.0.0'' host = ''remote '' @ host @ '' '' @ port"
  by simp

lemma in_concat_single: "x \<in> set xs \<Longrightarrow> f x = [x] \<Longrightarrow> x \<in> set (concat (map f xs))"
  by force

lemma profile_remote:
  assumes "profile_ok d" and "vf_Server d = ''0.0.0.0''"
  shows "''remote '' @ host @ '' '' @ vf_Port d \<in> remote_line host ` set (scan_lines (unlines (profile_out cfg d)))"
proof -
  let ?l = "''remote 0.0.0.0 '' @ vf_Port d"
  have "plain (vf_Port d)" using assms(1) by (simp add: profile_ok_def)
  then have "map drop_cr (Split ?l nl) = [?l]"
    by (subst Split_plain) (auto simp: plain_def drop_cr_def dest: last_in_set)
  moreover have "?l \<in> set (profile_out cfg d)" using assms(2) by (simp add: profile_out_def)
  ultimately have "?l \<in> set (scan_lines (unlines (profile_out cfg d)))"
    unfolding scan_unlines [OF profile_fits [OF assms(1)]] by (intro in_concat_single)
  moreover have "remote_line host ?l = ''remote '' @ host @ '' '' @ vf_Port d" by (simp add: remote_line_def HasPrefix_def)
  ultimately show ?thesis by (metis imageI)
qed

text \<open>What \<open>Initialize\<close> writes to the file of the profile, when files can be written.\<close>

lemma WriteFile_ok: "ve_open env = (\<lambda>_. None) \<Longrightarrow> WriteFile env path text w = (w\<lparr>vw_files := (vw_files w)(path \<mapsto> text)\<rparr>, None)"
  by (simp add: WriteFile_def)

definition conf_written :: "vpnenv \<Rightarrow> OpenVPN_data \<Rightarrow> vpn \<Rightarrow> vpnworld \<Rightarrow> vpnworld" where
  "conf_written env cfg o' w =
     fst (OpenVPN_WriteConf env cfg (OpenVPN_FileCfg o' True) o' (vcall (Mkdir (OpenVPN_Directory o')) (OpenVPN_Clean cfg o' w)))"

lemma Initialize_client:
  assumes "vp_Cfg o' = Some cfg" and "OpenVPN_ValidConf o'" and op: "ve_open env = (\<lambda>_. None)"
    and d: "NewOpenVpnProfileFromConf cfg o' (conf_written env cfg o' w) = Inr d"
  obtains w' where "OpenVPN_Initialize env o' w = Inr w'" and "vw_files w' (OpenVPN_FileClient o' True) = Some (unlines (profile_out cfg d))"
proof -
  let ?w = "vcall (Mkdir (OpenVPN_Directory o')) (OpenVPN_Clean cfg o' w)" and ?i = "conf_written env cfg o' w"
  have "snd (OpenVPN_WriteConf env cfg (OpenVPN_FileCfg o' True) o' ?w) = None"
    using op by (simp add: OpenVPN_WriteConf_def WriteFile_ok Let_def split_beta)
  then have "OpenVPN_WriteConf env cfg (OpenVPN_FileCfg o' True) o' ?w = (?i, None)"
    by (simp add: conf_written_def prod_eq_iff)
  with assms that show thesis
    by (simp add: OpenVPN_Initialize_def OpenVPN_Profile_def OpenVPN_ProfileTmpl_def WriteFile_ok Let_def Execute_profile)
qed

text \<open>The default directory of a network is where the cache looks for its profiles.\<close>

lemma profile_path:
  assumes "vp_Cfg o' = Some cfg" and "ov_Directory cfg = VarDir [''openvpn'', net]"
  shows "vpnClient_Dir [net, OpenVPN_ID o' @ ''client.ovpn''] = OpenVPN_FileClient o' True"
  using assms by (simp add: vpnClient_Dir_def vpn_file_defs path_Join_def VarDir_def)

lemma in_Split_unlines: "x \<in> set ls \<Longrightarrow> nl \<notin> set x \<Longrightarrow> x \<in> set (Split (unlines ls) nl)"
  by (induction ls) (auto simp: Split_append Split_plain)

text \<open>The certificate and the key a profile includes have no overlong lines.\<close>

definition keys_fit :: "OpenVPN_data \<Rightarrow> vpnworld \<Rightarrow> bool" where
  "keys_fit cfg w \<longleftrightarrow> list_all (\<lambda>p. case vw_files w p of None \<Rightarrow> True | Some t \<Rightarrow> fits 60000 t) [ov_RootCa cfg, ov_TlsAuth cfg]"

definition vpn_plain :: "OpenVPN_data \<Rightarrow> bool" where
  "vpn_plain cfg \<longleftrightarrow> list_all plain [ov_Listen cfg, ov_Cipher cfg, ov_Device cfg, ov_Protocol cfg, show_int (ov_Renego cfg)] \<and> 3 \<le> length (ov_Device cfg)"

lemma split_at_set: "split_at c s = (a, r) \<Longrightarrow> set a \<subseteq> set s \<and> length a \<le> length s \<and> (\<forall>x. r = Some x \<longrightarrow> set x \<subseteq> set s \<and> length x \<le> length s)"
  by (induction s arbitrary: a r) (force split: if_splits prod.splits)+

lemma Listen_parts:
  assumes "plain (ov_Listen cfg)"
  shows "plain (vp_Local (NewOpenVPN cfg)) \<and> plain (vp_Port (NewOpenVPN cfg))"
proof -
  have c: "Contains s [x] \<longleftrightarrow> x \<in> set s" for s x by (induction s) auto
  obtain a r where s: "split_at (CHR '':'') (ov_Listen cfg) = (a, r)" by fastforce
  have "plain ''4494''" by (simp add: plain_def)
  moreover have "r = None \<Longrightarrow> CHR '':'' \<notin> set (ov_Listen cfg)" using s by (metis in_set_conv_decomp_first option.distinct(1) prod.inject split_at_present)
  ultimately show ?thesis using split_at_set [OF s] assms s
    by (auto simp: NewOpenVPN_def Let_def plain_def numeral_2_eq_2 c split: option.splits)
qed

lemma profile_from_conf:
  assumes "vpn_plain cfg" and "keys_fit cfg w"
  obtains d where "NewOpenVpnProfileFromConf cfg (NewOpenVPN cfg) w = Inr d" and "profile_ok d"
    and "vf_Server d = vp_Local (NewOpenVPN cfg)" and "vf_Port d = vp_Port (NewOpenVPN cfg)"
proof -
  have "reslice 0 3 (ov_Device cfg) = Inr (take 3 (ov_Device cfg))" using assms(1) by (simp add: vpn_plain_def reslice_def slice_def)
  moreover have "plain (take 3 (ov_Device cfg))" using assms(1) by (auto simp: vpn_plain_def plain_def dest: in_set_takeD)
  moreover have "fits 60000 []" by (simp add: fits_def)
  ultimately show thesis using that assms Listen_parts [of cfg]
    by (auto simp: NewOpenVpnProfileFromConf_def profile_ok_def vpn_plain_def keys_fit_def split: option.splits)
qed

section \<open>Properties\<close>


section \<open>The status of a server\<close>

text \<open>The status file of an OpenVPN server that has the clients \<open>es\<close>, each with the time of its connection and of its last reference.\<close>

record entry =
  en_client :: VPNClient
  en_since :: string
  en_ref :: string

definition client_line :: "entry \<Rightarrow> string" where
  "client_line e = (let c = en_client e in vc_Name c @ '','' @ vc_Remote c @ '','' @ show_int (vc_RxBytes c) @ '','' @ show_int (vc_TxBytes c) @ '','' @ en_since e)"

definition route_line :: "entry \<Rightarrow> string" where
  "route_line e = (let c = en_client e in vc_Address c @ '','' @ vc_Name c @ '','' @ vc_Remote c @ '','' @ en_ref e)"

definition status_lines :: "string \<Rightarrow> entry list \<Rightarrow> string list" where
  "status_lines updated es = [''OpenVPN CLIENT LIST'', ''Updated,'' @ updated, ''Common Name,Real Address,Bytes Received,Bytes Sent,Connected Since''] @
     map client_line es @ [''ROUTING TABLE'', ''Virtual Address,Common Name,Real Address,Last Ref''] @ map route_line es @
     [''GLOBAL STATS'', ''Max bcast/mcast queue length,0'', ''END'']"

definition entry_ok :: "(string \<Rightarrow> int option) \<Rightarrow> int \<Rightarrow> string \<Rightarrow> entry \<Rightarrow> bool" where
  "entry_ok time now device e \<longleftrightarrow> (let c = en_client e in
     list_all (\<lambda>s. plain s \<and> CHR '','' \<notin> set s) [vc_Name c, vc_Remote c, vc_Address c, en_ref e] \<and> plain (en_since e) \<and>
     - (2 ^ 63) \<le> vc_RxBytes c \<and> vc_RxBytes c < 2 ^ 63 \<and> - (2 ^ 63) \<le> vc_TxBytes c \<and> vc_TxBytes c < 2 ^ 63 \<and>
     time (en_since e) = Some (vc_Uptime c) \<and> vc_AliveTime c = now - vc_Uptime c \<and> vc_State c = ''success'' \<and> vc_Device c = device)"

lemma digits_less: "n < 10 \<Longrightarrow> digits n = [char_of (48 + n)]"
  by (subst digits.simps) simp

lemma digits_more: "\<not> n < 10 \<Longrightarrow> digits n = digits (n div 10) @ [char_of (48 + n mod 10)]"
  by (subst digits.simps) simp

lemma digits_cases [case_names less more]:
  assumes "\<And>n. n < 10 \<Longrightarrow> P n" and "\<And>n. \<not> n < 10 \<Longrightarrow> P (n div 10) \<Longrightarrow> P n"
  shows "P (n :: nat)"
proof (induction n rule: less_induct)
  case (less n)
  then show ?case using assms by (cases "n < 10") simp_all
qed

lemma digits_chars: "\<forall>c \<in> set (digits n). 48 \<le> (of_char c :: nat) \<and> (of_char c :: nat) < 58"
  by (induction n rule: digits_cases) (simp_all add: digits_less digits_more del: digits.simps)

lemma length_digits: "n < 10 ^ Suc k \<Longrightarrow> length (digits n) \<le> Suc k"
proof (induction n arbitrary: k rule: digits_cases)
  case (more n)
  then obtain j where k: "k = Suc j" by (cases k) auto
  then have "n div 10 < 10 ^ Suc j" using more.prems by (simp add: less_mult_imp_div_less mult.commute)
  with more.IH [OF this] more.hyps k show ?case by (simp add: digits_more del: digits.simps)
qed (simp add: digits_less del: digits.simps)

lemma atoi_append: "atoi_loop a (s @ t) = (case atoi_loop a s of None \<Rightarrow> None | Some b \<Rightarrow> atoi_loop b t)"
  by (induction s arbitrary: a) (auto split: option.split)

lemma atoi_digits: "atoi_loop a (digits n) = Some (a * 10 ^ length (digits n) + int n)"
proof (induction n arbitrary: a rule: digits_cases)
  case (more n)
  have "int n = 10 * int (n div 10) + int (n mod 10)" by (simp add: zmod_int zdiv_int)
  with more show ?case by (simp add: digits_more atoi_append algebra_simps del: digits.simps)
qed (simp add: digits_less del: digits.simps)

definition field_ok :: "string \<Rightarrow> bool" where
  "field_ok s \<longleftrightarrow> plain s \<and> CHR '','' \<notin> set s"

lemma show_int_text:
  assumes "- (2 ^ 63) \<le> i" and "i < 2 ^ 63"
  shows "field_ok (show_int i)" and "ParseInt64 (show_int i) = Some i"
proof -
  define n where "n = nat \<bar>i\<bar>"
  have "n < 10 ^ Suc 18" using assms unfolding n_def by (simp add: nat_less_iff)
  from length_digits [OF this] have len: "length (digits n) < 100" by simp
  have ch: "nl \<notin> set (digits n)" "CHR 0x0D \<notin> set (digits n)" "CHR '','' \<notin> set (digits n)" "CHR ''-'' \<notin> set (digits n)" "CHR ''+'' \<notin> set (digits n)"
    using digits_chars [of n] by (force simp del: digits.simps)+
  have sh: "show_int i = (if i < 0 then ''-'' else []) @ digits n" by (simp add: show_int_def n_def del: digits.simps)
  show "field_ok (show_int i)" using ch len unfolding sh field_ok_def plain_def by (simp del: digits.simps)
  have ne: "digits n \<noteq> []" by (cases "n < 10") (simp_all add: digits_less digits_more del: digits.simps)
  have hd: "hd (digits n) \<noteq> CHR ''-''" "hd (digits n) \<noteq> CHR ''+''" using ch hd_in_set [OF ne] by metis+
  have at: "atoi_loop 0 (digits n) = Some (int n)" using atoi_digits [of 0 n] by simp
  show "ParseInt64 (show_int i) = Some i"
  proof (cases "i < 0")
    case True
    then have "show_int i = CHR ''-'' # digits n" "- int n = i" unfolding sh by (simp_all add: n_def)
    then show ?thesis using assms ne at by (simp add: ParseInt64_def)
  next
    case False
    then have "show_int i = digits n" "int n = i" unfolding sh by (simp_all add: n_def)
    then show ?thesis using assms ne hd at by (simp add: ParseInt64_def)
  qed
qed

lemma client_columns:
  assumes "entry_ok time now device e"
  defines "c \<equiv> en_client e"
  shows "SplitN (client_line e) (CHR '','') 5 = [vc_Name c, vc_Remote c, show_int (vc_RxBytes c), show_int (vc_TxBytes c), en_since e]"
    and "SplitN (route_line e) (CHR '','') 5 = [vc_Address c, vc_Name c, vc_Remote c, en_ref e]"
proof -
  have f: "CHR '','' \<notin> set (vc_Name c)" "CHR '','' \<notin> set (vc_Remote c)" "CHR '','' \<notin> set (vc_Address c)" "CHR '','' \<notin> set (en_ref e)"
    using assms by (auto simp: entry_ok_def Let_def)
  have n: "CHR '','' \<notin> set (show_int (vc_RxBytes c))" "CHR '','' \<notin> set (show_int (vc_TxBytes c))"
    using assms show_int_text(1) by (auto simp: entry_ok_def Let_def field_ok_def)
  have five: "(5 :: nat) = Suc (Suc (Suc (Suc (Suc 0))))" by simp
  show "SplitN (client_line e) (CHR '','') 5 = [vc_Name c, vc_Remote c, show_int (vc_RxBytes c), show_int (vc_TxBytes c), en_since e]"
    using f n unfolding five client_line_def Let_def c_def [symmetric] by (simp add: split_at_present)
  show "SplitN (route_line e) (CHR '','') 5 = [vc_Address c, vc_Name c, vc_Remote c, en_ref e]"
    using f unfolding five route_line_def Let_def c_def [symmetric]
    by (simp add: split_at_present split_at_absent)
qed

text \<open>A client as the first section of the file gives it.\<close>

definition bare :: "entry \<Rightarrow> VPNClient" where
  "bare e = (en_client e)\<lparr>vc_Address := []\<rparr>"

lemma scan_client_bare:
  assumes "entry_ok time now device e"
  shows "scan_client time now device (SplitN (client_line e) (CHR '','') 5) = bare e"
  using assms show_int_text(2) unfolding client_columns(1) [OF assms]
  by (simp add: scan_client_def bare_def entry_ok_def Let_def)

abbreviation sections :: "string list" where
  "sections \<equiv> [''OpenVPN CLIENT LIST'', ''ROUTING TABLE'', ''GLOBAL STATS'']"

lemma entry_lines: "client_line e \<notin> set sections" "route_line e \<notin> set sections"
proof -
  have "CHR '','' \<in> set (client_line e)" "CHR '','' \<in> set (route_line e)" by (simp_all add: client_line_def route_line_def Let_def)
  moreover have "\<forall>s \<in> set sections. CHR '','' \<notin> set s" by simp
  ultimately show "client_line e \<notin> set sections" "route_line e \<notin> set sections" by blast+
qed

lemma scan_line_in:
  assumes "line \<notin> set sections" and "sn_offset s = 0"
  shows "sn_readAt s = Common \<Longrightarrow> length (SplitN line (CHR '','') 5) = 5 \<Longrightarrow> scan_line time now device line s =
      s\<lparr>sn_clients := AList.update (SplitN line (CHR '','') 5 ! 1) (scan_client time now device (SplitN line (CHR '','') 5)) (sn_clients s)\<rparr>"
    and "sn_readAt s = Routing \<Longrightarrow> length (SplitN line (CHR '','') 5) = 4 \<Longrightarrow> map_of (sn_clients s) (SplitN line (CHR '','') 5 ! 2) = Some c \<Longrightarrow>
      scan_line time now device line s =
        s\<lparr>sn_clients := AList.update (SplitN line (CHR '','') 5 ! 2) (c\<lparr>vc_Address := SplitN line (CHR '','') 5 ! 0\<rparr>) (sn_clients s)\<rparr>"
  using assms by (auto simp: scan_line_def Let_def)

abbreviation keyed :: "(entry \<Rightarrow> VPNClient) \<Rightarrow> entry list \<Rightarrow> (string \<times> VPNClient) list" where
  "keyed f es \<equiv> map (\<lambda>e. (vc_Remote (en_client e), f e)) es"

lemma update_fresh: "k \<notin> fst ` set al \<Longrightarrow> AList.update k v al = al @ [(k, v)]"
  by (induction al) auto

lemma scan_common:
  assumes "list_all (entry_ok time now device) es" and "distinct (map (\<lambda>e. vc_Remote (en_client e)) es)" and "fst ` set cl \<inter> (\<lambda>e. vc_Remote (en_client e)) ` set es = {}"
  shows "fold (scan_line time now device) (map client_line es) \<lparr>sn_readAt = Common, sn_offset = 0, sn_clients = cl\<rparr> =
    \<lparr>sn_readAt = Common, sn_offset = 0, sn_clients = cl @ keyed bare es\<rparr>"
  using assms
proof (induction es arbitrary: cl)
  case (Cons e es)
  let ?s = "\<lparr>sn_readAt = Common, sn_offset = 0, sn_clients = cl\<rparr>"
  have e: "entry_ok time now device e" using Cons.prems(1) by simp
  have "scan_line time now device (client_line e) ?s = ?s\<lparr>sn_clients := AList.update (vc_Remote (en_client e)) (bare e) cl\<rparr>"
    using scan_line_in(1) [OF entry_lines(1), of ?s e time now device] client_columns(1) [OF e] scan_client_bare [OF e] by simp
  moreover have "AList.update (vc_Remote (en_client e)) (bare e) cl = cl @ [(vc_Remote (en_client e), bare e)]"
    using Cons.prems(3) by (intro update_fresh) auto
  ultimately show ?case using Cons.IH [of "cl @ [(vc_Remote (en_client e), bare e)]"] Cons.prems by auto
qed simp

lemma update_middle: "k \<notin> fst ` set xs \<Longrightarrow> AList.update k v (xs @ (k, u) # ys) = xs @ (k, v) # ys"
  by (induction xs) auto

lemma scan_routing:
  assumes "list_all (entry_ok time now device) es" and "distinct (map (\<lambda>e. vc_Remote (en_client e)) es)" and "fst ` set cl \<inter> (\<lambda>e. vc_Remote (en_client e)) ` set es = {}"
  shows "fold (scan_line time now device) (map route_line es) \<lparr>sn_readAt = Routing, sn_offset = 0, sn_clients = cl @ keyed bare es\<rparr> =
    \<lparr>sn_readAt = Routing, sn_offset = 0, sn_clients = cl @ keyed en_client es\<rparr>"
  using assms
proof (induction es arbitrary: cl)
  case (Cons e es)
  let ?k = "vc_Remote (en_client e)" and ?cl = "cl @ keyed bare (e # es)"
  let ?s = "\<lparr>sn_readAt = Routing, sn_offset = 0, sn_clients = ?cl\<rparr>"
  have e: "entry_ok time now device e" and k: "?k \<notin> fst ` set cl" using Cons.prems by auto
  then have "map_of cl ?k = None" by (simp add: map_of_eq_None_iff)
  then have m: "map_of (sn_clients ?s) ?k = Some (bare e)" by (simp add: map_add_def)
  have "scan_line time now device (route_line e) ?s = ?s\<lparr>sn_clients := AList.update ?k ((bare e)\<lparr>vc_Address := vc_Address (en_client e)\<rparr>) ?cl\<rparr>"
    using scan_line_in(2) [OF entry_lines(2), of ?s e "bare e" time now device] client_columns(2) [OF e] m by simp
  moreover have "AList.update ?k ((bare e)\<lparr>vc_Address := vc_Address (en_client e)\<rparr>) ?cl = (cl @ [(?k, en_client e)]) @ keyed bare es"
    using update_middle [OF k] by (simp add: bare_def)
  ultimately show ?case using Cons.IH [of "cl @ [(?k, en_client e)]"] Cons.prems by auto
qed simp

lemma scan_heads:
  "fold (scan_line time now device) [''OpenVPN CLIENT LIST'', ''Updated,'' @ u, ''Common Name,Real Address,Bytes Received,Bytes Sent,Connected Since'']
     \<lparr>sn_readAt = Header, sn_offset = 0, sn_clients = cl\<rparr> = \<lparr>sn_readAt = Common, sn_offset = 0, sn_clients = cl\<rparr>"
  "fold (scan_line time now device) [''ROUTING TABLE'', ''Virtual Address,Common Name,Real Address,Last Ref''] \<lparr>sn_readAt = Common, sn_offset = 0, sn_clients = cl\<rparr> =
     \<lparr>sn_readAt = Routing, sn_offset = 0, sn_clients = cl\<rparr>"
  "sn_clients (fold (scan_line time now device) [''GLOBAL STATS'', ''Max bcast/mcast queue length,0'', ''END''] \<lparr>sn_readAt = Routing, sn_offset = 0, sn_clients = cl\<rparr>) = cl"
  by (simp_all add: scan_line_def Let_def)

lemma status_fits:
  assumes "list_all (entry_ok time now device) es" and "plain u"
  shows "scan_lines (unlines (status_lines u es)) = status_lines u es"
proof -
  have cr: "drop_cr s = s" if "CHR 0x0D \<notin> set s" for s using that unfolding drop_cr_def by (metis last_in_set)
  have line: "fits 65536 l \<and> map drop_cr (Split l nl) = [l]" if "nl \<notin> set l" "CHR 0x0D \<notin> set l" "length l < 65536" for l
    using that cr by (simp add: fits_def Split_plain)
  have ent: "(nl \<notin> set (client_line e) \<and> CHR 0x0D \<notin> set (client_line e) \<and> length (client_line e) < 65536) \<and>
      nl \<notin> set (route_line e) \<and> CHR 0x0D \<notin> set (route_line e) \<and> length (route_line e) < 65536" if "e \<in> set es" for e
  proof -
    have ok: "entry_ok time now device e" using assms(1) that by (simp add: list_all_iff)
    then have "plain (show_int (vc_RxBytes (en_client e)))" "plain (show_int (vc_TxBytes (en_client e)))"
      using show_int_text(1) by (auto simp: entry_ok_def Let_def field_ok_def)
    with ok show ?thesis by (simp add: entry_ok_def client_line_def route_line_def Let_def plain_def)
  qed
  have "nl \<notin> set l \<and> CHR 0x0D \<notin> set l \<and> length l < 65536" if "l \<in> set (status_lines u es)" for l
    using that ent assms(2) by (auto simp: status_lines_def plain_def)
  then have all: "\<forall>l \<in> set (status_lines u es). fits 65536 l \<and> map drop_cr (Split l nl) = [l]" using line by blast
  then have "scan_lines (unlines (status_lines u es)) = concat (map (\<lambda>l. map drop_cr (Split l nl)) (status_lines u es))"
    by (intro scan_unlines) (simp add: list_all_iff)
  also have "\<dots> = concat (map (\<lambda>l. [l]) (status_lines u es))" using all by (intro arg_cong [of _ _ concat] map_cong) auto
  finally show ?thesis by simp
qed

text \<open>C17. Reading the status of a server is the inverse of writing it: from the status file of a server with any list of clients at
  different addresses, the scanner gets exactly these clients, with their names, addresses, counters and times.\<close>

theorem vpn_status_roundtrip:
  assumes "list_all (entry_ok time now device) es" and "distinct (map (\<lambda>e. vc_Remote (en_client e)) es)" and "plain updated"
  shows "vpnClient_scanStatus time now device (unlines (status_lines updated es)) [] = map (\<lambda>e. (vc_Remote (en_client e), en_client e)) es"
proof -
  have c: "fold (scan_line time now device) (map client_line es) \<lparr>sn_readAt = Common, sn_offset = 0, sn_clients = []\<rparr> =
      \<lparr>sn_readAt = Common, sn_offset = 0, sn_clients = keyed bare es\<rparr>" using scan_common [OF assms(1,2), of "[]"] by simp
  have r: "fold (scan_line time now device) (map route_line es) \<lparr>sn_readAt = Routing, sn_offset = 0, sn_clients = keyed bare es\<rparr> =
      \<lparr>sn_readAt = Routing, sn_offset = 0, sn_clients = keyed en_client es\<rparr>" using scan_routing [OF assms(1,2), of "[]"] by simp
  show ?thesis unfolding vpnClient_scanStatus_def status_fits [OF assms(1,3)] unfolding status_lines_def fold_append comp_def scan_heads(1) c scan_heads(2) r scan_heads(3) ..
qed

section \<open>Witnesses\<close>

text \<open>A server without certificates.\<close>

definition ovpn_demo :: OpenVPN_data where
  "ovpn_demo = DefaultOpenVPN\<lparr>ov_Listen := ''0.0.0.0:1194'', ov_Subnet := ''10.1.0.0/24'', ov_Directory := VarDir [''openvpn'', ''dev''],
     ov_RootCa := [], ov_TlsAuth := []\<rparr>"

definition vpnenv_demo :: vpnenv where
  "vpnenv_demo = \<lparr>ve_open = (\<lambda>_. None), ve_p6 = (\<lambda>_. None), ve_s6 = (\<lambda>_. [])\<rparr>"

lemma vpn_demo_facts: "OpenVPN_ValidConf (NewOpenVPN ovpn_demo)" "ov_Directory ovpn_demo = VarDir [''openvpn'', ''dev'']" "vpn_plain ovpn_demo"
  "vp_Local (NewOpenVPN ovpn_demo) = ''0.0.0.0''" "vp_Port (NewOpenVPN ovpn_demo) = ''1194''" "ve_open vpnenv_demo = (\<lambda>_. None)" "ov_Clients ovpn_demo = []"
  using show_int_text(1) [of 0]
  by (simp_all add: ovpn_demo_def NewOpenVPN_def DefaultOpenVPN_def OpenVPN_ValidConf_def vpn_plain_def plain_def field_ok_def vpnenv_demo_def Let_def numeral_2_eq_2)

lemma path_Join_nonempty: "list_ex (\<lambda>e. e \<noteq> []) es \<Longrightarrow> path_Join es \<noteq> []"
  by (auto simp: path_Join_def Clean_def Let_def list_ex_iff dropWhile_eq_Nil_conv)

lemma vpn_demo_paths:
  "list_all (\<lambda>p. p \<noteq> OpenVPN_FileCfg (NewOpenVPN ovpn_demo) True \<and> p \<noteq> path_Join [ov_Directory ovpn_demo, OpenVPN_ID (NewOpenVPN ovpn_demo) @ ''server.tmpl''])
     [ov_RootCa ovpn_demo, ov_TlsAuth ovpn_demo]"
proof -
  have "ov_RootCa ovpn_demo = []" "ov_TlsAuth ovpn_demo = []" by (simp_all add: ovpn_demo_def)
  moreover have "OpenVPN_FileCfg (NewOpenVPN ovpn_demo) True = path_Join [ov_Directory ovpn_demo, OpenVPN_ID (NewOpenVPN ovpn_demo) @ ''server.conf'']"
    by (simp add: vpn_file_defs NewOpenVPN_def Let_def)
  moreover have "[] \<noteq> path_Join [ov_Directory ovpn_demo, x @ ''server.conf'']" "[] \<noteq> path_Join [ov_Directory ovpn_demo, x @ ''server.tmpl'']" for x
    using path_Join_nonempty [THEN not_sym] by simp_all
  ultimately show ?thesis by simp
qed

lemma vpn_demo_keys: "keys_fit ovpn_demo (conf_written vpnenv_demo ovpn_demo (NewOpenVPN ovpn_demo) \<lparr>vw_files = Map.empty, vw_calls = []\<rparr>)"
proof -
  have "vw_files (conf_written vpnenv_demo ovpn_demo (NewOpenVPN ovpn_demo) \<lparr>vw_files = Map.empty, vw_calls = []\<rparr>) p = None"
    if "p \<noteq> OpenVPN_FileCfg (NewOpenVPN ovpn_demo) True" "p \<noteq> path_Join [ov_Directory ovpn_demo, OpenVPN_ID (NewOpenVPN ovpn_demo) @ ''server.tmpl'']" for p
    using that by (simp add: conf_written_def OpenVPN_WriteConf_def OpenVPN_ServerTmpl_def OpenVPN_writeClientConfig_def OpenVPN_Clean_def remove_file_def
        WriteFile_ok vpn_demo_facts Let_def)
  with vpn_demo_paths show ?thesis by (simp add: keys_fit_def)
qed


definition entry_demo :: entry where
  "entry_demo = \<lparr>en_client = \<lparr>vc_Uptime = 5, vc_Name = ''eva@dev'', vc_Remote = ''1.2.3.4:99'', vc_Device = ''tun1'', vc_RxBytes = 10, vc_TxBytes = 20,
     vc_State = ''success'', vc_AliveTime = 2, vc_Address = ''10.1.0.6''\<rparr>, en_since = ''t'', en_ref = ''r''\<rparr>"

theorem vpn_status_roundtrip_witness:
  "vpnClient_scanStatus (\<lambda>_. Some 5) 7 ''tun1'' (unlines (status_lines ''u'' [entry_demo])) [] = [(''1.2.3.4:99'', en_client entry_demo)]"
  using vpn_status_roundtrip [of "\<lambda>_. Some 5" 7 "''tun1''" "[entry_demo]" "''u''"] by (simp add: entry_demo_def entry_ok_def plain_def)

end
