(* ===== verification/OpenLan.thy ===== *)
theory OpenLan
  imports Config Isolation
begin

text \<open>The worker of a network of the default provider (\<open>src/pkg/olsw/openlan.go\<close>): what its \<open>Initialize\<close> puts into the caches (\<open>Initialize_caches\<close>), and
  that a configured user can log in at the switch afterwards. The bridge and the VPN it makes are not part of this theory.\<close>

section \<open>Initialising a worker\<close>

definition PeerName :: "string \<Rightarrow> string \<Rightarrow> string \<times> string" where
  "PeerName name prefix = (name @ prefix @ ''i'', name @ prefix @ ''o'')"

definition worker_user :: "int \<Rightarrow> string \<Rightarrow> Password \<Rightarrow> User" where
  "worker_user now name pass = User_Update now (zero_user\<lparr>us_Name := pw_Username pass, us_Password := pw_Password pass,
     us_Network := name, us_Role := ''admin''\<rparr>)"

definition worker_route :: "PrefixRoute \<Rightarrow> Route" where
  "worker_route rt =
     (let rte = NewRoute (pr_Prefix rt) (pr_NextHop rt) (pr_Mode rt)
      in if pr_Metric rt > 0 then rte\<lparr>rt_Metric := pr_Metric rt\<rparr> else rte)"

definition worker_network :: "co_Network \<Rightarrow> co_Bridge \<Rightarrow> IpSubnet \<Rightarrow> Network" where
  "worker_network cfg br sub = \<lparr>nt_Name = cn_Name cfg, nt_Tenant = [], nt_IfAddr = br_Address br, nt_IpStart = is_Start sub,
     nt_IpEnd = is_End sub, nt_Netmask = is_Netmask sub, nt_Routes = map worker_route (filter (\<lambda>rt. pr_NextHop rt \<noteq> []) (cn_Routes cfg))\<rparr>"

text \<open>A static lease of the configuration; the object \<open>AddLease\<close> returns is changed although the maps may hold another one.\<close>

definition worker_host :: "string \<Rightarrow> HostLease \<Rightarrow> network \<Rightarrow> network" where
  "worker_host name ht w =
     (case network_AddLease (hl_Hostname ht) (hl_Address ht) w of
        (w, None) \<Rightarrow> w
      | (w, Some i) \<Rightarrow> w\<lparr>nw_heap := (nw_heap w)(i := map_option (\<lambda>l. l\<lparr>ls_Type := ''static'', ls_Network := name\<rparr>) (nw_heap w i))\<rparr>)"

definition Initialize_caches :: "int \<Rightarrow> co_Network \<Rightarrow> 'l user \<Rightarrow> network \<Rightarrow> ('l user \<times> network) result" where
  "Initialize_caches now cfg users nets =
     (let users = fold (\<lambda>pass. add_new (worker_user now (cn_Name cfg) pass)) (cn_Password cfg) users
      in case (cn_Bridge cfg, cn_Subnet cfg) of
           (Some br, Some sub) \<Rightarrow>
             (let nets = network_Add (worker_network cfg br sub) nets;
                  nets = fold (worker_host (cn_Name cfg)) (cn_Hosts cfg) nets
              in Inr (users, nets))
         | _ \<Rightarrow> Inl nil_deref)"

section \<open>Configured users log in\<close>

lemma worker_user_fields:
  assumes "CHR ''@'' \<notin> set (pw_Username p)" and "name \<noteq> []"
  shows "User_Id (worker_user now name p) = pw_Username p @ ''@'' @ name" "us_Role (worker_user now name p) = ''admin''"
    "us_Password (worker_user now name p) = pw_Password p" "us_Lease (worker_user now name p) = zeroTime"
  using assms by (simp_all add: worker_user_def User_Update_def Let_def User_Id_def zero_user_def)

text \<open>The entries of the configuration can all be entered: no name holds an at sign or appears twice or is known already, and there
  is room for them.\<close>

definition passwords_ok :: "co_Network \<Rightarrow> 'l user \<Rightarrow> bool" where
  "passwords_ok cfg w \<longleftrightarrow> cn_Name cfg \<noteq> [] \<and> (\<forall>p \<in> set (cn_Password cfg). CHR ''@'' \<notin> set (pw_Username p) \<and>
       ssm_lookup (ur_Users w) (pw_Username p @ ''@'' @ cn_Name cfg) = None) \<and>
     distinct (map pw_Username (cn_Password cfg)) \<and>
     int (length (ssm_data (ur_Users w)) + length (cn_Password cfg)) \<le> ssm_size (ur_Users w)"

lemma Initialize_users:
  assumes "passwords_ok cfg users" and "Initialize_caches now cfg users nets = Inr (users', nets')" and "p \<in> set (cn_Password cfg)"
  obtains j where "user_Get (pw_Username p @ ''@'' @ cn_Name cfg) users' = Some j" and "ur_heap users' j = worker_user now (cn_Name cfg) p"
proof -
  let ?u = "worker_user now (cn_Name cfg)"
  have id: "User_Id (?u q) = pw_Username q @ ''@'' @ cn_Name cfg" if "q \<in> set (cn_Password cfg)" for q
    using worker_user_fields(1) assms(1) that unfolding passwords_ok_def by blast
  have u': "users' = fold add_new (map ?u (cn_Password cfg)) users"
    using assms(2) by (auto simp: Initialize_caches_def fold_map comp_def Let_def split: option.splits)
  have "distinct (map User_Id (map ?u (cn_Password cfg)))"
    using assms(1) id unfolding passwords_ok_def by (auto simp: distinct_map inj_on_def)
  then have all: "\<forall>u \<in> set (map ?u (cn_Password cfg)). \<exists>j. ssm_lookup (ur_Users users') (User_Id u) = Some (Some j) \<and> ur_heap users' j = u"
    using add_new_all [of "map ?u (cn_Password cfg)" users] assms(1) id unfolding Let_def u' passwords_ok_def by auto
  from bspec [OF all, of "?u p"] assms(3) obtain j where
    "ssm_lookup (ur_Users users') (User_Id (?u p)) = Some (Some j)" "ur_heap users' j = ?u p" by auto
  with that [of j] id [OF assms(3)] show thesis by (simp add: user_Get_def SafeStrMap_Get_def)
qed

text \<open>C24. A user whose name and password stand in the configuration of a network is accepted: after the worker of the network has
  been initialised, a login that decodes to this name, password and network is one that the user cache accepts.\<close>

theorem configured_user_accepted:
  assumes "passwords_ok cfg (st_user s)" and "Initialize_caches now cfg (st_user s) nets = Inr (users, nets')"
    and "p \<in> set (cn_Password cfg)" and "en_User env data = Some user" and "us_Name user = pw_Username p"
    and "us_Password user = pw_Password p" and "us_Network user = cn_Name cfg" and "en_year env zeroTime < 2000"
  shows "login_accepted env data (s\<lparr>st_user := users\<rparr>)"
proof -
  obtain j where j: "user_Get (pw_Username p @ ''@'' @ cn_Name cfg) users = Some j" "ur_heap users j = worker_user now (cn_Name cfg) p"
    using Initialize_users [OF assms(1-3)] .
  have ok: "CHR ''@'' \<notin> set (pw_Username p)" "cn_Name cfg \<noteq> []" using assms(1,3) by (auto simp: passwords_ok_def)
  let ?u = "User_Update (en_now env) user"
  have "User_Id ?u = pw_Username p @ ''@'' @ cn_Name cfg" "us_Password ?u = pw_Password p"
    using ok assms(5-7) by (simp_all add: User_Update_def Let_def User_Id_def)
  then have "snd (user_Check (en_ldap env) (en_year env) (en_now env) ?u users) = Inr j"
    using j worker_user_fields [OF ok, of now] assms(8) by (simp add: user_Check_def Let_def)
  with assms(4) show ?thesis by (auto simp: login_accepted_def)
qed

definition pass_demo :: Password where
  "pass_demo = \<lparr>pw_Network = [], pw_Username = ''eva'', pw_Password = ''p''\<rparr>"

definition worker_demo :: co_Network where
  "worker_demo = conf_demo\<lparr>cn_Password := [pass_demo], cn_Subnet := Some \<lparr>is_Network = [], is_Start = [], is_End = [], is_Netmask = []\<rparr>\<rparr>"

theorem configured_user_accepted_witness:
  "\<exists>users nets'. Initialize_caches 5 worker_demo users_demo cache_Network = Inr (users, nets') \<and>
     login_accepted (env_demo\<lparr>en_User := \<lambda>_. Some (zero_user\<lparr>us_Name := ''eva'', us_Password := ''p'', us_Network := ''dev''\<rparr>)\<rparr>) []
       (state_demo\<lparr>st_user := users\<rparr>)"
proof -
  let ?u = "zero_user\<lparr>us_Name := ''eva'', us_Password := ''p'', us_Network := ''dev''\<rparr>"
  let ?env = "env_demo\<lparr>en_User := \<lambda>_. Some ?u\<rparr>"
  obtain users nets' where i: "Initialize_caches 5 worker_demo users_demo cache_Network = Inr (users, nets')"
    by (simp add: Initialize_caches_def worker_demo_def conf_demo_def Let_def)
  have u: "st_user state_demo = users_demo" by (simp add: state_demo_def)
  have ok: "passwords_ok worker_demo (st_user state_demo)"
    by (simp add: u passwords_ok_def worker_demo_def conf_demo_def pass_demo_def users_demo_def)
  have "login_accepted ?env [] (state_demo\<lparr>st_user := users\<rparr>)"
    by (rule configured_user_accepted [OF ok i [folded u], of pass_demo _ _ ?u])
      (simp_all add: worker_demo_def conf_demo_def pass_demo_def env_demo_def zero_user_def)
  with i show ?thesis by blast
qed

end
