(* ===== verification/Workers.thy ===== *)
theory Workers
  imports Esp OpenVpn OpenLan Fabric
begin

text \<open>The workers of the switch and what they drive: processes for links to other switches (\<open>src/pkg/olsw/link.go\<close>), the whole worker of
  a network of the default provider (\<open>openlan.go\<close>, its caches are in theory \<open>OpenLan\<close>), the worker of a VxLAN network (\<open>vxlan.go\<close>), and the
  dispatch over the four kinds of workers (\<open>network.go\<close>, \<open>switch.go\<close>). What runs in a goroutine of its own is a job: it is queued where the
  code starts it and takes its turn at any time later.\<close>

section \<open>The world of the workers\<close>

record olLink =
  ln_cfg :: nat
  ln_uuid :: string

datatype job = RouteJob nl_Route | PeerJob co_Bridge | LinkJob olLink | UdpJob | FirewallJob | ServerAccept | ServerLoop | HttpStart | ConfdStart

text \<open>Configurations of links are shared through pointers and live in a store.\<close>

record 'l world =
  wo_vpn :: vpnworld
  wo_nl :: "nl_call list"
  wo_jobs :: "job list"
  wo_points :: "nat \<Rightarrow> co_Point"
  wo_next :: nat
  wo_seed :: nat
  wo_taps :: tapers
  wo_link :: link
  wo_esp :: espcache
  wo_user :: "'l user"
  wo_network :: network
  wo_firewall :: FireWall

record wenv =
  we_kernel :: kernel
  we_host :: host
  we_vpn :: vpnenv
  we_fabric :: fabricenv
  we_now :: int
  we_json :: "co_Point \<Rightarrow> string"
  we_random :: "nat \<Rightarrow> string"

abbreviation wo_files :: "'l world \<Rightarrow> string \<rightharpoonup> string" where
  "wo_files s \<equiv> vw_files (wo_vpn s)"

abbreviation on_vpn :: "(vpnworld \<Rightarrow> vpnworld) \<Rightarrow> 'l world \<Rightarrow> 'l world" where
  "on_vpn f s \<equiv> s\<lparr>wo_vpn := f (wo_vpn s)\<rparr>"

definition spawn :: "job list \<Rightarrow> 'l world \<Rightarrow> 'l world" where
  "spawn js s = s\<lparr>wo_jobs := wo_jobs s @ js\<rparr>"

section \<open>link.go\<close>

definition OlapBin :: string where "OlapBin = ''openlan-point''"

definition OlapDir :: string where "OlapDir = ''/var/openlan/point''"

definition NewLink :: "string \<Rightarrow> nat \<Rightarrow> olLink" where
  "NewLink uuid cfg = \<lparr>ln_cfg = cfg, ln_uuid = uuid\<rparr>"

definition Link_ConfFile :: "olLink \<Rightarrow> string" where
  "Link_ConfFile l = path_Join [OlapDir, ln_uuid l @ ''.json'']"

definition Link_StatusFile :: "olLink \<Rightarrow> string" where
  "Link_StatusFile l = path_Join [OlapDir, ln_uuid l @ ''.status'']"

definition Link_PidFile :: "olLink \<Rightarrow> string" where
  "Link_PidFile l = path_Join [OlapDir, ln_uuid l @ ''.pid'']"

definition Link_LogFile :: "olLink \<Rightarrow> string" where
  "Link_LogFile l = path_Join [OlapDir, ln_uuid l @ ''.log'']"

definition Link_Model :: "'l world \<Rightarrow> olLink \<Rightarrow> Link" where
  "Link_Model s l = (let cfg = wo_points s (ln_cfg l)
     in \<lparr>lk_User = cp_Username cfg, lk_Network = cp_Network cfg, lk_Protocol = cp_Protocol cfg, lk_StatusFile = Link_StatusFile l\<rparr>)"

definition Link_Initialize :: "wenv \<Rightarrow> olLink \<Rightarrow> 'l world \<Rightarrow> 'l world" where
  "Link_Initialize env l s =
     (let cfg = (wo_points s (ln_cfg l))\<lparr>cp_StatusFile := Link_StatusFile l, cp_PidFile := Link_PidFile l\<rparr>;
          s = s\<lparr>wo_points := (wo_points s)(ln_cfg l := cfg)\<rparr>
      in on_vpn (\<lambda>w. fst (WriteFile (we_vpn env) (Link_ConfFile l) (we_json env cfg) w)) s)"

definition Link_Start :: "wenv \<Rightarrow> olLink \<Rightarrow> 'l world \<Rightarrow> 'l world" where
  "Link_Start env l s =
     (case WriteFile (we_vpn env) (Link_LogFile l) [] (wo_vpn s) of
        (w, Some e) \<Rightarrow> s\<lparr>wo_vpn := w\<rparr>
      | (w, None) \<Rightarrow> spawn [LinkJob l] (s\<lparr>wo_vpn := w\<rparr>))"

text \<open>The goroutine of \<open>Start\<close> reads the configuration when it runs.\<close>

definition link_run :: "olLink \<Rightarrow> 'l world \<Rightarrow> 'l world" where
  "link_run l s = (let cfg = wo_points s (ln_cfg l)
     in on_vpn (vcall (Run OlapBin [''-alias'', cp_Network cfg, ''-conn'', cp_Connection cfg, ''-conf'', Link_ConfFile l, ''-terminal'', ''ww''])) s)"

definition Link_Clean :: "olLink \<Rightarrow> 'l world \<Rightarrow> 'l world" where
  "Link_Clean l s = on_vpn (fold remove_file [Link_LogFile l, Link_StatusFile l, Link_PidFile l, Link_ConfFile l]) s"

definition Link_Stop :: "olLink \<Rightarrow> 'l world \<Rightarrow> 'l world" where
  "Link_Stop l s =
     Link_Clean l (case wo_files s (Link_PidFile l) of None \<Rightarrow> s | Some data \<Rightarrow> on_vpn (vcall (Kill (TrimSpace data))) s)"

type_synonym Links = "(string \<times> olLink) list"

definition NewLinks :: Links where "NewLinks = []"

definition Links_Add :: "'l world \<Rightarrow> olLink \<Rightarrow> Links \<Rightarrow> Links" where
  "Links_Add s l ls = AList.update (cp_Connection (wo_points s (ln_cfg l))) l ls"

definition Links_Remove :: "string \<Rightarrow> Links \<times> 'l world \<Rightarrow> (Links \<times> 'l world) \<times> olLink option" where
  "Links_Remove addr = (\<lambda>(ls, s).
     case map_of ls addr of None \<Rightarrow> ((ls, s), None) | Some p \<Rightarrow> ((AList.delete addr ls, Link_Stop p s), Some p))"

section \<open>Bridges\<close>

text \<open>The two kinds of bridges behind the interface \<open>Bridger\<close>. A virtual bridge is the subject of theory \<open>Bridge\<close>; here its opening and
  closing are commands.\<close>

datatype Bridger = LinBridge LinuxBridge | VirBridge VirtualBridge

definition NewBridger :: "string \<Rightarrow> string \<Rightarrow> int \<Rightarrow> Bridger" where
  "NewBridger provider name ifMtu =
     (if provider = ''virtual'' then VirBridge (NewVirtualBridge name ifMtu) else LinBridge (NewLinuxBridge name ifMtu))"

fun Bridger_Name :: "Bridger \<Rightarrow> string" where
  "Bridger_Name (LinBridge b) = lb_name b"
| "Bridger_Name (VirBridge b) = vb_name b"

fun Bridger_Open :: "kernel \<Rightarrow> host \<Rightarrow> string \<Rightarrow> Bridger \<Rightarrow> nl_call list \<Rightarrow> (Bridger \<times> nl_call list) result" where
  "Bridger_Open k ho addr (LinBridge b) cs = (case LinuxBridge_Open k ho addr b cs of Inl e \<Rightarrow> Inl e | Inr (b, cs) \<Rightarrow> Inr (LinBridge b, cs))"
| "Bridger_Open k ho addr (VirBridge b) cs = Inr (VirBridge b, fst (nl_do k (VirOpen (vb_name b) addr) cs))"

fun Bridger_Close :: "kernel \<Rightarrow> Bridger \<Rightarrow> nl_call list \<Rightarrow> nl_call list" where
  "Bridger_Close k (LinBridge b) cs = fst (LinuxBridge_Close k b cs)"
| "Bridger_Close k (VirBridge b) cs = fst (nl_do k (VirClose (vb_name b)) cs)"

fun Bridger_Stp :: "kernel \<Rightarrow> bool \<Rightarrow> Bridger \<Rightarrow> nl_call list \<Rightarrow> Bridger \<times> nl_call list" where
  "Bridger_Stp k enable (LinBridge b) cs = (case LinuxBridge_Stp k enable b cs of (b, cs, _) \<Rightarrow> (LinBridge b, cs))"
| "Bridger_Stp k enable (VirBridge b) cs = (VirBridge b, cs)"

fun Bridger_Delay :: "kernel \<Rightarrow> int \<Rightarrow> Bridger \<Rightarrow> nl_call list \<Rightarrow> Bridger \<times> nl_call list" where
  "Bridger_Delay k value (LinBridge b) cs = (case LinuxBridge_Delay k value b cs of (b, cs, _) \<Rightarrow> (LinBridge b, cs))"
| "Bridger_Delay k value (VirBridge b) cs = (VirBridge b, cs)"

fun Bridger_CallIptables :: "kernel \<Rightarrow> int \<Rightarrow> Bridger \<Rightarrow> nl_call list \<Rightarrow> Bridger \<times> nl_call list" where
  "Bridger_CallIptables k value (LinBridge b) cs = (case LinuxBridge_CallIptables k value b cs of (b, cs, _) \<Rightarrow> (LinBridge b, cs))"
| "Bridger_CallIptables k value (VirBridge b) cs = (VirBridge b, cs)"

text \<open>Address, spanning tree and delay, the part that \<open>UpBridge\<close> and \<open>UpBr\<close> share.\<close>

definition bridge_up :: "wenv \<Rightarrow> co_Bridge \<Rightarrow> Bridger \<Rightarrow> nl_call list \<Rightarrow> (Bridger \<times> nl_call list) result" where
  "bridge_up env cfg master cs =
     (case Bridger_Open (we_kernel env) (we_host env) (br_Address cfg) master cs of
        Inl e \<Rightarrow> Inl e
      | Inr (master, cs) \<Rightarrow> (case Bridger_Stp (we_kernel env) (br_Stp cfg = ''on'') master cs of
          (master, cs) \<Rightarrow> Inr (Bridger_Delay (we_kernel env) (br_Delay cfg) master cs)))"

section \<open>openlan.go\<close>

record OpenLANWorker =
  ow_alias :: string
  ow_cfg :: co_Network
  ow_newTime :: int
  ow_startTime :: int
  ow_links :: Links
  ow_uuid :: string
  ow_bridge :: "Bridger option"
  ow_openVPN :: "vpn list"

definition NewOpenLANWorker :: "int \<Rightarrow> co_Network \<Rightarrow> OpenLANWorker" where
  "NewOpenLANWorker now c = \<lparr>ow_alias = cn_Alias c, ow_cfg = c, ow_newTime = now, ow_startTime = 0, ow_links = NewLinks, ow_uuid = [],
     ow_bridge = None, ow_openVPN = []\<rparr>"

fun vpns_Initialize :: "vpnenv \<Rightarrow> vpn list \<Rightarrow> vpnworld \<Rightarrow> vpnworld result" where
  "vpns_Initialize env [] w = Inr w"
| "vpns_Initialize env (obj # objs) w = (case OpenVPN_Initialize env obj w of Inl e \<Rightarrow> Inl e | Inr w \<Rightarrow> vpns_Initialize env objs w)"

definition network_vpns :: "co_Network \<Rightarrow> vpn list" where
  "network_vpns c = (case cn_OpenVPN c of None \<Rightarrow> [] | Some v \<Rightarrow> map (\<lambda>v. NewOpenVPN (ov_data v)) (v # ov_Breed v))"

definition OpenLANWorker_Initialize :: "wenv \<Rightarrow> OpenLANWorker \<Rightarrow> 'l world \<Rightarrow> (OpenLANWorker \<times> 'l world) result" where
  "OpenLANWorker_Initialize env w s =
     (case Initialize_caches (we_now env) (ow_cfg w) (wo_user s) (wo_network s) of
        Inl e \<Rightarrow> Inl e
      | Inr (users, nets) \<Rightarrow> (case cn_Bridge (ow_cfg w) of
          None \<Rightarrow> Inl nil_deref
        | Some brCfg \<Rightarrow>
            (let w = w\<lparr>ow_bridge := Some (NewBridger (br_Provider brCfg) (br_Name brCfg) (br_IPMtu brCfg))\<rparr>;
                 vpns = network_vpns (ow_cfg w)
             in case vpns_Initialize (we_vpn env) vpns (wo_vpn s) of
                  Inl e \<Rightarrow> Inl e
                | Inr v \<Rightarrow> Inr (w\<lparr>ow_openVPN := ow_openVPN w @ vpns\<rparr>, s\<lparr>wo_user := users, wo_network := nets, wo_vpn := v\<rparr>))))"

definition link_config :: "OpenLANWorker \<Rightarrow> co_Bridge \<Rightarrow> string \<Rightarrow> co_Point \<Rightarrow> co_Point" where
  "link_config w br name c = c\<lparr>cp_Alias := ow_alias w, cp_Network := cn_Name (ow_cfg w),
     cp_Interface := (cp_Interface c)\<lparr>if_Name := name, if_Bridge := br_Name br, if_Address := br_Address br, if_Provider := br_Provider br,
       if_IPMtu := br_IPMtu br\<rparr>, cp_Log := (cp_Log c)\<lparr>lg_File := ''/dev/null''\<rparr>\<rparr>"

text \<open>\<open>i\<close> is the place of the configuration in the store.\<close>

definition OpenLANWorker_AddLink :: "wenv \<Rightarrow> nat \<Rightarrow> OpenLANWorker \<Rightarrow> 'l world \<Rightarrow> (OpenLANWorker \<times> 'l world) result" where
  "OpenLANWorker_AddLink env i w s =
     (case cn_Bridge (ow_cfg w) of
        None \<Rightarrow> Inl nil_deref
      | Some br \<Rightarrow>
          (let uuid = we_random env (wo_seed s);
               (taps, name) = tapers_GenName (wo_taps s);
               s = s\<lparr>wo_seed := wo_seed s + 1, wo_taps := taps, wo_points := (wo_points s)(i := link_config w br name (wo_points s i))\<rparr>;
               l = NewLink uuid i;
               s = Link_Initialize env l s;
               s = s\<lparr>wo_link := link_Add uuid (Link_Model s l) (wo_link s)\<rparr>;
               w = w\<lparr>ow_links := Links_Add s l (ow_links w)\<rparr>
           in Inr (w, Link_Start env l s)))"

text \<open>The loop variable is one place for all links.\<close>

fun LoadLinks_loop :: "wenv \<Rightarrow> nat \<Rightarrow> co_Point list \<Rightarrow> OpenLANWorker \<Rightarrow> 'l world \<Rightarrow> (OpenLANWorker \<times> 'l world) result" where
  "LoadLinks_loop env i [] w s = Inr (w, s)"
| "LoadLinks_loop env i (lin # lins) w s =
     (case OpenLANWorker_AddLink env i w (s\<lparr>wo_points := (wo_points s)(i := Point_Default (we_host env) lin)\<rparr>) of
        Inl e \<Rightarrow> Inl e
      | Inr (w, s) \<Rightarrow> LoadLinks_loop env i lins w s)"

definition OpenLANWorker_LoadLinks :: "wenv \<Rightarrow> OpenLANWorker \<Rightarrow> 'l world \<Rightarrow> (OpenLANWorker \<times> 'l world) result" where
  "OpenLANWorker_LoadLinks env w s =
     LoadLinks_loop env (wo_next s) (cn_Links (ow_cfg w)) w (s\<lparr>wo_next := wo_next s + 1\<rparr>)"

definition OpenLANWorker_UnLoadLinks :: "OpenLANWorker \<Rightarrow> 'l world \<Rightarrow> 'l world" where
  "OpenLANWorker_UnLoadLinks w s = fold (\<lambda>(_, l). Link_Stop l) (ow_links w) s"

definition OpenLANWorker_DelLink :: "string \<Rightarrow> OpenLANWorker \<Rightarrow> 'l world \<Rightarrow> OpenLANWorker \<times> 'l world" where
  "OpenLANWorker_DelLink addr w s =
     (case Links_Remove addr (ow_links w, s) of
        ((ls, s), None) \<Rightarrow> (w\<lparr>ow_links := ls\<rparr>, s)
      | ((ls, s), Some l) \<Rightarrow> (w\<lparr>ow_links := ls\<rparr>, s\<lparr>wo_link := link_Del (ln_uuid l) (wo_link s)\<rparr>))"

definition zero_route :: "IPNet \<Rightarrow> nl_Route" where
  "zero_route dst = \<lparr>nr_Link = None, nr_Dst = dst, nr_Gw = None, nr_Priority = 0, nr_MultiPath = []\<rparr>"

definition load_route :: "host \<Rightarrow> string \<Rightarrow> string \<Rightarrow> PrefixRoute \<Rightarrow> nl_Route option" where
  "load_route ho dev ifAddr rt =
     (case ParseCIDR (ho_p6 ho) (pr_Prefix rt) of
        None \<Rightarrow> None
      | Some (_, dst) \<Rightarrow>
          (if ifAddr = pr_NextHop rt \<and> pr_MultiPath rt = None then None
           else Some (case pr_MultiPath rt of
             Some hops \<Rightarrow> (zero_route dst)\<lparr>nr_MultiPath := map (\<lambda>hop. \<lparr>nh_Hops = mp_Weight hop, nh_Gw = ParseIP (ho_p6 ho) (mp_NextHop hop)\<rparr>) hops\<rparr>
           | None \<Rightarrow> (zero_route dst)\<lparr>nr_Link := Some dev, nr_Gw := ParseIP (ho_p6 ho) (pr_NextHop rt), nr_Priority := pr_Metric rt\<rparr>)))"

definition OpenLANWorker_LoadRoutes :: "wenv \<Rightarrow> OpenLANWorker \<Rightarrow> 'l world \<Rightarrow> 'l world result" where
  "OpenLANWorker_LoadRoutes env w s =
     (case (cn_Bridge (ow_cfg w), ow_bridge w) of
        (Some br, Some bridge) \<Rightarrow>
          (let dev = Bridger_Name bridge; ifAddr = fst (split_at (CHR ''/'') (br_Address br))
           in if \<not> ke_has (we_kernel env) (wo_nl s) dev then Inr s
              else Inr (spawn (map RouteJob (List.map_filter (load_route (we_host env) dev ifAddr) (cn_Routes (ow_cfg w)))) s))
      | _ \<Rightarrow> Inl nil_deref)"

definition unload_route :: "host \<Rightarrow> string \<Rightarrow> PrefixRoute \<Rightarrow> nl_Route option" where
  "unload_route ho dev rt =
     (case ParseCIDR (ho_p6 ho) (pr_Prefix rt) of
        None \<Rightarrow> None
      | Some (_, dst) \<Rightarrow> Some (if pr_MultiPath rt = None
          then (zero_route dst)\<lparr>nr_Link := Some dev, nr_Gw := ParseIP (ho_p6 ho) (pr_NextHop rt), nr_Priority := pr_Metric rt\<rparr>
          else zero_route dst))"

definition OpenLANWorker_UnLoadRoutes :: "wenv \<Rightarrow> OpenLANWorker \<Rightarrow> 'l world \<Rightarrow> 'l world result" where
  "OpenLANWorker_UnLoadRoutes env w s =
     (case ow_bridge w of
        None \<Rightarrow> Inl nil_deref
      | Some bridge \<Rightarrow>
          (let dev = Bridger_Name bridge
           in if \<not> ke_has (we_kernel env) (wo_nl s) dev then Inr s
              else Inr (s\<lparr>wo_nl := wo_nl s @ map RouteDel (List.map_filter (unload_route (we_host env) dev) (cn_Routes (ow_cfg w)))\<rparr>)))"

definition OpenLANWorker_connectPeer :: "co_Bridge \<Rightarrow> 'l world \<Rightarrow> 'l world" where
  "OpenLANWorker_connectPeer cfg s = (if br_Peer cfg = [] then s else spawn [PeerJob cfg] s)"

text \<open>One attempt of the promise that connects the peer.\<close>

definition connect_attempt :: "kernel \<Rightarrow> co_Bridge \<Rightarrow> nl_call list \<Rightarrow> nl_call list \<times> error option" where
  "connect_attempt k cfg cs =
     (let (inn, ex) = PeerName (br_Network cfg) ''-e'';
          br = NewBrCtl (br_Peer cfg) (br_IPMtu cfg)
      in if \<not> BrCtl_Has k cs br then (cs, Some (NewErr (bc_Name br @ '' notFound'')))
         else case nl_do k (VethPair inn ex) cs of
                (cs, Some e) \<Rightarrow> (cs, None)
              | (cs, None) \<Rightarrow>
                  (let (cs, _) = BrCtl_AddPort k inn (NewBrCtl (br_Name cfg) (br_IPMtu cfg)) cs;
                       (cs, _) = BrCtl_AddPort k ex (NewBrCtl (br_Peer cfg) (br_IPMtu cfg)) cs
                   in (cs, None)))"

definition OpenLANWorker_UpBridge :: "wenv \<Rightarrow> OpenLANWorker \<Rightarrow> 'l world \<Rightarrow> (OpenLANWorker \<times> 'l world) result" where
  "OpenLANWorker_UpBridge env w s =
     (case (ow_bridge w, cn_Bridge (ow_cfg w)) of
        (Some master, Some cfg) \<Rightarrow>
          (case bridge_up env cfg master (wo_nl s) of
             Inl e \<Rightarrow> Inl e
           | Inr (master, cs) \<Rightarrow>
               (let s = OpenLANWorker_connectPeer cfg s;
                    (master, cs) = Bridger_CallIptables (we_kernel env) (if cn_Acl (ow_cfg w) = [] then 0 else 1) master cs
                in Inr (w\<lparr>ow_bridge := Some master\<rparr>, s\<lparr>wo_nl := cs\<rparr>)))
      | _ \<Rightarrow> Inl nil_deref)"

definition OpenLANWorker_Start :: "wenv \<Rightarrow> string \<Rightarrow> OpenLANWorker \<Rightarrow> 'l world \<Rightarrow> (OpenLANWorker \<times> 'l world) result" where
  "OpenLANWorker_Start env uuid w s =
     (case OpenLANWorker_UpBridge env w s of
        Inl e \<Rightarrow> Inl e
      | Inr (w, s) \<Rightarrow> (case OpenLANWorker_LoadLinks env (w\<lparr>ow_uuid := uuid\<rparr>) s of
          Inl e \<Rightarrow> Inl e
        | Inr (w, s) \<Rightarrow> (case OpenLANWorker_LoadRoutes env w s of
            Inl e \<Rightarrow> Inl e
          | Inr s \<Rightarrow> Inr (w\<lparr>ow_startTime := we_now env\<rparr>, on_vpn (fold (OpenVPN_Start (we_vpn env)) (ow_openVPN w)) s))))"

definition OpenLANWorker_closePeer :: "co_Bridge \<Rightarrow> 'l world \<Rightarrow> 'l world" where
  "OpenLANWorker_closePeer cfg s = (if br_Peer cfg = [] then s else s\<lparr>wo_nl := wo_nl s @ [LinkDelete (fst (PeerName (br_Network cfg) ''-e''))]\<rparr>)"

definition OpenLANWorker_downBridge :: "wenv \<Rightarrow> OpenLANWorker \<Rightarrow> 'l world \<Rightarrow> 'l world result" where
  "OpenLANWorker_downBridge env w s =
     (case (cn_Bridge (ow_cfg w), ow_bridge w) of
        (Some cfg, Some bridge) \<Rightarrow>
          (let s = OpenLANWorker_closePeer cfg s in Inr (s\<lparr>wo_nl := Bridger_Close (we_kernel env) bridge (wo_nl s)\<rparr>))
      | _ \<Rightarrow> Inl nil_deref)"

definition OpenLANWorker_Stop :: "wenv \<Rightarrow> OpenLANWorker \<Rightarrow> 'l world \<Rightarrow> (OpenLANWorker \<times> 'l world) result" where
  "OpenLANWorker_Stop env w s =
     (let s = on_vpn (fold OpenVPN_Stop (ow_openVPN w)) s
      in case OpenLANWorker_UnLoadRoutes env w s of
           Inl e \<Rightarrow> Inl e
         | Inr s \<Rightarrow>
             (let s = OpenLANWorker_UnLoadLinks w s; w = w\<lparr>ow_startTime := 0\<rparr>
              in case OpenLANWorker_downBridge env w s of Inl e \<Rightarrow> Inl e | Inr s \<Rightarrow> Inr (w, s)))"

definition OpenLANWorker_UpTime :: "int \<Rightarrow> OpenLANWorker \<Rightarrow> int" where
  "OpenLANWorker_UpTime now w = (if ow_startTime w \<noteq> 0 then now - ow_startTime w else 0)"

section \<open>Jobs\<close>

text \<open>A turn of a job: the world after it, and whether it has to be tried again. The jobs of the server, the firewall, the HTTP interface
  and the configuration daemon are other components.\<close>

definition job_turn :: "wenv \<Rightarrow> job \<Rightarrow> 'l world \<Rightarrow> 'l world \<times> bool" where
  "job_turn env j s =
     (case j of
        RouteJob r \<Rightarrow> (case nl_do (we_kernel env) (RouteAdd r) (wo_nl s) of (cs, err) \<Rightarrow> (s\<lparr>wo_nl := cs\<rparr>, err \<noteq> None))
      | PeerJob cfg \<Rightarrow> (case connect_attempt (we_kernel env) cfg (wo_nl s) of (cs, err) \<Rightarrow> (s\<lparr>wo_nl := cs\<rparr>, err \<noteq> None))
      | LinkJob l \<Rightarrow> (link_run l s, False)
      | UdpJob \<Rightarrow> (on_vpn (vcall (Run (fst OpenUDP) (snd OpenUDP))) s, False)
      | _ \<Rightarrow> (s, False))"

definition run_job :: "wenv \<Rightarrow> nat \<Rightarrow> 'l world \<Rightarrow> 'l world" where
  "run_job env i s =
     (if i < length (wo_jobs s)
      then case job_turn env (wo_jobs s ! i) s of
             (s', again) \<Rightarrow> if again then s' else s'\<lparr>wo_jobs := take i (wo_jobs s') @ drop (Suc i) (wo_jobs s')\<rparr>
      else s)"

section \<open>vxlan.go\<close>

record VxLANWorker =
  vx_uuid :: string
  vx_cfg :: co_Network
  vx_spec :: "VxLANSpecifies option"
  vx_br :: "Bridger option"

definition NewVxLANWorker :: "co_Network \<Rightarrow> VxLANWorker" where
  "NewVxLANWorker c = \<lparr>vx_uuid = [], vx_cfg = c, vx_spec = (case cn_Specifies c of SpecVxLAN sp \<Rightarrow> Some sp | _ \<Rightarrow> None), vx_br = None\<rparr>"

definition VxLANWorker_UpBr :: "wenv \<Rightarrow> co_Bridge \<Rightarrow> Bridger \<Rightarrow> nl_call list \<Rightarrow> (Bridger \<times> nl_call list) result" where
  "VxLANWorker_UpBr env cfg master cs =
     (case bridge_up env cfg master cs of
        Inl e \<Rightarrow> Inl e
      | Inr (master, cs) \<Rightarrow> Inr (Bridger_CallIptables (we_kernel env) 1 master cs))"

definition VxLANWorker_Initialize :: "wenv \<Rightarrow> VxLANWorker \<Rightarrow> nl_call list \<Rightarrow> (VxLANWorker \<times> nl_call list) result" where
  "VxLANWorker_Initialize env w cs =
     (case (vx_spec w, cn_Bridge (vx_cfg w)) of
        (Some _, Some br) \<Rightarrow>
          (case VxLANWorker_UpBr env br (NewBridger (br_Provider br) (br_Name br) (br_IPMtu br)) cs of
             Inl e \<Rightarrow> Inl e
           | Inr (master, cs) \<Rightarrow> Inr (w\<lparr>vx_br := Some master\<rparr>, cs))
      | _ \<Rightarrow> Inr (w, cs))"

definition VxLANWorker_UpVxLAN :: "wenv \<Rightarrow> VxLANWorker \<Rightarrow> VxLANMember \<Rightarrow> nl_call list \<Rightarrow> (nl_call list \<times> error option) result" where
  "VxLANWorker_UpVxLAN env w cfg cs =
     (let k = we_kernel env; p6 = ho_p6 (we_host env); name = vm_Name cfg;
          up = (\<lambda>cs.
            if \<not> ke_has k cs name then Inl nil_deref
            else let (cs, _) = nl_do k (LinkUp name) cs
                 in case cn_Bridge (vx_cfg w) of
                      None \<Rightarrow> Inr (cs, None)
                    | Some br \<Rightarrow> Inr (nl_do k (SetMaster name (br_Name br)) cs))
      in if ke_has k cs name then up cs
         else case nl_do k (VxlanAdd name (vm_VNI cfg) (ParseIP p6 (vm_Local cfg)) (ParseIP p6 (vm_Remote cfg)) (vm_Port cfg)) cs of
                (cs, Some e) \<Rightarrow> Inr (cs, Some e)
              | (cs, None) \<Rightarrow> up cs)"

fun VxLANWorker_upMembers :: "wenv \<Rightarrow> VxLANWorker \<Rightarrow> VxLANMember list \<Rightarrow> nl_call list \<Rightarrow> nl_call list result" where
  "VxLANWorker_upMembers env w [] cs = Inr cs"
| "VxLANWorker_upMembers env w (mem # mems) cs =
     (case VxLANWorker_UpVxLAN env w mem cs of Inl e \<Rightarrow> Inl e | Inr (cs, _) \<Rightarrow> VxLANWorker_upMembers env w mems cs)"

definition VxLANWorker_Start :: "wenv \<Rightarrow> string \<Rightarrow> VxLANWorker \<Rightarrow> nl_call list \<Rightarrow> (VxLANWorker \<times> nl_call list) result" where
  "VxLANWorker_Start env uuid w cs =
     (let w = w\<lparr>vx_uuid := uuid\<rparr>
      in case vx_spec w of
           None \<Rightarrow> Inr (w, cs)
         | Some sp \<Rightarrow> (case VxLANWorker_upMembers env w (vs_Members sp) cs of Inl e \<Rightarrow> Inl e | Inr cs \<Rightarrow> Inr (w, cs)))"

definition VxLANWorker_DownVxLAN :: "wenv \<Rightarrow> VxLANMember \<Rightarrow> nl_call list \<Rightarrow> nl_call list \<times> error option" where
  "VxLANWorker_DownVxLAN env cfg cs =
     (if \<not> ke_has (we_kernel env) cs (vm_Name cfg) then (cs, None) else nl_do (we_kernel env) (LinkDelete (vm_Name cfg)) cs)"

definition VxLANWorker_Stop :: "wenv \<Rightarrow> VxLANWorker \<Rightarrow> nl_call list \<Rightarrow> nl_call list" where
  "VxLANWorker_Stop env w cs =
     (case vx_spec w of
        None \<Rightarrow> cs
      | Some sp \<Rightarrow> fold (\<lambda>mem cs. fst (VxLANWorker_DownVxLAN env mem cs)) (vs_Members sp) cs)"

section \<open>network.go\<close>

datatype Networker = NwEsp EspWorker | NwVxLAN VxLANWorker | NwFabric FabricWorker | NwOpenLAN OpenLANWorker

definition NewNetworker :: "int \<Rightarrow> co_Network \<Rightarrow> Networker result" where
  "NewNetworker now c =
     (if cn_Provider c = ''esp'' then Inr (NwEsp (NewESPWorker c))
      else if cn_Provider c = ''vxlan'' then Inr (NwVxLAN (NewVxLANWorker c))
      else if cn_Provider c = ''fabric'' then (case NewFabricWorker c of Inl e \<Rightarrow> Inl e | Inr w \<Rightarrow> Inr (NwFabric w))
      else Inr (NwOpenLAN (NewOpenLANWorker now c)))"

fun Networker_Initialize :: "wenv \<Rightarrow> Networker \<Rightarrow> 'l world \<Rightarrow> (Networker \<times> 'l world) result" where
  "Networker_Initialize env (NwEsp w) s = (case EspWorker_Initialize (we_host env) (w, wo_esp s) of
     Inl e \<Rightarrow> Inl e | Inr (w, ca) \<Rightarrow> Inr (NwEsp w, s\<lparr>wo_esp := ca\<rparr>))"
| "Networker_Initialize env (NwVxLAN w) s = (case VxLANWorker_Initialize env w (wo_nl s) of
     Inl e \<Rightarrow> Inl e | Inr (w, cs) \<Rightarrow> Inr (NwVxLAN w, s\<lparr>wo_nl := cs\<rparr>))"
| "Networker_Initialize env (NwFabric w) s = Inr (NwFabric (FabricWorker_Initialize (we_fabric env) w), s)"
| "Networker_Initialize env (NwOpenLAN w) s = (case OpenLANWorker_Initialize env w s of
     Inl e \<Rightarrow> Inl e | Inr (w, s) \<Rightarrow> Inr (NwOpenLAN w, s))"

fun Networker_Start :: "wenv \<Rightarrow> string \<Rightarrow> Networker \<Rightarrow> 'l world \<Rightarrow> (Networker \<times> 'l world) result" where
  "Networker_Start env uuid (NwEsp w) s = (case EspWorker_Start (we_kernel env) (we_host env) uuid (w, wo_esp s, wo_nl s) of
     Inl e \<Rightarrow> Inl e | Inr (w, ca, cs) \<Rightarrow> Inr (NwEsp w, s\<lparr>wo_esp := ca, wo_nl := cs\<rparr>))"
| "Networker_Start env uuid (NwVxLAN w) s = (case VxLANWorker_Start env uuid w (wo_nl s) of
     Inl e \<Rightarrow> Inl e | Inr (w, cs) \<Rightarrow> Inr (NwVxLAN w, s\<lparr>wo_nl := cs\<rparr>))"
| "Networker_Start env uuid (NwFabric w) s = (case FabricWorker_Start (we_fabric env) (wo_firewall s) w of
     Inl e \<Rightarrow> Inl e | Inr (f, w) \<Rightarrow> Inr (NwFabric w, s\<lparr>wo_firewall := f\<rparr>))"
| "Networker_Start env uuid (NwOpenLAN w) s = (case OpenLANWorker_Start env uuid w s of
     Inl e \<Rightarrow> Inl e | Inr (w, s) \<Rightarrow> Inr (NwOpenLAN w, s))"

fun Networker_Stop :: "wenv \<Rightarrow> Networker \<Rightarrow> 'l world \<Rightarrow> (Networker \<times> 'l world) result" where
  "Networker_Stop env (NwEsp w) s = (case EspWorker_Stop (we_kernel env) (w, wo_esp s, wo_nl s) of
     Inl e \<Rightarrow> Inl e | Inr (w, ca, cs) \<Rightarrow> Inr (NwEsp w, s\<lparr>wo_esp := ca, wo_nl := cs\<rparr>))"
| "Networker_Stop env (NwVxLAN w) s = Inr (NwVxLAN w, s\<lparr>wo_nl := VxLANWorker_Stop env w (wo_nl s)\<rparr>)"
| "Networker_Stop env (NwFabric w) s = (case FabricWorker_Stop w of Inl e \<Rightarrow> Inl e | Inr w \<Rightarrow> Inr (NwFabric w, s))"
| "Networker_Stop env (NwOpenLAN w) s = (case OpenLANWorker_Stop env w s of Inl e \<Rightarrow> Inl e | Inr (w, s) \<Rightarrow> Inr (NwOpenLAN w, s))"

text \<open>Only the worker for ESP does something on a reload.\<close>

fun Networker_Reload :: "wenv \<Rightarrow> Networker \<Rightarrow> 'l world \<Rightarrow> (Networker \<times> 'l world) result" where
  "Networker_Reload env (NwEsp w) s = (case EspWorker_Reload (we_kernel env) (we_host env) (w, wo_esp s, wo_nl s) of
     Inl e \<Rightarrow> Inl e | Inr (w, ca, cs) \<Rightarrow> Inr (NwEsp w, s\<lparr>wo_esp := ca, wo_nl := cs\<rparr>))"
| "Networker_Reload env w s = Inr (w, s)"

fun Networker_GetBridge :: "Networker \<Rightarrow> Bridger option" where
  "Networker_GetBridge (NwOpenLAN w) = ow_bridge w"
| "Networker_GetBridge _ = None"

section \<open>switch.go: all workers\<close>

text \<open>The order of a loop over the map of workers is the one of the list.\<close>

fun each_worker :: "(Networker \<Rightarrow> 'l world \<Rightarrow> (Networker \<times> 'l world) result) \<Rightarrow> (string \<times> Networker) list \<Rightarrow> 'l world \<Rightarrow>
    ((string \<times> Networker) list \<times> 'l world) result" where
  "each_worker f [] s = Inr ([], s)"
| "each_worker f ((n, w) # ws) s =
     (case f w s of
        Inl e \<Rightarrow> Inl e
      | Inr (w, s) \<Rightarrow> (case each_worker f ws s of Inl e \<Rightarrow> Inl e | Inr (ws, s) \<Rightarrow> Inr ((n, w) # ws, s)))"

definition workers_Initialize :: "wenv \<Rightarrow> (string \<times> Networker) list \<Rightarrow> 'l world \<Rightarrow> ((string \<times> Networker) list \<times> 'l world) result" where
  "workers_Initialize env = each_worker (Networker_Initialize env)"

definition Switch_Start :: "wenv \<Rightarrow> string \<Rightarrow> bool \<Rightarrow> (string \<times> Networker) list \<Rightarrow> 'l world \<Rightarrow> ((string \<times> Networker) list \<times> 'l world) result" where
  "Switch_Start env uuid http ws s =
     (let s = spawn [UdpJob] s
      in case each_worker (Networker_Start env uuid) ws s of
           Inl e \<Rightarrow> Inl e
         | Inr (ws, s) \<Rightarrow>
             (let s = spawn [ServerAccept, ServerLoop] s;
                  s = (if http then spawn [HttpStart] s else s)
              in Inr (ws, spawn [FirewallJob, ConfdStart] s)))"

definition workers_Stop :: "wenv \<Rightarrow> (string \<times> Networker) list \<Rightarrow> 'l world \<Rightarrow> ((string \<times> Networker) list \<times> 'l world) result" where
  "workers_Stop env = each_worker (Networker_Stop env)"

definition Switch_Reload :: "wenv \<Rightarrow> (string \<times> Networker) list \<Rightarrow> 'l world \<Rightarrow> ((string \<times> Networker) list \<times> 'l world) result" where
  "Switch_Reload env ws s =
     (let s = s\<lparr>wo_esp := espPolicy_Clear (espState_Clear (wo_esp s))\<rparr>
      in case each_worker (Networker_Reload env) ws s of
           Inl e \<Rightarrow> Inl e
         | Inr (ws, s) \<Rightarrow> Inr (ws, spawn [FirewallJob] s))"

section \<open>What a reload leaves in the cache\<close>

text \<open>Entering keys into a map with enough room.\<close>

lemma Set_length: "length (ssm_data (fst (SafeStrMap_Set k v m))) \<le> Suc (length (ssm_data m))"
  by (auto simp: SafeStrMap_Set_def SafeStrMap_add_def length_update_new split: option.splits)

lemma Set_size [simp]: "ssm_size (fst (SafeStrMap_Set k v m)) = ssm_size m"
  by (auto simp: SafeStrMap_Set_def SafeStrMap_add_def split: option.splits)

definition room :: "nat \<Rightarrow> 'v SafeStrMap \<Rightarrow> bool" where
  "room n m \<longleftrightarrow> ssm_size m = 0 \<or> int (length (ssm_data m) + n) \<le> ssm_size m"

lemma room_Set: "room (Suc n) m \<Longrightarrow> room n (fst (SafeStrMap_Set k v m))"
  using Set_length [of k v m] by (auto simp: room_def)

lemma Set_dom:
  assumes "room (Suc n) m"
  shows "dom (ssm_lookup (fst (SafeStrMap_Set k v m))) = insert k (dom (ssm_lookup m))"
proof -
  have nf: "\<not> SafeStrMap_full m" using assms by (auto simp: room_def SafeStrMap_full_def)
  show ?thesis using sm.set_new [OF nf, of k v] sm.set_old [OF nf, of k v] by (cases "ssm_lookup m k") auto
qed

definition enter :: "(string \<times> 'v) list \<Rightarrow> 'v SafeStrMap \<Rightarrow> 'v SafeStrMap" where
  "enter es m = fold (\<lambda>(k, v) m. fst (SafeStrMap_Set k (Some v) m)) es m"

lemma enter_simps [simp]: "enter [] m = m" "enter ((k, v) # es) m = enter es (fst (SafeStrMap_Set k (Some v) m))" "enter (es @ fs) m = enter fs (enter es m)"
  by (simp_all add: enter_def)

lemma enter_dom: "room (length es + n) m \<Longrightarrow> dom (ssm_lookup (enter es m)) = fst ` set es \<union> dom (ssm_lookup m) \<and> room n (enter es m)"
proof (induction es arbitrary: m)
  case (Cons e es)
  obtain k v where e: "e = (k, v)" by fastforce
  from Cons.prems have r: "room (Suc (length es + n)) m" by simp
  from Cons.IH [OF room_Set [OF r]] Set_dom [OF r] show ?case by (auto simp: e)
qed simp

lemma enter_values:
  "\<forall>v \<in> ran (ssm_lookup m). v \<noteq> None \<Longrightarrow> \<forall>v \<in> ran (ssm_lookup (enter es m)). v \<noteq> None"
proof (induction es arbitrary: m)
  case (Cons e es)
  obtain k v where e: "e = (k, v)" by fastforce
  have "\<forall>x \<in> ran (ssm_lookup (fst (SafeStrMap_Set k (Some v) m))). x \<noteq> None"
    using Cons.prems sm.set_range [of k "Some v" m] by (fastforce simp: ran_def)
  from Cons.IH [OF this] show ?case by (simp add: e)
qed simp

text \<open>The entries that a worker makes.\<close>

definition member_entry :: "host \<Rightarrow> EspWorker \<Rightarrow> ESPSpecifies \<Rightarrow> ESPMember \<Rightarrow> string \<times> md_EspState" where
  "member_entry ho w spec m = (let st = state_model ho w spec m in (EspState_ID st, st))"

definition spec_entries :: "host \<Rightarrow> EspWorker \<Rightarrow> ESPSpecifies \<Rightarrow> (string \<times> md_EspState) list" where
  "spec_entries ho w spec = map (member_entry ho w spec) (filter ips_known (esp_Members spec))"

lemma state_model_cong: "ew_mode w = ew_mode w' \<Longrightarrow> ew_proto w = ew_proto w' \<Longrightarrow> member_entry ho w spec = member_entry ho w' spec"
  by (simp add: member_entry_def state_model_def fun_eq_iff)

lemma addPolicies_state: "ec_State (snd (fold (\<lambda>pol. EspWorker_addPolicy ho spec m (g pol)) pols x)) = ec_State (snd x)"
proof (induction pols arbitrary: x)
  case (Cons pol pols)
  obtain w ca where x: "x = (w, ca)" by fastforce
  have "ec_State (snd (EspWorker_addPolicy ho spec m (g pol) x)) = ec_State ca"
    by (simp add: x EspWorker_addPolicy_def espPolicy_Add_def Let_def split: option.split)
  with Cons show ?case by (simp add: x)
qed simp

lemma update_member_state:
  "ec_State (snd (update_member ho spec m x)) = enter (if ips_known m then [member_entry ho (fst x) spec m] else []) (ec_State (snd x))"
proof (cases x)
  case (Pair w ca)
  have "ec_State (snd (EspWorker_addState ho spec m x)) = enter [member_entry ho w spec m] (ec_State ca)"
    by (simp add: Pair EspWorker_addState_def espState_Add_def member_entry_def state_model_def Let_def)
  then show ?thesis by (simp add: update_member_def addPolicies_state Pair)
qed

lemma update_members_state:
  assumes "esp_tunnel (fst x)"
  shows "ec_State (snd (fold (update_member ho spec) ms x)) = enter (map (member_entry ho (fst x) spec) (filter ips_known ms)) (ec_State (snd x))"
  using assms
proof (induction ms arbitrary: x)
  case (Cons m ms)
  let ?x = "update_member ho spec m x"
  have t: "esp_tunnel (fst ?x)" using Cons.prems by (simp add: update_member_fst)
  have "member_entry ho (fst ?x) spec = member_entry ho (fst x) spec"
    using t Cons.prems by (intro state_model_cong) simp_all
  with Cons.IH [OF t] show ?case
    by (cases "ips_known m") (simp_all add: update_member_state enter_def)
qed simp

fun esp_ready :: "Networker \<Rightarrow> bool" where
  "esp_ready (NwEsp w) \<longleftrightarrow> esp_tunnel w \<and> ew_spec w \<noteq> None"
| "esp_ready _ \<longleftrightarrow> True"

fun worker_entries :: "host \<Rightarrow> Networker \<Rightarrow> (string \<times> md_EspState) list" where
  "worker_entries ho (NwEsp w) = (case ew_spec w of None \<Rightarrow> [] | Some spec \<Rightarrow> spec_entries ho w spec)"
| "worker_entries ho _ = []"

lemma Reload_entries:
  assumes "kernel_ok (we_kernel env)" and "esp_ready nw"
  shows "\<exists>nw' s'. Networker_Reload env nw s = Inr (nw', s') \<and> ec_State (wo_esp s') = enter (worker_entries (we_host env) nw) (ec_State (wo_esp s)) \<and>
    ec_Esp (wo_esp s') = ec_Esp (wo_esp s) \<and> wo_jobs s' = wo_jobs s"
proof (cases nw)
  case (NwEsp w)
  let ?k = "we_kernel env" and ?ho = "we_host env"
  from assms(2) NwEsp obtain spec where w: "ew_spec w = Some spec" "esp_tunnel w" by auto
  let ?w = "w\<lparr>ew_states := [], ew_policies := []\<rparr>" and ?cs = "wo_nl s @ map XfrmPolicyDel (ew_policies w) @ map XfrmStateDel (ew_states w)"
  have t: "esp_tunnel (fst (?w, wo_esp s))" using w by simp
  obtain w1 ca where f: "fold (update_member ?ho spec) (esp_Members spec) (?w, wo_esp s) = (w1, ca)" by fastforce
  have ca: "ec_State ca = enter (spec_entries ?ho w spec) (ec_State (wo_esp s))"
    using update_members_state [OF t, of ?ho spec "esp_Members spec"] state_model_cong [of ?w w ?ho spec] by (simp add: f spec_entries_def)
  have esp: "ec_Esp (snd (fold (update_member ?ho spec) ms x)) = ec_Esp (snd x)" for ms x
  proof (induction ms arbitrary: x)
    case (Cons m ms)
    have "ec_Esp (snd (fold (\<lambda>pol. EspWorker_addPolicy ?ho spec m (fill_policy m pol)) ps y)) = ec_Esp (snd y)" for ps y
      by (induction ps arbitrary: y) (auto simp: EspWorker_addPolicy_def espPolicy_Add_def Let_def split: option.split)
    moreover have "ec_Esp (snd (EspWorker_addState ?ho spec m y)) = ec_Esp (snd y)" for y
      by (cases y) (simp add: EspWorker_addState_def espState_Add_def Let_def)
    ultimately show ?case using Cons by (simp add: update_member_def)
  qed simp
  let ?w1 = "w1\<lparr>ew_spec := Some (filled spec)\<rparr>"
  obtain ds where "upMembers ?k ?ho (esp_Members (filled spec)) (EspWorker_addXfrm ?w1 ?cs) = Inr ds"
    using upMembers_returns [OF assms(1)] by blast
  then have "EspWorker_Reload ?k ?ho (w, wo_esp s, wo_nl s) = Inr (?w1, ca, ds)"
    using f w by (simp add: EspWorker_Reload_def EspWorker_delXfrm_def EspWorker_updateXfrm_def EspWorker_upMember_def filled_def)
  with NwEsp ca w(1) esp [of "esp_Members spec" "(?w, wo_esp s)"] show ?thesis by (simp add: f)
qed simp_all

lemma reload_all:
  assumes "kernel_ok (we_kernel env)" and "list_all (\<lambda>(n, w). esp_ready w) ws"
  shows "\<exists>ws' s'. each_worker (Networker_Reload env) ws s = Inr (ws', s') \<and> map fst ws' = map fst ws \<and>
    ec_State (wo_esp s') = enter (concat (map (\<lambda>(n, w). worker_entries (we_host env) w) ws)) (ec_State (wo_esp s)) \<and> wo_jobs s' = wo_jobs s"
  using assms(2)
proof (induction ws arbitrary: s)
  case (Cons p ws)
  obtain n w where p: "p = (n, w)" by fastforce
  with Cons.prems have "esp_ready w" by simp
  from Reload_entries [OF assms(1) this, of s] obtain w' s1 where
    "Networker_Reload env w s = Inr (w', s1)" "ec_State (wo_esp s1) = enter (worker_entries (we_host env) w) (ec_State (wo_esp s))" "wo_jobs s1 = wo_jobs s" by blast
  with Cons.IH [of s1] Cons.prems p show ?case by fastforce
qed simp


section \<open>Files of links\<close>

lemma olap_file:
  assumes "CHR ''/'' \<notin> set u" and "CHR ''/'' \<notin> set (e # x)" and "e \<noteq> CHR ''.''"
  shows "path_Join [OlapDir, u @ CHR ''.'' # e # x] = OlapDir @ CHR ''/'' # u @ CHR ''.'' # e # x"
proof -
  let ?n = "u @ CHR ''.'' # e # x"
  have n: "CHR ''/'' \<notin> set ?n" "?n \<noteq> []" "?n \<noteq> ''.''" "?n \<noteq> ''..''" using assms by (auto simp: append_eq_Cons_conv)
  have d: "Split OlapDir (CHR ''/'') = [[], ''var'', ''openlan'', ''point'']" by (simp add: OlapDir_def)
  have "Split (OlapDir @ CHR ''/'' # ?n) (CHR ''/'') = [[], ''var'', ''openlan'', ''point'', ?n]"
    using Split_plain [OF n(1)] by (simp add: Split_append d)
  moreover have "clean_elems True [] [[], ''var'', ''openlan'', ''point'', ?n] = [''var'', ''openlan'', ''point'', ?n]" using n(2-4) by simp
  moreover have "''/'' @ Join ''/'' [''var'', ''openlan'', ''point'', ?n] = OlapDir @ CHR ''/'' # ?n" by (simp add: OlapDir_def)
  moreover have "OlapDir \<noteq> []" "hd OlapDir = CHR ''/''" by (simp_all add: OlapDir_def)
  ultimately show ?thesis by (simp add: path_Join_def Clean_def)
qed

definition olap_path :: "string \<Rightarrow> string \<Rightarrow> string" where
  "olap_path u x = OlapDir @ ''/'' @ u @ CHR ''.'' # x"

lemma link_files:
  assumes "CHR ''/'' \<notin> set (ln_uuid l)"
  shows "Link_ConfFile l = olap_path (ln_uuid l) ''json''" "Link_StatusFile l = olap_path (ln_uuid l) ''status''"
    "Link_PidFile l = olap_path (ln_uuid l) ''pid''" "Link_LogFile l = olap_path (ln_uuid l) ''log''"
  using assms by (simp_all add: Link_ConfFile_def Link_StatusFile_def Link_PidFile_def Link_LogFile_def olap_path_def olap_file)

definition link_paths :: "olLink \<Rightarrow> string list" where
  "link_paths l = [Link_LogFile l, Link_StatusFile l, Link_PidFile l, Link_ConfFile l]"

lemma suffix_eq:
  assumes "u @ sep # x = v @ sep # y" and "sep \<notin> set x" and "sep \<notin> set y"
  shows "u = v"
proof -
  have r: "rev x @ sep # rev u = rev y @ sep # rev v" using arg_cong [OF assms(1), of rev] by simp
  have t: "takeWhile (\<lambda>c. c \<noteq> sep) (rev z @ sep # w) = rev z" if "sep \<notin> set z" for z w
    using that by (subst takeWhile_append2) auto
  from arg_cong [OF r, of "takeWhile (\<lambda>c. c \<noteq> sep)"] t [OF assms(2)] t [OF assms(3)] have "x = y" by simp
  with assms(1) show ?thesis by simp
qed

lemma link_paths_other:
  assumes "CHR ''/'' \<notin> set (ln_uuid l)" and "CHR ''/'' \<notin> set (ln_uuid m)" and "ln_uuid l \<noteq> ln_uuid m"
  shows "Link_PidFile l \<notin> set (link_paths m)"
proof -
  have "olap_path (ln_uuid l) x \<noteq> olap_path (ln_uuid m) y" if "CHR ''.'' \<notin> set x" "CHR ''.'' \<notin> set y" for x y
    using assms(3) suffix_eq [of "ln_uuid l" "CHR ''.''" x "ln_uuid m" y] that by (auto simp: olap_path_def)
  then show ?thesis by (simp add: link_paths_def link_files [OF assms(1)] link_files [OF assms(2)])
qed

lemma remove_files: "vw_files (fold remove_file ps w) = (\<lambda>p. if p \<in> set ps then None else vw_files w p)"
  "vw_calls (fold remove_file ps w) = vw_calls w"
  by (induction ps arbitrary: w) (auto simp: remove_file_def)

lemma Link_Stop_eq:
  "Link_Stop l s = s\<lparr>wo_vpn := fold remove_file (link_paths l) ((wo_vpn s)\<lparr>vw_calls := vw_calls (wo_vpn s) @
     (case wo_files s (Link_PidFile l) of None \<Rightarrow> [] | Some d \<Rightarrow> [Kill (TrimSpace d)])\<rparr>)\<rparr>"
  by (cases "wo_files s (Link_PidFile l)") (simp_all add: Link_Stop_def Link_Clean_def link_paths_def)

lemma Link_Stop_world:
  "wo_files (Link_Stop l s) = (\<lambda>p. if p \<in> set (link_paths l) then None else wo_files s p)"
  "vw_calls (wo_vpn (Link_Stop l s)) = vw_calls (wo_vpn s) @ (case wo_files s (Link_PidFile l) of None \<Rightarrow> [] | Some d \<Rightarrow> [Kill (TrimSpace d)])"
  "wo_nl (Link_Stop l s) = wo_nl s" "wo_jobs (Link_Stop l s) = wo_jobs s"
  by (simp_all add: Link_Stop_eq remove_files cong: if_cong)

lemma Link_Stops_world:
  "wo_files (fold (\<lambda>(_, l). Link_Stop l) ls s) p = (if \<exists>l \<in> set (map snd ls). p \<in> set (link_paths l) then None else wo_files s p)"
  "set (vw_calls (wo_vpn s)) \<subseteq> set (vw_calls (wo_vpn (fold (\<lambda>(_, l). Link_Stop l) ls s)))"
  "wo_nl (fold (\<lambda>(_, l). Link_Stop l) ls s) = wo_nl s"
proof (induction ls arbitrary: s)
  case (Cons kl ls)
  { case 1 show ?case using Cons(1) by (auto simp: split_beta Link_Stop_world) }
  { case 2 show ?case using Cons(2) [of "Link_Stop (snd kl) s"] by (auto simp: split_beta Link_Stop_world) }
  { case 3 show ?case using Cons(3) by (simp add: split_beta Link_Stop_world) }
qed simp_all

lemma Link_Stops_kill:
  assumes "l \<in> set (map snd ls)" and "wo_files s (Link_PidFile l) = Some d" and "distinct (map (\<lambda>(_, l). ln_uuid l) ls)"
    and "\<forall>m \<in> set (map snd ls). CHR ''/'' \<notin> set (ln_uuid m)"
  shows "Kill (TrimSpace d) \<in> set (vw_calls (wo_vpn (fold (\<lambda>(_, l). Link_Stop l) ls s)))"
  using assms
proof (induction ls arbitrary: s)
  case (Cons kl ls)
  obtain k m where kl: "kl = (k, m)" by fastforce
  show ?case
  proof (cases "m = l")
    case True
    have "Kill (TrimSpace d) \<in> set (vw_calls (wo_vpn (Link_Stop l s)))" using Cons.prems(2) by (simp add: Link_Stop_world)
    then show ?thesis using Link_Stops_world(2) [of "Link_Stop l s" ls] by (auto simp: kl True)
  next
    case False
    with Cons.prems(1) have l: "l \<in> set (map snd ls)" by (auto simp: kl)
    then have "ln_uuid m \<noteq> ln_uuid l" using Cons.prems(3) by (force simp: kl)
    then have "Link_PidFile l \<notin> set (link_paths m)" using Cons.prems(4) l by (intro link_paths_other) (auto simp: kl)
    then have "wo_files (Link_Stop m s) (Link_PidFile l) = Some d" using Cons.prems(2) by (simp add: Link_Stop_world)
    from Cons.IH [OF l this] Cons.prems(3,4) show ?thesis by (simp add: kl)
  qed
qed simp

section \<open>A worker from start to stop\<close>

abbreviation olaps :: "'l world \<Rightarrow> string list set" where
  "olaps s \<equiv> {args. Run OlapBin args \<in> set (vw_calls (wo_vpn s))}"

abbreviation route_adds :: "nl_call list \<Rightarrow> nl_Route set" where
  "route_adds cs \<equiv> {r. RouteAdd r \<in> set cs}"

text \<open>Servers start no process of a link.\<close>

lemma WriteFile_calls [simp]: "vw_calls (fst (WriteFile env p t w)) = vw_calls w"
  by (simp add: WriteFile_def split: option.split)

lemma WriteFile_calls': "WriteFile env p t w = (w', e) \<Longrightarrow> vw_calls w' = vw_calls w"
  using WriteFile_calls [of env p t w] by simp

lemma fold_calls: "(\<And>x w. vw_calls (f x w) = vw_calls w) \<Longrightarrow> vw_calls (fold f xs w) = vw_calls w"
  by (induction xs arbitrary: w) auto

lemma Clean_calls [simp]: "vw_calls (OpenVPN_Clean cfg obj w) = vw_calls w"
  by (simp add: OpenVPN_Clean_def Let_def fold_calls remove_file_def)

lemma Tmpl_calls [simp]:
  "vw_calls (fst (OpenVPN_ServerTmpl env cfg obj w)) = vw_calls w" "vw_calls (fst (OpenVPN_ProfileTmpl env cfg obj w)) = vw_calls w"
  by (simp_all add: OpenVPN_ServerTmpl_def OpenVPN_ProfileTmpl_def Let_def)

lemma writeClientConfig_calls: "vw_calls (OpenVPN_writeClientConfig env cfg obj w) = vw_calls w @ [Mkdir (OpenVPN_DirectoryClientConfig obj)]"
  by (simp add: OpenVPN_writeClientConfig_def Let_def fold_calls)

lemma WriteConf_calls: "set (vw_calls (fst (OpenVPN_WriteConf env cfg p obj w))) \<subseteq> set (vw_calls w) \<union> range Mkdir"
proof (cases "WriteFile env p [] w")
  case (Pair w1 e)
  note c = WriteFile_calls' [OF Pair]
  show ?thesis
  proof (cases e)
    case None
    define w2 where "w2 = (if vd_ClientConfigDir (NewOpenVpnDataFromConf env cfg obj) \<noteq> [] then OpenVPN_writeClientConfig env cfg obj w1 else w1)"
    have w2: "set (vw_calls w2) \<subseteq> set (vw_calls w) \<union> range Mkdir" by (auto simp: w2_def writeClientConfig_calls c)
    obtain w3 t where t: "OpenVPN_ServerTmpl env cfg obj w2 = (w3, t)" by fastforce
    with Tmpl_calls(1) [of env cfg obj w2] have "vw_calls w3 = vw_calls w2" by simp
    then show ?thesis using Pair None w2 t by (simp add: OpenVPN_WriteConf_def Let_def w2_def)
  qed (simp add: OpenVPN_WriteConf_def Pair c)
qed

lemma Profile_calls: "OpenVPN_Profile env cfg obj w = Inr (w', t) \<Longrightarrow> vw_calls w' = vw_calls w"
  by (cases "OpenVPN_ProfileTmpl env cfg obj w") (use Tmpl_calls(2) [of env cfg obj w] in \<open>auto simp: OpenVPN_Profile_def split: sum.splits\<close>)

lemma vpn_Initialize_calls:
  assumes "OpenVPN_Initialize env obj w = Inr w'"
  shows "set (vw_calls w') \<subseteq> set (vw_calls w) \<union> range Mkdir"
proof (cases "vp_Cfg obj = None \<or> \<not> OpenVPN_ValidConf obj")
  case True
  with assms show ?thesis by (auto simp: OpenVPN_Initialize_def split: option.splits)
next
  case False
  then obtain cfg where cfg: "vp_Cfg obj = Some cfg" "OpenVPN_ValidConf obj" by auto
  let ?w = "vcall (Mkdir (OpenVPN_Directory obj)) (OpenVPN_Clean cfg obj w)"
  obtain w1 e where w1: "OpenVPN_WriteConf env cfg (OpenVPN_FileCfg obj True) obj ?w = (w1, e)" by fastforce
  have "set (vw_calls w1) \<subseteq> set (vw_calls ?w) \<union> range Mkdir"
    using WriteConf_calls [of env cfg "OpenVPN_FileCfg obj True" obj ?w] unfolding w1 fst_conv .
  then have c1: "set (vw_calls w1) \<subseteq> set (vw_calls w) \<union> range Mkdir" by auto
  from assms cfg w1 have "w' = w1 \<or> (\<exists>w2 ctx. OpenVPN_Profile env cfg obj w1 = Inr (w2, ctx) \<and>
      w' = fst (WriteFile env (OpenVPN_FileClient obj True) ctx w2))"
    by (auto simp: OpenVPN_Initialize_def Let_def split: option.splits sum.splits)
  with c1 Profile_calls show ?thesis by fastforce
qed

lemma vpns_Initialize_calls: "vpns_Initialize env objs w = Inr w' \<Longrightarrow> set (vw_calls w') \<subseteq> set (vw_calls w) \<union> range Mkdir"
proof (induction objs arbitrary: w)
  case (Cons obj objs)
  from Cons.prems obtain w1 where w1: "OpenVPN_Initialize env obj w = Inr w1" "vpns_Initialize env objs w1 = Inr w'" by (auto split: sum.splits)
  from vpn_Initialize_calls [OF w1(1)] Cons.IH [OF w1(2)] show ?case by auto
qed simp

lemma vpns_Start_calls: "set (vw_calls (fold (OpenVPN_Start env) objs w)) \<subseteq> set (vw_calls w) \<union> range (Run OpenVPNBin)"
proof (induction objs arbitrary: w)
  case (Cons obj objs)
  have "set (vw_calls (OpenVPN_Start env obj w)) \<subseteq> set (vw_calls w) \<union> range (Run OpenVPNBin)"
    using WriteFile_calls' [of env "OpenVPN_FileLog obj True" "[]" w]
    by (auto simp: OpenVPN_Start_def split: prod.split option.split)
  with Cons.IH [of "OpenVPN_Start env obj w"] show ?case by auto
qed simp

text \<open>The bridge adds no routes.\<close>

lemma Bridger_keeps:
  "Bridger_Name (fst (Bridger_Stp k b br cs)) = Bridger_Name br" "Bridger_Name (fst (Bridger_Delay k v br cs)) = Bridger_Name br"
  "Bridger_Name (fst (Bridger_CallIptables k v br cs)) = Bridger_Name br" "route_adds (snd (Bridger_Stp k b br cs)) = route_adds cs"
  "route_adds (snd (Bridger_Delay k v br cs)) = route_adds cs" "route_adds (snd (Bridger_CallIptables k v br cs)) = route_adds cs"
  by (cases br; simp add: LinuxBridge_Stp_def LinuxBridge_Delay_def LinuxBridge_CallIptables_def BrCtl_Stp_def BrCtl_Delay_def BrCtl_CallIptables_def
      BrCtl_SysPath_def nl_do_def Let_def)+

lemma Bridger_Open_keeps:
  "Bridger_Open k ho addr br cs = Inr (br', cs') \<Longrightarrow> Bridger_Name br' = Bridger_Name br \<and> route_adds cs' = route_adds cs"
  by (cases br) (auto simp: LinuxBridge_Open_def nl_do_def Let_def split: if_splits option.splits)

lemma bridge_up_keeps:
  assumes "bridge_up env cfg br cs = Inr (br', cs')"
  shows "Bridger_Name br' = Bridger_Name br \<and> route_adds cs' = route_adds cs"
proof -
  from assms obtain b1 c1 where o: "Bridger_Open (we_kernel env) (we_host env) (br_Address cfg) br cs = Inr (b1, c1)"
    by (auto simp: bridge_up_def split: sum.splits)
  obtain b2 c2 where st: "Bridger_Stp (we_kernel env) (br_Stp cfg = ''on'') b1 c1 = (b2, c2)" by fastforce
  have d: "Bridger_Delay (we_kernel env) (br_Delay cfg) b2 c2 = (br', cs')" using assms by (simp add: bridge_up_def o st)
  show ?thesis using Bridger_Open_keeps [OF o] Bridger_keeps(1,4) [of "we_kernel env" "br_Stp cfg = ''on''" b1 c1]
      Bridger_keeps(2,5) [of "we_kernel env" "br_Delay cfg" b2 c2] by (simp add: st d)
qed

lemma UpBridge_keeps:
  assumes "OpenLANWorker_UpBridge env w s = Inr (w', s')" and "cn_Bridge (ow_cfg w) = Some br" and "ow_bridge w = Some b"
  obtains b' cs ps where "w' = w\<lparr>ow_bridge := Some b'\<rparr>" and "Bridger_Name b' = Bridger_Name b" and "s' = s\<lparr>wo_nl := cs, wo_jobs := wo_jobs s @ ps\<rparr>"
    and "route_adds cs = route_adds (wo_nl s)" and "set ps \<subseteq> range PeerJob"
proof -
  from assms obtain b1 c1 where u: "bridge_up env br b (wo_nl s) = Inr (b1, c1)" by (auto simp: OpenLANWorker_UpBridge_def split: sum.splits)
  obtain b2 c2 where i: "Bridger_CallIptables (we_kernel env) (if cn_Acl (ow_cfg w) = [] then 0 else 1) b1 c1 = (b2, c2)" by fastforce
  let ?ps = "if br_Peer br = [] then [] else [PeerJob br]"
  have r: "w' = w\<lparr>ow_bridge := Some b2\<rparr>" "s' = s\<lparr>wo_nl := c2, wo_jobs := wo_jobs s @ ?ps\<rparr>"
    using assms by (auto simp: OpenLANWorker_UpBridge_def u i OpenLANWorker_connectPeer_def spawn_def)
  have "Bridger_Name b2 = Bridger_Name b" "route_adds c2 = route_adds (wo_nl s)"
    using bridge_up_keeps [OF u] Bridger_keeps(3,6) [of "we_kernel env" _ b1 c1] i by (metis fst_conv, metis snd_conv)
  then show thesis by (rule that [OF r(1) _ r(2)]) auto
qed

lemma update_append_new: "k \<notin> set (map fst m) \<Longrightarrow> AList.update k v m = m @ [(k, v)]"
  by (induction m) auto

text \<open>Loading links makes one link for each configuration, with numbers of its own.\<close>

lemma AddLink_eq:
  assumes "cn_Bridge (ow_cfg w) = Some br"
  obtains s' js where "OpenLANWorker_AddLink env i w s = Inr (w\<lparr>ow_links := AList.update (cp_Connection (wo_points s i)) (NewLink (we_random env (wo_seed s)) i) (ow_links w)\<rparr>, s')"
    and "wo_seed s' = Suc (wo_seed s)" and "wo_nl s' = wo_nl s" and "vw_calls (wo_vpn s') = vw_calls (wo_vpn s)"
    and "wo_jobs s' = wo_jobs s @ js" and "set js \<subseteq> {LinkJob (NewLink (we_random env (wo_seed s)) i)}"
proof -
  let ?l = "NewLink (we_random env (wo_seed s)) i"
  obtain taps name where g: "tapers_GenName (wo_taps s) = (taps, name)" by fastforce
  define s1 where "s1 = s\<lparr>wo_seed := Suc (wo_seed s), wo_taps := taps, wo_points := (wo_points s)(i := link_config w br name (wo_points s i))\<rparr>"
  define s2 where "s2 = Link_Initialize env ?l s1"
  define s3 where "s3 = s2\<lparr>wo_link := link_Add (ln_uuid ?l) (Link_Model s2 ?l) (wo_link s2)\<rparr>"
  have s2: "wo_seed s2 = Suc (wo_seed s)" "wo_nl s2 = wo_nl s" "vw_calls (wo_vpn s2) = vw_calls (wo_vpn s)" "wo_jobs s2 = wo_jobs s"
    "cp_Connection (wo_points s2 i) = cp_Connection (wo_points s i)"
    by (simp_all add: s2_def s1_def Link_Initialize_def NewLink_def Let_def link_config_def)
  have e: "OpenLANWorker_AddLink env i w s = Inr (w\<lparr>ow_links := AList.update (cp_Connection (wo_points s i)) ?l (ow_links w)\<rparr>, Link_Start env ?l s3)"
    using s2(5) by (simp add: OpenLANWorker_AddLink_def assms g s1_def [symmetric] s2_def [symmetric] s3_def [symmetric] Links_Add_def NewLink_def Let_def)
      (simp add: s3_def s2_def s1_def NewLink_def Links_Add_def)
  obtain v er where v: "WriteFile (we_vpn env) (Link_LogFile ?l) [] (wo_vpn s3) = (v, er)" by fastforce
  have "vw_calls v = vw_calls (wo_vpn s3)" using WriteFile_calls' [OF v] .
  moreover have "wo_seed s3 = Suc (wo_seed s)" "wo_nl s3 = wo_nl s" "vw_calls (wo_vpn s3) = vw_calls (wo_vpn s)" "wo_jobs s3 = wo_jobs s"
    using s2 by (simp_all add: s3_def)
  ultimately show thesis using that [OF e, of "if er = None then [LinkJob ?l] else []"] by (cases er) (simp_all add: Link_Start_def v spawn_def)
qed

lemma LoadLinks_loop_eq:
  assumes "cn_Bridge (ow_cfg w) = Some br" and "distinct (map fst (ow_links w) @ map (\<lambda>p. cp_Connection (Point_Default (we_host env) p)) lins)"
  obtains s' js where "LoadLinks_loop env i lins w s = Inr (w\<lparr>ow_links := ow_links w @
      zip (map (\<lambda>p. cp_Connection (Point_Default (we_host env) p)) lins) (map (\<lambda>j. NewLink (we_random env j) i) [wo_seed s..<wo_seed s + length lins])\<rparr>, s')"
    and "wo_nl s' = wo_nl s" and "vw_calls (wo_vpn s') = vw_calls (wo_vpn s)" and "wo_jobs s' = wo_jobs s @ js"
    and "set js \<subseteq> LinkJob ` (\<lambda>j. NewLink (we_random env j) i) ` {wo_seed s..<wo_seed s + length lins}"
  using assms
proof (induction lins arbitrary: w s thesis)
  case Nil
  show ?case by (rule Nil.prems(1) [of s "[]"]) simp_all
next
  case (Cons lin lins)
  let ?s = "s\<lparr>wo_points := (wo_points s)(i := Point_Default (we_host env) lin)\<rparr>" and ?l = "NewLink (we_random env (wo_seed s)) i"
  let ?c = "cp_Connection (Point_Default (we_host env) lin)" and ?cs = "map (\<lambda>p. cp_Connection (Point_Default (we_host env) p)) lins"
  let ?w = "w\<lparr>ow_links := ow_links w @ [(?c, ?l)]\<rparr>"
  obtain s1 j1 where a: "OpenLANWorker_AddLink env i w ?s = Inr (w\<lparr>ow_links := AList.update ?c ?l (ow_links w)\<rparr>, s1)"
    "wo_seed s1 = Suc (wo_seed s)" "wo_nl s1 = wo_nl s" "vw_calls (wo_vpn s1) = vw_calls (wo_vpn s)" "wo_jobs s1 = wo_jobs s @ j1" "set j1 \<subseteq> {LinkJob ?l}"
    using AddLink_eq [OF Cons.prems(2), of env i ?s] by auto
  have up: "AList.update ?c ?l (ow_links w) = ow_links w @ [(?c, ?l)]"
    using Cons.prems(3) by (intro update_append_new) auto
  have w: "cn_Bridge (ow_cfg ?w) = Some br" "distinct (map fst (ow_links ?w) @ ?cs)" using Cons.prems(2,3) by auto
  obtain s2 j2 where b: "LoadLinks_loop env i lins ?w s1 = Inr (?w\<lparr>ow_links := ow_links ?w @ zip ?cs (map (\<lambda>j. NewLink (we_random env j) i) [wo_seed s1..<wo_seed s1 + length lins])\<rparr>, s2)"
    "wo_nl s2 = wo_nl s1" "vw_calls (wo_vpn s2) = vw_calls (wo_vpn s1)" "wo_jobs s2 = wo_jobs s1 @ j2"
    "set j2 \<subseteq> LinkJob ` (\<lambda>j. NewLink (we_random env j) i) ` {wo_seed s1..<wo_seed s1 + length lins}"
    using Cons.IH [OF _ w] by blast
  show ?case
  proof (rule Cons.prems(1) [of s2 "j1 @ j2"])
    show "LoadLinks_loop env i (lin # lins) w s = Inr (w\<lparr>ow_links := ow_links w @ zip (map (\<lambda>p. cp_Connection (Point_Default (we_host env) p)) (lin # lins))
        (map (\<lambda>j. NewLink (we_random env j) i) [wo_seed s..<wo_seed s + length (lin # lins)])\<rparr>, s2)"
      using a(1,2) b(1) upt_conv_Cons [of "wo_seed s" "wo_seed s + length (lin # lins)"] by (simp add: up del: upt_Suc)
    show "set (j1 @ j2) \<subseteq> LinkJob ` (\<lambda>j. NewLink (we_random env j) i) ` {wo_seed s..<wo_seed s + length (lin # lins)}"
      using a(2,6) b(5) by fastforce
  qed (use a b in simp_all)
qed

text \<open>The runs of a worker: it is initialised and started; then its jobs take their turns, and processes change files.\<close>

inductive worker_run :: "wenv \<Rightarrow> co_Network \<Rightarrow> 'l world \<Rightarrow> OpenLANWorker \<times> 'l world \<Rightarrow> bool" for env c s0 where
  run_start: "OpenLANWorker_Initialize env (NewOpenLANWorker now c) s0 = Inr (w, s) \<Longrightarrow> OpenLANWorker_Start env uuid w s = Inr (w', s') \<Longrightarrow>
    worker_run env c s0 (w', s')"
| run_turn: "worker_run env c s0 (w, s) \<Longrightarrow> worker_run env c s0 (w, run_job env i s)"
| run_files: "worker_run env c s0 (w, s) \<Longrightarrow> worker_run env c s0 (w, on_vpn (vw_files_update (\<lambda>_. fs)) s)"

abbreviation if_addr :: "co_Bridge \<Rightarrow> string" where
  "if_addr br \<equiv> fst (split_at (CHR ''/'') (br_Address br))"

definition worker_inv :: "wenv \<Rightarrow> co_Network \<Rightarrow> 'l world \<Rightarrow> OpenLANWorker \<times> 'l world \<Rightarrow> bool" where
  "worker_inv env c s0 = (\<lambda>(w, s). ow_cfg w = c \<and>
     (\<exists>br b. cn_Bridge c = Some br \<and> ow_bridge w = Some b \<and> Bridger_Name b = br_Name br \<and>
       (\<forall>r. RouteJob r \<in> set (wo_jobs s) \<or> r \<in> route_adds (wo_nl s) - route_adds (wo_nl s0) \<longrightarrow>
          r \<in> set (List.map_filter (load_route (we_host env) (br_Name br) (if_addr br)) (cn_Routes c)))) \<and>
     (\<forall>l. LinkJob l \<in> set (wo_jobs s) \<longrightarrow> l \<in> set (map snd (ow_links w))) \<and>
     (\<forall>args \<in> olaps s - olaps s0. \<exists>l \<in> set (map snd (ow_links w)). args ! 5 = Link_ConfFile l) \<and>
     (\<exists>i js. map snd (ow_links w) = map (\<lambda>j. NewLink (we_random env j) i) js \<and> distinct js))"

lemma Initialize_world:
  assumes "OpenLANWorker_Initialize env (NewOpenLANWorker now c) s0 = Inr (w, s)"
  obtains br b where "cn_Bridge c = Some br" and "ow_bridge w = Some b" and "Bridger_Name b = br_Name br" and "ow_cfg w = c" and "ow_links w = []"
    and "wo_nl s = wo_nl s0" and "wo_jobs s = wo_jobs s0" and "olaps s \<subseteq> olaps s0"
proof -
  from assms obtain br v where br: "cn_Bridge c = Some br" and v: "vpns_Initialize (we_vpn env) (network_vpns c) (wo_vpn s0) = Inr v"
    and w: "ow_bridge w = Some (NewBridger (br_Provider br) (br_Name br) (br_IPMtu br))" "ow_cfg w = c" "ow_links w = []"
    and s: "wo_nl s = wo_nl s0" "wo_jobs s = wo_jobs s0" "wo_vpn s = v"
    by (auto simp: OpenLANWorker_Initialize_def NewOpenLANWorker_def NewLinks_def Let_def split: sum.splits option.splits)
  have "Bridger_Name (NewBridger p n m) = n" for p n m by (simp add: NewBridger_def NewLinuxBridge_def NewVirtualBridge_def Let_def)
  moreover have "olaps s \<subseteq> olaps s0" using vpns_Initialize_calls [OF v] s(3) by auto
  ultimately show thesis using that br w s(1,2) by blast
qed

lemma worker_start_inv:
  assumes i: "OpenLANWorker_Initialize env (NewOpenLANWorker now c) s0 = Inr (w, s)" and st: "OpenLANWorker_Start env uuid w s = Inr (w', s')"
    and "wo_jobs s0 = []" and d: "distinct (map (\<lambda>p. cp_Connection (Point_Default (we_host env) p)) (cn_Links c))"
  shows "worker_inv env c s0 (w', s')"
proof -
  obtain br b where br: "cn_Bridge c = Some br" "ow_bridge w = Some b" "Bridger_Name b = br_Name br" "ow_cfg w = c" "ow_links w = []"
    "wo_nl s = wo_nl s0" "wo_jobs s = wo_jobs s0" "olaps s \<subseteq> olaps s0" using Initialize_world [OF i] .
  from st obtain w1 s1 where u: "OpenLANWorker_UpBridge env w s = Inr (w1, s1)" by (auto simp: OpenLANWorker_Start_def split: sum.splits)
  obtain b1 cs ps where b1: "w1 = w\<lparr>ow_bridge := Some b1\<rparr>" "Bridger_Name b1 = Bridger_Name b" "s1 = s\<lparr>wo_nl := cs, wo_jobs := wo_jobs s @ ps\<rparr>"
    "route_adds cs = route_adds (wo_nl s)" "set ps \<subseteq> range PeerJob"
    by (rule UpBridge_keeps [OF u _ br(2), unfolded br(4), OF br(1)])
  let ?w = "w1\<lparr>ow_uuid := uuid\<rparr>" and ?cs = "map (\<lambda>p. cp_Connection (Point_Default (we_host env) p)) (cn_Links c)" and ?s = "s1\<lparr>wo_next := wo_next s1 + 1\<rparr>"
  let ?ls = "map (\<lambda>j. NewLink (we_random env j) (wo_next s1)) [wo_seed s1..<wo_seed s1 + length (cn_Links c)]"
  have w: "cn_Bridge (ow_cfg ?w) = Some br" "distinct (map fst (ow_links ?w) @ ?cs)" using br b1 d by simp_all
  obtain s2 js where l: "LoadLinks_loop env (wo_next s1) (cn_Links c) ?w ?s = Inr (?w\<lparr>ow_links := ow_links ?w @ zip ?cs ?ls\<rparr>, s2)"
    "wo_nl s2 = wo_nl s1" "vw_calls (wo_vpn s2) = vw_calls (wo_vpn s1)" "wo_jobs s2 = wo_jobs s1 @ js" "set js \<subseteq> LinkJob ` set ?ls"
    by (rule LoadLinks_loop_eq [OF w, of "wo_next s1" ?s]) (rule that, simp_all)
  define w2 where "w2 = ?w\<lparr>ow_links := zip ?cs ?ls\<rparr>"
  have ll: "OpenLANWorker_LoadLinks env ?w s1 = Inr (w2, s2)"
    using l(1) br(4,5) b1(1) by (simp add: OpenLANWorker_LoadLinks_def w2_def)
  have w2: "ow_cfg w2 = c" "ow_bridge w2 = Some b1" "map snd (ow_links w2) = ?ls" using br b1 by (simp_all add: w2_def)
  let ?rs = "List.map_filter (load_route (we_host env) (br_Name br) (if_addr br)) (cn_Routes c)"
  from st obtain s3 where lr: "OpenLANWorker_LoadRoutes env w2 s2 = Inr s3" and r: "w' = w2\<lparr>ow_startTime := we_now env\<rparr>"
    "s' = on_vpn (fold (OpenVPN_Start (we_vpn env)) (ow_openVPN w2)) s3" by (auto simp: OpenLANWorker_Start_def u ll split: sum.splits)
  have s3: "wo_nl s3 = wo_nl s2" "wo_vpn s3 = wo_vpn s2" "set (wo_jobs s3) \<subseteq> set (wo_jobs s2) \<union> RouteJob ` set ?rs"
    using lr w2 br(1,3) b1(2) by (auto simp: OpenLANWorker_LoadRoutes_def spawn_def Let_def split: if_splits)
  have jobs: "set (wo_jobs s') \<subseteq> range PeerJob \<union> LinkJob ` set ?ls \<union> RouteJob ` set ?rs"
    using s3(3) l(4,5) b1(3,5) br(7) assms(3) r(2) by auto
  have "olaps s' \<subseteq> olaps s0"
    using vpns_Start_calls [of "we_vpn env" "ow_openVPN w2" "wo_vpn s3"] s3(2) l(3) b1(3) br(8) r(2) by (auto simp: OpenVPNBin_def OlapBin_def)
  moreover have "route_adds (wo_nl s') = route_adds (wo_nl s0)" using r(2) s3(1) l(2) b1(3,4) br(6) by simp
  moreover have "snd ` set (ow_links w2) = set ?ls" using arg_cong [OF w2(3), of set] by simp
  ultimately show ?thesis using jobs w2 br(1,3) b1(2) r(1)
    by (auto simp: worker_inv_def intro!: exI [of _ "[wo_seed s1..<wo_seed s1 + length (cn_Links c)]"])
qed

lemma connect_routes: "route_adds (fst (connect_attempt k cfg cs)) = route_adds cs"
proof -
  have "route_adds (fst (BrCtl_AddPort k p br cs)) = route_adds cs" for p br cs
    by (auto simp: BrCtl_AddPort_def nl_do_def split: option.split)
  then have a: "BrCtl_AddPort k p br cs = (cs', e) \<Longrightarrow> route_adds cs' = route_adds cs" for p br cs cs' e
    by (metis fst_conv)
  show ?thesis by (auto simp: connect_attempt_def nl_do_def Let_def split: option.split prod.split dest!: a)
qed

lemma job_turn_keeps:
  assumes "job_turn env j s = (s', again)"
  shows "wo_jobs s' = wo_jobs s" and "route_adds (wo_nl s') \<subseteq> route_adds (wo_nl s) \<union> {r. j = RouteJob r}"
    and "\<forall>args \<in> olaps s' - olaps s. \<exists>l. j = LinkJob l \<and> args ! 5 = Link_ConfFile l"
proof -
  have c: "connect_attempt k cfg cs = (cs', e) \<Longrightarrow> route_adds cs' = route_adds cs" for k cfg cs cs' e
    using connect_routes [of k cfg cs] by simp
  have u: "UDPBin \<noteq> OlapBin" by (simp add: UDPBin_def OlapBin_def)
  show "wo_jobs s' = wo_jobs s" using assms
    by (cases j) (auto simp: job_turn_def nl_do_def link_run_def Let_def split: prod.splits)
  show "route_adds (wo_nl s') \<subseteq> route_adds (wo_nl s) \<union> {r. j = RouteJob r}" using assms
    by (cases j) (auto simp: job_turn_def nl_do_def link_run_def Let_def split: prod.splits dest!: c)
  show "\<forall>args \<in> olaps s' - olaps s. \<exists>l. j = LinkJob l \<and> args ! 5 = Link_ConfFile l" using assms
    by (cases j) (auto simp: job_turn_def nl_do_def link_run_def OpenUDP_def u not_sym [OF u] Let_def split: prod.splits)
qed

lemma run_job_world:
  assumes "i < length (wo_jobs s)" and "job_turn env (wo_jobs s ! i) s = (s1, again)"
  shows "set (wo_jobs (run_job env i s)) \<subseteq> set (wo_jobs s)" and "wo_nl (run_job env i s) = wo_nl s1" and "wo_vpn (run_job env i s) = wo_vpn s1"
  using assms job_turn_keeps(1) [OF assms(2)] by (auto simp: run_job_def dest: in_set_takeD in_set_dropD)

lemma worker_turn_inv:
  assumes "worker_inv env c s0 (w, s)"
  shows "worker_inv env c s0 (w, run_job env i s)"
proof (cases "i < length (wo_jobs s)")
  case True
  obtain s1 again where t: "job_turn env (wo_jobs s ! i) s = (s1, again)" by fastforce
  note r = run_job_world [OF True t] and k = job_turn_keeps [OF t]
  have j: "wo_jobs s ! i \<in> set (wo_jobs s)" using True by simp
  have links: "\<forall>args \<in> olaps (run_job env i s) - olaps s0. \<exists>l \<in> set (map snd (ow_links w)). args ! 5 = Link_ConfFile l"
  proof
    fix args assume a: "args \<in> olaps (run_job env i s) - olaps s0"
    show "\<exists>l \<in> set (map snd (ow_links w)). args ! 5 = Link_ConfFile l"
    proof (cases "args \<in> olaps s")
      case True
      with a assms show ?thesis by (auto simp: worker_inv_def)
    next
      case False
      with a k(3) r(3) obtain l where "wo_jobs s ! i = LinkJob l" "args ! 5 = Link_ConfFile l" by auto
      with j assms show ?thesis by (auto simp: worker_inv_def)
    qed
  qed
  have rt: "RouteJob r \<in> set (wo_jobs s) \<or> r \<in> route_adds (wo_nl s) - route_adds (wo_nl s0)"
    if "RouteJob r \<in> set (wo_jobs (run_job env i s)) \<or> r \<in> route_adds (wo_nl (run_job env i s)) - route_adds (wo_nl s0)" for r
    using that r(1,2) k(2) j by auto
  from assms have inv: "ow_cfg w = c" "\<forall>l. LinkJob l \<in> set (wo_jobs s) \<longrightarrow> l \<in> set (map snd (ow_links w))"
    "\<exists>i js. map snd (ow_links w) = map (\<lambda>j. NewLink (we_random env j) i) js \<and> distinct js" by (simp_all add: worker_inv_def)
  from assms obtain br b where "cn_Bridge c = Some br" "ow_bridge w = Some b" "Bridger_Name b = br_Name br"
    "\<forall>r. RouteJob r \<in> set (wo_jobs s) \<or> r \<in> route_adds (wo_nl s) - route_adds (wo_nl s0) \<longrightarrow>
      r \<in> set (List.map_filter (load_route (we_host env) (br_Name br) (if_addr br)) (cn_Routes c))" by (auto simp: worker_inv_def)
  with rt inv links r(1) show ?thesis unfolding worker_inv_def prod.case by blast
qed (use assms in \<open>simp add: run_job_def\<close>)

lemma worker_run_inv:
  assumes "worker_run env c s0 x" and "wo_jobs s0 = []" and "distinct (map (\<lambda>p. cp_Connection (Point_Default (we_host env) p)) (cn_Links c))"
  shows "worker_inv env c s0 x"
  using assms(1)
proof induction
  case (run_start now w s uuid w' s')
  from worker_start_inv [OF run_start assms(2,3)] show ?case .
next
  case (run_turn w s i)
  from worker_turn_inv [OF run_turn.IH] show ?case .
next
  case (run_files w s fs)
  then show ?case by (simp add: worker_inv_def)
qed

text \<open>Deleting a route finds every route that agrees with the fields it gives.\<close>

definition route_covers :: "nl_Route \<Rightarrow> nl_Route \<Rightarrow> bool" where
  "route_covers d r \<longleftrightarrow> nr_Dst d = nr_Dst r \<and> nr_Link d \<in> {None, nr_Link r} \<and> nr_Gw d \<in> {None, nr_Gw r} \<and> nr_Priority d \<in> {0, nr_Priority r}"

lemma unload_covers: "load_route ho dev a rt = Some r \<Longrightarrow> \<exists>d. unload_route ho dev rt = Some d \<and> route_covers d r"
  by (auto simp: load_route_def unload_route_def route_covers_def zero_route_def split: option.splits if_splits)

lemma map_filter_in: "y \<in> set (List.map_filter f xs) \<longleftrightarrow> (\<exists>x \<in> set xs. f x = Some y)"
  by (induction xs) (auto split: option.split)

lemma Bridger_Close_more: "set cs \<subseteq> set (Bridger_Close k b cs)"
  by (cases b) (auto simp: LinuxBridge_Close_def nl_do_def split: option.split)


section \<open>Instances\<close>

definition kernel_any :: kernel where
  "kernel_any = \<lparr>ke_has = (\<lambda>_ _. True), ke_err = (\<lambda>_ _. None)\<rparr>"

definition wenv_demo :: wenv where
  "wenv_demo = \<lparr>we_kernel = kernel_any, we_host = host_demo, we_vpn = vpnenv_demo,
     we_fabric = \<lparr>fe_AddBridge = None, fe_AddPort = (\<lambda>_. None), fe_SetInterface = (\<lambda>_. None), fe_DumpPort = (\<lambda>_. None), fe_LinkByName = (\<lambda>_. True),
       fe_LinkAdd = (\<lambda>_. None)\<rparr>, we_now = 5, we_json = (\<lambda>_. []), we_random = (\<lambda>n. replicate n (CHR ''a''))\<rparr>"

definition world_demo :: "nat world" where
  "world_demo = \<lparr>wo_vpn = \<lparr>vw_files = Map.empty, vw_calls = []\<rparr>, wo_nl = [], wo_jobs = [], wo_points = (\<lambda>_. DefaultPoint host_demo), wo_next = 0,
     wo_seed = 0, wo_taps = \<lparr>tps_index = 0, tps_devices = []\<rparr>, wo_link = \<lparr>kc_Links = NewSafeStrMap 8\<rparr>, wo_esp = cache_Esp, wo_user = users_demo,
     wo_network = cache_Network, wo_firewall = NewFireWall []\<rparr>"

definition lan_demo :: co_Network where
  "lan_demo = worker_demo\<lparr>cn_Bridge := Some (zero_bridge\<lparr>br_Name := ''br-dev''\<rparr>), cn_OpenVPN := None, cn_Links := [DefaultPoint host_demo],
     cn_Routes := [\<lparr>pr_File = [], pr_Network = [], pr_Prefix = ''10.0.0.0/8'', pr_NextHop = ''1.2.3.4'', pr_MultiPath = None, pr_Metric = 7, pr_Mode = []\<rparr>]\<rparr>"

lemma worker_run_starts:
  assumes "cn_Bridge c = Some br" and "cn_Subnet c = Some sub" and "cn_OpenVPN c = None" and "br_Address br = []" and "we_kernel env = kernel_any"
    and "distinct (map (\<lambda>p. cp_Connection (Point_Default (we_host env) p)) (cn_Links c))"
  obtains w s where "worker_run env c s0 (w, s)"
    and "RouteJob ` set (List.map_filter (load_route (we_host env) (br_Name br) []) (cn_Routes c)) \<subseteq> set (wo_jobs s)"
proof -
  let ?b = "NewBridger (br_Provider br) (br_Name br) (br_IPMtu br)"
  let ?w = "(NewOpenLANWorker 0 c)\<lparr>ow_bridge := Some ?b\<rparr>"
  obtain users nets where "Initialize_caches (we_now env) c (wo_user s0) (wo_network s0) = Inr (users, nets)"
    using assms(1,2) by (simp add: Initialize_caches_def Let_def)
  then have i: "OpenLANWorker_Initialize env (NewOpenLANWorker 0 c) s0 = Inr (?w, s0\<lparr>wo_user := users, wo_network := nets\<rparr>)" (is "_ = Inr (_, ?s)")
    using assms(1,3) by (simp add: OpenLANWorker_Initialize_def NewOpenLANWorker_def network_vpns_def Let_def)
  have "\<exists>b cs. bridge_up env br ?b (wo_nl ?s) = Inr (b, cs)"
    by (cases ?b) (simp_all add: bridge_up_def assms(4,5) kernel_any_def LinuxBridge_Open_def nl_do_def Let_def split: prod.split)
  then obtain b cs where b: "bridge_up env br ?b (wo_nl ?s) = Inr (b, cs)" by blast
  obtain b2 c2 where "Bridger_CallIptables (we_kernel env) (if cn_Acl c = [] then 0 else 1) b cs = (b2, c2)" by fastforce
  with b assms(1) obtain w1 s1 where u: "OpenLANWorker_UpBridge env ?w ?s = Inr (w1, s1)"
    by (simp add: OpenLANWorker_UpBridge_def NewOpenLANWorker_def Let_def)
  obtain b1 cs ps where b1: "w1 = ?w\<lparr>ow_bridge := Some b1\<rparr>" "Bridger_Name b1 = Bridger_Name ?b"
    by (rule UpBridge_keeps [OF u, of br ?b]) (simp_all add: assms(1) NewOpenLANWorker_def)
  have n: "Bridger_Name b1 = br_Name br" using b1(2) by (simp add: NewBridger_def NewLinuxBridge_def NewVirtualBridge_def Let_def)
  let ?w1 = "w1\<lparr>ow_uuid := []\<rparr>"
  have w: "cn_Bridge (ow_cfg ?w1) = Some br" "distinct (map fst (ow_links ?w1) @ map (\<lambda>p. cp_Connection (Point_Default (we_host env) p)) (cn_Links c))"
    using assms(1,6) by (simp_all add: b1(1) NewOpenLANWorker_def NewLinks_def)
  obtain ls s2 where l: "OpenLANWorker_LoadLinks env ?w1 s1 = Inr (?w1\<lparr>ow_links := ls\<rparr>, s2)"
    by (rule LoadLinks_loop_eq [OF w, of "wo_next s1" "s1\<lparr>wo_next := wo_next s1 + 1\<rparr>"])
      (rule that, simp add: OpenLANWorker_LoadLinks_def b1(1) NewOpenLANWorker_def)
  let ?rs = "List.map_filter (load_route (we_host env) (br_Name br) []) (cn_Routes c)"
  have lr: "OpenLANWorker_LoadRoutes env (?w1\<lparr>ow_links := ls\<rparr>) s2 = Inr (spawn (map RouteJob ?rs) s2)"
    using assms(1,4,5) n by (simp add: OpenLANWorker_LoadRoutes_def b1(1) NewOpenLANWorker_def kernel_any_def Let_def)
  obtain w' s' where s': "OpenLANWorker_Start env [] ?w ?s = Inr (w', s')" "wo_jobs s' = wo_jobs s2 @ map RouteJob ?rs"
    using lr by (simp add: OpenLANWorker_Start_def u l spawn_def)
  show thesis by (rule that [OF run_start [OF i s'(1)]]) (simp add: s'(2))
qed



end
