(* ===== verification/Schema.thy ===== *)
theory Schema
  imports Workers
begin

text \<open>What the HTTP interface of the switch shows of the caches (\<open>src/pkg/schema/*.go\<close>, \<open>src/pkg/models/schema.go\<close>): one record per type of the
  schema, with the fields that are set, and its conversion. Times are texts by a parameter \<open>fmt\<close> and back by \<open>unfmt\<close>.\<close>

section \<open>Types\<close>

record sc_Network =
  jw_Name :: string
  jw_IfAddr :: string
  jw_IpStart :: string
  jw_IpEnd :: string
  jw_Netmask :: string
  jw_Routes :: "Route list"

record sc_Point =
  jp_Uptime :: int
  jp_UUID :: string
  jp_Network :: string
  jp_User :: string
  jp_Alias :: string
  jp_Protocol :: string
  jp_Remote :: string
  jp_Device :: string
  jp_RxBytes :: i64
  jp_TxBytes :: i64
  jp_ErrPkt :: i64
  jp_State :: string
  jp_AliveTime :: int
  jp_System :: string

record sc_Link =
  jl_Uptime :: int
  jl_UUID :: string
  jl_Network :: string
  jl_User :: string
  jl_Protocol :: string
  jl_Server :: string
  jl_Device :: string
  jl_RxBytes :: i64
  jl_TxBytes :: i64
  jl_ErrPkt :: i64
  jl_State :: string
  jl_AliveTime :: int

record sc_Neighbor =
  jn_Uptime :: int
  jn_HwAddr :: string
  jn_IpAddr :: string
  jn_Client :: string
  jn_Network :: string
  jn_Device :: string

record sc_OnLine =
  jo_HitTime :: int
  jo_UpTime :: int
  jo_EthType :: u16
  jo_IpSource :: string
  jo_IpDest :: string
  jo_IpProto :: string
  jo_PortSource :: u16
  jo_PortDest :: u16

record sc_User =
  ju_Alias :: string
  ju_Role :: string
  ju_Name :: string
  ju_Password :: string
  ju_Network :: string
  ju_Lease :: string

record sc_Worker =
  jk_Uptime :: int
  jk_UUID :: string
  jk_Alias :: string
  jk_Protocol :: string

record sc_Device =
  jd_Name :: string
  jd_Provider :: string
  jd_Mtu :: int

record sc_HwMacInfo =
  jm_Uptime :: int
  jm_Address :: string
  jm_Device :: string

record sc_Bridge =
  jb_Device :: sc_Device
  jb_Macs :: "sc_HwMacInfo list"
  jb_Slaves :: "sc_Device list"
  jb_Stats :: DeviceStats

record sc_Index =
  ji_Worker :: sc_Worker
  ji_Points :: "sc_Point list"
  ji_Links :: "sc_Link list"
  ji_Neighbors :: "sc_Neighbor list"
  ji_OnLines :: "sc_OnLine list"
  ji_Clients :: "VPNClient list"
  ji_States :: "md_EspState list"

section \<open>Conversions\<close>

definition stat_of :: "string \<Rightarrow> (string \<times> i64) list \<Rightarrow> i64" where
  "stat_of k sts = (case map_of sts k of None \<Rightarrow> 0 | Some n \<Rightarrow> n)"

text \<open>A point without a client or device panics.\<close>

definition NewPointSchema :: "('c, 'l) env \<Rightarrow> ('c, 'l) state \<Rightarrow> Point \<Rightarrow> sc_Point result" where
  "NewPointSchema env s p =
     (case (sys_heap (st_sys s) (pt_Client p), Option.bind (pt_Device p) (st_taps s)) of
        (Some client, Some dev) \<Rightarrow>
          (let sts = SocketClientImpl_Statistics client
           in Inr \<lparr>jp_Uptime = pt_Uptime p, jp_UUID = pt_UUID p, jp_Network = pt_Network p, jp_User = pt_User p, jp_Alias = pt_Alias p,
                jp_Protocol = pt_Protocol p, jp_Remote = StreamSocket_String client, jp_Device = vt_name dev, jp_RxBytes = stat_of CsRecvOkay sts,
                jp_TxBytes = stat_of CsSendOkay sts, jp_ErrPkt = stat_of CsSendError sts,
                jp_State = SocketStatus_String (SocketClientImpl_Status client), jp_AliveTime = SocketClientImpl_AliveTime (en_now env) client,
                jp_System = pt_System p\<rparr>)
      | _ \<Rightarrow> Inl nil_deref)"

text \<open>\<open>load\<close> reads the status file of a link; a file that cannot be read gives the zero value.\<close>

definition Link_Status :: "(string \<Rightarrow> sc_Point) \<Rightarrow> Link \<Rightarrow> sc_Point" where
  "Link_Status load l = load (lk_StatusFile l)"

definition NewLinkSchema :: "(string \<Rightarrow> sc_Point) \<Rightarrow> Link \<Rightarrow> sc_Link" where
  "NewLinkSchema load l =
     (let sts = Link_Status load l
      in \<lparr>jl_Uptime = jp_Uptime sts, jl_UUID = jp_UUID sts, jl_Network = jp_Network sts, jl_User = jp_User sts, jl_Protocol = jp_Protocol sts,
          jl_Server = jp_Remote sts, jl_Device = jp_Device sts, jl_RxBytes = jp_RxBytes sts, jl_TxBytes = jp_TxBytes sts, jl_ErrPkt = jp_ErrPkt sts,
          jl_State = jp_State sts, jl_AliveTime = jp_AliveTime sts\<rparr>)"

definition NewNeighborSchema :: "(byte list \<Rightarrow> string) \<Rightarrow> int \<Rightarrow> Neighbor \<Rightarrow> sc_Neighbor" where
  "NewNeighborSchema s6 now n = \<lparr>jn_Uptime = Neighbor_UpTime now n, jn_HwAddr = hw_string (ng_HwAddr n), jn_IpAddr = IP_String s6 (ng_IpAddr n),
     jn_Client = ng_Client n, jn_Network = ng_Network n, jn_Device = ng_Device n\<rparr>"

definition NewOnLineSchema :: "(byte list \<Rightarrow> string) \<Rightarrow> int \<Rightarrow> Line \<Rightarrow> sc_OnLine" where
  "NewOnLineSchema s6 now l = \<lparr>jo_HitTime = Line_LastTime now l, jo_UpTime = Line_UpTime now l, jo_EthType = ln_EthType l,
     jo_IpSource = IP_String s6 (ln_IpSource l), jo_IpDest = IP_String s6 (ln_IpDest l), jo_IpProto = IpProto2Str (ln_IpProtocol l),
     jo_PortSource = ln_PortSource l, jo_PortDest = ln_PortDest l\<rparr>"

definition NewUserSchema :: "(int \<Rightarrow> string) \<Rightarrow> User \<Rightarrow> sc_User" where
  "NewUserSchema fmt u = \<lparr>ju_Alias = us_Alias u, ju_Role = us_Role u, ju_Name = us_Name u, ju_Password = us_Password u, ju_Network = us_Network u,
     ju_Lease = fmt (us_Lease u)\<rparr>"

definition SchemaToUserModel :: "(string \<Rightarrow> int) \<Rightarrow> int \<Rightarrow> sc_User \<Rightarrow> User" where
  "SchemaToUserModel unfmt now user = User_Update now (zero_user\<lparr>us_Alias := ju_Alias user, us_Password := ju_Password user, us_Name := ju_Name user,
     us_Network := ju_Network user, us_Role := ju_Role user, us_Lease := unfmt (ju_Lease user)\<rparr>)"

definition NewNetworkSchema :: "Network \<Rightarrow> sc_Network" where
  "NewNetworkSchema n = \<lparr>jw_Name = nt_Name n, jw_IfAddr = nt_IfAddr n, jw_IpStart = nt_IpStart n, jw_IpEnd = nt_IpEnd n, jw_Netmask = nt_Netmask n,
     jw_Routes = nt_Routes n\<rparr>"

definition NewWorkerSchema :: "int \<Rightarrow> string \<Rightarrow> int \<Rightarrow> string \<Rightarrow> co_Switch option \<Rightarrow> sc_Worker" where
  "NewWorkerSchema now uuid newTime alias cfg = \<lparr>jk_Uptime = now - newTime, jk_UUID = uuid, jk_Alias = alias,
     jk_Protocol = (case cfg of None \<Rightarrow> [] | Some c \<Rightarrow> cs_Protocol c)\<rparr>"

text \<open>\<open>sort.SliceStable\<close>; entries that are not less than each other keep their order.\<close>

fun insert_stable :: "('a \<Rightarrow> 'a \<Rightarrow> bool) \<Rightarrow> 'a \<Rightarrow> 'a list \<Rightarrow> 'a list" where
  "insert_stable lt x [] = [x]"
| "insert_stable lt x (y # ys) = (if lt y x then y # insert_stable lt x ys else x # y # ys)"

definition SliceStable :: "('a \<Rightarrow> 'a \<Rightarrow> bool) \<Rightarrow> 'a list \<Rightarrow> 'a list" where
  "SliceStable lt xs = foldr (insert_stable lt) xs []"

definition str_lt :: "string \<Rightarrow> string \<Rightarrow> bool" where
  "str_lt a b \<longleftrightarrow> \<not> str_le b a"

text \<open>The elements of a channel before nil.\<close>

definition until_nil :: "'a option list \<Rightarrow> 'a list" where
  "until_nil xs = map the (takeWhile (\<lambda>x. x \<noteq> None) xs)"

fun map_result :: "('a \<Rightarrow> 'b result) \<Rightarrow> 'a list \<Rightarrow> 'b list result" where
  "map_result f [] = Inr []"
| "map_result f (x # xs) = (case f x of Inl e \<Rightarrow> Inl e | Inr y \<Rightarrow> (case map_result f xs of Inl e \<Rightarrow> Inl e | Inr ys \<Rightarrow> Inr (y # ys)))"

section \<open>Sorting\<close>

text \<open>A strict weak order, as the argument of \<open>SliceStable\<close> has to be.\<close>

locale weak_order =
  fixes lt :: "'a \<Rightarrow> 'a \<Rightarrow> bool"
  assumes asym: "lt a b \<Longrightarrow> \<not> lt b a"
    and cotrans: "lt a c \<Longrightarrow> lt a b \<or> lt b c"
begin

lemma set_insert: "set (insert_stable lt x ys) = insert x (set ys)"
  by (induction ys) auto

lemma insert_sorted: "sorted_wrt (\<lambda>a b. \<not> lt b a) ys \<Longrightarrow> sorted_wrt (\<lambda>a b. \<not> lt b a) (insert_stable lt x ys)"
  by (induction ys) (auto simp: set_insert dest: asym cotrans)

lemma SliceStable_sorted: "sorted_wrt (\<lambda>a b. \<not> lt b a) (SliceStable lt xs)"
  by (induction xs) (simp_all add: SliceStable_def insert_sorted)

lemma mset_insert: "mset (insert_stable lt x ys) = add_mset x (mset ys)"
  by (induction ys) auto

lemma SliceStable_mset: "mset (SliceStable lt xs) = mset xs"
  by (induction xs) (simp_all add: SliceStable_def mset_insert)

text \<open>Entries that are not less than each other keep their order.\<close>

lemma filter_insert: "filter (\<lambda>y. \<not> lt z y \<and> \<not> lt y z) (insert_stable lt x ys) =
    (if \<not> lt z x \<and> \<not> lt x z then x # filter (\<lambda>y. \<not> lt z y \<and> \<not> lt y z) ys else filter (\<lambda>y. \<not> lt z y \<and> \<not> lt y z) ys)"
  by (induction ys) (auto dest: cotrans [of _ _ z])

lemma SliceStable_stable: "filter (\<lambda>y. \<not> lt z y \<and> \<not> lt y z) (SliceStable lt xs) = filter (\<lambda>y. \<not> lt z y \<and> \<not> lt y z) xs"
  by (induction xs) (simp_all add: SliceStable_def filter_insert)

end

lemma str_lt_asym: "str_lt a b \<Longrightarrow> \<not> str_lt b a"
  using str_le_total [of a b] by (auto simp: str_lt_def)

lemma str_lt_cotrans: "str_lt a c \<Longrightarrow> str_lt a b \<or> str_lt b c"
  using str_le_trans [of c b a] by (auto simp: str_lt_def)

text \<open>The orders in which the interface lists users, points, links and neighbors: by a text, the greatest first.\<close>

definition by_text :: "('a \<Rightarrow> string) \<Rightarrow> 'a \<Rightarrow> 'a \<Rightarrow> bool" where
  "by_text key a b \<longleftrightarrow> str_lt (key b) (key a)"

interpretation text_order: weak_order "by_text key" for key :: "'a \<Rightarrow> string"
  by unfold_locales (unfold by_text_def, blast dest: str_lt_asym, blast dest: str_lt_cotrans)

end
