(* ===== verification/Http.thy ===== *)
theory Http
  imports Schema Isolation
begin

text \<open>The HTTP interface of the switch (\<open>src/pkg/olsw/http.go\<close>, \<open>src/pkg/olsw/api/*.go\<close>): every handler as a function of the request, the
  variables of its path and the state, the table of routes, the token, and the router in front of them as \<open>gorilla/mux\<close> documents it.
  Encoding and decoding of JSON and YAML, templates of pages, hashes, random numbers and the clock are parameters.\<close>

section \<open>Requests, answers and the state\<close>

record request =
  rq_Method :: string
  rq_Path :: string
  rq_Auth :: "(string \<times> string) option"
  rq_Host :: string
  rq_Query :: "(string \<times> string list) list"
  rq_Body :: "string result"

record response =
  rp_Code :: int
  rp_Header :: "(string \<times> string) list"
  rp_Body :: string

record sc_Connection =
  jc_UpTime :: int
  jc_LocalAddr :: string
  jc_RemoteAddr :: string
  jc_Statistic :: "(string \<times> i64) list"

record sc_Server =
  jv_UpTime :: int
  jv_Total :: int
  jv_Statistic :: "(string \<times> i64) list"
  jv_Connection :: "sc_Connection list"

text \<open>The values that are encoded.\<close>

datatype payload =
    PMessage int string | PUsers "sc_User list" | PUser sc_User | PLinks "sc_Link list" | PLink sc_Link | PNeighbors "sc_Neighbor list"
  | PPoints "sc_Point list" | PPoint sc_Point | PNetworks "sc_Network list" | PNetwork sc_Network | POnLines "sc_OnLine list" | PLeases "Lease list"
  | PServer sc_Server | PDevices "sc_Device list" | PDevice sc_Device | PBridge sc_Bridge | PClients "VPNClient list" | PPProf string | PNil
  | PEsps "md_Esp list" | PStates "md_EspState list" | PPolicies "md_EspPolicy list" | PConfig "co_Switch option" | PIndex sc_Index
  | PSwitch co_Switch | PAcl ACL | PNetworkConf co_Network | PRoutes "PrefixRoute list" | PLinkConfs "co_Point list"

record PProf =
  pf_Listen :: string
  pf_Error :: "error option"

record ('c, 'l) henv =
  he_env :: "('c, 'l) env"
  he_world :: wenv
  he_json :: "payload \<Rightarrow> string result"
  he_yaml :: "payload \<Rightarrow> string result"
  he_indent :: "string \<Rightarrow> string option"
  he_getUser :: "string \<Rightarrow> sc_User result"
  he_getPoint :: "string \<Rightarrow> co_Point result"
  he_getPProf :: "string \<Rightarrow> string result"
  he_fmt :: "int \<Rightarrow> string"
  he_unfmt :: "string \<Rightarrow> int"
  he_load :: "string option \<Rightarrow> sc_Point"
  he_stats :: xfrm_get
  he_time :: "string \<Rightarrow> int option"
  he_glob :: "string \<Rightarrow> string list"
  he_md5 :: "string \<Rightarrow> string"
  he_random :: string
  he_render :: "string option \<Rightarrow> sc_Index \<Rightarrow> string"
  he_pprof :: "request \<Rightarrow> string"
  he_url :: "request \<Rightarrow> string \<Rightarrow> string"

text \<open>The caches of users and networks and the taps are those of the switch; \<open>hs_view\<close> is the world that the workers see.\<close>

record ('c, 'l) hstate =
  hs_sw :: "('c, 'l) state"
  hs_world :: "'l world"
  hs_workers :: "(string \<times> Networker) list"
  hs_kernel :: "LinuxBridge list"
  hs_pprof :: PProf
  hs_cfg :: "co_Switch option"
  hs_uuid :: string
  hs_newTime :: int
  hs_alias :: string

definition hs_view :: "('c, 'l) hstate \<Rightarrow> 'l world" where
  "hs_view s = (hs_world s)\<lparr>wo_user := st_user (hs_sw s), wo_network := st_network (hs_sw s), wo_taps := st_tapers (hs_sw s)\<rparr>"

definition hs_put :: "(string \<times> Networker) list \<Rightarrow> 'l world \<Rightarrow> ('c, 'l) hstate \<Rightarrow> ('c, 'l) hstate" where
  "hs_put ws w s = s\<lparr>hs_workers := ws, hs_world := w, hs_sw := (hs_sw s)\<lparr>st_user := wo_user w, st_network := wo_network w, st_tapers := wo_taps w\<rparr>\<rparr>"

abbreviation on_sw :: "(('c, 'l) state \<Rightarrow> ('c, 'l) state) \<Rightarrow> ('c, 'l) hstate \<Rightarrow> ('c, 'l) hstate" where
  "on_sw f s \<equiv> s\<lparr>hs_sw := f (hs_sw s)\<rparr>"

abbreviation on_world :: "('l world \<Rightarrow> 'l world) \<Rightarrow> ('c, 'l) hstate \<Rightarrow> ('c, 'l) hstate" where
  "on_world f s \<equiv> s\<lparr>hs_world := f (hs_world s)\<rparr>"

abbreviation he_now :: "('c, 'l) henv \<Rightarrow> int" where
  "he_now env \<equiv> en_now (he_env env)"

abbreviation hs_files :: "('c, 'l) hstate \<Rightarrow> string \<rightharpoonup> string" where
  "hs_files s \<equiv> wo_files (hs_world s)"

text \<open>A handler that panics ends its connection without an answer.\<close>

type_synonym vars = "(string \<times> string) list"

type_synonym ('c, 'l) reply = "('c, 'l) hstate \<times> response result"

text \<open>The value of a variable of the path, empty when the route has no such variable.\<close>

definition var :: "string \<Rightarrow> vars \<Rightarrow> string" where
  "var k vs = (case map_of vs k of None \<Rightarrow> [] | Some v \<Rightarrow> v)"

section \<open>utils.go\<close>

definition http_Error :: "string \<Rightarrow> int \<Rightarrow> response" where
  "http_Error msg code = \<lparr>rp_Code = code, rp_Header = [(''Content-Type'', ''text/plain; charset=utf-8''), (''X-Content-Type-Options'', ''nosniff'')],
     rp_Body = msg @ [nl]\<rparr>"

definition ResponseJson :: "('c, 'l) henv \<Rightarrow> payload \<Rightarrow> response" where
  "ResponseJson env v = (case he_json env v of
     Inr str \<Rightarrow> \<lparr>rp_Code = 200, rp_Header = [(''Content-Type'', ''application/json'')], rp_Body = str\<rparr>
   | Inl e \<Rightarrow> http_Error (error_text e) 500)"

definition ResponseMsg :: "('c, 'l) henv \<Rightarrow> int \<Rightarrow> string \<Rightarrow> response" where
  "ResponseMsg env code message = ResponseJson env (PMessage code message)"

definition ResponseYaml :: "('c, 'l) henv \<Rightarrow> payload \<Rightarrow> response" where
  "ResponseYaml env v = (case he_yaml env v of
     Inr str \<Rightarrow> \<lparr>rp_Code = 200, rp_Header = [(''Content-Type'', ''application/yaml'')], rp_Body = str\<rparr>
   | Inl e \<Rightarrow> http_Error (error_text e) 500)"

definition GetQueryOne :: "request \<Rightarrow> string \<Rightarrow> string result" where
  "GetQueryOne req name = (case map_of (rq_Query req) name of None \<Rightarrow> Inr [] | Some [] \<Rightarrow> Inl oor | Some (v # _) \<Rightarrow> Inr v)"

abbreviation answer :: "response \<Rightarrow> ('c, 'l) hstate \<Rightarrow> ('c, 'l) reply" where
  "answer r s \<equiv> (s, Inr r)"

text \<open>The start of the handlers with a body: it is read and decoded, an error of either is an answer.\<close>

definition with_body :: "(string \<Rightarrow> 'a result) \<Rightarrow> ('a \<Rightarrow> ('c, 'l) hstate \<Rightarrow> ('c, 'l) reply) \<Rightarrow> request \<Rightarrow> ('c, 'l) hstate \<Rightarrow> ('c, 'l) reply" where
  "with_body decode f r s =
     (case rq_Body r of
        Inl e \<Rightarrow> answer (http_Error (error_text e) 500) s
      | Inr body \<Rightarrow> (case decode body of Inl e \<Rightarrow> answer (http_Error (error_text e) 500) s | Inr x \<Rightarrow> f x s))"

section \<open>user.go\<close>

abbreviation hs_users :: "('c, 'l) hstate \<Rightarrow> 'l user" where
  "hs_users s \<equiv> st_user (hs_sw s)"

text \<open>\<open>cache.User.Save\<close> on the file of the cache.\<close>

definition save_users :: "('c, 'l) henv \<Rightarrow> ('c, 'l) hstate \<Rightarrow> ('c, 'l) hstate" where
  "save_users env s =
     (let w = hs_users s
      in case fst (user_Save (ve_open (we_vpn (he_world env)) (ur_File w)) (he_fmt env) w) of
           None \<Rightarrow> s
         | Some text \<Rightarrow> on_world (on_vpn (\<lambda>v. v\<lparr>vw_files := (vw_files v)(ur_File w \<mapsto> text)\<rparr>)) s)"

definition User_List :: "('c, 'l) henv \<Rightarrow> request \<Rightarrow> vars \<Rightarrow> ('c, 'l) hstate \<Rightarrow> ('c, 'l) reply" where
  "User_List env r vs s =
     (let users = map (\<lambda>i. NewUserSchema (he_fmt env) (ur_heap (hs_users s) i)) (until_nil (user_List (hs_users s)))
      in answer (ResponseJson env (PUsers (SliceStable (by_text (\<lambda>x. ju_Network x @ ju_Name x)) users))) s)"

definition User_Get :: "('c, 'l) henv \<Rightarrow> request \<Rightarrow> vars \<Rightarrow> ('c, 'l) hstate \<Rightarrow> ('c, 'l) reply" where
  "User_Get env r vs s =
     (case user_Get (var ''id'' vs) (hs_users s) of
        Some i \<Rightarrow> answer (ResponseJson env (PUser (NewUserSchema (he_fmt env) (ur_heap (hs_users s) i)))) s
      | None \<Rightarrow> answer (http_Error (var ''id'' vs) 404) s)"

definition User_Add :: "('c, 'l) henv \<Rightarrow> request \<Rightarrow> vars \<Rightarrow> ('c, 'l) hstate \<Rightarrow> ('c, 'l) reply" where
  "User_Add env r vs s = with_body (he_getUser env) (\<lambda>user s.
     let s = on_sw (\<lambda>w. w\<lparr>st_user := add_new (SchemaToUserModel (he_unfmt env) (he_now env) user) (st_user w)\<rparr>) s;
         s = save_users env s
     in answer (ResponseMsg env 0 []) s) r s"

definition User_Del :: "('c, 'l) henv \<Rightarrow> request \<Rightarrow> vars \<Rightarrow> ('c, 'l) hstate \<Rightarrow> ('c, 'l) reply" where
  "User_Del env r vs s =
     (let s = on_sw (\<lambda>w. w\<lparr>st_user := user_Del (var ''id'' vs) (st_user w)\<rparr>) s;
          s = save_users env s
      in answer (ResponseMsg env 0 []) s)"

text \<open>A check through LDAP can enter the user into the cache.\<close>

definition User_Check :: "('c, 'l) henv \<Rightarrow> request \<Rightarrow> vars \<Rightarrow> ('c, 'l) hstate \<Rightarrow> ('c, 'l) reply" where
  "User_Check env r vs s = with_body (he_getUser env) (\<lambda>user s.
     let model = SchemaToUserModel (he_unfmt env) (he_now env) user
     in case user_Check (en_ldap (he_env env)) (en_year (he_env env)) (he_now env) model (hs_users s) of
          (w, Inr _) \<Rightarrow> answer (ResponseMsg env 0 ''success'') (on_sw (\<lambda>x. x\<lparr>st_user := w\<rparr>) s)
        | (w, Inl e) \<Rightarrow> answer (http_Error (error_text e) 401) (on_sw (\<lambda>x. x\<lparr>st_user := w\<rparr>) s)) r s"

section \<open>link.go\<close>

abbreviation load_status :: "('c, 'l) henv \<Rightarrow> ('c, 'l) hstate \<Rightarrow> string \<Rightarrow> sc_Point" where
  "load_status env s \<equiv> (\<lambda>file. he_load env (hs_files s file))"

definition Link_List :: "('c, 'l) henv \<Rightarrow> request \<Rightarrow> vars \<Rightarrow> ('c, 'l) hstate \<Rightarrow> ('c, 'l) reply" where
  "Link_List env r vs s =
     answer (ResponseJson env (PLinks (map (NewLinkSchema (load_status env s)) (until_nil (link_List (wo_link (hs_world s))))))) s"

definition Link_Get :: "('c, 'l) henv \<Rightarrow> request \<Rightarrow> vars \<Rightarrow> ('c, 'l) hstate \<Rightarrow> ('c, 'l) reply" where
  "Link_Get env r vs s =
     (case link_Get (var ''id'' vs) (wo_link (hs_world s)) of
        Some l \<Rightarrow> answer (ResponseJson env (PLink (NewLinkSchema (load_status env s) l))) s
      | None \<Rightarrow> answer (http_Error (var ''id'' vs) 404) s)"

text \<open>Links cannot be changed at run time: these operations of the switch are empty.\<close>

definition Switch_AddLink :: "string \<Rightarrow> co_Point \<Rightarrow> ('c, 'l) hstate \<Rightarrow> ('c, 'l) hstate" where
  "Switch_AddLink tenant c s = s"

definition Switch_DelLink :: "string \<Rightarrow> string \<Rightarrow> ('c, 'l) hstate \<Rightarrow> ('c, 'l) hstate" where
  "Switch_DelLink tenant addr s = s"

definition Link_Add :: "('c, 'l) henv \<Rightarrow> request \<Rightarrow> vars \<Rightarrow> ('c, 'l) hstate \<Rightarrow> ('c, 'l) reply" where
  "Link_Add env r vs s = with_body (he_getPoint env) (\<lambda>c s.
     let c = Point_Default (we_host (he_world env)) c
     in answer (ResponseMsg env 0 []) (Switch_AddLink (cp_Network c) c s)) r s"

definition Link_Del :: "('c, 'l) henv \<Rightarrow> request \<Rightarrow> vars \<Rightarrow> ('c, 'l) hstate \<Rightarrow> ('c, 'l) reply" where
  "Link_Del env r vs s = answer (ResponseMsg env 0 []) (Switch_DelLink [] (var ''id'' vs) s)"

section \<open>Lists of the other caches\<close>

definition Neighbor_List :: "('c, 'l) henv \<Rightarrow> request \<Rightarrow> vars \<Rightarrow> ('c, 'l) hstate \<Rightarrow> ('c, 'l) reply" where
  "Neighbor_List env r vs s =
     (let c = st_neighbor (hs_sw s)
      in answer (ResponseJson env (PNeighbors (map (\<lambda>i. NewNeighborSchema (en_s6 (he_env env)) (he_now env) (nc_heap c i)) (until_nil (neighbor_List c))))) s)"

text \<open>Listing and reading points brings them up to date in the cache.\<close>

definition list_points :: "('c, 'l) henv \<Rightarrow> ('c, 'l) hstate \<Rightarrow> ('c, 'l) hstate \<times> sc_Point list result" where
  "list_points env s =
     (case point_List (point_upd (he_env env) (hs_sw s)) (st_point (hs_sw s)) of
        (p, is) \<Rightarrow> (let s = on_sw (\<lambda>w. w\<lparr>st_point := p\<rparr>) s
          in (s, map_result (\<lambda>i. NewPointSchema (he_env env) (hs_sw s) (pc_heap p i)) (until_nil is))))"

definition Point_List :: "('c, 'l) henv \<Rightarrow> request \<Rightarrow> vars \<Rightarrow> ('c, 'l) hstate \<Rightarrow> ('c, 'l) reply" where
  "Point_List env r vs s =
     (case list_points env s of (s, Inl e) \<Rightarrow> (s, Inl e) | (s, Inr ps) \<Rightarrow> answer (ResponseJson env (PPoints ps)) s)"

definition Point_Get :: "('c, 'l) henv \<Rightarrow> request \<Rightarrow> vars \<Rightarrow> ('c, 'l) hstate \<Rightarrow> ('c, 'l) reply" where
  "Point_Get env r vs s =
     (case point_Get (point_upd (he_env env) (hs_sw s)) (var ''id'' vs) (st_point (hs_sw s)) of
        (p, None) \<Rightarrow> answer (http_Error (var ''id'' vs) 404) (on_sw (\<lambda>w. w\<lparr>st_point := p\<rparr>) s)
      | (p, Some i) \<Rightarrow>
          (let s = on_sw (\<lambda>w. w\<lparr>st_point := p\<rparr>) s
           in case NewPointSchema (he_env env) (hs_sw s) (pc_heap p i) of
                Inl e \<Rightarrow> (s, Inl e)
              | Inr x \<Rightarrow> answer (ResponseJson env (PPoint x)) s))"

definition Network_List :: "('c, 'l) henv \<Rightarrow> request \<Rightarrow> vars \<Rightarrow> ('c, 'l) hstate \<Rightarrow> ('c, 'l) reply" where
  "Network_List env r vs s =
     answer (ResponseJson env (PNetworks (map NewNetworkSchema (until_nil (network_List (st_network (hs_sw s))))))) s"

definition Network_Get :: "('c, 'l) henv \<Rightarrow> request \<Rightarrow> vars \<Rightarrow> ('c, 'l) hstate \<Rightarrow> ('c, 'l) reply" where
  "Network_Get env r vs s =
     (case network_Get (var ''id'' vs) (st_network (hs_sw s)) of
        Some n \<Rightarrow> answer (ResponseJson env (PNetwork (NewNetworkSchema n))) s
      | None \<Rightarrow> answer (http_Error (var ''id'' vs) 404) s)"

definition Network_Profile :: "('c, 'l) henv \<Rightarrow> request \<Rightarrow> vars \<Rightarrow> ('c, 'l) hstate \<Rightarrow> ('c, 'l) reply" where
  "Network_Profile env r vs s =
     (let server = fst (split_at (CHR '':'') (rq_Host r))
      in case vpnClient_GetClientProfile (hs_files s) (var ''id'' vs) (var ''ie'' vs) server of
           Inr data \<Rightarrow> answer \<lparr>rp_Code = 200, rp_Header = [], rp_Body = data\<rparr> s
         | Inl e \<Rightarrow> answer (http_Error (error_text e) 404) s)"

definition OnLine_List :: "('c, 'l) henv \<Rightarrow> request \<Rightarrow> vars \<Rightarrow> ('c, 'l) hstate \<Rightarrow> ('c, 'l) reply" where
  "OnLine_List env r vs s =
     (let c = st_online (hs_sw s)
      in answer (ResponseJson env (POnLines (map (\<lambda>i. NewOnLineSchema (en_s6 (he_env env)) (he_now env) (oc_heap c i)) (until_nil (online_List c))))) s)"

definition Lease_List :: "('c, 'l) henv \<Rightarrow> request \<Rightarrow> vars \<Rightarrow> ('c, 'l) hstate \<Rightarrow> ('c, 'l) reply" where
  "Lease_List env r vs s =
     (let c = st_network (hs_sw s)
      in answer (ResponseJson env (PLeases (List.map_filter (nw_heap c) (until_nil (network_ListLease c))))) s)"

definition Server_List :: "('c, 'l) henv \<Rightarrow> request \<Rightarrow> vars \<Rightarrow> ('c, 'l) hstate \<Rightarrow> ('c, 'l) reply" where
  "Server_List env r vs s =
     (let server = sys_srv (st_sys (hs_sw s));
          conn = (\<lambda>u. \<lparr>jc_UpTime = SocketClientImpl_UpTime (he_now env) u, jc_LocalAddr = StreamSocket_LocalAddr u,
            jc_RemoteAddr = StreamSocket_RemoteAddr u, jc_Statistic = SocketClientImpl_Statistics u\<rparr>)
      in answer (ResponseJson env (PServer \<lparr>jv_UpTime = he_now env - hs_newTime s, jv_Total = SocketServerImpl_TotalClient server,
           jv_Statistic = SocketServerImpl_Statistics server,
           jv_Connection = map conn (List.map_filter (sys_heap (st_sys (hs_sw s))) (SocketServerImpl_ListClient server))\<rparr>)) s)"

definition VxLAN_List :: "('c, 'l) henv \<Rightarrow> request \<Rightarrow> vars \<Rightarrow> ('c, 'l) hstate \<Rightarrow> ('c, 'l) reply" where
  "VxLAN_List env r vs s = answer (ResponseJson env PNil) s"

definition Esp_List :: "('c, 'l) henv \<Rightarrow> request \<Rightarrow> vars \<Rightarrow> ('c, 'l) hstate \<Rightarrow> ('c, 'l) reply" where
  "Esp_List env r vs s = answer (ResponseJson env (PEsps (esp_List (wo_esp (hs_world s))))) s"

definition list_states :: "('c, 'l) henv \<Rightarrow> string \<Rightarrow> ('c, 'l) hstate \<Rightarrow> ('c, 'l) hstate \<times> md_EspState list" where
  "list_states env name s =
     (let p6 = en_p6 (he_env env)
      in case espState_List p6 (he_stats env) (he_now env) name (wo_esp (hs_world s)) of
           (es, c) \<Rightarrow> (on_world (\<lambda>w. w\<lparr>wo_esp := c\<rparr>) s, map (\<lambda>e. fst (NewEspStateSchema p6 (he_stats env) (he_now env) e)) es))"

definition EspState_List :: "('c, 'l) henv \<Rightarrow> request \<Rightarrow> vars \<Rightarrow> ('c, 'l) hstate \<Rightarrow> ('c, 'l) reply" where
  "EspState_List env r vs s = (case list_states env (var ''id'' vs) s of (s, es) \<Rightarrow> answer (ResponseJson env (PStates es)) s)"

definition EspPolicy_List :: "('c, 'l) henv \<Rightarrow> request \<Rightarrow> vars \<Rightarrow> ('c, 'l) hstate \<Rightarrow> ('c, 'l) reply" where
  "EspPolicy_List env r vs s =
     answer (ResponseJson env (PPolicies (map NewEspPolicySchema (espPolicy_List (var ''id'' vs) (wo_esp (hs_world s)))))) s"

definition list_clients :: "('c, 'l) henv \<Rightarrow> ('c, 'l) hstate \<Rightarrow> string \<Rightarrow> VPNClient list" where
  "list_clients env s = vpnClient_List (he_time env) (he_now env) (map_option cs_Network (hs_cfg s)) (hs_files s) (he_glob env)"

definition VPNClient_List :: "('c, 'l) henv \<Rightarrow> request \<Rightarrow> vars \<Rightarrow> ('c, 'l) hstate \<Rightarrow> ('c, 'l) reply" where
  "VPNClient_List env r vs s =
     (let name = var ''id'' vs;
          clients = (if name = [] then concat (map (\<lambda>n. list_clients env s (nt_Name n)) (until_nil (network_List (st_network (hs_sw s)))))
                     else list_clients env s name)
      in answer (ResponseJson env (PClients clients)) s)"

section \<open>device.go\<close>

definition tap_device :: "VirtualTap \<Rightarrow> sc_Device" where
  "tap_device t = \<lparr>jd_Name = vt_name t, jd_Provider = ''virtual'', jd_Mtu = VirtualTap_Mtu t\<rparr>"

fun bridge_device :: "Bridger \<Rightarrow> sc_Device" where
  "bridge_device (LinBridge b) = \<lparr>jd_Name = lb_name b, jd_Provider = ''linux'', jd_Mtu = lb_ipMtu b\<rparr>"
| "bridge_device (VirBridge b) = \<lparr>jd_Name = vb_name b, jd_Provider = ''virtual'', jd_Mtu = VirtualBridge_Mtu b\<rparr>"

text \<open>The registry of bridges has the kernel bridges and the virtual bridges of the networks.\<close>

definition all_bridges :: "('c, 'l) hstate \<Rightarrow> Bridger list" where
  "all_bridges s = map LinBridge (hs_kernel s) @ map (\<lambda>(_, b). VirBridge b) (st_bridges (hs_sw s))"

definition Device_List :: "('c, 'l) henv \<Rightarrow> request \<Rightarrow> vars \<Rightarrow> ('c, 'l) hstate \<Rightarrow> ('c, 'l) reply" where
  "Device_List env r vs s =
     answer (ResponseJson env (PDevices (map tap_device (List.map_filter (st_taps (hs_sw s)) (tapers_List (st_tapers (hs_sw s)))) @
       map bridge_device (all_bridges s)))) s"

text \<open>A kernel bridge lists no addresses and no ports, and its counters are never written.\<close>

fun bridge_info :: "int \<Rightarrow> taps \<Rightarrow> Bridger \<Rightarrow> sc_Bridge" where
  "bridge_info now taps (LinBridge b) = \<lparr>jb_Device = bridge_device (LinBridge b), jb_Macs = [], jb_Slaves = [], jb_Stats = \<lparr>ds_Send = 0, ds_Recv = 0, ds_Drop = 0\<rparr>\<rparr>"
| "bridge_info now taps (VirBridge b) = \<lparr>jb_Device = bridge_device (VirBridge b),
     jb_Macs = map (\<lambda>m. \<lparr>jm_Uptime = now - fdb_Uptime m, jm_Address = hw_string (fdb_Address m),
       jm_Device = (case taps (fdb_Device m) of None \<Rightarrow> [] | Some t \<Rightarrow> vt_name t)\<rparr>) (VirtualBridge_ListMac b),
     jb_Slaves = map tap_device (List.map_filter taps (VirtualBridge_ListSlave b)), jb_Stats = VirtualBridge_Stats b\<rparr>"

definition Device_Get :: "('c, 'l) henv \<Rightarrow> request \<Rightarrow> vars \<Rightarrow> ('c, 'l) hstate \<Rightarrow> ('c, 'l) reply" where
  "Device_Get env r vs s =
     (let name = var ''id'' vs
      in case Option.bind (tapers_Get name (st_tapers (hs_sw s))) (st_taps (hs_sw s)) of
           Some dev \<Rightarrow> answer (ResponseJson env (PDevice (tap_device dev))) s
         | None \<Rightarrow> (case find (\<lambda>b. Bridger_Name b = name) (all_bridges s) of
             Some br \<Rightarrow> answer (ResponseJson env (PBridge (bridge_info (he_now env) (st_taps (hs_sw s)) br))) s
           | None \<Rightarrow> answer (http_Error name 404) s))"

section \<open>pprof.go\<close>

definition PProf_Start :: "PProf \<Rightarrow> PProf" where
  "PProf_Start p = (if pf_Listen p = [] then p\<lparr>pf_Listen := ''localhost:6060''\<rparr> else p)"

definition PProf_Get :: "('c, 'l) henv \<Rightarrow> request \<Rightarrow> vars \<Rightarrow> ('c, 'l) hstate \<Rightarrow> ('c, 'l) reply" where
  "PProf_Get env r vs s = answer (ResponseJson env (PPProf (pf_Listen (hs_pprof s)))) s"

definition PProf_Add :: "('c, 'l) henv \<Rightarrow> request \<Rightarrow> vars \<Rightarrow> ('c, 'l) hstate \<Rightarrow> ('c, 'l) reply" where
  "PProf_Add env r vs s =
     (case rq_Body r of
        Inl e \<Rightarrow> answer (http_Error (error_text e) 500) s
      | Inr body \<Rightarrow>
          (if pf_Listen (hs_pprof s) \<noteq> [] \<and> pf_Error (hs_pprof s) = None
           then answer (http_Error (''already listen on '' @ pf_Listen (hs_pprof s)) 409) s
           else case he_getPProf env body of
                  Inl e \<Rightarrow> answer (http_Error (error_text e) 500) s
                | Inr listen \<Rightarrow> answer (ResponseMsg env 0 []) (s\<lparr>hs_pprof := PProf_Start ((hs_pprof s)\<lparr>pf_Listen := listen\<rparr>)\<rparr>)))"

section \<open>config.go\<close>

text \<open>Saving the configuration: one file for the switch without its rules and networks, one for each list of rules, and up to three for
  each network. A list of routes or links without entries is nil.\<close>

definition Marshal :: "('c, 'l) henv \<Rightarrow> payload \<Rightarrow> string result" where
  "Marshal env v = (case he_json env v of Inl e \<Rightarrow> Inl e | Inr str \<Rightarrow> Inr (case he_indent env str of None \<Rightarrow> str | Some out \<Rightarrow> out))"

definition MarshalSave :: "('c, 'l) henv \<Rightarrow> payload \<Rightarrow> string \<Rightarrow> vpnworld \<Rightarrow> vpnworld upd" where
  "MarshalSave env v file w =
     (case WriteFile (we_vpn (he_world env)) file [] w of
        (w, Some e) \<Rightarrow> (w, Some e)
      | (w, None) \<Rightarrow> (case Marshal env v of Inl e \<Rightarrow> (w, Some e) | Inr str \<Rightarrow> WriteFile (we_vpn (he_world env)) file str w))"

definition Network_Dir :: "co_Network \<Rightarrow> string list \<Rightarrow> string" where
  "Network_Dir n elem = path_Join (cn_ConfDir n # elem)"

definition Network_SaveRoute :: "('c, 'l) henv \<Rightarrow> co_Network \<Rightarrow> vpnworld \<Rightarrow> vpnworld" where
  "Network_SaveRoute env n w =
     (if cn_Routes n = [] then w else fst (MarshalSave env (PRoutes (cn_Routes n)) (Network_Dir n [''route'', cn_Name n @ ''.json'']) w))"

definition Network_SaveLink :: "('c, 'l) henv \<Rightarrow> co_Network \<Rightarrow> vpnworld \<Rightarrow> vpnworld" where
  "Network_SaveLink env n w =
     (if cn_Links n = [] then w else fst (MarshalSave env (PLinkConfs (cn_Links n)) (Network_Dir n [''link'', cn_Name n @ ''.json'']) w))"

definition Network_Save :: "('c, 'l) henv \<Rightarrow> co_Network \<Rightarrow> vpnworld \<Rightarrow> vpnworld" where
  "Network_Save env n w =
     (let w = fst (MarshalSave env (PNetworkConf (n\<lparr>cn_Routes := [], cn_Links := []\<rparr>)) (cn_File n) w)
      in Network_SaveLink env n (Network_SaveRoute env n w))"

definition Switch_SaveAcl :: "('c, 'l) henv \<Rightarrow> co_Switch \<Rightarrow> vpnworld \<Rightarrow> vpnworld" where
  "Switch_SaveAcl env c w = fold (\<lambda>obj w. fst (MarshalSave env (PAcl obj) (acl_File obj) w)) (cs_Acl c) w"

definition Switch_SaveNets :: "('c, 'l) henv \<Rightarrow> co_Switch \<Rightarrow> vpnworld \<Rightarrow> vpnworld" where
  "Switch_SaveNets env c w = fold (Network_Save env) (cs_Network c) w"

definition co_Switch_Save :: "('c, 'l) henv \<Rightarrow> co_Switch \<Rightarrow> vpnworld \<Rightarrow> vpnworld" where
  "co_Switch_Save env c w =
     (let w = fst (MarshalSave env (PSwitch (c\<lparr>cs_Acl := [], cs_Network := []\<rparr>)) (cs_File c) w)
      in Switch_SaveNets env c (Switch_SaveAcl env c w))"

definition Switch_Save :: "('c, 'l) henv \<Rightarrow> ('c, 'l) hstate \<Rightarrow> ('c, 'l) hstate result" where
  "Switch_Save env s = (case hs_cfg s of None \<Rightarrow> Inl nil_deref | Some c \<Rightarrow> Inr (on_world (on_vpn (co_Switch_Save env c)) s))"

definition Config_List :: "('c, 'l) henv \<Rightarrow> request \<Rightarrow> vars \<Rightarrow> ('c, 'l) hstate \<Rightarrow> ('c, 'l) reply" where
  "Config_List env r vs s =
     (case GetQueryOne r ''format'' of
        Inl e \<Rightarrow> (s, Inl e)
      | Inr format \<Rightarrow> (if format = ''yaml'' then answer (ResponseYaml env (PConfig (hs_cfg s))) s else answer (ResponseJson env (PConfig (hs_cfg s))) s))"

definition Config_Reload :: "('c, 'l) henv \<Rightarrow> request \<Rightarrow> vars \<Rightarrow> ('c, 'l) hstate \<Rightarrow> ('c, 'l) reply" where
  "Config_Reload env r vs s =
     (case Switch_Reload (he_world env) (hs_workers s) (hs_view s) of
        Inl e \<Rightarrow> (s, Inl e)
      | Inr (ws, w) \<Rightarrow> answer (ResponseMsg env 0 ''success'') (hs_put ws w s))"

definition Config_Save :: "('c, 'l) henv \<Rightarrow> request \<Rightarrow> vars \<Rightarrow> ('c, 'l) hstate \<Rightarrow> ('c, 'l) reply" where
  "Config_Save env r vs s = (case Switch_Save env s of Inl e \<Rightarrow> (s, Inl e) | Inr s \<Rightarrow> answer (ResponseMsg env 0 ''success'') s)"

section \<open>http.go\<close>

record olHttp =
  hp_listen :: string
  hp_adminToken :: string
  hp_guestToken :: string
  hp_adminFile :: string
  hp_server :: bool
  hp_crtFile :: string
  hp_keyFile :: string
  hp_pubDir :: string

definition NewHttp :: "co_Switch option \<Rightarrow> olHttp result" where
  "NewHttp sw =
     (case sw of
        None \<Rightarrow> Inl nil_deref
      | Some c \<Rightarrow> (case cs_Http c of
          None \<Rightarrow> Inl nil_deref
        | Some ht \<Rightarrow>
            (let h = \<lparr>hp_listen = ht_Listen ht, hp_adminToken = [], hp_guestToken = [], hp_adminFile = cs_TokenFile c, hp_server = False,
                   hp_crtFile = [], hp_keyFile = [], hp_pubDir = ht_Public ht\<rparr>
             in Inr (case cs_Cert c of None \<Rightarrow> h | Some cert \<Rightarrow> h\<lparr>hp_crtFile := ce_CrtFile cert, hp_keyFile := ce_KeyFile cert\<rparr>))))"

definition Http_SetToken :: "('c, 'l) henv \<Rightarrow> string \<Rightarrow> olHttp \<Rightarrow> olHttp" where
  "Http_SetToken env value h = h\<lparr>hp_adminToken := value, hp_guestToken := take 12 (he_md5 env value)\<rparr>"

definition Http_LoadToken :: "('c, 'l) henv \<Rightarrow> (string \<rightharpoonup> string) \<Rightarrow> olHttp \<Rightarrow> olHttp" where
  "Http_LoadToken env files h =
     (let token = (case files (hp_adminFile h) of None \<Rightarrow> [] | Some contents \<Rightarrow> TrimSpace contents);
          token = (if token = [] then he_random env else token)
      in Http_SetToken env token h)"

definition Http_SaveToken :: "('c, 'l) henv \<Rightarrow> olHttp \<Rightarrow> vpnworld \<Rightarrow> vpnworld" where
  "Http_SaveToken env h w = fst (WriteFile (we_vpn (he_world env)) (hp_adminFile h) (hp_adminToken h) w)"

definition Http_Initialize :: "('c, 'l) henv \<Rightarrow> olHttp \<Rightarrow> ('c, 'l) hstate \<Rightarrow> olHttp \<times> ('c, 'l) hstate" where
  "Http_Initialize env h s =
     (let h = Http_LoadToken env (hs_files s) (h\<lparr>hp_server := True\<rparr>)
      in (h, on_world (on_vpn (Http_SaveToken env h)) s))"

definition Http_IsAuth :: "olHttp \<Rightarrow> request \<Rightarrow> bool" where
  "Http_IsAuth h r =
     (if HasPrefix (rq_Path r) ''/api/'' then (case rq_Auth r of None \<Rightarrow> False | Some (token, _) \<Rightarrow> token = hp_adminToken h)
      else if HasPrefix (rq_Path r) ''/get/'' then (case rq_Auth r of None \<Rightarrow> False | Some (token, _) \<Rightarrow> token = hp_guestToken h)
      else True)"

definition Http_Middleware :: "olHttp \<Rightarrow> (request \<Rightarrow> vars \<Rightarrow> ('c, 'l) hstate \<Rightarrow> ('c, 'l) reply) \<Rightarrow> request \<Rightarrow> vars \<Rightarrow> ('c, 'l) hstate \<Rightarrow> ('c, 'l) reply" where
  "Http_Middleware h nxt r vs s =
     (if Http_IsAuth h r then nxt r vs s
      else (let e = http_Error ''Authorization Required'' 401
            in answer (e\<lparr>rp_Header := (''WWW-Authenticate'', ''Basic'') # rp_Header e\<rparr>) s))"

definition Http_getFile :: "olHttp \<Rightarrow> string \<Rightarrow> string" where
  "Http_getFile h name = hp_pubDir h @ name"

definition Http_PubFile :: "olHttp \<Rightarrow> ('c, 'l) henv \<Rightarrow> request \<Rightarrow> vars \<Rightarrow> ('c, 'l) hstate \<Rightarrow> ('c, 'l) reply" where
  "Http_PubFile h env r vs s =
     (case hs_files s (Http_getFile h (rq_Path r)) of
        None \<Rightarrow> answer \<lparr>rp_Code = 200, rp_Header = [], rp_Body = ''404''\<rparr> s
      | Some contents \<Rightarrow> answer \<lparr>rp_Code = 200, rp_Header = [], rp_Body = contents @ [nl]\<rparr> s)"

text \<open>The clients are sorted again after each network.\<close>

definition index_clients :: "('c, 'l) henv \<Rightarrow> ('c, 'l) hstate \<Rightarrow> VPNClient list" where
  "index_clients env s =
     fold (\<lambda>n cs. SliceStable (\<lambda>a b. str_lt (vc_Name a) (vc_Name b)) (cs @ list_clients env s (nt_Name n))) (until_nil (network_List (st_network (hs_sw s)))) []"

definition Http_getIndex :: "('c, 'l) henv \<Rightarrow> ('c, 'l) hstate \<Rightarrow> ('c, 'l) hstate \<times> sc_Index result" where
  "Http_getIndex env s =
     (case list_points env s of
        (s, Inl e) \<Rightarrow> (s, Inl e)
      | (s, Inr ps) \<Rightarrow>
          (let ng = st_neighbor (hs_sw s); ol = st_online (hs_sw s); s6 = en_s6 (he_env env); now = he_now env; (s', states) = list_states env [] s
           in (s', Inr \<lparr>ji_Worker = NewWorkerSchema now (hs_uuid s) (hs_newTime s) (hs_alias s) (hs_cfg s),
                ji_Points = SliceStable (by_text (\<lambda>x. jp_Network x @ jp_Remote x)) ps,
                ji_Links = SliceStable (by_text (\<lambda>x. jl_Network x @ jl_Server x))
                  (map (NewLinkSchema (load_status env s)) (until_nil (link_List (wo_link (hs_world s))))),
                ji_Neighbors = SliceStable (by_text jn_IpAddr)
                  (map (\<lambda>i. NewNeighborSchema s6 now (nc_heap ng i)) (until_nil (neighbor_List ng))),
                ji_OnLines = SliceStable (\<lambda>a b. jo_HitTime a < jo_HitTime b) (map (\<lambda>i. NewOnLineSchema s6 now (oc_heap ol i)) (until_nil (online_List ol))),
                ji_Clients = index_clients env s,
                ji_States = SliceStable (\<lambda>a b. ms_Spi a > ms_Spi b) states\<rparr>)))"

text \<open>\<open>he_render\<close> is what \<open>ParseFiles\<close> writes for the text of a template, an error message included.\<close>

definition Http_IndexHtml :: "olHttp \<Rightarrow> ('c, 'l) henv \<Rightarrow> request \<Rightarrow> vars \<Rightarrow> ('c, 'l) hstate \<Rightarrow> ('c, 'l) reply" where
  "Http_IndexHtml h env r vs s =
     (case Http_getIndex env s of
        (s, Inl e) \<Rightarrow> (s, Inl e)
      | (s, Inr body) \<Rightarrow> answer \<lparr>rp_Code = 200, rp_Header = [], rp_Body = he_render env (hs_files s (Http_getFile h ''/index.html'')) body\<rparr> s)"

definition Http_GetIndex :: "('c, 'l) henv \<Rightarrow> request \<Rightarrow> vars \<Rightarrow> ('c, 'l) hstate \<Rightarrow> ('c, 'l) reply" where
  "Http_GetIndex env r vs s = (case Http_getIndex env s of (s, Inl e) \<Rightarrow> (s, Inl e) | (s, Inr body) \<Rightarrow> answer (ResponseJson env (PIndex body)) s)"

section \<open>The router\<close>

text \<open>A route: the template of its path, its method if it asks for one, and its handler.\<close>

type_synonym ('c, 'l) route = "string \<times> string option \<times> (request \<Rightarrow> vars \<Rightarrow> ('c, 'l) hstate \<Rightarrow> ('c, 'l) reply)"

definition Http_PProf :: "('c, 'l) henv \<Rightarrow> ('c, 'l) route list" where
  "Http_PProf env = map (\<lambda>p. (''/debug/pprof/'' @ p, None, \<lambda>r vs s. answer \<lparr>rp_Code = 200, rp_Header = [], rp_Body = he_pprof env r\<rparr> s))
     [[], ''cmdline'', ''profile'', ''symbol'', ''trace'']"

definition Link_Router :: "('c, 'l) henv \<Rightarrow> ('c, 'l) route list" where
  "Link_Router env = [(''/api/link'', Some ''GET'', Link_List env), (''/api/link/{id}'', Some ''GET'', Link_Get env),
     (''/api/link/{id}'', Some ''POST'', Link_Add env), (''/api/link/{id}'', Some ''DELETE'', Link_Del env)]"

definition User_Router :: "('c, 'l) henv \<Rightarrow> ('c, 'l) route list" where
  "User_Router env = [(''/api/user'', Some ''GET'', User_List env), (''/api/user'', Some ''POST'', User_Add env),
     (''/api/user/{id}'', Some ''GET'', User_Get env), (''/api/user/{id}'', Some ''POST'', User_Add env),
     (''/api/user/{id}'', Some ''DELETE'', User_Del env), (''/api/user/{id}/check'', Some ''POST'', User_Check env)]"

definition Neighbor_Router :: "('c, 'l) henv \<Rightarrow> ('c, 'l) route list" where
  "Neighbor_Router env = [(''/api/neighbor'', Some ''GET'', Neighbor_List env)]"

definition Point_Router :: "('c, 'l) henv \<Rightarrow> ('c, 'l) route list" where
  "Point_Router env = [(''/api/point'', Some ''GET'', Point_List env), (''/api/point/{id}'', Some ''GET'', Point_Get env)]"

definition Network_Router :: "('c, 'l) henv \<Rightarrow> ('c, 'l) route list" where
  "Network_Router env = [(''/api/network'', Some ''GET'', Network_List env), (''/api/network/{id}'', Some ''GET'', Network_Get env),
     (''/get/network/{id}/{ie}.ovpn'', Some ''GET'', Network_Profile env)]"

definition OnLine_Router :: "('c, 'l) henv \<Rightarrow> ('c, 'l) route list" where
  "OnLine_Router env = [(''/api/online'', Some ''GET'', OnLine_List env)]"

definition Lease_Router :: "('c, 'l) henv \<Rightarrow> ('c, 'l) route list" where
  "Lease_Router env = [(''/api/lease'', Some ''GET'', Lease_List env), (''/api/lease/{id}'', Some ''GET'', Lease_List env)]"

definition Server_Router :: "('c, 'l) henv \<Rightarrow> ('c, 'l) route list" where
  "Server_Router env = [(''/api/server'', Some ''GET'', Server_List env), (''/api/server/{id}'', Some ''GET'', Server_List env)]"

definition Device_Router :: "('c, 'l) henv \<Rightarrow> ('c, 'l) route list" where
  "Device_Router env = [(''/api/device'', Some ''GET'', Device_List env), (''/api/device/{id}'', Some ''GET'', Device_Get env)]"

definition VPNClient_Router :: "('c, 'l) henv \<Rightarrow> ('c, 'l) route list" where
  "VPNClient_Router env = [(''/api/vpn/client'', Some ''GET'', VPNClient_List env), (''/api/vpn/client/{id}'', Some ''GET'', VPNClient_List env)]"

definition PProf_Router :: "('c, 'l) henv \<Rightarrow> ('c, 'l) route list" where
  "PProf_Router env = [(''/api/pprof'', Some ''GET'', PProf_Get env), (''/api/pprof'', Some ''POST'', PProf_Add env)]"

definition VxLAN_Router :: "('c, 'l) henv \<Rightarrow> ('c, 'l) route list" where
  "VxLAN_Router env = [(''/api/vxlan'', Some ''GET'', VxLAN_List env), (''/api/vxlan/{id}'', Some ''GET'', VxLAN_List env)]"

definition Esp_Router :: "('c, 'l) henv \<Rightarrow> ('c, 'l) route list" where
  "Esp_Router env = [(''/api/esp'', Some ''GET'', Esp_List env), (''/api/esp/{id}'', Some ''GET'', Esp_List env)]"

definition EspState_Router :: "('c, 'l) henv \<Rightarrow> ('c, 'l) route list" where
  "EspState_Router env = [(''/api/state'', Some ''GET'', EspState_List env), (''/api/state/{id}'', Some ''GET'', EspState_List env)]"

definition EspPolicy_Router :: "('c, 'l) henv \<Rightarrow> ('c, 'l) route list" where
  "EspPolicy_Router env = [(''/api/policy'', Some ''GET'', EspPolicy_List env), (''/api/policy/{id}'', Some ''GET'', EspPolicy_List env)]"

definition Config_Router :: "('c, 'l) henv \<Rightarrow> ('c, 'l) route list" where
  "Config_Router env = [(''/api/config'', Some ''GET'', Config_List env), (''/api/config/reload'', Some ''PUT'', Config_Reload env),
     (''/api/config/save'', Some ''PUT'', Config_Save env)]"

definition Http_LoadRouter :: "olHttp \<Rightarrow> ('c, 'l) henv \<Rightarrow> ('c, 'l) route list" where
  "Http_LoadRouter h env =
     [(''/'', None, Http_IndexHtml h env), (''/index.html'', None, Http_IndexHtml h env), (''/favicon.ico'', None, Http_PubFile h env)] @
     Http_PProf env @ [(''/api/index'', Some ''GET'', Http_GetIndex env)] @ Link_Router env @ User_Router env @ Neighbor_Router env @ Point_Router env @
     Network_Router env @ OnLine_Router env @ Lease_Router env @ Server_Router env @ Device_Router env @ VPNClient_Router env @ PProf_Router env @
     VxLAN_Router env @ Esp_Router env @ EspState_Router env @ EspPolicy_Router env @ Config_Router env"

text \<open>The router of \<open>gorilla/mux\<close>: a path that is not clean is redirected; the first route whose template and method fit gets the
  request, through the middleware; a path that fits only routes with other methods is answered with 405, any other path with 404.\<close>

fun segs :: "string \<Rightarrow> string \<Rightarrow> string list" where
  "segs acc [] = [rev acc]"
| "segs acc (c # s) = (if c = CHR ''/'' then rev acc # segs [] s else segs (c # acc) s)"

definition seg_match :: "string \<Rightarrow> string \<Rightarrow> vars option" where
  "seg_match t p =
     (if t \<noteq> [] \<and> hd t = CHR ''{''
      then (case split_at (CHR ''}'') (tl t) of
              (name, Some ext) \<Rightarrow> if length ext < length p \<and> drop (length p - length ext) p = ext
                then Some [(name, take (length p - length ext) p)] else None
            | _ \<Rightarrow> None)
      else if t = p then Some [] else None)"

fun tpl_match :: "string list \<Rightarrow> string list \<Rightarrow> vars option" where
  "tpl_match [] [] = Some []"
| "tpl_match (t # ts) (p # ps) = (case seg_match t p of None \<Rightarrow> None | Some v \<Rightarrow> map_option ((@) v) (tpl_match ts ps))"
| "tpl_match _ _ = None"

fun mux_Match :: "('c, 'l) route list \<Rightarrow> request \<Rightarrow> bool \<Rightarrow> ((request \<Rightarrow> vars \<Rightarrow> ('c, 'l) hstate \<Rightarrow> ('c, 'l) reply) \<times> vars) option \<times> bool" where
  "mux_Match [] r mis = (None, mis)"
| "mux_Match ((t, m, f) # rs) r mis =
     (case tpl_match (segs [] t) (segs [] (rq_Path r)) of
        None \<Rightarrow> mux_Match rs r mis
      | Some vs \<Rightarrow> if m = None \<or> m = Some (rq_Method r) then (Some (f, vs), False) else mux_Match rs r True)"

definition cleanPath :: "string \<Rightarrow> string" where
  "cleanPath p =
     (if p = [] then ''/''
      else let p = (if hd p \<noteq> CHR ''/'' then CHR ''/'' # p else p); np = Clean p
           in if last p = CHR ''/'' \<and> np \<noteq> ''/'' then np @ ''/'' else np)"

definition Http_Serve :: "olHttp \<Rightarrow> ('c, 'l) henv \<Rightarrow> request \<Rightarrow> ('c, 'l) hstate \<Rightarrow> ('c, 'l) reply" where
  "Http_Serve h env r s =
     (let p = cleanPath (rq_Path r)
      in if p \<noteq> rq_Path r then answer \<lparr>rp_Code = 301, rp_Header = [(''Location'', he_url env r p)], rp_Body = []\<rparr> s
         else case mux_Match (Http_LoadRouter h env) r False of
                (Some (f, vs), _) \<Rightarrow> Http_Middleware h f r vs s
              | (None, True) \<Rightarrow> answer \<lparr>rp_Code = 405, rp_Header = [], rp_Body = []\<rparr> s
              | (None, False) \<Rightarrow> answer (http_Error ''404 page not found'' 404) s)"

section \<open>What reading changes\<close>

text \<open>Reading brings statistics up to date: the points that the cache has and the states of ESP, under the same keys.\<close>

definition refreshed :: "('c, 'l) hstate \<Rightarrow> ('c, 'l) hstate \<Rightarrow> bool" where
  "refreshed s s' \<longleftrightarrow> (\<exists>heap data. s' = s\<lparr>hs_sw := (hs_sw s)\<lparr>st_point := (st_point (hs_sw s))\<lparr>pc_heap := heap\<rparr>\<rparr>,
     hs_world := (hs_world s)\<lparr>wo_esp := (wo_esp (hs_world s))\<lparr>ec_State := (ec_State (wo_esp (hs_world s)))\<lparr>ssm_data := data\<rparr>\<rparr>\<rparr>\<rparr> \<and>
     map fst data = map fst (ssm_data (ec_State (wo_esp (hs_world s)))))"

lemma refreshed_refl [simp, intro]: "refreshed s s"
  unfolding refreshed_def by (rule exI [of _ "pc_heap (st_point (hs_sw s))"], rule exI [of _ "ssm_data (ec_State (wo_esp (hs_world s)))"]) simp

lemma refreshed_trans: "refreshed s s1 \<Longrightarrow> refreshed s1 s2 \<Longrightarrow> refreshed s s2"
  unfolding refreshed_def by (elim exE conjE, simp, blast)

lemma refreshed_points: "refreshed s (s\<lparr>hs_sw := (hs_sw s)\<lparr>st_point := (st_point (hs_sw s))\<lparr>pc_heap := heap\<rparr>\<rparr>\<rparr>)"
  unfolding refreshed_def by (rule exI [of _ heap], rule exI [of _ "ssm_data (ec_State (wo_esp (hs_world s)))"]) simp

lemma list_points_refreshed: "refreshed s (fst (list_points env s))"
  by (simp add: list_points_def point_List_def Let_def refreshed_points split: prod.split)

lemma refreshed_states:
  "map fst data = map fst (ssm_data (ec_State (wo_esp (hs_world s)))) \<Longrightarrow>
    refreshed s (s\<lparr>hs_world := (hs_world s)\<lparr>wo_esp := (wo_esp (hs_world s))\<lparr>ec_State := (ec_State (wo_esp (hs_world s)))\<lparr>ssm_data := data\<rparr>\<rparr>\<rparr>\<rparr>)"
  unfolding refreshed_def by (rule exI [of _ "pc_heap (st_point (hs_sw s))"], rule exI [of _ data]) simp

lemma list_states_refreshed: "refreshed s (fst (list_states env name s))"
  by (simp add: list_states_def espState_List_def Let_def refreshed_states comp_def split_beta)

lemma getIndex_refreshed: "refreshed s (fst (Http_getIndex env s))"
proof (cases "list_points env s")
  case (Pair s1 ps)
  then have "refreshed s s1" using list_points_refreshed [of s env] by simp
  moreover have "refreshed s1 (fst (list_states env [] s1))" by (rule list_states_refreshed)
  ultimately show ?thesis using refreshed_trans by (fastforce simp: Http_getIndex_def Pair Let_def split: sum.split prod.split)
qed

named_theorems reads "handlers that only refresh the state"

lemma plain_reads [reads]:
  "fst (User_List env r vs s) = s" "fst (User_Get env r vs s) = s" "fst (Link_List env r vs s) = s" "fst (Link_Get env r vs s) = s"
  "fst (Link_Add env r vs s) = s" "fst (Link_Del env r vs s) = s" "fst (Neighbor_List env r vs s) = s" "fst (Network_List env r vs s) = s"
  "fst (Network_Get env r vs s) = s" "fst (Network_Profile env r vs s) = s" "fst (OnLine_List env r vs s) = s" "fst (Lease_List env r vs s) = s"
  "fst (Server_List env r vs s) = s" "fst (VxLAN_List env r vs s) = s" "fst (Esp_List env r vs s) = s" "fst (EspPolicy_List env r vs s) = s"
  "fst (VPNClient_List env r vs s) = s" "fst (Device_List env r vs s) = s" "fst (Device_Get env r vs s) = s" "fst (PProf_Get env r vs s) = s"
  "fst (Config_List env r vs s) = s" "fst (Http_PubFile h env r vs s) = s"
  by (simp_all add: User_List_def User_Get_def Link_List_def Link_Get_def Link_Add_def Link_Del_def Switch_AddLink_def Switch_DelLink_def with_body_def
      Neighbor_List_def Network_List_def Network_Get_def Network_Profile_def OnLine_List_def Lease_List_def Server_List_def VxLAN_List_def Esp_List_def
      EspPolicy_List_def VPNClient_List_def Device_List_def Device_Get_def PProf_Get_def Config_List_def Http_PubFile_def Let_def
      split: option.split sum.split)

lemma index_reads [reads]: "refreshed s (fst (Http_IndexHtml h env r vs s))" "refreshed s (fst (Http_GetIndex env r vs s))"
  using getIndex_refreshed [of s env] by (auto simp: Http_IndexHtml_def Http_GetIndex_def split: prod.split sum.split)

lemma list_reads [reads]: "refreshed s (fst (Point_List env r vs s))" "refreshed s (fst (EspState_List env r vs s))"
  using list_points_refreshed [of s env] list_states_refreshed [of s env "var ''id'' vs"]
  by (auto simp: Point_List_def EspState_List_def split: prod.split sum.split)

lemma Point_Get_reads [reads]: "refreshed s (fst (Point_Get env r vs s))"
  using refreshed_points [of s]
  by (auto simp: Point_Get_def point_Get_def Let_def split: option.splits sum.split)

lemma router_reads:
  "list_all (\<lambda>(t, m, f). (m = None \<or> m = Some ''GET'' \<longrightarrow> (\<forall>r vs s. refreshed s (fst (f r vs s)))) \<and> (m \<noteq> None \<longrightarrow> (\<exists>x xs. segs [] t = [] # ''api'' # x # xs) \<or>
     m = Some ''GET'')) (Http_LoadRouter h env)"
  by (simp add: Http_LoadRouter_def Http_PProf_def Link_Router_def User_Router_def Neighbor_Router_def Point_Router_def Network_Router_def OnLine_Router_def
      Lease_Router_def Server_Router_def Device_Router_def VPNClient_Router_def PProf_Router_def VxLAN_Router_def Esp_Router_def EspState_Router_def
      EspPolicy_Router_def Config_Router_def reads)

section \<open>Who may change the switch\<close>

lemma segs_nonempty [simp]: "segs acc s \<noteq> []"
  by (induction s arbitrary: acc) simp_all

lemma segs_Join: "Join ''/'' (segs acc s) = rev acc @ s"
proof (induction s arbitrary: acc)
  case (Cons c s)
  show ?case using Cons.IH [of "[]"] Cons.IH [of "c # acc"] by (cases "segs [] s") simp_all
qed simp

lemma tpl_match_Cons: "tpl_match (t # ts) qs = Some vs \<Longrightarrow> \<exists>p ps v w. qs = p # ps \<and> seg_match t p = Some v \<and> tpl_match ts ps = Some w"
  by (cases qs) (auto split: option.splits)

lemma seg_match_literal: "seg_match ''api'' p = Some v \<Longrightarrow> p = ''api''" "seg_match [] p = Some v \<Longrightarrow> p = []"
  by (auto simp: seg_match_def split: if_splits)

lemma api_match:
  assumes "segs [] t = [] # ''api'' # x # xs" and "tpl_match (segs [] t) (segs [] p) = Some vs"
  shows "HasPrefix p ''/api/''"
proof -
  obtain y ys where "segs [] p = [] # ''api'' # y # ys"
    using assms by (auto dest!: tpl_match_Cons seg_match_literal simp del: tpl_match.simps)
  then have "p = Join ''/'' ([] # ''api'' # y # ys)" using segs_Join [of "[]" p] by simp
  then show ?thesis by (cases ys) (simp_all add: HasPrefix_def)
qed

lemma mux_Match_cases:
  assumes "mux_Match rs r mis = (Some (f, vs), b)"
  obtains t m where "(t, m, f) \<in> set rs" and "tpl_match (segs [] t) (segs [] (rq_Path r)) = Some vs" and "m = None \<or> m = Some (rq_Method r)"
  using assms by (induction rs r mis rule: mux_Match.induct) (auto split: option.splits if_splits)

lemma served_reads:
  assumes "mux_Match (Http_LoadRouter h env) r mis = (Some (f, vs), b)"
    and "rq_Method r = ''GET'' \<or> \<not> HasPrefix (rq_Path r) ''/api/''"
  shows "refreshed s (fst (f r vs s))"
proof -
  from assms(1) obtain t m where r: "(t, m, f) \<in> set (Http_LoadRouter h env)" "tpl_match (segs [] t) (segs [] (rq_Path r)) = Some vs"
    "m = None \<or> m = Some (rq_Method r)" by (rule mux_Match_cases)
  from router_reads [of h env] r(1) have "m = None \<or> m = Some ''GET'' \<longrightarrow> refreshed s (fst (f r vs s))"
    "m \<noteq> None \<longrightarrow> (\<exists>x xs. segs [] t = [] # ''api'' # x # xs) \<or> m = Some ''GET''" by (fastforce simp: list_all_iff)+
  with r assms(2) show ?thesis using api_match by (cases "m = None \<or> m = Some ''GET''") (simp, blast)
qed

lemma prefix_api_get: "HasPrefix p ''/get/'' \<Longrightarrow> \<not> HasPrefix p ''/api/''"
proof
  assume "HasPrefix p ''/get/''" "HasPrefix p ''/api/''"
  then have "''/get/'' = ''/api/''" by (simp only: HasPrefix_def) simp
  then show False by simp
qed


section \<open>A user, from its creation to its removal\<close>

lemmas router_defs = Http_LoadRouter_def Http_PProf_def Link_Router_def User_Router_def Neighbor_Router_def Point_Router_def Network_Router_def OnLine_Router_def
  Lease_Router_def Server_Router_def Device_Router_def VPNClient_Router_def PProf_Router_def VxLAN_Router_def Esp_Router_def EspState_Router_def
  EspPolicy_Router_def Config_Router_def

lemma segs_plain: "CHR ''/'' \<notin> set k \<Longrightarrow> segs acc k = [rev acc @ k]"
  by (induction k arbitrary: acc) auto

lemma user_path:
  assumes "CHR ''/'' \<notin> set k" and "CHR ''@'' \<in> set k"
  shows "cleanPath (''/api/user/'' @ k) = ''/api/user/'' @ k" and "segs [] (''/api/user/'' @ k) = [[], ''api'', ''user'', k]"
proof -
  have k: "k \<noteq> []" "k \<noteq> ''.''" "k \<noteq> ''..''" using assms by auto
  moreover have "last k \<noteq> CHR ''/''" using last_in_set [OF k(1)] assms(1) by auto
  ultimately show "cleanPath (''/api/user/'' @ k) = ''/api/user/'' @ k"
    using Split_plain [OF assms(1)] by (simp add: cleanPath_def Clean_def)
  show "segs [] (''/api/user/'' @ k) = [[], ''api'', ''user'', k]" using segs_plain [OF assms(1)] by simp
qed

lemma match_user_Add:
  assumes "rq_Method r = ''POST''" and "rq_Path r = ''/api/user''"
  shows "mux_Match (Http_LoadRouter h env) r False = (Some (User_Add env, []), False)"
  using assms by (simp add: router_defs seg_match_def)

lemma match_user_Del:
  assumes "rq_Method r = ''DELETE''" and "segs [] (rq_Path r) = [[], ''api'', ''user'', k]" and "k \<noteq> []"
  shows "mux_Match (Http_LoadRouter h env) r False = (Some (User_Del env, [(''id'', k)]), False)"
  using assms by (simp add: router_defs seg_match_def)

lemma served_authorized:
  assumes "mux_Match (Http_LoadRouter h env) r False = (Some (f, vs), False)" and "cleanPath (rq_Path r) = rq_Path r"
    and "HasPrefix (rq_Path r) ''/api/''" and "rq_Auth r = Some (hp_adminToken h, pass)"
  shows "Http_Serve h env r s = f r vs s"
  using assms by (simp add: Http_Serve_def Http_Middleware_def Http_IsAuth_def)

text \<open>The file of the users has what the cache has, if there is a file and it can be written.\<close>

definition users_saved :: "('c, 'l) henv \<Rightarrow> ('c, 'l) hstate \<Rightarrow> bool" where
  "users_saved env s \<longleftrightarrow> (let f = ur_File (hs_users s) in
     f = [] \<or> ve_open (we_vpn (he_world env)) f \<noteq> None \<or> hs_files s f = fst (user_Save None (he_fmt env) (hs_users s)))"

lemma save_users_facts [simp]: "hs_sw (save_users env s) = hs_sw s" "users_saved env (save_users env s)"
  by (auto simp: save_users_def users_saved_def user_Save_def Let_def split: option.split)

lemma add_new_user:
  assumes "user_Get (User_Id u) w \<noteq> None \<or> ssm_lookup (ur_Users w) (User_Id u) = None \<and> \<not> SafeStrMap_full (ur_Users w)"
    and "us_Password u \<noteq> []" and "us_Role u \<noteq> []" and "us_Lease u \<noteq> zeroTime"
  obtains j where "user_Get (User_Id u) (add_new u w) = Some j" and "us_Password (ur_heap (add_new u w) j) = us_Password u"
    and "us_Role (ur_heap (add_new u w) j) = us_Role u" and "us_Lease (ur_heap (add_new u w) j) = us_Lease u"
proof (cases "user_Get (User_Id u) w")
  case None
  with assms(1) have n: "ssm_lookup (ur_Users w) (User_Id u) = None" "\<not> SafeStrMap_full (ur_Users w)" by auto
  have "user_Get (User_Id u) (add_new u w) = Some (ur_next w)" "ur_heap (add_new u w) (ur_next w) = u"
    using sm.set_new [OF n(2,1)] n(1) by (simp_all add: add_new_def user_Add_def new_user_def user_Get_def SafeStrMap_Get_def Let_def)
  then show thesis using that by simp
next
  case (Some j)
  then have "user_Get (User_Id u) (fst (new_user u w)) = Some j" by (simp add: user_Get_def new_user_def)
  then have "user_Get (User_Id u) (add_new u w) = Some j" "us_Password (ur_heap (add_new u w) j) = us_Password u"
    "us_Role (ur_heap (add_new u w) j) = us_Role u" "us_Lease (ur_heap (add_new u w) j) = us_Lease u"
    using assms(2-4) by (simp_all add: add_new_def user_Add_def new_user_def user_Get_def Let_def)
  then show thesis by (rule that)
qed

lemma user_Del_Get [simp]: "user_Get k (user_Del k w) = None"
  by (simp add: user_Get_def user_Del_def SafeStrMap_Get_def SafeStrMap_Del_def AList.delete_conv' split: option.split)

lemma user_ops_LdapCfg [simp]: "ur_LdapCfg (user_Del k w) = ur_LdapCfg w" "ur_LdapCfg (add_new u w) = ur_LdapCfg w"
  by (simp_all add: user_Del_def add_new_def user_Add_def new_user_def Let_def split: option.split)

lemma Check_known:
  assumes "user_Get (User_Id obj) w = Some j" and "us_Role (ur_heap w j) \<in> {''admin'', ''guest''}" and "us_Password (ur_heap w j) = us_Password obj"
    and "year (us_Lease (ur_heap w j)) < 2000 \<or> now < us_Lease (ur_heap w j)"
  shows "snd (user_Check ld year now obj w) = Inr j"
  using assms by (auto simp: user_Check_def Let_def)

lemma Check_unknown:
  assumes "user_Get (User_Id obj) w = None" and "ur_LdapCfg w = None"
  shows "\<exists>e. snd (user_Check ld year now obj w) = Inl e"
  using assms by (simp add: user_Check_def user_CheckLdap_def user_GetLdap_def)

text \<open>C19. A user that the administrator posts can log in, and the same user cannot after the administrator has deleted it: in between, every
  answer says so, and each time the file of the users has what the cache has. The user has a password, a local role and a lease
  that is not over, there is room for it, and no directory service is configured.\<close>

theorem http_user_lifecycle:
  assumes "rq_Method r = ''POST''" and "rq_Path r = ''/api/user''" and "rq_Auth r = Some (hp_adminToken h, pass)" and "rq_Body r = Inr body"
    and "he_getUser env body = Inr su" and u: "u = SchemaToUserModel (he_unfmt env) (he_now env) su"
    and "user_Get (User_Id u) (hs_users s) \<noteq> None \<or> ssm_lookup (ur_Users (hs_users s)) (User_Id u) = None \<and> \<not> SafeStrMap_full (ur_Users (hs_users s))"
    and "us_Password u \<noteq> []" and "us_Role u \<in> {''admin'', ''guest''}" and "us_Lease u \<noteq> zeroTime"
    and "en_year (he_env env) (us_Lease u) < 2000 \<or> he_now env < us_Lease u" and "ur_LdapCfg (hs_users s) = None"
    and "en_User (he_env env) data = Some v" and "User_Id (User_Update (he_now env) v) = User_Id u" and "us_Password v = us_Password u"
    and "rq_Method d = ''DELETE''" and "rq_Path d = ''/api/user/'' @ User_Id u" and "rq_Auth d = Some (hp_adminToken h, pass)"
    and "CHR ''/'' \<notin> set (User_Id u)"
  shows "\<exists>s1 s2. Http_Serve h env r s = (s1, Inr (ResponseMsg env 0 [])) \<and> users_saved env s1 \<and> login_accepted (he_env env) data (hs_sw s1) \<and>
    Http_Serve h env d s1 = (s2, Inr (ResponseMsg env 0 [])) \<and> users_saved env s2 \<and> \<not> login_accepted (he_env env) data (hs_sw s2)"
proof -
  let ?w = "add_new u (hs_users s)"
  define s1 where "s1 = save_users env (on_sw (\<lambda>x. x\<lparr>st_user := ?w\<rparr>) s)"
  define s2 where "s2 = save_users env (on_sw (\<lambda>x. x\<lparr>st_user := user_Del (User_Id u) ?w\<rparr>) s1)"
  have pw: "us_Password (User_Update (he_now env) v) = us_Password u" using assms(15) by (simp add: User_Update_def Let_def)
  have "cleanPath (rq_Path r) = rq_Path r" "HasPrefix (rq_Path r) ''/api/''" using assms(2) by (simp_all add: cleanPath_def Clean_def HasPrefix_def)
  from served_authorized [OF match_user_Add [OF assms(1,2), of h env] this assms(3), of s]
  have r: "Http_Serve h env r s = (s1, Inr (ResponseMsg env 0 []))"
    by (simp add: User_Add_def with_body_def assms(4,5) u s1_def Let_def)
  obtain j where j: "user_Get (User_Id u) ?w = Some j" "us_Password (ur_heap ?w j) = us_Password u" "us_Role (ur_heap ?w j) = us_Role u"
    "us_Lease (ur_heap ?w j) = us_Lease u" using assms(9) by (rule_tac add_new_user [OF assms(7,8) _ assms(10)]) auto
  have a: "login_accepted (he_env env) data (hs_sw s1)"
    using Check_known [of "User_Update (he_now env) v" ?w j "en_year (he_env env)" "he_now env" "en_ldap (he_env env)"] j pw assms(9,11,13,14)
    by (auto simp: login_accepted_def s1_def)
  have id: "CHR ''@'' \<in> set (User_Id u)" "User_Id u \<noteq> []" by (simp_all add: User_Id_def)
  have "cleanPath (rq_Path d) = rq_Path d" "HasPrefix (rq_Path d) ''/api/''" "segs [] (rq_Path d) = [[], ''api'', ''user'', User_Id u]"
    using user_path [OF assms(19) id(1)] by (simp_all add: assms(17) HasPrefix_def)
  from served_authorized [OF match_user_Del [OF assms(16) this(3) id(2), of h env] this(1,2) assms(18), of s1]
  have d: "Http_Serve h env d s1 = (s2, Inr (ResponseMsg env 0 []))" by (simp add: User_Del_def var_def s1_def s2_def Let_def)
  have "user_Get (User_Id u) (hs_users s2) = None" "ur_LdapCfg (hs_users s2) = None"
    using assms(12) by (simp_all add: s2_def)
  then have "\<not> login_accepted (he_env env) data (hs_sw s2)"
    using Check_unknown [of "User_Update (he_now env) v" "hs_users s2" "en_ldap (he_env env)" "en_year (he_env env)" "he_now env"] assms(13,14)
    by (auto simp: login_accepted_def)
  with r a d show ?thesis by (auto simp: s1_def s2_def)
qed

section \<open>Lists of users\<close>

lemma until_nil_Some: "until_nil (map Some xs @ [None]) = xs"
  by (induction xs) (simp_all add: until_nil_def)

lemma listed_users: "until_nil (user_List w) = List.map_filter snd (ssm_data (ur_Users w))"
proof -
  have "fst (SafeStrMap_Iter (\<lambda>k v acc. acc @ [Some v]) d acc n) = acc @ map Some (List.map_filter snd d)" for d :: "(string \<times> nat option) list" and acc n
    by (induction d arbitrary: acc n) (auto split: option.split)
  then show ?thesis by (simp add: user_List_def until_nil_Some)
qed

lemma match_user_List:
  assumes "rq_Method r = ''GET''" and "rq_Path r = ''/api/user''"
  shows "mux_Match (Http_LoadRouter h env) r False = (Some (User_List env, []), False)"
  using assms by (simp add: router_defs seg_match_def)

definition stored_users :: "('c, 'l) henv \<Rightarrow> ('c, 'l) hstate \<Rightarrow> sc_User list" where
  "stored_users env s = map (\<lambda>i. NewUserSchema (he_fmt env) (ur_heap (hs_users s) i)) (List.map_filter snd (ssm_data (ur_Users (hs_users s))))"

definition user_key :: "sc_User \<Rightarrow> string" where
  "user_key u = ju_Network u @ ju_Name u"

lemma same_key: "filter (\<lambda>u. user_key u = user_key z) xs = filter (\<lambda>y. \<not> by_text user_key z y \<and> \<not> by_text user_key y z) xs"
proof (rule filter_cong [OF refl])
  fix x
  have "str_le (user_key z) (user_key z)" using str_le_total by blast
  then show "(user_key x = user_key z) = (\<not> by_text user_key z x \<and> \<not> by_text user_key x z)"
    using str_le_antisym [of "user_key x" "user_key z"] by (auto simp: by_text_def str_lt_def)
qed

text \<open>C36. The list of users has every user of the cache once, sorted by network and name, the greatest first; users with the same text of
  network and name come in the order of the cache.\<close>

theorem http_users_listed:
  assumes "rq_Method r = ''GET''" and "rq_Path r = ''/api/user''" and "rq_Auth r = Some (hp_adminToken h, pass)"
  shows "\<exists>vs. Http_Serve h env r s = (s, Inr (ResponseJson env (PUsers vs))) \<and> mset vs = mset (stored_users env s) \<and>
    sorted_wrt (\<lambda>a b. str_le (user_key b) (user_key a)) vs \<and>
    (\<forall>z. filter (\<lambda>u. user_key u = user_key z) vs = filter (\<lambda>u. user_key u = user_key z) (stored_users env s))"
proof -
  have "cleanPath (rq_Path r) = rq_Path r" "HasPrefix (rq_Path r) ''/api/''" using assms(2) by (simp_all add: cleanPath_def Clean_def HasPrefix_def)
  from served_authorized [OF match_user_List [OF assms(1,2), of h env] this assms(3), of s]
  have "Http_Serve h env r s = (s, Inr (ResponseJson env (PUsers (SliceStable (by_text user_key) (stored_users env s)))))"
    by (simp add: User_List_def listed_users stored_users_def user_key_def [abs_def] Let_def)
  moreover have "filter (\<lambda>u. user_key u = user_key z) (SliceStable (by_text user_key) us) = filter (\<lambda>u. user_key u = user_key z) us" for z us
    unfolding same_key by (rule text_order.SliceStable_stable)
  moreover have "sorted_wrt (\<lambda>a b. str_le (user_key b) (user_key a)) (SliceStable (by_text user_key) us)" for us
    using text_order.SliceStable_sorted [of user_key us] by (simp add: by_text_def str_lt_def)
  ultimately show ?thesis using text_order.SliceStable_mset [of user_key "stored_users env s"] by blast
qed

section \<open>Instances\<close>

definition http_demo :: olHttp where
  "http_demo = \<lparr>hp_listen = [], hp_adminToken = ''t'', hp_guestToken = ''g'', hp_adminFile = ''token'', hp_server = True, hp_crtFile = [], hp_keyFile = [],
     hp_pubDir = ''/pub''\<rparr>"

definition schema_demo :: sc_User where
  "schema_demo = \<lparr>ju_Alias = [], ju_Role = ''guest'', ju_Name = ''b'', ju_Password = ''p'', ju_Network = ''n'', ju_Lease = []\<rparr>"

definition status_demo :: sc_Point where
  "status_demo = \<lparr>jp_Uptime = 0, jp_UUID = [], jp_Network = [], jp_User = [], jp_Alias = [], jp_Protocol = [], jp_Remote = [], jp_Device = [], jp_RxBytes = 0,
     jp_TxBytes = 0, jp_ErrPkt = 0, jp_State = [], jp_AliveTime = 0, jp_System = []\<rparr>"

definition henv_demo :: "(unit, nat) henv" where
  "henv_demo = \<lparr>he_env = env_demo, he_world = wenv_demo, he_json = (\<lambda>_. Inr []), he_yaml = (\<lambda>_. Inr []), he_indent = (\<lambda>_. None), he_getUser = (\<lambda>_. Inr schema_demo),
     he_getPoint = (\<lambda>_. Inl (NewErr [])), he_getPProf = (\<lambda>_. Inr []), he_fmt = (\<lambda>_. []), he_unfmt = (\<lambda>_. 50), he_load = (\<lambda>_. status_demo),
     he_stats = (\<lambda>_ _ _. None), he_time = (\<lambda>_. None), he_glob = (\<lambda>_. []), he_md5 = (\<lambda>_. []), he_random = ''r'', he_render = (\<lambda>_ _. []), he_pprof = (\<lambda>_. []),
     he_url = (\<lambda>_ p. p)\<rparr>"

definition hstate_demo :: "(unit, nat) hstate" where
  "hstate_demo = \<lparr>hs_sw = state_demo\<lparr>st_user := cache_User\<lparr>ur_File := ''f''\<rparr>\<rparr>, hs_world = world_demo, hs_workers = [], hs_kernel = [],
     hs_pprof = \<lparr>pf_Listen = [], pf_Error = None\<rparr>, hs_cfg = None, hs_uuid = [], hs_newTime = 0, hs_alias = []\<rparr>"

definition request_demo :: "string \<Rightarrow> string \<Rightarrow> (string \<times> string) option \<Rightarrow> request" where
  "request_demo method path auth = \<lparr>rq_Method = method, rq_Path = path, rq_Auth = auth, rq_Host = [], rq_Query = [], rq_Body = Inr []\<rparr>"


lemma demo_user:
  "SchemaToUserModel (he_unfmt henv_demo) (he_now henv_demo) schema_demo = zero_user\<lparr>us_Name := ''b'', us_Network := ''n'', us_Password := ''p'', us_Role := ''guest'',
     us_Lease := 50, us_UpdateAt := 9\<rparr>"
  "en_User (he_env henv_demo) [] = Some (zero_user\<lparr>us_Name := ''b@n'', us_Password := ''p'', us_UUID := ''u''\<rparr>)"
  by code_simp+

theorem http_user_lifecycle_witness:
  "\<exists>s1 s2. Http_Serve http_demo henv_demo (request_demo ''POST'' ''/api/user'' (Some (''t'', []))) hstate_demo = (s1, Inr (ResponseMsg henv_demo 0 [])) \<and>
     login_accepted env_demo [] (hs_sw s1) \<and>
     Http_Serve http_demo henv_demo (request_demo ''DELETE'' ''/api/user/b@n'' (Some (''t'', []))) s1 = (s2, Inr (ResponseMsg henv_demo 0 [])) \<and>
     \<not> login_accepted env_demo [] (hs_sw s2)"
proof -
  let ?u = "zero_user\<lparr>us_Name := ''b'', us_Network := ''n'', us_Password := ''p'', us_Role := ''guest'', us_Lease := 50, us_UpdateAt := 9\<rparr>"
  let ?v = "zero_user\<lparr>us_Name := ''b@n'', us_Password := ''p'', us_UUID := ''u''\<rparr>"
  have id: "User_Id ?u = ''b@n''" by (simp add: User_Id_def)
  have v: "User_Id (User_Update (he_now henv_demo) ?v) = User_Id ?u" by code_simp
  have e: "he_env henv_demo = env_demo" "en_now env_demo = 9" by (simp_all add: henv_demo_def env_demo_def)
  have r: "he_getUser henv_demo [] = Inr schema_demo" by (simp add: henv_demo_def)
  have n: "ssm_lookup (ur_Users (hs_users hstate_demo)) (User_Id ?u) = None" "\<not> SafeStrMap_full (ur_Users (hs_users hstate_demo))"
    by (simp_all add: hstate_demo_def cache_User_def NewSafeStrMap_def SafeStrMap_full_def)
  have "\<exists>s1 s2. Http_Serve http_demo henv_demo (request_demo ''POST'' ''/api/user'' (Some (''t'', []))) hstate_demo = (s1, Inr (ResponseMsg henv_demo 0 [])) \<and>
      users_saved henv_demo s1 \<and> login_accepted (he_env henv_demo) [] (hs_sw s1) \<and>
      Http_Serve http_demo henv_demo (request_demo ''DELETE'' (''/api/user/'' @ User_Id ?u) (Some (''t'', []))) s1 = (s2, Inr (ResponseMsg henv_demo 0 [])) \<and>
      users_saved henv_demo s2 \<and> \<not> login_accepted (he_env henv_demo) [] (hs_sw s2)"
    by (rule http_user_lifecycle [OF _ _ _ _ r demo_user(1) [symmetric] _ _ _ _ _ _ demo_user(2) v])
      (use n e in \<open>simp_all add: request_demo_def http_demo_def zeroTime_def hstate_demo_def cache_User_def id\<close>)
  then show ?thesis unfolding id e(1) by auto
qed

theorem http_users_listed_witness:
  "\<exists>vs. Http_Serve http_demo henv_demo (request_demo ''GET'' ''/api/user'' (Some (''t'', []))) (on_sw (\<lambda>w. w\<lparr>st_user := users_demo\<rparr>) hstate_demo) =
      (on_sw (\<lambda>w. w\<lparr>st_user := users_demo\<rparr>) hstate_demo, Inr (ResponseJson henv_demo (PUsers vs))) \<and> size (mset vs) = 1"
proof -
  let ?s = "on_sw (\<lambda>w. w\<lparr>st_user := users_demo\<rparr>) hstate_demo"
  have "length (stored_users henv_demo ?s) = 1" by (simp add: stored_users_def users_demo_def)
  then have "size (mset (stored_users henv_demo ?s)) = 1" by simp
  with http_users_listed [of "request_demo ''GET'' ''/api/user'' (Some (''t'', []))" http_demo "[]" henv_demo ?s] show ?thesis
    by (auto simp: request_demo_def http_demo_def simp del: size_mset)
qed

end
