(* ===== verification/ApWorker.thy ===== *)
theory ApWorker
  imports Config Prog Socket
begin

text \<open>The access point, first part (\<open>src/pkg/olap/worker.go\<close>, \<open>neighbor.go\<close>): its state, the queues of events and frames between its
  two workers, the table of neighbors of a tun device, and the \<open>Worker\<close> that binds the workers together. The workers themselves are in
  the theories \<open>ApTap\<close> and \<open>ApSocket\<close>.

  The state \<open>ap\<close> holds the socket worker, the tap worker, the worker, and what belongs to the host: the devices that were made, the
  goroutines that read a device or the connection, and the calls of the listener that change addresses and routes of the host.
  Times are \<open>int64\<close>. A handler blocks when a channel is full. Operations of the host, of JSON and of random numbers are fields of
  the environment \<open>apenv\<close>, which every step gets anew.\<close>

section \<open>Events\<close>

definition EvSocConed :: string where "EvSocConed = ''conned''"
definition EvSocRecon :: string where "EvSocRecon = ''reconn''"
definition EvSocClosed :: string where "EvSocClosed = ''closed''"
definition EvSocSuccess :: string where "EvSocSuccess = ''success''"
definition EvSocSignIn :: string where "EvSocSignIn = ''signIn''"
definition EvSocLogin :: string where "EvSocLogin = ''login''"
definition EvTapIpAddr :: string where "EvTapIpAddr = ''ipAddr''"
definition EvTapReadErr :: string where "EvTapReadErr = ''readErr''"
definition EvTapReset :: string where "EvTapReset = ''reset''"
definition EvTapOpenErr :: string where "EvTapOpenErr = ''openErr''"

lemmas ev_defs = EvSocConed_def EvSocRecon_def EvSocClosed_def EvSocSuccess_def EvSocSignIn_def EvSocLogin_def
  EvTapIpAddr_def EvTapReadErr_def EvTapReset_def EvTapOpenErr_def

record WorkerEvent =
  ev_Type :: string
  ev_Reason :: string
  ev_Time :: i64

definition NewEvent :: "i64 \<Rightarrow> string \<Rightarrow> string \<Rightarrow> WorkerEvent" where
  "NewEvent now newType reason = \<lparr>ev_Type = newType, ev_Reason = reason, ev_Time = now\<rparr>"

record KeepAlive =
  ka_Interval :: i64
  ka_LastTime :: i64

definition KeepAlive_Should :: "i64 \<Rightarrow> KeepAlive \<Rightarrow> bool" where
  "KeepAlive_Should now k \<longleftrightarrow> sint (now - ka_LastTime k) \<ge> sint (ka_Interval k)"

definition KeepAlive_Update :: "i64 \<Rightarrow> KeepAlive \<Rightarrow> KeepAlive" where
  "KeepAlive_Update now k = k\<lparr>ka_LastTime := now\<rparr>"

section \<open>Neighbors\<close>

record ap_Neighbor =
  nb_HwAddr :: "byte list"
  nb_IpAddr :: "byte list"
  nb_Uptime :: i64
  nb_NewTime :: i64

text \<open>The table by the number of the address.\<close>

record Neighbors =
  nbs_neighbors :: "(u32 \<times> ap_Neighbor) list"
  nbs_timeout :: i64
  nbs_interval :: i64

definition Neighbors_Expire :: "i64 \<Rightarrow> Neighbors \<Rightarrow> Neighbors" where
  "Neighbors_Expire now n =
     (let deletes = map fst (filter (\<lambda>(index, learn). sint (now - nb_Uptime learn) \<ge> sint (nbs_timeout n)) (nbs_neighbors n))
      in n\<lparr>nbs_neighbors := fold AList.delete deletes (nbs_neighbors n)\<rparr>)"

text \<open>The addresses for which \<open>Interval\<close> calls its listener.\<close>

definition Neighbors_Interval :: "i64 \<Rightarrow> Neighbors \<Rightarrow> byte list list" where
  "Neighbors_Interval now n =
     map (nb_IpAddr \<circ> snd) (filter (\<lambda>(index, learn). sint (now - nb_Uptime learn) \<ge> sint (nbs_interval n)) (nbs_neighbors n))"

text \<open>\<open>Uint32\<close> needs four bytes, the copies need six and four.\<close>

definition Neighbors_Add :: "ap_Neighbor option \<Rightarrow> Neighbors \<Rightarrow> Neighbors result" where
  "Neighbors_Add h n =
     (case h of
        None \<Rightarrow> Inr n
      | Some h \<Rightarrow>
          if length (nb_IpAddr h) < 4 \<or> length (nb_HwAddr h) < 6 then Inl oor
          else let k = Uint32 (nb_IpAddr h)
               in Inr (n\<lparr>nbs_neighbors := AList.update k
                    (case map_of (nbs_neighbors n) k of
                       Some l \<Rightarrow> l\<lparr>nb_Uptime := nb_Uptime h, nb_HwAddr := copy_into 0 6 (take 6 (nb_HwAddr h)) (nb_HwAddr l)\<rparr>
                     | None \<Rightarrow> \<lparr>nb_HwAddr = take 6 (nb_HwAddr h), nb_IpAddr = take 4 (nb_IpAddr h), nb_Uptime = nb_Uptime h,
                                nb_NewTime = nb_NewTime h\<rparr>) (nbs_neighbors n)\<rparr>))"

definition Neighbors_Get :: "u32 \<Rightarrow> Neighbors \<Rightarrow> ap_Neighbor option" where
  "Neighbors_Get d n = map_of (nbs_neighbors n) d"

definition Neighbors_Clear :: "Neighbors \<Rightarrow> Neighbors" where
  "Neighbors_Clear n = n\<lparr>nbs_neighbors := fold AList.delete (map fst (nbs_neighbors n)) (nbs_neighbors n)\<rparr>"

definition Neighbors_GetByBytes :: "byte list \<Rightarrow> Neighbors \<Rightarrow> ap_Neighbor option result" where
  "Neighbors_GetByBytes d n = (if length d < 4 then Inl oor else Inr (map_of (nbs_neighbors n) (Uint32 d)))"

section \<open>State\<close>

record PrefixRule =
  px_Type :: int
  px_Destination :: IPNet
  px_NextHop :: "byte list"

text \<open>\<open>wk_running\<close> says that the two workers are there, \<open>wk_started\<close> that the goroutines of \<open>Start\<close> run, which take the requests to stop.\<close>

record Worker =
  wk_ifAddr :: string
  wk_cfg :: co_Point
  wk_uuid :: string
  wk_network :: "Network option"
  wk_routes :: "PrefixRule list"
  wk_running :: bool
  wk_started :: bool

record TunEther =
  te_HwAddr :: "byte list"
  te_IpAddr :: "byte list"

text \<open>A device is known by its number; nil addresses are empty.\<close>

record TapWorker =
  tw_device :: "nat option"
  tw_ether :: TunEther
  tw_neighbor :: Neighbors
  tw_devCfg :: TapConfig
  tw_pinCfg :: co_Point
  tw_ifAddr :: string
  tw_writeQueue :: "FrameMessage list"
  tw_done :: nat
  tw_eventQueue :: "WorkerEvent list"

text \<open>A job is known by its time, its call is always the one of \<open>reconnect\<close>.\<close>

record 'c SocketWorker =
  sk_client :: "('c, unit) SocketClientImpl option"
  sk_user :: User
  sk_network :: Network
  sk_keepalive :: KeepAlive
  sk_done :: nat
  sk_ticker :: bool
  sk_pinCfg :: co_Point
  sk_eventQueue :: "WorkerEvent list"
  sk_writeQueue :: "FrameMessage list"
  sk_jobber :: "i64 list"
  sk_record :: SafeStrInt64

text \<open>What the host sees of a device: whether it is open and up, and what was written to it.\<close>

record device =
  dv_open :: bool
  dv_up :: bool
  dv_tun :: bool
  dv_written :: "byte list list"

datatype host_call = AddAddr string | DelAddr string | OnTap nat | AddRoutes "Route list" | DelRoutes "Route list"

record 'c ap =
  ap_con :: "'c SocketWorker"
  ap_tap :: TapWorker
  ap_work :: Worker
  ap_devices :: "device list"
  ap_tapReaders :: "nat list"
  ap_conReaders :: nat
  ap_calls :: "host_call list"

record PingMsg =
  pg_DateTime :: i64
  pg_UUID :: string
  pg_Alias :: string
  pg_Connection :: string
  pg_Address :: string

text \<open>Which calls of the listener of the worker are set.\<close>

record WorkerListener =
  wl_AddAddr :: bool
  wl_DelAddr :: bool
  wl_OnTap :: bool
  wl_AddRoutes :: bool
  wl_DelRoutes :: bool

record 'c apenv =
  ae_ops :: "'c conn"
  ae_na :: "'c addrs"
  ae_dial :: "string \<Rightarrow> 'c result"
  ae_now :: i64
  ae_nano :: i64
  ae_host :: host
  ae_listener :: WorkerListener
  ae_OnTap :: "error option"
  ae_NewTaper :: "error option"
  ae_devWrite :: "error option"
  ae_hw :: "byte list"
  ae_putUser :: "User \<Rightarrow> byte list option"
  ae_putNetwork :: "Network \<Rightarrow> byte list option"
  ae_getNetwork :: "byte list \<Rightarrow> Network option"
  ae_putPing :: "PingMsg \<Rightarrow> byte list option"
  ae_getPing :: "byte list \<Rightarrow> PingMsg option"

abbreviation con_mod :: "('c SocketWorker \<Rightarrow> 'c SocketWorker) \<Rightarrow> ('c ap, unit) prog" where
  "con_mod f \<equiv> modify (\<lambda>s. s\<lparr>ap_con := f (ap_con s)\<rparr>)"

abbreviation tap_mod :: "(TapWorker \<Rightarrow> TapWorker) \<Rightarrow> ('c ap, unit) prog" where
  "tap_mod f \<equiv> modify (\<lambda>s. s\<lparr>ap_tap := f (ap_tap s)\<rparr>)"

abbreviation work_mod :: "(Worker \<Rightarrow> Worker) \<Rightarrow> ('c ap, unit) prog" where
  "work_mod f \<equiv> modify (\<lambda>s. s\<lparr>ap_work := f (ap_work s)\<rparr>)"

abbreviation host_call :: "bool \<Rightarrow> host_call \<Rightarrow> ('c ap, unit) prog" where
  "host_call on c \<equiv> whenever on (modify (\<lambda>s. s\<lparr>ap_calls := ap_calls s @ [c]\<rparr>))"

text \<open>Both event queues have room for 32 events, a sender waits for room.\<close>

definition con_event :: "'c apenv \<Rightarrow> string \<Rightarrow> string \<Rightarrow> ('c ap, unit) prog" where
  "con_event env t reason = bnd (gets (length \<circ> sk_eventQueue \<circ> ap_con)) (\<lambda>n.
     if n < 32 then con_mod (\<lambda>w. w\<lparr>sk_eventQueue := sk_eventQueue w @ [NewEvent (ae_now env) t reason]\<rparr>) else block)"

definition tap_event :: "'c apenv \<Rightarrow> string \<Rightarrow> string \<Rightarrow> ('c ap, unit) prog" where
  "tap_event env t reason = bnd (gets (length \<circ> tw_eventQueue \<circ> ap_tap)) (\<lambda>n.
     if n < 32 then tap_mod (\<lambda>w. w\<lparr>tw_eventQueue := tw_eventQueue w @ [NewEvent (ae_now env) t reason]\<rparr>) else block)"

text \<open>\<open>Write\<close> of both workers puts a frame into their queue; the capacity comes from the configuration.\<close>

definition queue_of :: "co_Point \<Rightarrow> Queue" where
  "queue_of c = (case cp_Queue c of None \<Rightarrow> zero_queue | Some q \<Rightarrow> q)"

definition SocketWorker_Write :: "FrameMessage \<Rightarrow> ('c ap, unit) prog" where
  "SocketWorker_Write frame = bnd (gets ap_con) (\<lambda>w.
     if int (length (sk_writeQueue w)) < qu_SockWr (queue_of (sk_pinCfg w))
     then con_mod (\<lambda>w. w\<lparr>sk_writeQueue := sk_writeQueue w @ [frame]\<rparr>) else block)"

definition TapWorker_Write :: "FrameMessage \<Rightarrow> ('c ap, unit) prog" where
  "TapWorker_Write frame = bnd (gets ap_tap) (\<lambda>w.
     if int (length (tw_writeQueue w)) < qu_TapWr (queue_of (tw_pinCfg w))
     then tap_mod (\<lambda>w. w\<lparr>tw_writeQueue := tw_writeQueue w @ [frame]\<rparr>) else block)"

section \<open>Worker\<close>

definition GetTapCfg :: "co_Point \<Rightarrow> TapConfig" where
  "GetTapCfg c = \<lparr>tpc_Provider = if_Provider (cp_Interface c), tpc_Type = (if if_Provider (cp_Interface c) = ''tun'' then 1 else 2),
     tpc_Network = if_Address (cp_Interface c), tpc_Name = if_Name (cp_Interface c), tpc_VirBuf = qu_VirWrt (queue_of c),
     tpc_KernBuf = qu_VirSnd (queue_of c), tpc_Mtu = 0\<rparr>"

definition NewWorker :: "co_Point \<Rightarrow> Worker" where
  "NewWorker cfg = \<lparr>wk_ifAddr = if_Address (cp_Interface cfg), wk_cfg = cfg, wk_uuid = [], wk_network = None, wk_routes = [],
     wk_running = False, wk_started = False\<rparr>"

text \<open>The rules are tried in the order of the list; a rule of type zero is a network that needs no next hop. A next hop that is no
  IPv4 address is nil.\<close>

fun FindNext_loop :: "byte list \<Rightarrow> PrefixRule list \<Rightarrow> byte list" where
  "FindNext_loop dest [] = dest"
| "FindNext_loop dest (rt # rts) =
     (if \<not> IPNet_Contains (px_Destination rt) dest then FindNext_loop dest rts
      else if px_Type rt = 0 then dest
      else case To4 (px_NextHop rt) of None \<Rightarrow> [] | Some n \<Rightarrow> n)"

definition Worker_FindNext :: "byte list \<Rightarrow> Worker \<Rightarrow> byte list" where
  "Worker_FindNext dest w = FindNext_loop dest (wk_routes w)"

text \<open>The rules of an address with its routes, for \<open>OnIpAddr\<close>.\<close>

definition if_rule :: "host \<Rightarrow> Network \<Rightarrow> PrefixRule" where
  "if_rule ho n =
     (let ip = (case ParseIP (ho_p6 ho) (nt_IfAddr n) of None \<Rightarrow> [] | Some ip \<Rightarrow> ip);
          m = (case ParseIP (ho_p6 ho) (nt_Netmask n) of None \<Rightarrow> [] | Some m \<Rightarrow> (case To4 m of None \<Rightarrow> [] | Some m \<Rightarrow> m))
      in \<lparr>px_Type = 0, px_Destination = \<lparr>in_IP = (case IP_Mask ip m of None \<Rightarrow> [] | Some x \<Rightarrow> x), in_Mask = m\<rparr>, px_NextHop = EthZero\<rparr>)"

definition route_rule :: "host \<Rightarrow> Route \<Rightarrow> PrefixRule option" where
  "route_rule ho rt =
     (case ParseCIDR (ho_p6 ho) (rt_Prefix rt) of
        None \<Rightarrow> None
      | Some (_, dest) \<Rightarrow> Some \<lparr>px_Type = 1, px_Destination = dest,
          px_NextHop = (case ParseIP (ho_p6 ho) (rt_NextHop rt) of None \<Rightarrow> [] | Some nxt \<Rightarrow> nxt)\<rparr>)"

definition ip_str :: "host \<Rightarrow> Network \<Rightarrow> string" where
  "ip_str ho n = nt_IfAddr n @ ''/'' @ digits (Netmask2Len (ho_p6 ho) (nt_Netmask n))"

definition Worker_OnIpAddr :: "'c apenv \<Rightarrow> Network \<Rightarrow> ('c ap, unit) prog" where
  "Worker_OnIpAddr env n =
     bnd (gets (wk_network \<circ> ap_work)) (\<lambda>old.
     if NetworkEqual old (Some n) then ret ()
     else andthen (tap_event env EvTapIpAddr (ip_str (ae_host env) n))
         (andthen (host_call (wl_AddAddr (ae_listener env)) (AddAddr (ip_str (ae_host env) n)))
         (andthen (host_call (wl_AddRoutes (ae_listener env)) (AddRoutes (nt_Routes n)))
         (work_mod (\<lambda>w. w\<lparr>wk_network := Some n,
            wk_routes := wk_routes w @ [if_rule (ae_host env) n] @ List.map_filter (route_rule (ae_host env)) (nt_Routes n)\<rparr>)))))"

definition Worker_FreeIpAddr :: "'c apenv \<Rightarrow> ('c ap, unit) prog" where
  "Worker_FreeIpAddr env =
     bnd (gets (wk_network \<circ> ap_work)) (\<lambda>old. case old of
       None \<Rightarrow> ret ()
     | Some n \<Rightarrow>
         andthen (host_call (wl_DelRoutes (ae_listener env)) (DelRoutes (nt_Routes n)))
        (andthen (host_call (wl_DelAddr (ae_listener env)) (DelAddr (ip_str (ae_host env) n)))
        (work_mod (\<lambda>w. w\<lparr>wk_network := None, wk_routes := []\<rparr>))))"

definition Worker_OnClose :: "'c apenv \<Rightarrow> ('c ap, unit) prog" where
  "Worker_OnClose env = Worker_FreeIpAddr env"

definition Worker_OnSuccess :: "'c apenv \<Rightarrow> ('c ap, unit) prog" where
  "Worker_OnSuccess env = bnd (gets (wk_ifAddr \<circ> ap_work)) (\<lambda>a. host_call (wl_AddAddr (ae_listener env)) (AddAddr a))"

text \<open>The listener \<open>OnOpen\<close> that \<open>Initialize\<close> gives to the tap worker: an error of \<open>OnTap\<close> ends it.\<close>

definition Worker_OnOpen :: "'c apenv \<Rightarrow> nat \<Rightarrow> ('c ap, unit) prog" where
  "Worker_OnOpen env dev =
     andthen (host_call (wl_OnTap (ae_listener env)) (OnTap dev))
     (if wl_OnTap (ae_listener env) \<and> ae_OnTap env \<noteq> None then ret ()
      else bnd (gets (wk_network \<circ> ap_work)) (\<lambda>net. case net of
          None \<Rightarrow> ret ()
        | Some n \<Rightarrow> andthen (Worker_FreeIpAddr env) (Worker_OnIpAddr env n)))"

definition Worker_UUID :: "string \<Rightarrow> Worker \<Rightarrow> Worker \<times> string" where
  "Worker_UUID random w = (let w = (if wk_uuid w = [] then w\<lparr>wk_uuid := random\<rparr> else w) in (w, wk_uuid w))"

definition Worker_SetUUID :: "string \<Rightarrow> Worker \<Rightarrow> Worker" where
  "Worker_SetUUID v w = w\<lparr>wk_uuid := v\<rparr>"

end
