(* ===== verification/ApTap.thy ===== *)
theory ApTap
  imports ApWorker
begin

text \<open>The access point, second part (\<open>src/pkg/olap/tap.go\<close>): the tap worker, which carries frames between a device of the host and the
  socket worker. On a tun device it adds and takes off the Ethernet header, answers ARP requests for its own address and asks for
  the hardware address of a next hop. The frames it passes on (\<open>ReadAt\<close>) go into the queue of the socket worker.\<close>

section \<open>Operations\<close>

definition NewTapWorker :: "TapConfig \<Rightarrow> co_Point \<Rightarrow> TapWorker" where
  "NewTapWorker devCfg pinCfg = \<lparr>tw_device = None, tw_ether = \<lparr>te_HwAddr = [], te_IpAddr = []\<rparr>,
     tw_neighbor = \<lparr>nbs_neighbors = [], nbs_timeout = 0, nbs_interval = 0\<rparr>, tw_devCfg = devCfg, tw_pinCfg = pinCfg, tw_ifAddr = [],
     tw_writeQueue = [], tw_done = 0, tw_eventQueue = []\<rparr>"

definition TapWorker_IsTun :: "TapWorker \<Rightarrow> bool" where
  "TapWorker_IsTun a \<longleftrightarrow> tpc_Type (tw_devCfg a) = TUN"

definition tun_addr :: "host \<Rightarrow> string \<Rightarrow> byte list" where
  "tun_addr ho ipAddr =
     (case ParseIP (ho_p6 ho) (hd (SplitN ipAddr (CHR ''/'') 2)) of
        None \<Rightarrow> [0, 0, 0, 0] | Some ip \<Rightarrow> (case To4 ip of None \<Rightarrow> [0, 0, 0, 0] | Some ip \<Rightarrow> ip))"

text \<open>A new address opens the device again. Nothing but the table changes when the address cannot be parsed.\<close>

definition TapWorker_setEther :: "'c apenv \<Rightarrow> string \<Rightarrow> byte list option \<Rightarrow> ('c ap, unit) prog" where
  "TapWorker_setEther env ipAddr hwAddr =
     andthen (tap_mod (\<lambda>a. a\<lparr>tw_neighbor := Neighbors_Clear (tw_neighbor a)\<rparr>))
     (case IPNetmask (ho_p6 (ae_host env)) (ho_s6 (ae_host env)) ipAddr of
        None \<Rightarrow> ret ()
      | Some ipAddr \<Rightarrow>
          andthen (tap_mod (\<lambda>a. a\<lparr>tw_ether := (tw_ether a)\<lparr>te_IpAddr := tun_addr (ae_host env) ipAddr\<rparr>\<rparr>))
         (andthen (case hwAddr of None \<Rightarrow> ret () | Some hw \<Rightarrow> tap_mod (\<lambda>a. a\<lparr>tw_ether := (tw_ether a)\<lparr>te_HwAddr := hw\<rparr>\<rparr>))
         (andthen (bnd (gets (tw_ifAddr \<circ> ap_tap)) (\<lambda>old.
             whenever (old \<noteq> [] \<and> old \<noteq> ipAddr) (tap_event env EvTapReset ''ifAddr changed'')))
         (tap_mod (\<lambda>a. a\<lparr>tw_ifAddr := ipAddr\<rparr>)))))"

definition TapWorker_OnIpAddr :: "'c apenv \<Rightarrow> string \<Rightarrow> ('c ap, unit) prog" where
  "TapWorker_OnIpAddr env addr = tap_event env EvTapIpAddr addr"

definition TapWorker_close :: "('c ap, unit) prog" where
  "TapWorker_close = bnd (gets (tw_device \<circ> ap_tap)) (\<lambda>d. case d of
     None \<Rightarrow> ret ()
   | Some d \<Rightarrow> modify (\<lambda>s. s\<lparr>ap_devices := (ap_devices s)[d := (ap_devices s ! d)\<lparr>dv_open := False\<rparr>]\<rparr>))"

text \<open>A new device has the next number. It is up, has a reader, and then the listener \<open>OnOpen\<close> runs.\<close>

definition TapWorker_open :: "'c apenv \<Rightarrow> ('c ap, error option) prog" where
  "TapWorker_open env =
     andthen TapWorker_close
     (case ae_NewTaper env of
        Some err \<Rightarrow> ret (Some err)
      | None \<Rightarrow>
          bnd (gets (\<lambda>s. length (ap_devices s))) (\<lambda>d.
          andthen (modify (\<lambda>s. s\<lparr>ap_devices := ap_devices s @ [\<lparr>dv_open = True, dv_up = True,
                dv_tun = TapWorker_IsTun (ap_tap s), dv_written = []\<rparr>], ap_tapReaders := ap_tapReaders s @ [d]\<rparr>))
         (andthen (tap_mod (\<lambda>a. a\<lparr>tw_device := Some d\<rparr>))
         (andthen (Worker_OnOpen env d)
         (ret None)))))"

definition TapWorker_newEth :: "u16 \<Rightarrow> byte list \<Rightarrow> TapWorker \<Rightarrow> Ether" where
  "TapWorker_newEth t dst a = (NewEther t)\<lparr>eth_Dst := dst, eth_Src := te_HwAddr (tw_ether a)\<rparr>"

text \<open>A frame with an Ethernet header and an ARP body.\<close>

definition arp_frame :: "Ether \<Rightarrow> Arp \<Rightarrow> FrameMessage result" where
  "arp_frame eth arp =
     (case Ether_Encode eth of
        Inl e \<Rightarrow> Inl e
      | Inr b \<Rightarrow> (case FrameMessage_Append b (NewFrameMessage 0) of
          Inl e \<Rightarrow> Inl e
        | Inr frame \<Rightarrow> (case Arp_Encode arp of
            Inl e \<Rightarrow> Inl e
          | Inr (_, b) \<Rightarrow> FrameMessage_Append b frame)))"

definition send_frame :: "FrameMessage result \<Rightarrow> ('c ap, unit) prog" where
  "send_frame r = (case r of Inl e \<Rightarrow> panic e | Inr frame \<Rightarrow> SocketWorker_Write frame)"

definition miss_arp :: "byte list \<Rightarrow> TapWorker \<Rightarrow> Arp" where
  "miss_arp dest a = NewArp\<lparr>arp_OpCode := ArpRequest, arp_SIpAddr := te_IpAddr (tw_ether a), arp_TIpAddr := dest,
     arp_SHwAddr := te_HwAddr (tw_ether a), arp_THwAddr := EthZero\<rparr>"

definition TapWorker_onMiss :: "byte list \<Rightarrow> ('c ap, unit) prog" where
  "TapWorker_onMiss dest = bnd (gets ap_tap) (\<lambda>a. send_frame (arp_frame (TapWorker_newEth EthArp EthAll a) (miss_arp dest a)))"

definition TapWorker_OnArpAlive :: "byte list \<Rightarrow> ('c ap, unit) prog" where
  "TapWorker_OnArpAlive dest = TapWorker_onMiss dest"

text \<open>\<open>data\<close> are the bytes that were read, behind the room for an Ethernet header on a tun device. The result is the frame and its
  size, zero when nothing is to be sent.\<close>

definition TapWorker_onFrame :: "FrameMessage \<Rightarrow> byte list \<Rightarrow> ('c ap, FrameMessage \<times> int) prog" where
  "TapWorker_onFrame frame data = bnd (gets ap_tap) (\<lambda>a.
     if TapWorker_IsTun a
     then case NewIpv4FromFrame data of
            (iph, Some err) \<Rightarrow> ret (frame, 0)
          | (iph, None) \<Rightarrow>
              bnd (gets (Worker_FindNext (ip4_Destination iph) \<circ> ap_work)) (\<lambda>dest.
              case Neighbors_GetByBytes dest (tw_neighbor a) of
                Inl e \<Rightarrow> panic e
              | Inr None \<Rightarrow> andthen (TapWorker_onMiss dest) (ret (frame, 0))
              | Inr (Some neb) \<Rightarrow>
                  (case Ether_Encode (TapWorker_newEth EthIp4 (nb_HwAddr neb) a) of
                     Inl e \<Rightarrow> panic e
                   | Inr b \<Rightarrow> (case FrameMessage_Append b frame of
                       Inl e \<Rightarrow> panic e
                     | Inr frame \<Rightarrow> (let size = int (length data) + 14 in ret (FrameMessage_SetSize size frame, size)))))
     else (let size = int (length data) in ret (FrameMessage_SetSize size frame, size)))"

text \<open>One turn of the loop of \<open>Read\<close> on device \<open>dev\<close>, \<open>r\<close> is what the device gives. An error ends the loop.\<close>

definition read_buffer :: "bool \<Rightarrow> byte list \<Rightarrow> FrameMessage \<times> byte list" where
  "read_buffer tun p =
     (let frame = NewFrameMessage 0;
          skip = (if tun then 14 else 0);
          p = take (fm_fhi frame - fm_flo frame - skip) p
      in (frame\<lparr>fm_buffer := copy_into (fm_flo frame + skip) (fm_fhi frame) p (fm_buffer frame)\<rparr>, p))"

definition TapWorker_isStopped :: "TapWorker \<Rightarrow> bool" where
  "TapWorker_isStopped a \<longleftrightarrow> tw_device a = None"

definition TapWorker_Read :: "'c apenv \<Rightarrow> nat \<Rightarrow> byte list result \<Rightarrow> ('c ap, unit) prog" where
  "TapWorker_Read env dev r = bnd (gets ap_tap) (\<lambda>a. case r of
     Inl err \<Rightarrow> andthen (modify (\<lambda>s. s\<lparr>ap_tapReaders := remove1 dev (ap_tapReaders s)\<rparr>))
       (if TapWorker_isStopped a then ret () else tap_event env EvTapReadErr ''from read'')
   | Inr p \<Rightarrow>
       (let (frame, data) = read_buffer (TapWorker_IsTun a) p
        in bnd (TapWorker_onFrame frame data) (\<lambda>(frame, size). if size = 0 then ret () else SocketWorker_Write frame)))"

definition TapWorker_dispatch :: "'c apenv \<Rightarrow> WorkerEvent \<Rightarrow> ('c ap, unit) prog" where
  "TapWorker_dispatch env ev =
     (if ev_Type ev \<in> {EvTapReadErr, EvTapOpenErr, EvTapReset}
      then bnd (TapWorker_open env) (\<lambda>err. case err of
          None \<Rightarrow> ret () | Some e \<Rightarrow> tap_event env EvTapOpenErr (error_text e))
      else if ev_Type ev = EvTapIpAddr then TapWorker_setEther env (ev_Reason ev) None
      else ret ())"

definition reply_arp :: "Arp \<Rightarrow> TapWorker \<Rightarrow> Arp" where
  "reply_arp arp a = NewArp\<lparr>arp_OpCode := ArpReply, arp_SIpAddr := te_IpAddr (tw_ether a), arp_TIpAddr := arp_SIpAddr arp,
     arp_SHwAddr := te_HwAddr (tw_ether a), arp_THwAddr := arp_SHwAddr arp\<rparr>"

text \<open>The result says whether the frame is done with.\<close>

definition TapWorker_toArp :: "'c apenv \<Rightarrow> byte list \<Rightarrow> ('c ap, bool) prog" where
  "TapWorker_toArp env data =
     (case NewEtherFromFrame data of
        (eth, Some err) \<Rightarrow> ret False
      | (eth, None) \<Rightarrow>
          if \<not> Ether_IsArp eth then ret False
          else case reslice_from (eth_Len eth) data of
            Inl e \<Rightarrow> panic e
          | Inr rest \<Rightarrow>
              (case NewArpFromFrame rest of
                 (arp, Some err) \<Rightarrow> ret False
               | (arp, None) \<Rightarrow> bnd (gets ap_tap) (\<lambda>a.
                   if \<not> Arp_IsIP4 arp then ret True
                   else if eth_Src eth \<noteq> arp_SHwAddr arp then ret True
                   else if arp_OpCode arp = ArpRequest
                   then (if arp_TIpAddr arp = te_IpAddr (tw_ether a)
                         then andthen (send_frame (arp_frame (TapWorker_newEth EthArp (arp_SHwAddr arp) a) (reply_arp arp a))) (ret True)
                         else ret True)
                   else if arp_OpCode arp = ArpReply
                   then (if arp_THwAddr arp = te_HwAddr (tw_ether a)
                         then case Neighbors_Add (Some \<lparr>nb_HwAddr = arp_SHwAddr arp, nb_IpAddr = arp_SIpAddr arp,
                                  nb_Uptime = ae_now env, nb_NewTime = ae_now env\<rparr>) (tw_neighbor a) of
                                Inl e \<Rightarrow> panic e
                              | Inr n \<Rightarrow> andthen (tap_mod (\<lambda>a. a\<lparr>tw_neighbor := n\<rparr>)) (ret True)
                         else ret True)
                   else ret True)))"

text \<open>What \<open>DoWrite\<close> does under the lock: the bytes to write, or the error or nil it returns.\<close>

definition DoWrite_tap_check :: "'c apenv \<Rightarrow> FrameMessage \<Rightarrow> ('c ap, error option + byte list) prog" where
  "DoWrite_tap_check env frame =
     (let data = FrameMessage_Frame frame
      in bnd (gets id) (\<lambda>s. case tw_device (ap_tap s) of
           None \<Rightarrow> ret (Inl (Some (NewErr ''device is nil'')))
         | Some d \<Rightarrow>
             if dv_tun (ap_devices s ! d)
             then bnd (TapWorker_toArp env data) (\<lambda>done.
                if done then ret (Inl None)
                else case NewEtherFromFrame data of
                  (eth, Some err) \<Rightarrow> ret (Inl None)
                | (eth, None) \<Rightarrow> if Ether_IsIP4 eth then ret (Inr (drop 14 data)) else ret (Inl None))
             else ret (Inr data)))"

text \<open>The write itself, without the lock: the worker may have been stopped in between. A closed device gives an error.\<close>

definition DoWrite_tap_send :: "'c apenv \<Rightarrow> byte list \<Rightarrow> ('c ap, error option) prog" where
  "DoWrite_tap_send env data = bnd (gets id) (\<lambda>s. case tw_device (ap_tap s) of
     None \<Rightarrow> panic nil_deref
   | Some d \<Rightarrow>
       if \<not> dv_open (ap_devices s ! d) then ret (Some (NewErr ''device is closed''))
       else case ae_devWrite env of
         Some e \<Rightarrow> ret (Some e)
       | None \<Rightarrow> andthen (modify (\<lambda>s. s\<lparr>ap_devices := (ap_devices s)[d := (ap_devices s ! d)\<lparr>dv_written := dv_written (ap_devices s ! d) @ [data]\<rparr>]\<rparr>)) (ret None))"

definition TapWorker_DoWrite :: "'c apenv \<Rightarrow> FrameMessage \<Rightarrow> ('c ap, error option) prog" where
  "TapWorker_DoWrite env frame = bnd (DoWrite_tap_check env frame) (\<lambda>r. case r of Inl e \<Rightarrow> ret e | Inr data \<Rightarrow> DoWrite_tap_send env data)"

definition TapWorker_Initialize :: "'c apenv \<Rightarrow> ('c ap, unit) prog" where
  "TapWorker_Initialize env =
     andthen (tap_mod (\<lambda>a. a\<lparr>tw_neighbor := \<lparr>nbs_neighbors = [], nbs_timeout = 3 * 60, nbs_interval = 60\<rparr>\<rparr>))
    (andthen (bnd (gets ap_tap) (\<lambda>a. whenever (TapWorker_IsTun a)
        (TapWorker_setEther env (if_Address (cp_Interface (tw_pinCfg a))) (Some (ae_hw env)))))
    (bnd (TapWorker_open env) (\<lambda>err. case err of None \<Rightarrow> ret () | Some e \<Rightarrow> tap_event env EvTapOpenErr (error_text e))))"

text \<open>A tick of the goroutine of the neighbors: keep alive what is old, then forget what is too old.\<close>

definition Neighbors_tick :: "'c apenv \<Rightarrow> ('c ap, unit) prog" where
  "Neighbors_tick env = bnd (gets (tw_neighbor \<circ> ap_tap)) (\<lambda>n.
     andthen (foreach (Neighbors_Interval (ae_now env) n) TapWorker_OnArpAlive)
     (tap_mod (\<lambda>a. a\<lparr>tw_neighbor := Neighbors_Expire (ae_now env) (tw_neighbor a)\<rparr>)))"

definition TapWorker_Stop :: "('c ap, unit) prog" where
  "TapWorker_Stop = bnd (gets (tw_done \<circ> ap_tap)) (\<lambda>n.
     if n < 2 then andthen (tap_mod (\<lambda>a. a\<lparr>tw_done := n + 1\<rparr>)) (andthen TapWorker_close (tap_mod (\<lambda>a. a\<lparr>tw_device := None\<rparr>)))
     else block)"

text \<open>One turn of \<open>Loop\<close> for the case \<open>select\<close> takes.\<close>

datatype tap_case = TwDone | TwWrite | TwEvent

definition TapWorker_Loop :: "'c apenv \<Rightarrow> tap_case \<Rightarrow> ('c ap, bool) prog" where
  "TapWorker_Loop env which = bnd (gets ap_tap) (\<lambda>a. case which of
     TwDone \<Rightarrow> if tw_done a = 0 then block else andthen (tap_mod (\<lambda>a. a\<lparr>tw_done := tw_done a - 1\<rparr>)) (ret False)
   | TwWrite \<Rightarrow> (case tw_writeQueue a of
       [] \<Rightarrow> block
     | d # q \<Rightarrow> andthen (tap_mod (\<lambda>a. a\<lparr>tw_writeQueue := q\<rparr>)) (bnd (TapWorker_DoWrite env d) (\<lambda>_. ret True)))
   | TwEvent \<Rightarrow> (case tw_eventQueue a of
       [] \<Rightarrow> block
     | ev # q \<Rightarrow> andthen (tap_mod (\<lambda>a. a\<lparr>tw_eventQueue := q\<rparr>)) (andthen (TapWorker_dispatch env ev) (ret True))))"

section \<open>Frames on the wire\<close>

text \<open>\<open>frame_has m w\<close>: the message \<open>m\<close>, made by \<open>NewFrameMessage\<close>, holds the bytes \<open>w\<close> so far.\<close>

definition frame_has :: "FrameMessage \<Rightarrow> byte list \<Rightarrow> bool" where
  "frame_has m w \<longleftrightarrow> fm_flo m = 4 \<and> fm_fhi m = length (fm_buffer m) \<and> length (fm_buffer m) = 4106 \<and> fm_total m = 4102 \<and>
     fm_size m = int (length w) \<and> length w \<le> 4102 \<and> take (length w) (drop 4 (fm_buffer m)) = w"

lemma frame_has_new: "frame_has (NewFrameMessage 0) []"
  by (simp add: frame_has_def NewFrameMessage_def Let_def)

lemma frame_has_append:
  assumes "frame_has m w" and "length w + length d \<le> 4102"
  obtains m' where "FrameMessage_Append d m = Inr m'" and "frame_has m' (w @ d)"
proof -
  let ?b = "copy_into (4 + length w) 4106 d (fm_buffer m)"
  have eq: "FrameMessage_Append d m = Inr (m\<lparr>fm_buffer := ?b, fm_size := fm_size m + int (length d)\<rparr>)"
    using assms by (simp add: frame_has_def FrameMessage_Append_def Let_def nat_int_add)
  define h r where "h = take 4 (fm_buffer m)" and "r = drop (length w) (drop 4 (fm_buffer m))"
  have "fm_buffer m = h @ w @ r" "length h = 4" "length w + length r = 4102"
    using assms(1) append_take_drop_id [of "length w" "drop 4 (fm_buffer m)"] by (auto simp: frame_has_def h_def r_def)
  then have "?b = h @ w @ d @ drop (length d) r" using assms(2) by (simp add: copy_into_def min_def)
  then have "take (length w + length d) (drop 4 ?b) = w @ d" using \<open>length h = 4\<close> by simp
  then show thesis using that [OF eq] assms by (auto simp: frame_has_def)
qed

lemma frame_has_payload: "frame_has m w \<Longrightarrow> payload m = w"
  by (simp add: frame_has_def payload_def FrameMessage_Frame_def slice_def min_def)

definition eth_bytes :: "byte list \<Rightarrow> byte list \<Rightarrow> u16 \<Rightarrow> byte list" where
  "eth_bytes dst src t = dst @ src @ PutUint16 t"

definition arp_bytes :: "u16 \<Rightarrow> byte list \<Rightarrow> byte list \<Rightarrow> byte list \<Rightarrow> byte list \<Rightarrow> byte list" where
  "arp_bytes oper sh si th ti = PutUint16 1 @ PutUint16 EthIp4 @ [6, 4] @ PutUint16 oper @ sh @ si @ th @ ti"

lemma Ether_decode:
  assumes "length dst = 6" and "length src = 6"
  shows "NewEtherFromFrame (eth_bytes dst src t @ rest) = (\<lparr>eth_Dst = dst, eth_Src = src, eth_Type = t, eth_Len = 14\<rparr>, None)"
  using eth.dec_enc [of "\<lparr>eth_Dst = dst, eth_Src = src, eth_Type = t, eth_Len = 14\<rparr>" _ rest]
    Ether_Encode_bytes [of "\<lparr>eth_Dst = dst, eth_Src = src, eth_Type = t, eth_Len = 14\<rparr>"] assms
  by (simp add: Ether_ok_def eth_bytes_def)

lemma Ether_encode:
  "length dst = 6 \<Longrightarrow> length (te_HwAddr (tw_ether a)) = 6 \<Longrightarrow>
     Ether_Encode (TapWorker_newEth t dst a) = Inr (eth_bytes dst (te_HwAddr (tw_ether a)) t)"
  by (subst Ether_Encode_bytes) (simp_all add: Ether_ok_def TapWorker_newEth_def NewEther_def eth_bytes_def)

lemma Arp_encode:
  assumes "length sh = 6" "length si = 4" "length th = 6" "length ti = 4"
  shows "\<exists>a. Arp_Encode (NewArp\<lparr>arp_OpCode := oper, arp_SIpAddr := si, arp_TIpAddr := ti, arp_SHwAddr := sh, arp_THwAddr := th\<rparr>) =
     Inr (a, arp_bytes oper sh si th ti)"
  using assms by (simp add: NewArp_def Arp_Encode_def arp_put_def Let_def bytes_simps slice_prefix arp_bytes_def del: append_assoc, simp?)

lemma Arp_decode:
  assumes "length sh = 6" "length si = 4" "length th = 6" "length ti = 4"
  shows "NewArpFromFrame (arp_bytes oper sh si th ti @ rest) =
     (NewArp\<lparr>arp_OpCode := oper, arp_SIpAddr := si, arp_TIpAddr := ti, arp_SHwAddr := sh, arp_THwAddr := th, arp_Len := 28\<rparr>, None)"
proof -
  let ?a = "NewArp\<lparr>arp_OpCode := oper, arp_SIpAddr := si, arp_TIpAddr := ti, arp_SHwAddr := sh, arp_THwAddr := th, arp_Len := 28\<rparr>"
  have ok: "Arp_ok ?a" using assms by (simp add: Arp_ok_def NewArp_def)
  have "Arp_bytes ?a = Inr (arp_bytes oper sh si th ti)"
    unfolding Arp_bytes_def Arp_Encode_bytes [OF ok] by (simp add: NewArp_def arp_bytes_def)
  from arp.dec_enc [OF ok this] show ?thesis .
qed

lemma length_eth_bytes [simp]: "length (eth_bytes dst src t) = length dst + length src + 2"
  by (simp add: eth_bytes_def)

lemma length_arp_bytes [simp]: "length (arp_bytes oper sh si th ti) = 8 + length sh + length si + length th + length ti"
  by (simp add: arp_bytes_def)

lemma arp_frame_bytes:
  assumes "length dst = 6" "length (te_HwAddr (tw_ether a)) = 6" "length sh = 6" "length si = 4" "length th = 6" "length ti = 4"
  obtains f where "arp_frame (TapWorker_newEth EthArp dst a)
      (NewArp\<lparr>arp_OpCode := oper, arp_SIpAddr := si, arp_TIpAddr := ti, arp_SHwAddr := sh, arp_THwAddr := th\<rparr>) = Inr f"
    and "payload f = eth_bytes dst (te_HwAddr (tw_ether a)) EthArp @ arp_bytes oper sh si th ti"
proof -
  obtain x where x: "Arp_Encode (NewArp\<lparr>arp_OpCode := oper, arp_SIpAddr := si, arp_TIpAddr := ti, arp_SHwAddr := sh, arp_THwAddr := th\<rparr>) =
     Inr (x, arp_bytes oper sh si th ti)" using Arp_encode [OF assms(3-6)] by blast
  obtain f where f: "FrameMessage_Append (eth_bytes dst (te_HwAddr (tw_ether a)) EthArp) (NewFrameMessage 0) = Inr f"
    "frame_has f ([] @ eth_bytes dst (te_HwAddr (tw_ether a)) EthArp)"
    by (rule frame_has_append [OF frame_has_new, of "eth_bytes dst (te_HwAddr (tw_ether a)) EthArp"]) (use assms in simp_all)
  obtain g where g: "FrameMessage_Append (arp_bytes oper sh si th ti) f = Inr g"
    "frame_has g (([] @ eth_bytes dst (te_HwAddr (tw_ether a)) EthArp) @ arp_bytes oper sh si th ti)"
    by (rule frame_has_append [OF f(2), of "arp_bytes oper sh si th ti"]) (use assms in simp_all)
  show thesis
    by (rule that [of g]) (use frame_has_payload [OF g(2)] in \<open>simp_all add: arp_frame_def Ether_encode assms(1,2) f(1) x g(1)\<close>)
qed

section \<open>Address resolution and delivery between two tun devices\<close>

text \<open>The message that the other side makes of the bytes of a frame, once its messager has them all.\<close>

definition carried :: "FrameMessage \<Rightarrow> FrameMessage" where
  "carried f = (case NewFrameMessageFromBytes ([0, 0, 0, 0] @ payload f) of Inl _ \<Rightarrow> f | Inr m \<Rightarrow> m)"

lemma carried_Frame [simp]: "FrameMessage_Frame (carried f) = payload f"
  by (simp add: carried_def NewFrameMessageFromBytes_def FrameMessage_Frame_def slice_def)

definition queued :: "FrameMessage \<Rightarrow> 'c ap \<Rightarrow> 'c ap" where
  "queued f s = s\<lparr>ap_con := (ap_con s)\<lparr>sk_writeQueue := sk_writeQueue (ap_con s) @ [f]\<rparr>\<rparr>"

definition con_room :: "nat \<Rightarrow> 'c ap \<Rightarrow> bool" where
  "con_room k s \<longleftrightarrow> int (length (sk_writeQueue (ap_con s)) + k) \<le> qu_SockWr (queue_of (sk_pinCfg (ap_con s)))"

lemma con_room_mono: "con_room k s \<Longrightarrow> j \<le> k \<Longrightarrow> con_room j s"
  by (simp add: con_room_def)

lemma con_room_queued: "con_room (Suc k) s \<Longrightarrow> con_room k (queued f s)"
  by (simp add: con_room_def queued_def)

lemma SocketWorker_Write_queued: "con_room (Suc 0) s \<Longrightarrow> SocketWorker_Write f s = Some (Inr ((), queued f s))"
  by (simp add: SocketWorker_Write_def con_room_def queued_def prog_defs)

lemma queued_same [simp]:
  "ap_tap (queued f s) = ap_tap s" "ap_work (queued f s) = ap_work s" "ap_devices (queued f s) = ap_devices s"
  "sk_writeQueue (ap_con (queued f s)) = sk_writeQueue (ap_con s) @ [f]"
  by (simp_all add: queued_def)

text \<open>A point with an open tun device \<open>d\<close>, the hardware address \<open>hw\<close> and the address \<open>ip\<close>.\<close>

definition tun_point :: "byte list \<Rightarrow> byte list \<Rightarrow> nat \<Rightarrow> 'c ap \<Rightarrow> bool" where
  "tun_point hw ip d s \<longleftrightarrow> tw_ether (ap_tap s) = \<lparr>te_HwAddr = hw, te_IpAddr = ip\<rparr> \<and> length hw = 6 \<and> length ip = 4 \<and>
     TapWorker_IsTun (ap_tap s) \<and> tw_device (ap_tap s) = Some d \<and> d < length (ap_devices s) \<and>
     dv_tun (ap_devices s ! d) \<and> dv_open (ap_devices s ! d)"

lemma tun_point_queued [simp]: "tun_point hw ip d (queued f s) = tun_point hw ip d s"
  by (simp add: tun_point_def)

lemma onMiss_sends:
  assumes "tun_point hw ip d s" and "con_room (Suc 0) s" and "length dest = 4"
  obtains f where "TapWorker_onMiss dest s = Some (Inr ((), queued f s))"
    and "payload f = eth_bytes EthAll hw EthArp @ arp_bytes ArpRequest hw ip EthZero dest"
proof -
  have e: "te_HwAddr (tw_ether (ap_tap s)) = hw" "te_IpAddr (tw_ether (ap_tap s)) = ip" "length hw = 6" "length ip = 4"
    using assms(1) by (simp_all add: tun_point_def)
  obtain f where f: "arp_frame (TapWorker_newEth EthArp EthAll (ap_tap s)) (miss_arp dest (ap_tap s)) = Inr f"
    "payload f = eth_bytes EthAll hw EthArp @ arp_bytes ArpRequest hw ip EthZero dest"
    using arp_frame_bytes [of EthAll "ap_tap s" hw ip EthZero dest ArpRequest] e assms(3)
    unfolding miss_arp_def by (auto simp: EthAll_def EthZero_def)
  have "TapWorker_onMiss dest s = Some (Inr ((), queued f s))"
    using f(1) SocketWorker_Write_queued [OF assms(2)] by (simp add: TapWorker_onMiss_def send_frame_def bnd_def gets_def)
  then show thesis using that f(2) by blast
qed

text \<open>What the tap worker reads of an ARP frame.\<close>

lemma toArp_decode:
  assumes "length dst = 6" "length src = 6" "length si = 4" "length th = 6" "length ti = 4"
    and "data = eth_bytes dst src EthArp @ arp_bytes oper src si th ti"
  defines "arp \<equiv> NewArp\<lparr>arp_OpCode := oper, arp_SIpAddr := si, arp_TIpAddr := ti, arp_SHwAddr := src, arp_THwAddr := th, arp_Len := 28\<rparr>"
  shows "TapWorker_toArp env data = bnd (gets ap_tap) (\<lambda>a.
     if oper = ArpRequest
     then (if ti = te_IpAddr (tw_ether a)
           then andthen (send_frame (arp_frame (TapWorker_newEth EthArp src a) (reply_arp arp a))) (ret True) else ret True)
     else if oper = ArpReply
     then (if th = te_HwAddr (tw_ether a)
           then case Neighbors_Add (Some \<lparr>nb_HwAddr = src, nb_IpAddr = si, nb_Uptime = ae_now env, nb_NewTime = ae_now env\<rparr>) (tw_neighbor a) of
                  Inl e \<Rightarrow> panic e | Inr n \<Rightarrow> andthen (tap_mod (\<lambda>a. a\<lparr>tw_neighbor := n\<rparr>)) (ret True)
           else ret True)
     else ret True)"
proof -
  have "NewEtherFromFrame data = (\<lparr>eth_Dst = dst, eth_Src = src, eth_Type = EthArp, eth_Len = 14\<rparr>, None)"
    unfolding assms(6) using Ether_decode [OF assms(1,2)] .
  moreover have "reslice_from 14 data = Inr (arp_bytes oper src si th ti)"
    using assms(1-5) by (simp add: assms(6) reslice_from_Inr)
  moreover have "NewArpFromFrame (arp_bytes oper src si th ti) = (arp, None)"
    using Arp_decode [OF assms(2-5), of oper "[]"] by (simp add: arp_def)
  moreover have "Arp_IsIP4 arp" "arp_SHwAddr arp = src" "arp_OpCode arp = oper" "arp_TIpAddr arp = ti" "arp_THwAddr arp = th" "arp_SIpAddr arp = si"
    by (simp_all add: arp_def Arp_IsIP4_def NewArp_def)
  ultimately show ?thesis by (simp add: TapWorker_toArp_def Ether_IsArp_def cong: if_cong)
qed

lemma DoWrite_done:
  assumes "tun_point hw ip d s" and "TapWorker_toArp env (FrameMessage_Frame g) s = Some (Inr (True, s'))"
  shows "TapWorker_DoWrite env g s = Some (Inr (None, s'))"
  using assms by (simp add: TapWorker_DoWrite_def DoWrite_tap_check_def Let_def tun_point_def prog_defs)

text \<open>A request for the own address is answered.\<close>

lemma DoWrite_request:
  assumes "tun_point hw ip d s" and "con_room (Suc 0) s" and "length dst = 6" "length src = 6" "length si = 4" "length th = 6"
    and "FrameMessage_Frame g = eth_bytes dst src EthArp @ arp_bytes ArpRequest src si th ip"
  obtains f where "TapWorker_DoWrite env g s = Some (Inr (None, queued f s))"
    and "payload f = eth_bytes src hw EthArp @ arp_bytes ArpReply hw ip src si"
proof -
  have e: "te_HwAddr (tw_ether (ap_tap s)) = hw" "te_IpAddr (tw_ether (ap_tap s)) = ip" "length hw = 6" "length ip = 4"
    using assms(1) by (simp_all add: tun_point_def)
  let ?arp = "NewArp\<lparr>arp_OpCode := ArpRequest, arp_SIpAddr := si, arp_TIpAddr := ip, arp_SHwAddr := src, arp_THwAddr := th, arp_Len := 28\<rparr>"
  obtain f where f: "arp_frame (TapWorker_newEth EthArp src (ap_tap s)) (reply_arp ?arp (ap_tap s)) = Inr f"
    "payload f = eth_bytes src hw EthArp @ arp_bytes ArpReply hw ip src si"
    using arp_frame_bytes [of src "ap_tap s" hw ip src si ArpReply] e assms(4,5) unfolding reply_arp_def by auto
  have "TapWorker_toArp env (FrameMessage_Frame g) s = Some (Inr (True, queued f s))"
    unfolding toArp_decode [OF assms(3-6) e(4) assms(7)]
    using f(1) e SocketWorker_Write_queued [OF assms(2)] by (simp add: prog_defs send_frame_def)
  from that [OF DoWrite_done [OF assms(1) this] f(2)] show thesis .
qed

text \<open>A reply to the own hardware address is learned.\<close>

lemma DoWrite_reply:
  assumes "tun_point hw ip d s" and "length dst = 6" "length src = 6" "length si = 4" "length ti = 4"
    and "FrameMessage_Frame g = eth_bytes dst src EthArp @ arp_bytes ArpReply src si hw ti"
  obtains n l where "TapWorker_DoWrite env g s = Some (Inr (None, s\<lparr>ap_tap := (ap_tap s)\<lparr>tw_neighbor := n\<rparr>\<rparr>))"
    and "Neighbors_GetByBytes si n = Inr (Some l)"
    and "Neighbors_GetByBytes si (tw_neighbor (ap_tap s)) = Inr None \<Longrightarrow> nb_HwAddr l = src"
proof -
  have e: "te_HwAddr (tw_ether (ap_tap s)) = hw" "length hw = 6" using assms(1) by (simp_all add: tun_point_def)
  let ?h = "\<lparr>nb_HwAddr = src, nb_IpAddr = si, nb_Uptime = ae_now env, nb_NewTime = ae_now env\<rparr>"
  obtain n where n: "Neighbors_Add (Some ?h) (tw_neighbor (ap_tap s)) = Inr n" using assms(3,4) by (simp add: Neighbors_Add_def Let_def)
  then obtain l where l: "map_of (nbs_neighbors n) (Uint32 si) = Some l"
    "map_of (nbs_neighbors (tw_neighbor (ap_tap s))) (Uint32 si) = None \<Longrightarrow> nb_HwAddr l = src"
    using assms(3,4) by (auto simp: Neighbors_Add_def Let_def map_of_upd_del split: option.splits)
  have "TapWorker_toArp env (FrameMessage_Frame g) s = Some (Inr (True, s\<lparr>ap_tap := (ap_tap s)\<lparr>tw_neighbor := n\<rparr>\<rparr>))"
    unfolding toArp_decode [OF assms(2-4) e(2) assms(5,6)] using n e by (simp add: prog_defs)
  from that [OF DoWrite_done [OF assms(1) this], of l] l assms(4) show thesis by (simp add: Neighbors_GetByBytes_def)
qed

lemma read_buffer_encap:
  assumes "length p \<le> 4088" and "length b = 14"
  obtains frame f where "read_buffer True p = (frame, p)" and "FrameMessage_Append b frame = Inr f"
    and "payload (FrameMessage_SetSize (int (length p) + 14) f) = b @ p"
proof -
  let ?n = "NewFrameMessage 0"
  let ?frame = "?n\<lparr>fm_buffer := copy_into 18 4106 p (fm_buffer ?n)\<rparr>"
  have n: "fm_flo ?n = 4" "fm_fhi ?n = 4106" "fm_buffer ?n = replicate 4106 0" "fm_size ?n = 0" "fm_total ?n = 4102"
    by (simp_all add: NewFrameMessage_def Let_def)
  have buf: "copy_into 18 4106 p (replicate 4106 0) = replicate 4 0 @ replicate 14 0 @ p @ replicate (4088 - length p) 0"
    using assms(1) by (simp add: copy_into_def min_def flip: replicate_add append_assoc)
  then have buf': "copy_into 4 4106 b (copy_into 18 4106 p (replicate 4106 0)) = replicate 4 0 @ b @ p @ replicate (4088 - length p) 0"
    using assms(2) by (simp add: copy_into_def)
  show thesis
  proof (rule that)
    show "read_buffer True p = (?frame, p)" using n assms(1) by (simp add: read_buffer_def Let_def)
    show app: "FrameMessage_Append b ?frame = Inr (?frame\<lparr>fm_buffer := copy_into 4 4106 b (fm_buffer ?frame), fm_size := 14\<rparr>)"
      using n assms(2) by (simp add: FrameMessage_Append_def Let_def)
    show "payload (FrameMessage_SetSize (int (length p) + 14) (?frame\<lparr>fm_buffer := copy_into 4 4106 b (fm_buffer ?frame), fm_size := 14\<rparr>)) = b @ p"
      using n assms buf' by (simp add: payload_def FrameMessage_SetSize_def FrameMessage_Frame_def slice_def min_def nat_add_distrib)
  qed
qed

text \<open>What \<open>Read\<close> does with an IPv4 packet: it is sent to the next hop when its hardware address is known, else the address is asked for.\<close>

lemma Read_known:
  assumes "tun_point hw ip d s" and "con_room (Suc 0) s" and "length p \<le> 4088" and "NewIpv4FromFrame p = (iph, None)"
    and "Neighbors_GetByBytes (Worker_FindNext (ip4_Destination iph) (ap_work s)) (tw_neighbor (ap_tap s)) = Inr (Some l)"
    and "length (nb_HwAddr l) = 6"
  obtains f where "TapWorker_Read env d (Inr p) s = Some (Inr ((), queued f s))" and "payload f = eth_bytes (nb_HwAddr l) hw EthIp4 @ p"
proof -
  have e: "te_HwAddr (tw_ether (ap_tap s)) = hw" "length hw = 6" "TapWorker_IsTun (ap_tap s)" using assms(1) by (simp_all add: tun_point_def)
  let ?b = "eth_bytes (nb_HwAddr l) hw EthIp4"
  have b: "length ?b = 14" using e assms(6) by simp
  obtain frame f where f: "read_buffer True p = (frame, p)" "FrameMessage_Append ?b frame = Inr f"
    "payload (FrameMessage_SetSize (int (length p) + 14) f) = ?b @ p" using read_buffer_encap [OF assms(3) b] .
  have enc: "Ether_Encode (TapWorker_newEth EthIp4 (nb_HwAddr l) (ap_tap s)) = Inr ?b"
    using Ether_encode [of "nb_HwAddr l" "ap_tap s" EthIp4] e assms(6) by simp
  show thesis
    by (rule that [of "FrameMessage_SetSize (int (length p) + 14) f"])
      (use f e assms(4,5) enc SocketWorker_Write_queued [OF assms(2)] in
        \<open>simp_all add: TapWorker_Read_def TapWorker_onFrame_def prog_defs Let_def\<close>)
qed

lemma Read_unknown:
  assumes "tun_point hw ip d s" and "con_room (Suc 0) s" and "NewIpv4FromFrame p = (iph, None)" and "length p \<le> 4088"
    and "Worker_FindNext (ip4_Destination iph) (ap_work s) = dest" and "Neighbors_GetByBytes dest (tw_neighbor (ap_tap s)) = Inr None"
    and "length dest = 4"
  obtains f where "TapWorker_Read env d (Inr p) s = Some (Inr ((), queued f s))"
    and "payload f = eth_bytes EthAll hw EthArp @ arp_bytes ArpRequest hw ip EthZero dest"
proof -
  obtain f where f: "TapWorker_onMiss dest s = Some (Inr ((), queued f s))"
    "payload f = eth_bytes EthAll hw EthArp @ arp_bytes ArpRequest hw ip EthZero dest" using onMiss_sends [OF assms(1,2,7)] .
  obtain frame where "read_buffer True p = (frame, p)"
    by (rule read_buffer_encap [OF assms(4), of "replicate 14 0"]) (simp_all add: length_replicate)
  then have "TapWorker_Read env d (Inr p) s = Some (Inr ((), queued f s))"
    using f(1) assms(1,3,5,6) by (simp add: TapWorker_Read_def TapWorker_onFrame_def tun_point_def prog_defs)
  then show thesis using that f(2) by blast
qed

text \<open>An IPv4 frame loses its Ethernet header and goes to the device.\<close>

lemma DoWrite_ip4:
  assumes "tun_point hw ip d s" and "ae_devWrite env = None" and "length dst = 6" "length src = 6"
    and "FrameMessage_Frame g = eth_bytes dst src EthIp4 @ p"
  shows "TapWorker_DoWrite env g s = Some (Inr (None,
     s\<lparr>ap_devices := (ap_devices s)[d := (ap_devices s ! d)\<lparr>dv_written := dv_written (ap_devices s ! d) @ [p]\<rparr>]\<rparr>))"
proof -
  have e: "NewEtherFromFrame (FrameMessage_Frame g) = (\<lparr>eth_Dst = dst, eth_Src = src, eth_Type = EthIp4, eth_Len = 14\<rparr>, None)"
    unfolding assms(5) using Ether_decode [OF assms(3,4)] .
  then have "TapWorker_toArp env (FrameMessage_Frame g) s = Some (Inr (False, s))"
    by (simp add: TapWorker_toArp_def Ether_IsArp_def prog_defs)
  moreover have "drop 14 (FrameMessage_Frame g) = p" using assms(3-5) by simp
  ultimately show ?thesis using assms(1,2) e
    by (simp add: TapWorker_DoWrite_def DoWrite_tap_check_def DoWrite_tap_send_def Let_def tun_point_def Ether_IsIP4_def prog_defs)
qed

text \<open>C31. Two access points with tun devices resolve each other's addresses and carry packets: when the next hop of an IPv4 packet
  is the other point and is not known yet, the first point asks for it, the other point answers, the first one learns the answer, and
  then the packet, sent once more by the host, is written to the device of the other point exactly as it was.\<close>

theorem tun_packet_delivered:
  assumes "tun_point hA iA dA sA" and "tun_point hB iB dB sB" and "con_room 2 sA" and "con_room (Suc 0) sB"
    and "NewIpv4FromFrame p = (iph, None)" and "length p \<le> 4088" and "Worker_FindNext (ip4_Destination iph) (ap_work sA) = iB"
    and "Neighbors_GetByBytes iB (tw_neighbor (ap_tap sA)) = Inr None" and "ae_devWrite eB = None"
  shows "\<exists>f1 f2 f3 sA1 sA2 sA3 sB1 sB2.
     TapWorker_Read eA dA (Inr p) sA = Some (Inr ((), sA1)) \<and> sk_writeQueue (ap_con sA1) = sk_writeQueue (ap_con sA) @ [f1] \<and>
     TapWorker_DoWrite eB (carried f1) sB = Some (Inr (None, sB1)) \<and> sk_writeQueue (ap_con sB1) = sk_writeQueue (ap_con sB) @ [f2] \<and>
     TapWorker_DoWrite eA (carried f2) sA1 = Some (Inr (None, sA2)) \<and>
     TapWorker_Read eA dA (Inr p) sA2 = Some (Inr ((), sA3)) \<and> sk_writeQueue (ap_con sA3) = sk_writeQueue (ap_con sA1) @ [f3] \<and>
     TapWorker_DoWrite eB (carried f3) sB1 = Some (Inr (None, sB2)) \<and>
     dv_written (ap_devices sB2 ! dB) = dv_written (ap_devices sB ! dB) @ [p]"
proof -
  have len: "length hA = 6" "length iA = 4" "length hB = 6" "length iB = 4" "length EthAll = 6" "length EthZero = 6"
    using assms(1,2) by (simp_all add: tun_point_def EthAll_def EthZero_def)
  obtain f1 where f1: "TapWorker_Read eA dA (Inr p) sA = Some (Inr ((), queued f1 sA))"
    "payload f1 = eth_bytes EthAll hA EthArp @ arp_bytes ArpRequest hA iA EthZero iB"
    by (rule Read_unknown [OF assms(1) con_room_mono [OF assms(3)] assms(5-8) len(4)]) simp_all
  obtain f2 where f2: "TapWorker_DoWrite eB (carried f1) sB = Some (Inr (None, queued f2 sB))"
    "payload f2 = eth_bytes hA hB EthArp @ arp_bytes ArpReply hB iB hA iA"
    by (rule DoWrite_request [OF assms(2,4) len(5,1,2,6), of "carried f1"]) (simp_all add: f1(2))
  obtain n l where n: "TapWorker_DoWrite eA (carried f2) (queued f1 sA) = Some (Inr (None, (queued f1 sA)\<lparr>ap_tap := (ap_tap sA)\<lparr>tw_neighbor := n\<rparr>\<rparr>))"
    "Neighbors_GetByBytes iB n = Inr (Some l)" "nb_HwAddr l = hB"
    by (rule DoWrite_reply [of hA iA dA "queued f1 sA" hA hB iB iA "carried f2" eA]) (simp_all add: assms(1,8) len f2(2))
  let ?s = "(queued f1 sA)\<lparr>ap_tap := (ap_tap sA)\<lparr>tw_neighbor := n\<rparr>\<rparr>"
  have s: "tun_point hA iA dA ?s" "con_room (Suc 0) ?s"
    using assms(1) con_room_queued [of "Suc 0" sA f1] assms(3) by (simp_all add: tun_point_def TapWorker_IsTun_def con_room_def numeral_2_eq_2)
  obtain f3 where f3: "TapWorker_Read eA dA (Inr p) ?s = Some (Inr ((), queued f3 ?s))" "payload f3 = eth_bytes hB hA EthIp4 @ p"
    by (rule Read_known [OF s assms(6,5), of l]) (simp_all add: assms(7) n len)
  have d: "dB < length (ap_devices sB)" using assms(2) by (simp add: tun_point_def)
  let ?t = "(queued f2 sB)\<lparr>ap_devices := (ap_devices sB)[dB := (ap_devices sB ! dB)\<lparr>dv_written := dv_written (ap_devices sB ! dB) @ [p]\<rparr>]\<rparr>"
  have w: "TapWorker_DoWrite eB (carried f3) (queued f2 sB) = Some (Inr (None, ?t))"
    using DoWrite_ip4 [of hB iB dB "queued f2 sB" eB hB hA "carried f3" p] assms(2,9) len f3(2) by simp
  have "dv_written (ap_devices ?t ! dB) = dv_written (ap_devices sB ! dB) @ [p]" using d by simp
  with f1(1) f2(1) n(1) f3(1) w show ?thesis
    by (intro exI [of _ f1] exI [of _ f2] exI [of _ f3] exI [of _ "queued f1 sA"] exI [of _ ?s] exI [of _ "queued f3 ?s"]
        exI [of _ "queued f2 sB"] exI [of _ ?t] conjI) (assumption | simp)+
qed

text \<open>Two points 10.0.0.1 and 10.0.0.2, and a packet without payload from the first to the second.\<close>

definition cp_demo :: co_Point where
  "cp_demo = (DefaultPoint host_demo)\<lparr>cp_Queue := Some (Queue_Default zero_queue), cp_Timeout := 60\<rparr>"

definition ae_demo :: "unit apenv" where
  "ae_demo = \<lparr>ae_ops = \<lparr>conn_Read = (\<lambda>c n. (c, Inl (NewErr []))), conn_Write = (\<lambda>c p. (c, Inr (int (length p)))),
       conn_SetReadDeadline = (\<lambda>c. (c, None)), conn_SetWriteDeadline = (\<lambda>c. (c, None))\<rparr>,
     ae_na = \<lparr>na_Local = (\<lambda>_. []), na_Remote = (\<lambda>_. [])\<rparr>, ae_dial = (\<lambda>_. Inr ()), ae_now = 0, ae_nano = 0, ae_host = host_demo,
     ae_listener = \<lparr>wl_AddAddr = True, wl_DelAddr = True, wl_OnTap = True, wl_AddRoutes = True, wl_DelRoutes = True\<rparr>,
     ae_OnTap = None, ae_NewTaper = None, ae_devWrite = None, ae_hw = [2, 0, 0, 0, 0, 1], ae_putUser = (\<lambda>_. Some []),
     ae_putNetwork = (\<lambda>_. Some []), ae_getNetwork = (\<lambda>_. None), ae_putPing = (\<lambda>_. Some []), ae_getPing = (\<lambda>_. None)\<rparr>"

definition ap_demo :: "byte list \<Rightarrow> byte list \<Rightarrow> unit ap" where
  "ap_demo hw ip = \<lparr>ap_con = \<lparr>sk_client = None, sk_user = zero_user, sk_network = NewNetwork (\<lambda>_. None) [] [],
       sk_keepalive = \<lparr>ka_Interval = 15, ka_LastTime = 0\<rparr>, sk_done = 0, sk_ticker = True, sk_pinCfg = cp_demo, sk_eventQueue = [],
       sk_writeQueue = [], sk_jobber = [], sk_record = NewSafeStrInt64\<rparr>,
     ap_tap = (NewTapWorker ((GetTapCfg cp_demo)\<lparr>tpc_Type := 1\<rparr>) cp_demo)\<lparr>tw_device := Some 0, tw_ether := \<lparr>te_HwAddr = hw, te_IpAddr = ip\<rparr>\<rparr>,
     ap_work = NewWorker cp_demo, ap_devices = [\<lparr>dv_open = True, dv_up = True, dv_tun = True, dv_written = []\<rparr>], ap_tapReaders = [0],
     ap_conReaders = 0, ap_calls = []\<rparr>"

definition packet_demo :: "byte list" where
  "packet_demo = [0x45, 0, 0, 20, 0, 0, 0, 0, 64, 1, 0, 0, 10, 0, 0, 1, 10, 0, 0, 2]"

lemma ap_demo_facts:
  "length hw = 6 \<Longrightarrow> length ip = 4 \<Longrightarrow> tun_point hw ip 0 (ap_demo hw ip)" "con_room 2 (ap_demo hw ip)" "con_room (Suc 0) (ap_demo hw ip)"
  "Worker_FindNext dest (ap_work (ap_demo hw ip)) = dest"
  "length dest = 4 \<Longrightarrow> Neighbors_GetByBytes dest (tw_neighbor (ap_tap (ap_demo hw ip))) = Inr None"
  "ap_devices (ap_demo hw ip) ! 0 = \<lparr>dv_open = True, dv_up = True, dv_tun = True, dv_written = []\<rparr>"
  by (simp_all add: ap_demo_def tun_point_def TapWorker_IsTun_def NewTapWorker_def con_room_def queue_of_def cp_demo_def Queue_Default_def
      zero_queue_def Worker_FindNext_def NewWorker_def Neighbors_GetByBytes_def)

theorem tun_packet_delivered_witness:
  "\<exists>f3 sB1 sB2. TapWorker_DoWrite ae_demo (carried f3) sB1 = Some (Inr (None, sB2)) \<and> dv_written (ap_devices sB2 ! 0) = [packet_demo]"
proof -
  have iph: "\<exists>iph. NewIpv4FromFrame packet_demo = (iph, None) \<and> ip4_Destination iph = [10, 0, 0, 2]"
    by (simp add: packet_demo_def Ipv4_defs Let_def slice_def copy_into_def)
  then obtain iph where "NewIpv4FromFrame packet_demo = (iph, None)" "ip4_Destination iph = [10, 0, 0, 2]" by blast
  moreover have "length packet_demo \<le> 4088" "ae_devWrite ae_demo = None" by (simp_all add: packet_demo_def ae_demo_def)
  ultimately show ?thesis
    using tun_packet_delivered [OF ap_demo_facts(1) ap_demo_facts(1) ap_demo_facts(2,3), of "[2, 0, 0, 0, 0, 1]" "[10, 0, 0, 1]"
        "[2, 0, 0, 0, 0, 2]" "[10, 0, 0, 2]" packet_demo iph ae_demo ae_demo]
    unfolding ap_demo_facts(6) by (simp add: ap_demo_facts(4,5)) blast
qed

end
