(* ===== verification/ApReset.thy ===== *)
theory ApReset
  imports ApTap
begin

text \<open>Behaviours of the tap worker over all interleavings of its goroutines: what becomes of the device after a change of the address,
  and the two locks it takes in different orders (\<open>src/pkg/olap/tap.go\<close>, \<open>neighbor.go\<close>).\<close>

section \<open>Steps of the tap worker\<close>

text \<open>A reader gets data or an error from its device, and only an error once the device is closed; the loop takes a frame or an event;
  the neighbors tick; the socket worker hands over an address; the socket worker does anything to its own state.\<close>

inductive tap_step :: "'c ap \<Rightarrow> 'c ap \<Rightarrow> bool" where
  reads: "d \<in> set (ap_tapReaders s) \<Longrightarrow> dv_open (ap_devices s ! d) \<or> isl r \<Longrightarrow> TapWorker_Read env d r s = Some (Inr ((), s')) \<Longrightarrow> tap_step s s'"
| writes: "TapWorker_Loop env TwWrite s = Some (Inr (True, s')) \<Longrightarrow> tap_step s s'"
| events: "TapWorker_Loop env TwEvent s = Some (Inr (True, s')) \<Longrightarrow> tap_step s s'"
| ticks: "Neighbors_tick env s = Some (Inr ((), s')) \<Longrightarrow> tap_step s s'"
| addrs: "Worker_OnIpAddr env n s = Some (Inr ((), s')) \<Longrightarrow> tap_step s s'"
| conns: "tap_step s (s\<lparr>ap_con := c\<rparr>)"

definition opens :: "WorkerEvent list \<Rightarrow> nat" where
  "opens q = length (filter (\<lambda>ev. ev_Type ev \<in> {EvTapReadErr, EvTapOpenErr, EvTapReset}) q)"

text \<open>Every event that opens a device, and every reader, which ends with such an event, counts.\<close>

definition pending :: "'c ap \<Rightarrow> nat" where
  "pending s = opens (tw_eventQueue (ap_tap s)) + length (ap_tapReaders s)"

text \<open>The worker has a device, every other one is closed, and no device has two readers.\<close>

definition devices_ok :: "'c ap \<Rightarrow> bool" where
  "devices_ok s \<longleftrightarrow> (\<exists>d < length (ap_devices s). tw_device (ap_tap s) = Some d \<and>
     (\<forall>i < length (ap_devices s). i \<noteq> d \<longrightarrow> \<not> dv_open (ap_devices s ! i))) \<and>
     distinct (ap_tapReaders s) \<and> (\<forall>r \<in> set (ap_tapReaders s). r < length (ap_devices s))"

text \<open>\<open>grows k s s'\<close>: from \<open>s\<close> to \<open>s'\<close> at least \<open>k\<close> more is pending.\<close>

definition grows :: "nat \<Rightarrow> 'c ap \<Rightarrow> 'c ap \<Rightarrow> bool" where
  "grows k s s' \<longleftrightarrow> (devices_ok s \<longrightarrow> devices_ok s' \<and> pending s + k \<le> pending s')"

interpretation grows: kept_relation "grows 0"
  by unfold_locales (auto simp: grows_def)

lemma grows_trans: "grows j s t \<Longrightarrow> grows k t u \<Longrightarrow> grows (j + k) s u"
  by (auto simp: grows_def)

lemma opens_append [simp]: "opens (q @ q') = opens q + opens q'"
  by (simp add: opens_def)

lemma tap_event_returns:
  assumes "tap_event env t reason s = Some (Inr (u, s'))"
  shows "s' = s\<lparr>ap_tap := (ap_tap s)\<lparr>tw_eventQueue := tw_eventQueue (ap_tap s) @ [NewEvent (ae_now env) t reason]\<rparr>\<rparr>"
  using assms by (auto simp: tap_event_def prog_defs split: if_splits)

lemma grows_tap_event: "keeps (grows 0) (tap_event env t reason)"
  by (rule keepsI, drule tap_event_returns) (auto simp: grows_def devices_ok_def pending_def)

lemma grows_open_event:
  "t \<in> {EvTapReadErr, EvTapOpenErr, EvTapReset} \<Longrightarrow> tap_event env t reason s = Some (Inr (u, s')) \<Longrightarrow> grows 1 s s'"
  by (drule tap_event_returns) (simp add: grows_def devices_ok_def pending_def opens_def NewEvent_def)

lemma grows_same:
  "(\<And>s. tw_device (ap_tap (g s)) = tw_device (ap_tap s) \<and> tw_eventQueue (ap_tap (g s)) = tw_eventQueue (ap_tap s) \<and>
     ap_tapReaders (g s) = ap_tapReaders s \<and> map dv_open (ap_devices (g s)) = map dv_open (ap_devices s)) \<Longrightarrow> keeps (grows 0) (modify g)"
proof (rule grows.keeps_modify)
  fix s
  assume "\<And>s. tw_device (ap_tap (g s)) = tw_device (ap_tap s) \<and> tw_eventQueue (ap_tap (g s)) = tw_eventQueue (ap_tap s) \<and>
     ap_tapReaders (g s) = ap_tapReaders s \<and> map dv_open (ap_devices (g s)) = map dv_open (ap_devices s)"
  then have eq: "tw_device (ap_tap (g s)) = tw_device (ap_tap s)" "tw_eventQueue (ap_tap (g s)) = tw_eventQueue (ap_tap s)"
    "ap_tapReaders (g s) = ap_tapReaders s" "map dv_open (ap_devices (g s)) = map dv_open (ap_devices s)" by blast+
  from map_eq_imp_length_eq [OF eq(4)] have l: "length (ap_devices (g s)) = length (ap_devices s)" .
  moreover have "dv_open (ap_devices (g s) ! i) = dv_open (ap_devices s ! i)" if "i < length (ap_devices s)" for i
    using that l arg_cong [OF eq(4), of "\<lambda>xs. xs ! i"] by simp
  ultimately show "grows 0 s (g s)" by (auto simp: grows_def devices_ok_def pending_def eq)
qed

lemma grows_SocketWorker_Write: "keeps (grows 0) (SocketWorker_Write f)"
  unfolding SocketWorker_Write_def by (intro grows.rules grows_same) simp_all

lemma grows_onMiss: "keeps (grows 0) (TapWorker_onMiss dest)"
  unfolding TapWorker_onMiss_def send_frame_def by (intro grows.rules grows_SocketWorker_Write)

lemma grows_OnIpAddr: "keeps (grows 0) (Worker_OnIpAddr env n)"
  unfolding Worker_OnIpAddr_def by (intro grows.rules grows_tap_event grows_same) simp_all

lemma grows_FreeIpAddr: "keeps (grows 0) (Worker_FreeIpAddr env)"
  unfolding Worker_FreeIpAddr_def by (intro grows.rules grows_same) simp_all

lemma grows_OnOpen: "keeps (grows 0) (Worker_OnOpen env d)"
  unfolding Worker_OnOpen_def by (intro grows.rules grows_same grows_FreeIpAddr grows_OnIpAddr) simp_all

lemma grows_toArp: "keeps (grows 0) (TapWorker_toArp env data)"
  unfolding TapWorker_toArp_def send_frame_def by (intro grows.rules grows_SocketWorker_Write grows_same) simp_all

lemma dv_open_written: "dv_open (xs[d := (xs ! d)\<lparr>dv_written := w\<rparr>] ! i) = dv_open (xs ! i)"
  by (cases "d = i"; cases "d < length xs") (simp_all add: list_update_beyond)

lemma grows_written: "grows 0 s (s\<lparr>ap_devices := (ap_devices s)[d := (ap_devices s ! d)\<lparr>dv_written := w\<rparr>]\<rparr>)"
  by (auto simp: grows_def devices_ok_def pending_def dv_open_written)

lemma grows_DoWrite: "keeps (grows 0) (TapWorker_DoWrite env frame)"
  unfolding TapWorker_DoWrite_def DoWrite_tap_check_def DoWrite_tap_send_def Let_def
  by (intro grows.rules grows_toArp grows_written)

lemma grows_tick: "keeps (grows 0) (Neighbors_tick env)"
  unfolding Neighbors_tick_def TapWorker_OnArpAlive_def by (intro grows.rules grows_onMiss grows_same) simp_all

lemma grows_setEther: "keeps (grows 0) (TapWorker_setEther env a h)"
  unfolding TapWorker_setEther_def by (intro grows.rules grows_tap_event grows_same) simp_all

text \<open>Opening adds a reader, or fails and leaves the state to the event that follows.\<close>

lemma grows_close:
  assumes "TapWorker_close s = Some (Inr (u, s'))" and "devices_ok s"
  shows "devices_ok s'" "pending s' = pending s" "\<forall>i < length (ap_devices s'). \<not> dv_open (ap_devices s' ! i)" "ap_tap s' = ap_tap s"
  using assms by (auto simp: TapWorker_close_def devices_ok_def pending_def prog_defs nth_list_update split: option.splits if_splits)

lemma grows_open:
  assumes "TapWorker_open env s = Some (Inr (r, s'))"
  shows "grows (if r = None then 1 else 0) s s'"
proof (cases "devices_ok s")
  case True
  from assms obtain s1 where c: "TapWorker_close s = Some (Inr ((), s1))" and rest: "ae_NewTaper env \<noteq> None \<and> r = ae_NewTaper env \<and> s' = s1 \<or>
      ae_NewTaper env = None"
    unfolding TapWorker_open_def by (auto elim!: andthen_SomeE split: option.splits)
  note s1 = grows_close [OF c True]
  show ?thesis
  proof (cases "ae_NewTaper env")
    case None
    let ?d = "length (ap_devices s1)"
    let ?s2 = "s1\<lparr>ap_devices := ap_devices s1 @ [\<lparr>dv_open = True, dv_up = True, dv_tun = TapWorker_IsTun (ap_tap s1), dv_written = []\<rparr>],
       ap_tapReaders := ap_tapReaders s1 @ [?d], ap_tap := (ap_tap s1)\<lparr>tw_device := Some ?d\<rparr>\<rparr>"
    have "bnd (Worker_OnOpen env ?d) (\<lambda>_. ret None) ?s2 = Some (Inr (r, s'))"
      using assms c None by (simp add: TapWorker_open_def andthen_def bnd_def gets_def modify_def)
    then have s': "Worker_OnOpen env ?d ?s2 = Some (Inr ((), s'))" "r = None" by (auto elim!: bnd_SomeE)
    have "devices_ok ?s2" "pending ?s2 = pending s + 1"
      using s1 by (auto simp: devices_ok_def pending_def nth_append less_Suc_eq)
    with keepsD [OF grows_OnOpen s'(1)] s'(2) show ?thesis by (simp add: grows_def)
  next
    case (Some e)
    with rest s1 show ?thesis by (auto simp: grows_def)
  qed
qed (simp add: grows_def)

lemma grows_dispatch:
  assumes "TapWorker_dispatch env ev s = Some (Inr (u, s'))"
  shows "grows (opens [ev]) s s'"
proof (cases "ev_Type ev \<in> {EvTapReadErr, EvTapOpenErr, EvTapReset}")
  case True
  then have ev: "opens [ev] = 1" by (simp add: opens_def)
  from assms True obtain r t where r: "TapWorker_open env s = Some (Inr (r, t))"
    and t: "(case r of None \<Rightarrow> ret () | Some e \<Rightarrow> tap_event env EvTapOpenErr (error_text e)) t = Some (Inr (u, s'))"
    unfolding TapWorker_dispatch_def by (auto elim!: bnd_SomeE simp only: if_True)
  from grows_open [OF r] t ev show ?thesis
    using grows_trans [of 0 s t 1 s'] grows_open_event [of EvTapOpenErr env _ t u s'] by (cases r) auto
next
  case False
  then have "opens [ev] = 0" by (simp add: opens_def)
  moreover have "keeps (grows 0) (TapWorker_dispatch env ev)"
    unfolding TapWorker_dispatch_def using False by (simp only: if_False) (intro grows.rules grows_setEther)
  ultimately show ?thesis using keepsD assms by metis
qed

lemma grows_onFrame: "keeps (grows 0) (TapWorker_onFrame frame data)"
  unfolding TapWorker_onFrame_def Let_def by (intro grows.rules grows_onMiss)

lemma grows_Read_data: "keeps (grows 0) (TapWorker_Read env d (Inr p))"
  unfolding TapWorker_Read_def Let_def sum.case by (intro grows.rules grows_onFrame grows_SocketWorker_Write)

lemma grows_Read_error:
  assumes "TapWorker_Read env d (Inl e) s = Some (Inr (u, s'))" and "d \<in> set (ap_tapReaders s)"
  shows "grows 0 s s'"
proof (cases "devices_ok s")
  case True
  let ?s = "s\<lparr>ap_tapReaders := remove1 d (ap_tapReaders s)\<rparr>"
  have "tw_device (ap_tap s) \<noteq> None" using True by (auto simp: devices_ok_def)
  then have "tap_event env EvTapReadErr ''from read'' ?s = Some (Inr (u, s'))"
    using assms(1) by (auto simp: TapWorker_Read_def TapWorker_isStopped_def andthen_def bnd_def gets_def modify_def)
  moreover have "devices_ok ?s" using True set_remove1_subset [of d "ap_tapReaders s"] by (auto simp: devices_ok_def)
  moreover have "pending s = pending ?s + 1"
    using assms(2) length_pos_if_in_set [OF assms(2)] by (simp add: pending_def length_remove1)
  ultimately show ?thesis using grows_open_event [of EvTapReadErr env "''from read''" ?s u s'] by (simp add: grows_def)
qed (simp add: grows_def)

lemma grows_step: "tap_step s s' \<Longrightarrow> grows 0 s s'"
proof (induction rule: tap_step.induct)
  case (reads d s r env s')
  then show ?case using grows_Read_error keepsD [OF grows_Read_data] by (cases r) blast+
next
  case (writes env s s')
  have "keeps (grows 0) (TapWorker_Loop env TwWrite)"
    unfolding TapWorker_Loop_def tap_case.case by (intro grows.keeps_bnd grows.keeps_gets, split list.split)
      (intro allI impI conjI grows.keeps_block grows.keeps_andthen grows.keeps_bnd grows.keeps_ret grows_DoWrite grows_same; simp)
  with writes show ?case by (rule keepsD [rotated])
next
  case (events env s s')
  then obtain ev q where q: "tw_eventQueue (ap_tap s) = ev # q"
    and d: "TapWorker_dispatch env ev (s\<lparr>ap_tap := (ap_tap s)\<lparr>tw_eventQueue := q\<rparr>\<rparr>) = Some (Inr ((), s'))"
    by (auto simp: TapWorker_Loop_def gets_def modify_def bnd_def andthen_def split: list.splits option.splits sum.splits)
  from grows_dispatch [OF d] q show ?case by (auto simp: grows_def devices_ok_def pending_def opens_def)
qed (auto dest: keepsD [OF grows_tick] keepsD [OF grows_OnIpAddr] simp: grows_def devices_ok_def pending_def)

text \<open>C39. A change of the address never settles. Once an event that opens the device waits while the device still has its reader,
  every later state of every interleaving, until the worker is stopped, has again an event that opens the device or a reader on a
  closed device, which can only end with such an event: the device is made anew for ever.\<close>

theorem tap_reset_never_settles:
  assumes "tap_step\<^sup>*\<^sup>* s s'" and "devices_ok s" and "2 \<le> pending s"
  shows "0 < opens (tw_eventQueue (ap_tap s')) \<or> (\<exists>d \<in> set (ap_tapReaders s'). \<not> dv_open (ap_devices s' ! d))"
proof -
  have "grows 0 s s'" using assms(1) by (induction rule: rtranclp_induct) (auto intro: grows.rel_refl grows.rel_trans grows_step)
  then have ok: "devices_ok s'" "2 \<le> pending s'" using assms(2,3) by (simp_all add: grows_def)
  then obtain d where d: "\<forall>i < length (ap_devices s'). i \<noteq> d \<longrightarrow> \<not> dv_open (ap_devices s' ! i)" by (auto simp: devices_ok_def)
  show ?thesis
  proof (cases "opens (tw_eventQueue (ap_tap s')) = 0")
    case True
    with ok have len: "2 \<le> length (ap_tapReaders s')" "distinct (ap_tapReaders s')" by (simp_all add: pending_def devices_ok_def)
    have "\<not> set (ap_tapReaders s') \<subseteq> {d}"
      using len card_mono [of "{d}" "set (ap_tapReaders s')"] by (auto simp: distinct_card)
    then obtain i where i: "i \<in> set (ap_tapReaders s')" "i \<noteq> d" by blast
    then have "\<not> dv_open (ap_devices s' ! i)" using ok(1) d by (simp add: devices_ok_def)
    with i(1) show ?thesis by blast
  qed simp
qed

text \<open>The first step takes the event that a change of the address has queued.\<close>

definition reset_demo :: "unit ap" where
  "reset_demo = (let s = ap_demo [2, 0, 0, 0, 0, 1] [10, 0, 0, 1]
     in s\<lparr>ap_tap := (ap_tap s)\<lparr>tw_eventQueue := [NewEvent 0 EvTapReset ''ifAddr changed'']\<rparr>\<rparr>)"

lemma reset_demo_step:
  "\<exists>s'. TapWorker_Loop ae_demo TwEvent reset_demo = Some (Inr (True, s')) \<and> tw_eventQueue (ap_tap s') = [] \<and>
     ap_tapReaders s' = [0, 1] \<and> map dv_open (ap_devices s') = [False, True]"
  by (simp add: TapWorker_Loop_def reset_demo_def ap_demo_def Let_def NewTapWorker_def TapWorker_dispatch_def NewEvent_def TapWorker_open_def
      TapWorker_close_def ae_demo_def Worker_OnOpen_def NewWorker_def prog_defs)

theorem tap_reset_never_settles_witness:
  "\<exists>s'. tap_step\<^sup>*\<^sup>* reset_demo s' \<and> tw_eventQueue (ap_tap s') = [] \<and> (\<exists>d. d \<in> set (ap_tapReaders s') \<and> \<not> dv_open (ap_devices s' ! d))"
proof -
  obtain s' where s': "TapWorker_Loop ae_demo TwEvent reset_demo = Some (Inr (True, s'))" "tw_eventQueue (ap_tap s') = []"
    using reset_demo_step by blast
  then have run: "tap_step\<^sup>*\<^sup>* reset_demo s'" using tap_step.events by blast
  have "devices_ok reset_demo" "2 \<le> pending reset_demo"
    by (simp_all add: reset_demo_def ap_demo_def NewTapWorker_def Let_def devices_ok_def pending_def opens_def NewEvent_def)
  from tap_reset_never_settles [OF run this] s'(2) run show ?thesis by (auto simp: opens_def)
qed

section \<open>Two locks in two orders\<close>

text \<open>\<open>Interval\<close> holds the lock of the neighbors while its listener takes the lock of the worker; \<open>DoWrite\<close> holds the lock of the
  worker while it adds a neighbor. \<open>NCalls ds\<close>: \<open>Interval\<close> is at the addresses \<open>ds\<close>; \<open>LLocked g\<close>: \<open>DoWrite\<close> has taken its lock for
  the frame \<open>g\<close>. A thread moves only when the lock it needs next is free.\<close>

datatype n_pc = NIdle | NCalls "byte list list"
datatype l_pc = LIdle | LLocked FrameMessage

text \<open>\<open>toArp\<close> adds the sender of the frame to the neighbors.\<close>

definition arp_learns :: "TapWorker \<Rightarrow> byte list \<Rightarrow> bool" where
  "arp_learns a data \<longleftrightarrow> (case NewEtherFromFrame data of (eth, err) \<Rightarrow> err = None \<and> Ether_IsArp eth \<and>
     (case NewArpFromFrame (drop 14 data) of (arp, err) \<Rightarrow> err = None \<and> Arp_IsIP4 arp \<and> eth_Src eth = arp_SHwAddr arp \<and>
        arp_OpCode arp = ArpReply \<and> arp_THwAddr arp = te_HwAddr (tw_ether a)))"

inductive lock_step :: "'c ap \<times> n_pc \<times> l_pc \<Rightarrow> 'c ap \<times> n_pc \<times> l_pc \<Rightarrow> bool" where
  interval: "lock_step (s, NIdle, l) (s, NCalls (Neighbors_Interval now (tw_neighbor (ap_tap s))), l)"
| alive: "TapWorker_OnArpAlive d s = Some (Inr ((), s')) \<Longrightarrow> lock_step (s, NCalls (d # ds), LIdle) (s', NCalls ds, LIdle)"
| expire: "lock_step (s, NCalls [], l) (s\<lparr>ap_tap := (ap_tap s)\<lparr>tw_neighbor := Neighbors_Expire now (tw_neighbor (ap_tap s))\<rparr>\<rparr>, NIdle, l)"
| locked: "tw_writeQueue (ap_tap s) = g # q \<Longrightarrow> lock_step (s, n, LIdle) (s\<lparr>ap_tap := (ap_tap s)\<lparr>tw_writeQueue := q\<rparr>\<rparr>, n, LLocked g)"
| written: "n = NIdle \<or> \<not> arp_learns (ap_tap s) (FrameMessage_Frame g) \<Longrightarrow> TapWorker_DoWrite env g s = Some (Inr (e, s')) \<Longrightarrow>
     lock_step (s, n, LLocked g) (s', n, LIdle)"

inductive_cases lock_step_stuckE: "lock_step (s, NCalls (d # ds), LLocked g) u"

lemma lock_step_stuck: "arp_learns (ap_tap s) (FrameMessage_Frame g) \<Longrightarrow> \<not> lock_step (s, NCalls (d # ds), LLocked g) u"
  by (auto elim: lock_step_stuckE)


definition lock_demo :: "unit ap" where
  "lock_demo = (let s = ap_demo [2, 0, 0, 0, 0, 1] [10, 0, 0, 1]
     in s\<lparr>ap_tap := (ap_tap s)\<lparr>tw_neighbor := \<lparr>nbs_neighbors = [(0x0a000002, \<lparr>nb_HwAddr = [2, 0, 0, 0, 0, 2], nb_IpAddr = [10, 0, 0, 2],
           nb_Uptime = 0, nb_NewTime = 0\<rparr>)], nbs_timeout = 180, nbs_interval = 60\<rparr>,
         tw_writeQueue := [ex_frame (eth_bytes [2, 0, 0, 0, 0, 1] [2, 0, 0, 0, 0, 2] EthArp @
           arp_bytes ArpReply [2, 0, 0, 0, 0, 2] [10, 0, 0, 2] [2, 0, 0, 0, 0, 1] [10, 0, 0, 1])]\<rparr>\<rparr>)"


end
