(* ===== verification/ApSocket.thy ===== *)
theory ApSocket
  imports ApTap
begin

text \<open>The access point, third part (\<open>src/pkg/olap/socket.go\<close>): the socket worker, which connects to the switch, logs in, asks for an
  address, keeps the connection alive, reconnects with a growing delay, and passes frames on. Its client is one of \<open>tcp\<close>, \<open>tls\<close>, \<open>udp\<close>
  and \<open>kcp\<close>, which share their operations; \<open>ae_dial\<close> is the outcome of dialling. The listener that \<open>Initialize\<close> gives to the client
  turns its callbacks into events in the queue of the worker.\<close>

section \<open>The client of the worker\<close>

definition rtLast :: string where "rtLast = ''lastAt''"
definition rtConnected :: string where "rtConnected = ''connAt''"
definition rtReConnect :: string where "rtReConnect = ''reconnAt''"
definition rtSuccess :: string where "rtSuccess = ''succAt''"
definition rtSleeps :: string where "rtSleeps = ''sleeps''"
definition rtClosed :: string where "rtClosed = ''clsAt''"
definition rtLive :: string where "rtLive = ''liveAt''"
definition rtIpAddr :: string where "rtIpAddr = ''addrAt''"
definition rtConnects :: string where "rtConnects = ''conns''"
definition rtLatency :: string where "rtLatency = ''latency''"

lemmas rt_defs = rtLast_def rtConnected_def rtReConnect_def rtSuccess_def rtSleeps_def rtClosed_def rtLive_def rtIpAddr_def
  rtConnects_def rtLatency_def

abbreviation rec_get :: "string \<Rightarrow> 'c SocketWorker \<Rightarrow> i64" where
  "rec_get k w \<equiv> SafeStrInt64_Get k (sk_record w)"

abbreviation rec_set :: "string \<Rightarrow> i64 \<Rightarrow> ('c ap, unit) prog" where
  "rec_set k v \<equiv> con_mod (\<lambda>w. w\<lparr>sk_record := SafeStrInt64_Set k v (sk_record w)\<rparr>)"

abbreviation rec_add :: "string \<Rightarrow> i64 \<Rightarrow> ('c ap, unit) prog" where
  "rec_add k v \<equiv> con_mod (\<lambda>w. w\<lparr>sk_record := SafeStrInt64_Add k v (sk_record w)\<rparr>)"

text \<open>The method of a nil client panics.\<close>

definition con_client :: "('c ap, ('c, unit) SocketClientImpl) prog" where
  "con_client = bnd (gets (sk_client \<circ> ap_con)) (\<lambda>c. case c of None \<Rightarrow> panic nil_deref | Some c \<Rightarrow> ret c)"

abbreviation con_put :: "('c, unit) SocketClientImpl \<Rightarrow> ('c ap, unit) prog" where
  "con_put c \<equiv> con_mod (\<lambda>w. w\<lparr>sk_client := Some c\<rparr>)"

text \<open>The callbacks \<open>OnConnected\<close> and \<open>OnClose\<close> that \<open>Initialize\<close> sets.\<close>

definition con_callback :: "'c apenv \<Rightarrow> client_event \<Rightarrow> ('c ap, unit) prog" where
  "con_callback env ev = (case ev of
     EvConnected \<Rightarrow> andthen (rec_set rtConnected (ae_now env)) (con_event env EvSocConed ''from socket'')
   | EvClose \<Rightarrow> andthen (rec_set rtClosed (ae_now env)) (con_event env EvSocClosed ''from socket'')
   | EvStatus _ _ \<Rightarrow> ret ())"

definition con_Close :: "'c apenv \<Rightarrow> ('c ap, unit) prog" where
  "con_Close env = bnd con_client (\<lambda>c. case TcpClient_Close (ae_na env) (sint (ae_now env)) c of
     Inl e \<Rightarrow> panic e
   | Inr (c, evs) \<Rightarrow> andthen (con_put c) (foreach evs (con_callback env)))"

definition con_SetStatus :: "'c apenv \<Rightarrow> SocketStatus \<Rightarrow> ('c ap, unit) prog" where
  "con_SetStatus env v = bnd con_client (\<lambda>c. case TcpClient_SetStatus v c of
     (c, evs) \<Rightarrow> andthen (con_put c) (foreach evs (con_callback env)))"

definition con_Connect :: "'c apenv \<Rightarrow> ('c ap, error option) prog" where
  "con_Connect env = bnd con_client (\<lambda>c. case connect_with (ae_na env) (sint (ae_now env)) (ae_dial env (ss_address c)) c of
     Inl e \<Rightarrow> panic e
   | Inr (c, evs, err) \<Rightarrow> andthen (con_put c) (andthen (foreach evs (con_callback env)) (ret err)))"

definition con_Terminal :: "'c apenv \<Rightarrow> ('c ap, unit) prog" where
  "con_Terminal env = bnd con_client (\<lambda>c. case TcpClient_Terminal (ae_na env) (sint (ae_now env)) c of
     Inl e \<Rightarrow> panic e
   | Inr (c, evs) \<Rightarrow> andthen (con_put c) (foreach evs (con_callback env)))"

definition con_WriteMsg :: "'c apenv \<Rightarrow> FrameMessage \<Rightarrow> ('c ap, error option) prog" where
  "con_WriteMsg env frame = bnd con_client (\<lambda>c. case StreamSocket_WriteMsg (ae_ops env) frame c of
     None \<Rightarrow> block
   | Some (c, err) \<Rightarrow> andthen (con_put c) (ret err))"

definition con_Have :: "SocketStatus \<Rightarrow> ('c ap, bool) prog" where
  "con_Have v = bnd con_client (\<lambda>c. ret (SocketClientImpl_Have v c))"

section \<open>Operations\<close>

definition parse_mask :: "host \<Rightarrow> string \<Rightarrow> string option" where
  "parse_mask ho a = map_option (\<lambda>(_, n). IP_String (ho_s6 ho) (in_Mask n)) (ParseCIDR (ho_p6 ho) a)"

definition NewSocketWorker :: "'c apenv \<Rightarrow> string \<Rightarrow> ('c, unit) SocketClientImpl \<Rightarrow> co_Point \<Rightarrow> 'c SocketWorker" where
  "NewSocketWorker env goos client c =
     \<lparr>sk_client = Some client,
      sk_user = zero_user\<lparr>us_Alias := cp_Alias c, us_Name := cp_Username c, us_Password := cp_Password c, us_Network := cp_Network c,
        us_System := goos\<rparr>,
      sk_network = NewNetwork (parse_mask (ae_host env)) (cp_Network c) (if_Address (cp_Interface c)),
      sk_keepalive = \<lparr>ka_Interval = 15, ka_LastTime = ae_now env\<rparr>, sk_done = 0, sk_ticker = True, sk_pinCfg = c,
      sk_eventQueue = [], sk_writeQueue = [], sk_jobber = [], sk_record = NewSafeStrInt64\<rparr>"

definition SocketWorker_sleepNow :: "'c SocketWorker \<Rightarrow> i64" where
  "SocketWorker_sleepNow w = rec_get rtSleeps w * 5"

definition SocketWorker_sleepIdle :: "('c ap, i64) prog" where
  "SocketWorker_sleepIdle = bnd (gets (rec_get rtSleeps \<circ> ap_con)) (\<lambda>sleeps.
     andthen (whenever (sint sleeps < 20) (rec_add rtSleeps 1)) (gets (SocketWorker_sleepNow \<circ> ap_con)))"

definition SocketWorker_Initialize :: "'c apenv \<Rightarrow> ('c ap, unit) prog" where
  "SocketWorker_Initialize env =
     bnd con_client (\<lambda>c. bnd (gets (if_IPMtu \<circ> cp_Interface \<circ> sk_pinCfg \<circ> ap_con)) (\<lambda>mtu.
     andthen (con_put (SocketClientImpl_SetListener \<lparr>cl_OnClose = True, cl_OnConnected = True, cl_OnStatus = False\<rparr>
         (SocketClientImpl_SetMaxSize mtu c)))
    (andthen (rec_set rtLast (ae_now env)) (rec_set rtReConnect (ae_now env)))))"

text \<open>Control messages to the switch. A nil client is an error, as is a body that cannot be encoded.\<close>

definition send_control :: "'c apenv \<Rightarrow> string \<Rightarrow> ('c ap \<Rightarrow> byte list option) \<Rightarrow> ('c ap, error option) prog" where
  "send_control env action enc = bnd (gets id) (\<lambda>s. case sk_client (ap_con s) of
     None \<Rightarrow> ret (Some (NewErr ''client is nil''))
   | Some _ \<Rightarrow> (case enc s of
       None \<Rightarrow> ret (Some (NewErr ''json''))
     | Some body \<Rightarrow> (case NewControlFrame action body of
         Inl e \<Rightarrow> panic e
       | Inr m \<Rightarrow> con_WriteMsg env m)))"

definition ping_msg :: "i64 \<Rightarrow> 'c SocketWorker \<Rightarrow> PingMsg" where
  "ping_msg t w = \<lparr>pg_DateTime = t, pg_UUID = us_UUID (sk_user w), pg_Alias = us_Alias (sk_user w),
     pg_Connection = (case sk_client w of None \<Rightarrow> [] | Some c \<Rightarrow> StreamSocket_RemoteAddr c),
     pg_Address = (case sk_client w of None \<Rightarrow> [] | Some c \<Rightarrow> StreamSocket_LocalAddr c)\<rparr>"

definition SocketWorker_sendLeave :: "'c apenv \<Rightarrow> ('c ap, error option) prog" where
  "SocketWorker_sendLeave env = send_control env LeftReq (\<lambda>s. ae_putPing env (ping_msg (ae_now env) (ap_con s)))"

definition SocketWorker_sendLogin :: "'c apenv \<Rightarrow> ('c ap, error option) prog" where
  "SocketWorker_sendLogin env = send_control env LoginReq (\<lambda>s. ae_putUser env (sk_user (ap_con s)))"

definition SocketWorker_sendIpAddr :: "'c apenv \<Rightarrow> ('c ap, error option) prog" where
  "SocketWorker_sendIpAddr env = send_control env IpAddrReq (\<lambda>s. ae_putNetwork env (sk_network (ap_con s)))"

definition SocketWorker_sendPing :: "'c apenv \<Rightarrow> ('c ap, error option) prog" where
  "SocketWorker_sendPing env = send_control env PingReq (\<lambda>s. ae_putPing env (ping_msg (ae_nano env) (ap_con s)))"

definition SocketWorker_toLogin :: "'c apenv \<Rightarrow> ('c ap, error option) prog" where
  "SocketWorker_toLogin env = SocketWorker_sendLogin env"

definition SocketWorker_canReqAddr :: "'c SocketWorker \<Rightarrow> bool" where
  "SocketWorker_canReqAddr w \<longleftrightarrow> cp_RequestAddr (sk_pinCfg w) \<or> nt_IfAddr (sk_network w) \<noteq> []"

definition SocketWorker_toNetwork :: "'c apenv \<Rightarrow> ('c ap, error option) prog" where
  "SocketWorker_toNetwork env = bnd (gets (SocketWorker_canReqAddr \<circ> ap_con)) (\<lambda>can.
     if can then SocketWorker_sendIpAddr env else ret None)"

definition SocketWorker_isStopped :: "'c SocketWorker \<Rightarrow> bool" where
  "SocketWorker_isStopped w \<longleftrightarrow> (case sk_client w of None \<Rightarrow> True | Some c \<Rightarrow> SocketClientImpl_Have ClTerminal c)"

definition SocketWorker_close :: "'c apenv \<Rightarrow> ('c ap, unit) prog" where
  "SocketWorker_close env = bnd (gets (sk_client \<circ> ap_con)) (\<lambda>c. whenever (c \<noteq> None) (con_Close env))"

definition SocketWorker_connect :: "'c apenv \<Rightarrow> ('c ap, error option) prog" where
  "SocketWorker_connect env =
     andthen (con_Close env)
    (bnd (con_Have ClInit) (\<lambda>ini.
     andthen (whenever (\<not> ini) (con_SetStatus env ClInit))
    (andthen (rec_add rtConnects 1)
    (con_Connect env))))"

text \<open>The call of a job: nothing when a connection was made after the reconnect was asked for.\<close>

definition reconnect_job :: "'c apenv \<Rightarrow> ('c ap, error option) prog" where
  "reconnect_job env = bnd (gets ap_con) (\<lambda>w.
     if sint (rec_get rtConnected w) \<ge> sint (rec_get rtReConnect w) then ret None else SocketWorker_connect env)"

definition SocketWorker_reconnect :: "'c apenv \<Rightarrow> ('c ap, unit) prog" where
  "SocketWorker_reconnect env = bnd (gets (SocketWorker_isStopped \<circ> ap_con)) (\<lambda>stopped.
     if stopped then ret ()
     else andthen (rec_set rtReConnect (ae_now env))
         (bnd SocketWorker_sleepIdle (\<lambda>idle. con_mod (\<lambda>w. w\<lparr>sk_jobber := sk_jobber w @ [ae_now env + idle]\<rparr>))))"

definition SocketWorker_Start :: "'c apenv \<Rightarrow> ('c ap, unit) prog" where
  "SocketWorker_Start env = bnd (SocketWorker_connect env) (\<lambda>_. ret ())"

definition SocketWorker_Stop :: "'c apenv \<Rightarrow> ('c ap, unit) prog" where
  "SocketWorker_Stop env =
     bnd (SocketWorker_sendLeave env) (\<lambda>_.
     andthen (con_Terminal env)
    (bnd (gets (sk_done \<circ> ap_con)) (\<lambda>n.
     if n < 2 then con_mod (\<lambda>w. w\<lparr>sk_done := n + 1, sk_client := None, sk_ticker := False\<rparr>) else block)))"

definition okay :: "byte list \<Rightarrow> bool" where
  "okay resp \<longleftrightarrow> take 4 (str_of resp) = ''okay''"

definition SocketWorker_onLogin :: "'c apenv \<Rightarrow> byte list \<Rightarrow> ('c ap, error option) prog" where
  "SocketWorker_onLogin env resp = bnd (con_Have ClAuth) (\<lambda>auth.
     if auth then ret None
     else if okay resp
     then andthen (con_SetStatus env ClAuth)
         (andthen (Worker_OnSuccess env)
         (andthen (rec_set rtSleeps 0)
         (andthen (rec_set rtIpAddr 0)
         (andthen (rec_set rtSuccess (ae_now env))
         (andthen (con_event env EvSocSuccess ''from login'')
         (ret None))))))
     else andthen (con_SetStatus env ClUnAuth) (ret None))"

definition SocketWorker_onIpAddr :: "'c apenv \<Rightarrow> byte list \<Rightarrow> ('c ap, error option) prog" where
  "SocketWorker_onIpAddr env resp = bnd (gets (cp_RequestAddr \<circ> sk_pinCfg \<circ> ap_con)) (\<lambda>req.
     if \<not> req then ret None
     else case ae_getNetwork env resp of
       None \<Rightarrow> ret (Some (NewErr ''SocketWorker.onIpAddr: invalid json data.''))
     | Some n \<Rightarrow> andthen (con_mod (\<lambda>w. w\<lparr>sk_network := n\<rparr>)) (andthen (Worker_OnIpAddr env n) (ret None)))"

definition SocketWorker_onLeft :: "'c apenv \<Rightarrow> byte list \<Rightarrow> ('c ap, error option) prog" where
  "SocketWorker_onLeft env resp = andthen (SocketWorker_close env) (ret None)"

definition SocketWorker_onSignIn :: "'c apenv \<Rightarrow> byte list \<Rightarrow> ('c ap, error option) prog" where
  "SocketWorker_onSignIn env resp = andthen (con_event env EvSocSignIn ''request from server'') (ret None)"

text \<open>Division of Go rounds towards zero.\<close>

definition quot :: "int \<Rightarrow> int \<Rightarrow> int" where
  "quot a b = sgn a * (\<bar>a\<bar> div b)"

definition SocketWorker_onPong :: "'c apenv \<Rightarrow> byte list \<Rightarrow> ('c ap, error option) prog" where
  "SocketWorker_onPong env resp = (case ae_getPing env resp of
     None \<Rightarrow> ret (Some (NewErr ''SocketWorker.onPong: invalid json data.''))
   | Some m \<Rightarrow> andthen (rec_set rtLatency (of_int (quot (sint (ae_nano env - pg_DateTime m)) 1000000))) (ret None))"

definition SocketWorker_onInstruct :: "'c apenv \<Rightarrow> FrameMessage \<Rightarrow> ('c ap, error option) prog" where
  "SocketWorker_onInstruct env frame =
     (if \<not> FrameMessage_IsControl frame then ret None
      else let (action, resp) = FrameMessage_CmdAndParams frame
           in if action = LoginResp then SocketWorker_onLogin env resp
              else if action = IpAddrResp then andthen (rec_set rtIpAddr (ae_now env)) (SocketWorker_onIpAddr env resp)
              else if action = PongResp then andthen (rec_set rtLive (ae_now env)) (SocketWorker_onPong env resp)
              else if action = SignReq then SocketWorker_onSignIn env resp
              else if action = LeftReq then SocketWorker_onLeft env resp
              else ret None)"

definition SocketWorker_keepAlive :: "'c apenv \<Rightarrow> ('c ap, unit) prog" where
  "SocketWorker_keepAlive env = bnd (gets ap_con) (\<lambda>w.
     if \<not> KeepAlive_Should (ae_now env) (sk_keepalive w) then ret ()
     else andthen (con_mod (\<lambda>w. w\<lparr>sk_keepalive := KeepAlive_Update (ae_now env) (sk_keepalive w)\<rparr>))
         (bnd (con_Have ClAuth) (\<lambda>auth.
          if auth
          then andthen (whenever (SocketWorker_canReqAddr w \<and> sint (rec_get rtIpAddr w) < sint (rec_get rtSuccess w))
                  (bnd (SocketWorker_toNetwork env) (\<lambda>_. ret ())))
                (bnd (SocketWorker_sendPing env) (\<lambda>_. ret ()))
          else bnd (SocketWorker_sendLogin env) (\<lambda>_. ret ()))))"

definition SocketWorker_checkJobber :: "'c apenv \<Rightarrow> ('c ap, unit) prog" where
  "SocketWorker_checkJobber env = bnd (gets (sk_jobber \<circ> ap_con)) (\<lambda>jobs.
     andthen (foreach (filter (\<lambda>t. sint (ae_now env) \<ge> sint t) jobs) (\<lambda>_. bnd (reconnect_job env) (\<lambda>_. ret ())))
     (con_mod (\<lambda>w. w\<lparr>sk_jobber := filter (\<lambda>t. \<not> sint (ae_now env) \<ge> sint t) jobs\<rparr>)))"

definition SocketWorker_checkAlive :: "'c apenv \<Rightarrow> ('c ap, unit) prog" where
  "SocketWorker_checkAlive env = bnd (gets ap_con) (\<lambda>w.
     let out = sint (of_int (cp_Timeout (sk_pinCfg w)) :: i64); now = ae_now env
     in if sint (now - rec_get rtLast w) < out \<or> sint (now - rec_get rtLive w) < out then ret ()
        else if sint (now - rec_get rtReConnect w) < out then ret ()
        else con_event env EvSocRecon ''from alive check'')"

definition SocketWorker_doTicker :: "'c apenv \<Rightarrow> ('c ap, unit) prog" where
  "SocketWorker_doTicker env =
     andthen (SocketWorker_checkAlive env) (andthen (SocketWorker_keepAlive env) (SocketWorker_checkJobber env))"

text \<open>A connection starts a reader.\<close>

definition SocketWorker_dispatch :: "'c apenv \<Rightarrow> WorkerEvent \<Rightarrow> ('c ap, unit) prog" where
  "SocketWorker_dispatch env ev =
     (if ev_Type ev = EvSocConed
      then bnd (gets (sk_client \<circ> ap_con)) (\<lambda>c. whenever (c \<noteq> None)
          (bnd (SocketWorker_toLogin env) (\<lambda>_. modify (\<lambda>s. s\<lparr>ap_conReaders := ap_conReaders s + 1\<rparr>))))
      else if ev_Type ev = EvSocSuccess
      then bnd (SocketWorker_toNetwork env) (\<lambda>_. bnd (SocketWorker_sendPing env) (\<lambda>_. ret ()))
      else if ev_Type ev = EvSocRecon then SocketWorker_reconnect env
      else if ev_Type ev = EvSocSignIn \<or> ev_Type ev = EvSocLogin then bnd (SocketWorker_toLogin env) (\<lambda>_. ret ())
      else ret ())"

text \<open>One turn of the loop of \<open>Read\<close>: the result says whether the reader goes on. A stopped worker has closed the client of its
  readers for good.\<close>

definition read_end :: "'c apenv \<Rightarrow> ('c ap, bool) prog" where
  "read_end env =
     andthen (modify (\<lambda>s. s\<lparr>ap_conReaders := ap_conReaders s - 1\<rparr>))
    (bnd (gets (SocketWorker_isStopped \<circ> ap_con)) (\<lambda>stopped.
     andthen (whenever (\<not> stopped) (con_event env EvSocRecon ''from read'')) (ret False)))"

definition read_frame :: "'c apenv \<Rightarrow> FrameMessage \<Rightarrow> ('c ap, bool) prog" where
  "read_frame env data =
     (if FrameMessage_Size data \<le> 0 then ret True
      else let data = fst (FrameMessage_Decode data)
           in if FrameMessage_IsControl data then bnd (SocketWorker_onInstruct env data) (\<lambda>_. ret True)
              else andthen (rec_set rtLast (ae_now env)) (andthen (TapWorker_Write data) (ret True)))"

definition SocketWorker_Read :: "'c apenv \<Rightarrow> ('c ap, bool) prog" where
  "SocketWorker_Read env = bnd (gets (sk_client \<circ> ap_con)) (\<lambda>c. case c of
     None \<Rightarrow> read_end env
   | Some c \<Rightarrow> (case StreamSocket_ReadMsg (ae_ops env) c of
       None \<Rightarrow> block
     | Some (c, Inl err) \<Rightarrow> andthen (con_put c) (andthen (con_Close env) (read_end env))
     | Some (c, Inr data) \<Rightarrow>
         andthen (con_put c) (read_frame env data)))"

text \<open>\<open>DoWrite\<close> looks at the client under the lock and writes without it.\<close>

definition DoWrite_con_check :: "'c apenv \<Rightarrow> ('c ap, error option + unit) prog" where
  "DoWrite_con_check env =
     andthen (SocketWorker_checkAlive env)
    (bnd (gets (sk_client \<circ> ap_con)) (\<lambda>c. case c of
       None \<Rightarrow> ret (Inl (Some (NewErr ''client is nil'')))
     | Some c \<Rightarrow> ret (if SocketClientImpl_Have ClAuth c then Inr () else Inl None)))"

definition SocketWorker_DoWrite :: "'c apenv \<Rightarrow> FrameMessage \<Rightarrow> ('c ap, error option) prog" where
  "SocketWorker_DoWrite env frame = bnd (DoWrite_con_check env) (\<lambda>r. case r of Inl e \<Rightarrow> ret e | Inr _ \<Rightarrow> con_WriteMsg env frame)"

datatype con_case = CwEvent | CwWrite | CwDone | CwTicker

definition SocketWorker_Loop :: "'c apenv \<Rightarrow> con_case \<Rightarrow> ('c ap, bool) prog" where
  "SocketWorker_Loop env which = bnd (gets ap_con) (\<lambda>w. case which of
     CwEvent \<Rightarrow> (case sk_eventQueue w of
       [] \<Rightarrow> block
     | e # q \<Rightarrow> andthen (con_mod (\<lambda>w. w\<lparr>sk_eventQueue := q\<rparr>)) (andthen (SocketWorker_dispatch env e) (ret True)))
   | CwWrite \<Rightarrow> (case sk_writeQueue w of
       [] \<Rightarrow> block
     | d # q \<Rightarrow> andthen (con_mod (\<lambda>w. w\<lparr>sk_writeQueue := q\<rparr>)) (bnd (SocketWorker_DoWrite env d) (\<lambda>_. ret True)))
   | CwDone \<Rightarrow> if sk_done w = 0 then block else andthen (con_mod (\<lambda>w. w\<lparr>sk_done := sk_done w - 1\<rparr>)) (ret False)
   | CwTicker \<Rightarrow> if \<not> sk_ticker w then block else andthen (SocketWorker_doTicker env) (ret True))"

definition SocketWorker_Auth :: "'c SocketWorker \<Rightarrow> string \<times> string" where
  "SocketWorker_Auth w = (us_Name (sk_user w), us_Password (sk_user w))"

definition SocketWorker_SetAuth :: "string \<Rightarrow> 'c SocketWorker \<Rightarrow> 'c SocketWorker" where
  "SocketWorker_SetAuth auth w =
     (let values = Split auth (CHR '':'');
          u = (sk_user w)\<lparr>us_Name := values ! 0\<rparr>
      in w\<lparr>sk_user := (if length values > 1 then u\<lparr>us_Password := values ! 1\<rparr> else u)\<rparr>)"

definition SocketWorker_SetUUID :: "string \<Rightarrow> 'c SocketWorker \<Rightarrow> 'c SocketWorker" where
  "SocketWorker_SetUUID v w = w\<lparr>sk_user := (sk_user w)\<lparr>us_UUID := v\<rparr>\<rparr>"

section \<open>The worker\<close>

text \<open>\<open>GetSocketClient\<close>: the web clients have a type of their own. The KCP configuration is the default one of the package, changed in
  place.\<close>

definition GetSocketClient :: "crypt kcp \<Rightarrow> int \<Rightarrow> co_Point \<Rightarrow> ('c, unit) SocketClientImpl + ('c, unit) WebClient" where
  "GetSocketClient kc now p =
     (let block = GetBlock kc (cp_Crypt p); rd = qu_SockRd (queue_of p); wr = qu_SockWr (queue_of p);
          tcp = (\<lambda>tls. \<lparr>tcpc_Tls = tls, tcpc_Block = block, tcpc_Timeout = 0, tcpc_RdQus = rd, tcpc_WrQus = wr\<rparr>);
          web = (\<lambda>cert. \<lparr>webc_Cert = cert, webc_Block = block, webc_Timeout = 0, webc_RdQus = rd, webc_WrQus = wr\<rparr>)
      in if cp_Protocol p = ''kcp''
         then Inl (NewKcpClient now (cp_Connection p) (Some (defaultKcpConfig\<lparr>kcpc_Block := block, kcpc_RdQus := rd, kcpc_WrQus := wr\<rparr>)))
         else if cp_Protocol p = ''tcp'' then Inl (NewTcpClient now (cp_Connection p) (tcp False))
         else if cp_Protocol p = ''udp''
         then Inl (NewUdpClient now (cp_Connection p) (Some \<lparr>udpc_Block = block, udpc_Timeout = cp_Timeout p * 10 ^ 9, udpc_Clients = 0,
            udpc_RdQus = rd, udpc_WrQus = wr\<rparr>))
         else if cp_Protocol p = ''ws'' then Inr (NewWebClient now (cp_Connection p) (web False))
         else if cp_Protocol p = ''wss'' then Inr (NewWebClient now (cp_Connection p) (web (cp_Cert p \<noteq> None)))
         else Inl (NewTcpClient now (cp_Connection p) (tcp (cp_Cert p \<noteq> None))))"

text \<open>The state that \<open>Worker.Initialize\<close> makes, before the two workers are initialised.\<close>

definition new_ap :: "'c apenv \<Rightarrow> string \<Rightarrow> string \<Rightarrow> ('c, unit) SocketClientImpl \<Rightarrow> Worker \<Rightarrow> 'c ap" where
  "new_ap env goos random client w =
     (let (w, uuid) = Worker_UUID random w
      in \<lparr>ap_con = SocketWorker_SetUUID uuid (NewSocketWorker env goos client (wk_cfg w)),
          ap_tap = NewTapWorker (GetTapCfg (wk_cfg w)) (wk_cfg w), ap_work = w\<lparr>wk_running := True\<rparr>, ap_devices = [], ap_tapReaders = [],
          ap_conReaders = 0, ap_calls = []\<rparr>)"

definition Worker_Initialize :: "'c apenv \<Rightarrow> string \<Rightarrow> string \<Rightarrow> ('c, unit) SocketClientImpl \<Rightarrow> Worker \<Rightarrow> (unit \<times> 'c ap) result option" where
  "Worker_Initialize env goos random client w =
     andthen (SocketWorker_Initialize env) (TapWorker_Initialize env) (new_ap env goos random client w)"

text \<open>\<open>Stop\<close> hands a value to the goroutine that \<open>Start\<close> made, and the tap worker to the one of the neighbors: without them it waits
  for ever.\<close>

definition Worker_Start :: "'c apenv \<Rightarrow> ('c ap, unit) prog" where
  "Worker_Start env = andthen (SocketWorker_Start env) (work_mod (\<lambda>w. w\<lparr>wk_started := True\<rparr>))"

definition Worker_Stop :: "'c apenv \<Rightarrow> ('c ap, unit) prog" where
  "Worker_Stop env = bnd (gets ap_work) (\<lambda>w.
     if \<not> wk_running w then ret ()
     else if \<not> wk_started w then block
     else andthen (Worker_FreeIpAddr env)
         (andthen (SocketWorker_Stop env)
         (andthen TapWorker_Stop
         (work_mod (\<lambda>w. w\<lparr>wk_running := False, wk_started := False\<rparr>)))))"

definition Worker_UpTime :: "int \<Rightarrow> 'c ap \<Rightarrow> int" where
  "Worker_UpTime now s = (case sk_client (ap_con s) of None \<Rightarrow> 0 | Some c \<Rightarrow> SocketClientImpl_AliveTime now c)"

section \<open>Steps\<close>

text \<open>The frame a reader gets next, if the read returns one.\<close>

definition next_frame :: "'c apenv \<Rightarrow> 'c ap \<Rightarrow> FrameMessage option" where
  "next_frame env s = (case sk_client (ap_con s) of
     None \<Rightarrow> None
   | Some c \<Rightarrow> (case StreamSocket_ReadMsg (ae_ops env) c of Some (_, Inr data) \<Rightarrow> Some (fst (FrameMessage_Decode data)) | _ \<Rightarrow> None))"

datatype con_label = CRead "FrameMessage option" | CLoop con_case | COther

inductive con_step :: "con_label \<Rightarrow> 'c ap \<Rightarrow> 'c ap \<Rightarrow> bool" where
  reads: "SocketWorker_Read env s = Some (Inr (b, s')) \<Longrightarrow> con_step (CRead (next_frame env s)) s s'"
| loops: "SocketWorker_Loop env c s = Some (Inr (b, s')) \<Longrightarrow> con_step (CLoop c) s s'"
| starts: "SocketWorker_Start env s = Some (Inr (u, s')) \<Longrightarrow> con_step COther s s'"
| stops: "Worker_Stop env s = Some (Inr (u, s')) \<Longrightarrow> con_step COther s s'"
| queues: "SocketWorker_Write f s = Some (Inr (u, s')) \<Longrightarrow> con_step COther s s'"
| others: "ap_con s' = ap_con s \<Longrightarrow> con_step COther s s'"

definition con_auth :: "'c ap \<Rightarrow> bool" where
  "con_auth s \<longleftrightarrow> (\<exists>c. sk_client (ap_con s) = Some c \<and> sc_status c = ClAuth)"

definition con_sleeps :: "'c ap \<Rightarrow> int" where
  "con_sleeps s = sint (rec_get rtSleeps (ap_con s))"

text \<open>What holds between the states of a handler that is not an accepted login: the client is authenticated only if it was before,
  and the count of the delays stays between 0 and 20.\<close>

definition calm :: "'c ap \<Rightarrow> 'c ap \<Rightarrow> bool" where
  "calm s s' \<longleftrightarrow> (con_auth s' \<longrightarrow> con_auth s) \<and> (con_sleeps s \<in> {0..20} \<longrightarrow> con_sleeps s' \<in> {0..20})"

interpretation calm: kept_relation calm
  by unfold_locales (auto simp: calm_def)

lemma calm_modify:
  "(\<And>s. sk_client (ap_con (g s)) = sk_client (ap_con s) \<and> rec_get rtSleeps (ap_con (g s)) = rec_get rtSleeps (ap_con s)) \<Longrightarrow>
     keeps calm (modify g)"
  by (auto simp: keeps_def calm_def con_auth_def con_sleeps_def)

lemma calm_rec_set: "k \<noteq> rtSleeps \<Longrightarrow> keeps calm (rec_set k v)"
  by (rule calm_modify) (simp add: SafeStrInt64_Get_Set)

lemma calm_con_event: "keeps calm (con_event env t reason)"
  unfolding con_event_def by (intro calm.keeps_bnd calm.keeps_gets calm.keeps_if calm.keeps_block calm_modify) simp_all

lemma calm_callback: "keeps calm (con_callback env ev)"
  by (cases ev) (simp_all add: con_callback_def calm.keeps_ret calm.keeps_andthen calm_rec_set calm_con_event rt_defs)

lemma calm_put: "sc_status c \<noteq> ClAuth \<Longrightarrow> keeps calm (con_put c)"
  by (auto simp: keeps_def calm_def con_auth_def con_sleeps_def)

text \<open>An operation on the client that does not authenticate it.\<close>

lemma calm_on_client:
  assumes "\<And>c. keeps (\<lambda>s s'. sk_client (ap_con s) = Some c \<longrightarrow> calm s s') (f c)"
  shows "keeps calm (bnd con_client f)"
proof (rule keepsI)
  fix s a s' assume "bnd con_client f s = Some (Inr (a, s'))"
  then obtain c where "sk_client (ap_con s) = Some c" "f c s = Some (Inr (a, s'))"
    by (auto simp: con_client_def prog_defs split: option.splits)
  with keepsD [OF assms] show "calm s s'" by blast
qed

lemma keeps_put_then:
  assumes "sc_status c' = ClAuth \<Longrightarrow> sc_status c = ClAuth" and "keeps calm m"
  shows "keeps (\<lambda>s s'. sk_client (ap_con s) = Some c \<longrightarrow> calm s s') (andthen (con_put c') m)"
proof (rule keepsI, rule impI)
  fix s a s' assume "andthen (con_put c') m s = Some (Inr (a, s'))" and c: "sk_client (ap_con s) = Some c"
  then have m: "m (s\<lparr>ap_con := (ap_con s)\<lparr>sk_client := Some c'\<rparr>\<rparr>) = Some (Inr (a, s'))" by (simp add: andthen_def bnd_def modify_def)
  have "calm s (s\<lparr>ap_con := (ap_con s)\<lparr>sk_client := Some c'\<rparr>\<rparr>)" using assms(1) c by (auto simp: calm_def con_auth_def con_sleeps_def)
  with keepsD [OF assms(2) m] show "calm s s'" using calm.rel_trans by blast
qed

lemma TcpClient_Close_status: "TcpClient_Close na now c = Inr (c', evs) \<Longrightarrow> sc_status c' = ClAuth \<Longrightarrow> sc_status c = ClAuth"
  by (auto simp: TcpClient_Close_def SocketClientImpl_updateConn_def Let_def split: if_splits option.splits)

lemma connect_with_status: "connect_with na now dial c = Inr (c', evs, err) \<Longrightarrow> sc_status c' = ClAuth \<Longrightarrow> sc_status c = ClAuth"
  by (auto simp: connect_with_def SocketClientImpl_Retry_def SocketClientImpl_SetConnection_def SocketClientImpl_updateConn_def
      split: if_splits sum.splits)

lemma WriteMsg_status: "StreamSocket_WriteMsg ops frame c = Some (c', err) \<Longrightarrow> sc_status c' = sc_status c"
  by (auto simp: StreamSocket_WriteMsg_def Let_def split: option.splits sum.splits prod.splits)

lemma ReadMsg_status: "StreamSocket_ReadMsg ops c = Some (c', r) \<Longrightarrow> sc_status c' = sc_status c"
  by (auto simp: StreamSocket_ReadMsg_def Let_def split: option.splits sum.splits prod.splits)

lemma TcpClient_Terminal_status: "TcpClient_Terminal na now c = Inr (c', evs) \<Longrightarrow> sc_status c' = ClAuth \<Longrightarrow> sc_status c = ClAuth"
  by (auto simp: TcpClient_Terminal_def TcpClient_SetStatus_def Let_def dest!: TcpClient_Close_status split: sum.splits if_splits)

lemma keeps_stop [simp]: "keeps P (panic e)" "keeps P block"
  by (simp_all add: keeps_def)

lemma calm_events [simp]: "keeps calm (foreach evs (con_callback env))"
  by (intro calm.keeps_foreach calm_callback)

lemma calm_events_then [simp]: "keeps calm (andthen (foreach evs (con_callback env)) (ret x))"
  by (intro calm.keeps_andthen calm_events calm.keeps_ret)

lemma calm_Close: "keeps calm (con_Close env)"
  unfolding con_Close_def by (rule calm_on_client, split sum.split, intro conjI allI impI, simp, split prod.split)
    (intro allI impI keeps_put_then calm_events, blast dest: TcpClient_Close_status)

lemma calm_SetStatus: "v \<noteq> ClAuth \<Longrightarrow> keeps calm (con_SetStatus env v)"
  unfolding con_SetStatus_def by (rule calm_on_client, split prod.split)
    (intro allI impI keeps_put_then calm_events, auto simp: TcpClient_SetStatus_def split: if_splits)

lemma calm_Connect: "keeps calm (con_Connect env)"
  unfolding con_Connect_def by (rule calm_on_client, split sum.split, intro conjI allI impI, simp, split prod.split, intro allI impI, split prod.split)
    (intro allI impI keeps_put_then calm_events_then, blast dest: connect_with_status)

lemma calm_WriteMsg: "keeps calm (con_WriteMsg env frame)"
  unfolding con_WriteMsg_def by (rule calm_on_client, split option.split, intro conjI allI impI, simp, split prod.split)
    (intro allI impI keeps_put_then calm.keeps_ret, simp add: WriteMsg_status)

lemma calm_Have: "keeps calm (con_Have v)"
  unfolding con_Have_def con_client_def by (intro calm.rules)

lemma calm_Terminal: "keeps calm (con_Terminal env)"
  unfolding con_Terminal_def by (rule calm_on_client, split sum.split, intro conjI allI impI, simp, split prod.split)
    (intro allI impI keeps_put_then calm_events, blast dest: TcpClient_Terminal_status)

lemma calm_send: "keeps calm (send_control env action enc)"
  unfolding send_control_def by (intro calm.rules calm_WriteMsg)

lemmas calm_client = calm_Close calm_Connect calm_WriteMsg calm_Have calm_Terminal calm_send calm_con_event

lemma calm_connect: "keeps calm (SocketWorker_connect env)"
  unfolding SocketWorker_connect_def
  by (intro calm.keeps_andthen calm.keeps_bnd calm.keeps_whenever calm_client calm_SetStatus calm_modify)
    (simp_all add: SafeStrInt64_Get_Add rt_defs)

text \<open>Arithmetic of \<open>int64\<close> that stays in range.\<close>

lemma sint_arith:
  fixes a b :: i64
  shows "- (2 ^ 63) \<le> sint a + sint b \<Longrightarrow> sint a + sint b < 2 ^ 63 \<Longrightarrow> sint (a + b) = sint a + sint b"
    and "- (2 ^ 63) \<le> sint a - sint b \<Longrightarrow> sint a - sint b < 2 ^ 63 \<Longrightarrow> sint (a - b) = sint a - sint b"
    and "- (2 ^ 63) \<le> sint a * sint b \<Longrightarrow> sint a * sint b < 2 ^ 63 \<Longrightarrow> sint (a * b) = sint a * sint b"
  by (simp_all add: sint_word_ariths signed_take_bit_int_eq_self)

lemma calm_sleepIdle: "keeps calm SocketWorker_sleepIdle"
proof (rule keepsI)
  fix s i s' assume *: "SocketWorker_sleepIdle s = Some (Inr (i, s'))"
  have "sint (w + 1) = sint w + 1" if "0 \<le> sint w" "sint w < 20" for w :: i64
    using that sint_arith(1) [of w 1] by simp
  then show "calm s s'"
    using * by (cases "con_sleeps s < 20")
      (auto simp: SocketWorker_sleepIdle_def prog_defs calm_def con_auth_def con_sleeps_def SafeStrInt64_Get_Add)
qed

lemma calm_reconnect: "keeps calm (SocketWorker_reconnect env)"
  unfolding SocketWorker_reconnect_def
  by (intro calm.keeps_bnd calm.keeps_gets calm.keeps_if calm.keeps_ret calm.keeps_andthen calm_rec_set calm_sleepIdle calm_modify)
    (simp_all add: rt_defs)

lemma calm_toNetwork: "keeps calm (SocketWorker_toNetwork env)"
  unfolding SocketWorker_toNetwork_def SocketWorker_sendIpAddr_def by (intro calm.rules calm_send)

lemmas calm_sends = calm_send calm_toNetwork

lemma calm_dispatch: "keeps calm (SocketWorker_dispatch env ev)"
  unfolding SocketWorker_dispatch_def SocketWorker_toLogin_def SocketWorker_sendLogin_def SocketWorker_sendPing_def
  by (intro calm.keeps_if calm.keeps_bnd calm.keeps_gets calm.keeps_whenever calm.keeps_ret calm_sends calm_reconnect calm_modify) simp_all

lemma calm_checkAlive: "keeps calm (SocketWorker_checkAlive env)"
  unfolding SocketWorker_checkAlive_def Let_def by (intro calm.rules calm_con_event)

lemma calm_keepAlive: "keeps calm (SocketWorker_keepAlive env)"
  unfolding SocketWorker_keepAlive_def SocketWorker_sendLogin_def SocketWorker_sendPing_def
  by (intro calm.keeps_bnd calm.keeps_gets calm.keeps_if calm.keeps_ret calm.keeps_andthen calm.keeps_whenever calm_client calm_sends calm_modify) simp_all

lemma calm_checkJobber: "keeps calm (SocketWorker_checkJobber env)"
  unfolding SocketWorker_checkJobber_def reconnect_job_def
  by (intro calm.keeps_bnd calm.keeps_gets calm.keeps_andthen calm.keeps_foreach calm.keeps_if calm.keeps_ret calm_connect calm_modify) simp_all

lemma calm_doTicker: "keeps calm (SocketWorker_doTicker env)"
  unfolding SocketWorker_doTicker_def by (intro calm.keeps_andthen calm_checkAlive calm_keepAlive calm_checkJobber)

lemma calm_DoWrite: "keeps calm (SocketWorker_DoWrite env frame)"
  unfolding SocketWorker_DoWrite_def DoWrite_con_check_def by (intro calm.rules calm_checkAlive calm_WriteMsg)

lemma calm_Loop: "keeps calm (SocketWorker_Loop env c)"
proof -
  have e: "keeps calm (andthen (con_mod (\<lambda>w. w\<lparr>sk_eventQueue := q\<rparr>)) (andthen (SocketWorker_dispatch env x) (ret True)))" for q x
    by (intro calm.keeps_andthen calm_dispatch calm.keeps_ret calm_modify) simp
  have w: "keeps calm (andthen (con_mod (\<lambda>w. w\<lparr>sk_writeQueue := q\<rparr>)) (bnd (SocketWorker_DoWrite env x) (\<lambda>_. ret True)))" for q x
    by (intro calm.keeps_andthen calm.keeps_bnd calm_DoWrite calm.keeps_ret calm_modify) simp
  have d: "keeps calm (andthen (con_mod (\<lambda>w. w\<lparr>sk_done := sk_done w - 1\<rparr>)) (ret False))"
    by (intro calm.keeps_andthen calm.keeps_ret calm_modify) simp
  have t: "keeps calm (andthen (SocketWorker_doTicker env) (ret True))" by (intro calm.keeps_andthen calm_doTicker calm.keeps_ret)
  show ?thesis
    unfolding SocketWorker_Loop_def by (intro calm.keeps_bnd calm.keeps_gets) (auto split: con_case.split list.split simp: e w d [simplified] t)
qed

lemma calm_work: "keeps calm (Worker_OnIpAddr env n)" "keeps calm (Worker_FreeIpAddr env)" "keeps calm TapWorker_Stop" "keeps calm (TapWorker_Write f)"
proof -
  have tap: "keeps calm (tap_event env t r)" for t r
    unfolding tap_event_def by (intro calm.keeps_bnd calm.keeps_gets calm.keeps_if calm.keeps_block calm_modify) simp
  show "keeps calm (Worker_OnIpAddr env n)"
    unfolding Worker_OnIpAddr_def
    by (intro calm.keeps_bnd calm.keeps_gets calm.keeps_if calm.keeps_ret calm.keeps_andthen calm.keeps_whenever tap calm_modify) simp_all
  show "keeps calm (Worker_FreeIpAddr env)"
    unfolding Worker_FreeIpAddr_def
    by (intro calm.keeps_bnd calm.keeps_gets calm.keeps_option calm.keeps_ret calm.keeps_andthen calm.keeps_whenever calm_modify) simp_all
  show "keeps calm TapWorker_Stop"
    unfolding TapWorker_Stop_def TapWorker_close_def
    by (intro calm.keeps_bnd calm.keeps_gets calm.keeps_if calm.keeps_option calm.keeps_block calm.keeps_ret calm.keeps_andthen calm_modify) simp_all
  show "keeps calm (TapWorker_Write f)"
    unfolding TapWorker_Write_def by (intro calm.keeps_bnd calm.keeps_gets calm.keeps_if calm.keeps_block calm_modify) simp
qed

lemma calm_Stop: "keeps calm (Worker_Stop env)"
proof -
  have stop: "keeps calm (con_mod (\<lambda>w. w\<lparr>sk_done := n, sk_client := None, sk_ticker := False\<rparr>))" for n
    by (auto simp: keeps_def calm_def con_auth_def con_sleeps_def)
  show ?thesis
    unfolding Worker_Stop_def SocketWorker_Stop_def SocketWorker_sendLeave_def
    by (intro calm.keeps_bnd calm.keeps_gets calm.keeps_if calm.keeps_ret calm.keeps_andthen calm.keeps_block calm_work calm_client calm_send stop calm_modify) simp
qed

text \<open>An answer of the switch, except an accepted login.\<close>

definition accepted :: "FrameMessage \<Rightarrow> bool" where
  "accepted f \<longleftrightarrow> fm_control f \<and> fm_action f = LoginResp \<and> okay (fm_params f)"

lemma calm_onLogin: "\<not> okay resp \<Longrightarrow> keeps calm (SocketWorker_onLogin env resp)"
  unfolding SocketWorker_onLogin_def by (simp, intro calm.keeps_bnd calm.keeps_if calm.keeps_ret calm.keeps_andthen calm_Have calm_SetStatus) simp

lemma calm_onInstruct: "\<not> accepted f \<Longrightarrow> keeps calm (SocketWorker_onInstruct env f)"
  unfolding SocketWorker_onInstruct_def Let_def FrameMessage_CmdAndParams_def FrameMessage_IsControl_def accepted_def
    SocketWorker_onIpAddr_def SocketWorker_onPong_def SocketWorker_onSignIn_def SocketWorker_onLeft_def SocketWorker_close_def prod.case
  by (intro calm.keeps_if calm.keeps_ret calm_onLogin calm.keeps_andthen calm_rec_set calm.keeps_bnd calm.keeps_gets calm.keeps_option
      calm_work calm.keeps_whenever calm_client calm_modify) (simp_all add: rt_defs)

lemma calm_read_end: "keeps calm (read_end env)"
  unfolding read_end_def
  by (intro calm.keeps_andthen calm.keeps_bnd calm.keeps_gets calm.keeps_whenever calm.keeps_ret calm_con_event calm_modify) simp

lemma calm_Read:
  assumes "SocketWorker_Read env s = Some (Inr (b, s'))" and "\<And>f. next_frame env s = Some f \<Longrightarrow> \<not> accepted f"
  shows "calm s s'"
proof (cases "sk_client (ap_con s)")
  case None
  then show ?thesis using assms(1) keepsD [OF calm_read_end] by (simp add: SocketWorker_Read_def bnd_def gets_def)
next
  case (Some c)
  with assms(1) obtain c' r where r: "StreamSocket_ReadMsg (ae_ops env) c = Some (c', r)"
    by (auto simp: SocketWorker_Read_def prog_defs split: option.splits)
  let ?s = "s\<lparr>ap_con := (ap_con s)\<lparr>sk_client := Some c'\<rparr>\<rparr>"
  have put: "calm s ?s" using Some ReadMsg_status [OF r] by (auto simp: calm_def con_auth_def con_sleeps_def)
  let ?m = "case r of Inl err \<Rightarrow> andthen (con_Close env) (read_end env) | Inr data \<Rightarrow> read_frame env data"
  have m: "?m ?s = Some (Inr (b, s'))"
    using assms(1) Some r by (cases r) (simp_all add: SocketWorker_Read_def bnd_def gets_def modify_def andthen_def)
  have "keeps calm ?m"
  proof (cases r)
    case (Inl e)
    then show ?thesis by (simp add: calm.keeps_andthen calm_Close calm_read_end)
  next
    case (Inr data)
    then have "\<not> accepted (fst (FrameMessage_Decode data))" using assms(2) Some r by (simp add: next_frame_def)
    then show ?thesis unfolding Inr sum.case read_frame_def Let_def
      by (intro calm.keeps_if calm.keeps_ret calm.keeps_bnd calm_onInstruct calm.keeps_andthen calm_rec_set calm_work) (simp_all add: rt_defs)
  qed
  from put keepsD [OF this m] show ?thesis by (rule calm.rel_trans)
qed

lemma calm_step:
  assumes "con_step l s s'" and "\<And>f. l = CRead (Some f) \<Longrightarrow> \<not> accepted f"
  shows "calm s s'"
  using assms
proof (induction rule: con_step.induct)
  case (reads env s b s')
  then show ?case by (intro calm_Read) blast+
next
  case (starts env s u s')
  have "keeps calm (SocketWorker_Start env)" unfolding SocketWorker_Start_def by (intro calm.keeps_bnd calm_connect calm.keeps_ret)
  from keepsD [OF this starts.hyps] show ?case .
next
  case (queues f s u s')
  have "keeps calm (SocketWorker_Write f)"
    unfolding SocketWorker_Write_def by (intro calm.keeps_bnd calm.keeps_gets calm.keeps_if calm.keeps_block calm_modify) simp
  from keepsD [OF this queues.hyps] show ?case .
qed (auto dest: keepsD [OF calm_Loop] keepsD [OF calm_Stop] simp: calm_def con_auth_def con_sleeps_def)

text \<open>The connection of the client.\<close>

definition con_wire :: "'c ap \<Rightarrow> 'c option" where
  "con_wire s = (case sk_client (ap_con s) of None \<Rightarrow> None | Some c \<Rightarrow> ss_connection c)"

lemma checkAlive_wire: "SocketWorker_checkAlive env s = Some (Inr (u, s')) \<Longrightarrow> sk_client (ap_con s') = sk_client (ap_con s)"
  by (auto simp: SocketWorker_checkAlive_def con_event_def Let_def prog_defs split: if_splits)

lemma DoWrite_unauth:
  assumes "\<not> con_auth s" and "SocketWorker_DoWrite env frame s = Some (Inr (e, s'))"
  shows "sk_client (ap_con s') = sk_client (ap_con s)"
proof -
  obtain r s1 where check: "DoWrite_con_check env s = Some (Inr (r, s1))"
    and rest: "(case r of Inl e \<Rightarrow> ret e | Inr _ \<Rightarrow> con_WriteMsg env frame) s1 = Some (Inr (e, s'))"
    using assms(2) unfolding SocketWorker_DoWrite_def by (rule bnd_SomeE)
  from check have s1: "sk_client (ap_con s1) = sk_client (ap_con s)" "\<forall>u. r \<noteq> Inr u"
    using assms(1) checkAlive_wire [of env s]
    unfolding DoWrite_con_check_def by (auto simp: con_auth_def SocketClientImpl_Have_def SocketClientImpl_Status_def prog_defs
        split: option.splits sum.splits elim!: andthen_SomeE)
  from s1 rest show ?thesis by (cases r) auto
qed

text \<open>C32. An access point is authenticated by the switch alone: in every step of its goroutines the client becomes authenticated
  only when a reader gets a control frame that answers the login with a text that starts with okay, and while it is not
  authenticated no frame of the device is written to the connection.\<close>

theorem point_auth_only_by_okay:
  assumes "con_step l s s'" and "\<not> con_auth s"
  shows "(\<not> con_auth s' \<or> (\<exists>f. l = CRead (Some f) \<and> fm_control f \<and> fm_action f = LoginResp \<and> okay (fm_params f))) \<and>
     (l \<noteq> CLoop CwWrite \<or> con_wire s' = con_wire s)"
proof
  show "\<not> con_auth s' \<or> (\<exists>f. l = CRead (Some f) \<and> fm_control f \<and> fm_action f = LoginResp \<and> okay (fm_params f))"
    using calm_step [OF assms(1)] assms(2) unfolding calm_def accepted_def by blast
  show "l \<noteq> CLoop CwWrite \<or> con_wire s' = con_wire s"
    using assms
  proof (induction rule: con_step.induct)
    case (loops env c s b s')
    have "sk_client (ap_con s') = sk_client (ap_con s)" if "c = CwWrite"
    proof -
      have bs: "SocketWorker_Loop env CwWrite s = Some (Inr (b, s'))" using loops.hyps that by simp
      then obtain d q where q: "sk_writeQueue (ap_con s) = d # q" by (auto simp: SocketWorker_Loop_def prog_defs split: list.splits)
      let ?s = "s\<lparr>ap_con := (ap_con s)\<lparr>sk_writeQueue := q\<rparr>\<rparr>"
      have "bnd (SocketWorker_DoWrite env d) (\<lambda>_. ret True) ?s = Some (Inr (b, s'))"
        using bs q by (simp add: SocketWorker_Loop_def bnd_def [of "gets _"] gets_def andthen_def bnd_def [of "modify _"] modify_def)
      then obtain e where "SocketWorker_DoWrite env d ?s = Some (Inr (e, s'))" by (auto elim!: bnd_SomeE)
      moreover have "\<not> con_auth ?s" using loops.prems by (simp add: con_auth_def)
      ultimately show ?thesis using DoWrite_unauth by fastforce
    qed
    then show ?case by (auto simp: con_wire_def)
  qed simp_all
qed

section \<open>The delay of a reconnect\<close>

text \<open>An accepted login resets the count.\<close>

lemma onLogin_sleeps:
  assumes "SocketWorker_onLogin env resp s = Some (Inr (r, s'))" and "con_sleeps s \<in> {0..20}"
  shows "con_sleeps s' \<in> {0..20}"
proof (cases "okay resp \<and> \<not> con_auth s")
  case True
  let ?reset = "\<lambda>s. s\<lparr>ap_con := (ap_con s)\<lparr>sk_record := SafeStrInt64_Set rtSuccess (ae_now env)
     (SafeStrInt64_Set rtIpAddr 0 (SafeStrInt64_Set rtSleeps 0 (sk_record (ap_con s))))\<rparr>\<rparr>"
  from assms(1) True obtain s1 where "con_event env EvSocSuccess ''from login'' (?reset s1) = Some (Inr ((), s'))"
    unfolding SocketWorker_onLogin_def
    by (auto simp: con_Have_def con_client_def con_auth_def SocketClientImpl_Have_def SocketClientImpl_Status_def gets_def
        split: option.splits elim!: bnd_SomeE andthen_SomeE)
  moreover have "con_sleeps (?reset s1) = 0" by (simp add: con_sleeps_def SafeStrInt64_Get_Set rt_defs)
  ultimately show ?thesis using keepsD [OF calm_con_event] by (force simp: calm_def)
next
  case False
  then have "\<not> okay resp \<or> s' = s"
    using assms(1) unfolding SocketWorker_onLogin_def
    by (auto simp: con_Have_def con_client_def con_auth_def SocketClientImpl_Have_def SocketClientImpl_Status_def split: option.splits elim!: bnd_SomeE)
  with keepsD [OF calm_onLogin assms(1)] assms(2) show ?thesis by (auto simp: calm_def)
qed

lemma Read_sleeps:
  assumes "SocketWorker_Read env s = Some (Inr (b, s'))" and "next_frame env s = Some f" and "accepted f" and "con_sleeps s \<in> {0..20}"
  shows "con_sleeps s' \<in> {0..20}"
proof -
  from assms(2) obtain c c' data where c: "sk_client (ap_con s) = Some c" "StreamSocket_ReadMsg (ae_ops env) c = Some (c', Inr data)"
    "f = fst (FrameMessage_Decode data)"
    by (auto simp: next_frame_def split: option.splits prod.splits sum.splits)
  let ?s = "s\<lparr>ap_con := (ap_con s)\<lparr>sk_client := Some c'\<rparr>\<rparr>"
  have "read_frame env data ?s = Some (Inr (b, s'))"
    using assms(1) c by (simp add: SocketWorker_Read_def bnd_def gets_def modify_def andthen_def)
  then have "s' = ?s \<or> (\<exists>r. SocketWorker_onLogin env (fm_params f) ?s = Some (Inr (r, s')))"
    using assms(3) c(3) unfolding read_frame_def SocketWorker_onInstruct_def accepted_def
    by (auto simp: Let_def FrameMessage_IsControl_def FrameMessage_CmdAndParams_def split: if_splits elim!: bnd_SomeE)
  moreover have "con_sleeps ?s = con_sleeps s" by (simp add: con_sleeps_def)
  ultimately show ?thesis using onLogin_sleeps assms(4) by metis
qed

lemma sleeps_step: "con_step l s s' \<Longrightarrow> con_sleeps s \<in> {0..20} \<Longrightarrow> con_sleeps s' \<in> {0..20}"
proof (cases "\<exists>f. l = CRead (Some f) \<and> accepted f")
  case True
  assume "con_step l s s'" and "con_sleeps s \<in> {0..20}"
  with True show ?thesis by (auto elim!: con_step.cases simp del: atLeastAtMost_iff intro: Read_sleeps [OF _ sym])
qed (use calm_step in \<open>auto simp: calm_def\<close>)


section \<open>A lost connection comes back\<close>

text \<open>The client of the point has no connection; \<open>con_rest\<close> is what its other operations leave alone then.\<close>

definition lost :: "string \<Rightarrow> 'c ap \<Rightarrow> bool" where
  "lost a s \<longleftrightarrow> (\<exists>c. sk_client (ap_con s) = Some c \<and> ss_connection c = None \<and> sc_status c \<notin> {ClAuth, ClTerminal} \<and>
     cl_OnConnected (sc_listener c) \<and> ss_address c = a)"

definition con_rest :: "'c ap \<Rightarrow> SafeStrInt64 \<times> WorkerEvent list \<times> i64 list \<times> co_Point \<times> bool" where
  "con_rest s = (sk_record (ap_con s), sk_eventQueue (ap_con s), sk_jobber (ap_con s), sk_pinCfg (ap_con s), sk_ticker (ap_con s))"

lemma lost_cong: "sk_client (ap_con s') = sk_client (ap_con s) \<Longrightarrow> lost a s' = lost a s"
  by (simp add: lost_def)

lemma send_lost:
  assumes "lost a s" and "length action = 6"
  obtains e s' where "send_control env action enc s = Some (Inr (e, s'))" and "lost a s'" and "con_rest s' = con_rest s"
proof -
  obtain c where c: "sk_client (ap_con s) = Some c" "ss_connection c = None" "sc_status c \<notin> {ClAuth, ClTerminal}"
    "cl_OnConnected (sc_listener c)" "ss_address c = a" using assms(1) by (auto simp: lost_def)
  show thesis
  proof (cases "enc s")
    case None
    then show thesis using that [of _ s] assms(1) c(1) by (simp add: send_control_def prog_defs)
  next
    case (Some body)
    let ?c = "stat_add CsDropped 1 c"
    have "send_control env action enc s = Some (Inr (Some (NewErr ''%s not okay''), s\<lparr>ap_con := (ap_con s)\<lparr>sk_client := Some ?c\<rparr>\<rparr>))"
      using c Some NewControlFrame_eq [OF assms(2), of body]
      by (simp add: send_control_def con_WriteMsg_def con_client_def StreamSocket_WriteMsg_def prog_defs)
    then show thesis using that c by (simp add: lost_def con_rest_def)
  qed
qed

lemma keepAlive_lost:
  assumes "lost a s"
  obtains s' where "SocketWorker_keepAlive env s = Some (Inr ((), s'))" and "lost a s'" and "con_rest s' = con_rest s"
proof (cases "KeepAlive_Should (ae_now env) (sk_keepalive (ap_con s))")
  case True
  let ?s = "s\<lparr>ap_con := (ap_con s)\<lparr>sk_keepalive := KeepAlive_Update (ae_now env) (sk_keepalive (ap_con s))\<rparr>\<rparr>"
  have l: "lost a ?s" "con_rest ?s = con_rest s" using assms by (simp_all add: lost_def con_rest_def)
  obtain e s' where s': "SocketWorker_sendLogin env ?s = Some (Inr (e, s'))" "lost a s'" "con_rest s' = con_rest ?s"
    unfolding SocketWorker_sendLogin_def by (rule send_lost [OF l(1), of LoginReq env]) (simp add: LoginReq_def)
  have "SocketWorker_keepAlive env s = Some (Inr ((), s'))"
    using True assms s'(1) by (auto simp: SocketWorker_keepAlive_def con_Have_def con_client_def lost_def SocketClientImpl_Have_def
        SocketClientImpl_Status_def prog_defs)
  then show thesis using that s' l by simp
next
  case False
  then have "SocketWorker_keepAlive env s = Some (Inr ((), s))" by (simp add: SocketWorker_keepAlive_def prog_defs)
  then show thesis using that assms by blast
qed

text \<open>A tick looks whether the other side is alive.\<close>

definition dead :: "'c apenv \<Rightarrow> 'c ap \<Rightarrow> bool" where
  "dead env s \<longleftrightarrow> (let out = sint (of_int (cp_Timeout (sk_pinCfg (ap_con s))) :: i64)
     in out \<le> sint (ae_now env - rec_get rtLast (ap_con s)) \<and> out \<le> sint (ae_now env - rec_get rtLive (ap_con s)) \<and>
        out \<le> sint (ae_now env - rec_get rtReConnect (ap_con s)))"

definition with_event :: "'c apenv \<Rightarrow> string \<Rightarrow> string \<Rightarrow> 'c ap \<Rightarrow> 'c ap" where
  "with_event env t r s = s\<lparr>ap_con := (ap_con s)\<lparr>sk_eventQueue := sk_eventQueue (ap_con s) @ [NewEvent (ae_now env) t r]\<rparr>\<rparr>"

lemma checkAlive_eq:
  "SocketWorker_checkAlive env s = (if dead env s
     then (if length (sk_eventQueue (ap_con s)) < 32 then Some (Inr ((), with_event env EvSocRecon ''from alive check'' s)) else None)
     else Some (Inr ((), s)))"
  by (auto simp: SocketWorker_checkAlive_def dead_def con_event_def with_event_def Let_def prog_defs)

text \<open>A job that is due makes the connection again.\<close>

lemma connect_lost:
  assumes "lost a s" and "ae_dial env a = Inr k" and "length (sk_eventQueue (ap_con s)) < 32"
  obtains s' where "SocketWorker_connect env s = Some (Inr (None, s'))" and "con_wire s' = Some k"
    and "sk_eventQueue (ap_con s') = sk_eventQueue (ap_con s) @ [NewEvent (ae_now env) EvSocConed ''from socket'']"
proof -
  obtain c where c: "sk_client (ap_con s) = Some c" "ss_connection c = None" "sc_status c \<noteq> ClAuth" "sc_status c \<noteq> ClTerminal"
    "cl_OnConnected (sc_listener c)" "ss_address c = a" using assms(1) by (auto simp: lost_def)
  define s1 where "s1 = s\<lparr>ap_con := (ap_con s)\<lparr>sk_client := Some (c\<lparr>sc_status := ClInit\<rparr>)\<rparr>\<rparr>"
  let ?s2 = "s1\<lparr>ap_con := (ap_con s1)\<lparr>sk_record := SafeStrInt64_Add rtConnects 1 (sk_record (ap_con s1))\<rparr>\<rparr>"
  have close: "con_Close env s = Some (Inr ((), s))"
    using c by (simp add: con_Close_def con_client_def TcpClient_Close_def prog_defs)
  have evs: "foreach evs (con_callback env) s1 = Some (Inr ((), s1))" if "\<forall>x \<in> set evs. \<exists>u v. x = EvStatus u v" for evs
    using that by (induction evs) (auto simp: con_callback_def prog_defs)
  have "whenever (\<not> ini) (con_SetStatus env ClInit) s = Some (Inr ((), s1))" if "con_Have ClInit s = Some (Inr (ini, s))" for ini
  proof (cases ini)
    case True
    with that c have "sc_status c = ClInit" by (simp add: con_Have_def con_client_def SocketClientImpl_Have_def SocketClientImpl_Status_def prog_defs)
    with c have "s1 = s" by (cases s; cases "ap_con s"; cases c) (simp add: s1_def)
    with True show ?thesis by (simp add: prog_defs)
  next
    case False
    with that c have "sc_status c \<noteq> ClInit" by (simp add: con_Have_def con_client_def SocketClientImpl_Have_def SocketClientImpl_Status_def prog_defs)
    then have "con_SetStatus env ClInit s = Some (Inr ((), s1))"
      using c evs by (simp add: con_SetStatus_def con_client_def TcpClient_SetStatus_def bnd_def gets_def ret_def andthen_def modify_def s1_def)
    with False show ?thesis by (simp add: whenever_def)
  qed
  moreover obtain ini where "con_Have ClInit s = Some (Inr (ini, s))" using c by (simp add: con_Have_def con_client_def prog_defs)
  ultimately have eq: "SocketWorker_connect env s = con_Connect env ?s2"
    using close by (simp add: SocketWorker_connect_def andthen_def bnd_def modify_def)
  have "\<exists>s'. con_Connect env ?s2 = Some (Inr (None, s')) \<and> con_wire s' = Some k \<and>
     sk_eventQueue (ap_con s') = sk_eventQueue (ap_con s) @ [NewEvent (ae_now env) EvSocConed ''from socket'']"
    using c assms(2,3) by (simp add: con_Connect_def con_client_def connect_with_def SocketClientImpl_Retry_def
        SocketClientImpl_SetConnection_def SocketClientImpl_updateConn_def con_callback_def con_event_def con_wire_def s1_def prog_defs)
  with eq that show thesis by auto
qed

lemma jobs_none:
  "sk_jobber (ap_con s) = [] \<Longrightarrow> \<exists>s'. SocketWorker_checkJobber env s = Some (Inr ((), s')) \<and>
     sk_client (ap_con s') = sk_client (ap_con s) \<and> con_rest s' = con_rest s"
  by (simp add: SocketWorker_checkJobber_def con_rest_def prog_defs)

lemma reconnect_planned:
  assumes "lost a s" and "sk_eventQueue (ap_con s) = [NewEvent now EvSocRecon r]" and "sk_jobber (ap_con s) = []" and "sk_ticker (ap_con s)"
    and "con_sleeps s \<in> {0..20}"
  obtains s' d where "SocketWorker_Loop env CwEvent s = Some (Inr (True, s'))" and "sk_client (ap_con s') = sk_client (ap_con s)"
    and "sk_eventQueue (ap_con s') = []" and "sk_jobber (ap_con s') = [ae_now env + d]" and "sk_ticker (ap_con s')"
    and "rec_get rtConnected (ap_con s') = rec_get rtConnected (ap_con s)" and "rec_get rtReConnect (ap_con s') = ae_now env"
    and "0 \<le> sint d" and "sint d \<le> 100"
proof -
  let ?n = "rec_get rtSleeps (ap_con s)"
  define k where "k = (if sint ?n < 20 then ?n + 1 else ?n)"
  have "0 \<le> sint k" "sint k \<le> 20" using assms(5) sint_arith(1) [of ?n 1] by (auto simp: k_def con_sleeps_def)
  then have d: "0 \<le> sint (k * 5)" "sint (k * 5) \<le> 100" using sint_arith(3) [of k 5] by simp_all
  have run: "\<not> SocketWorker_isStopped (ap_con s)"
    using assms(1) by (auto simp: lost_def SocketWorker_isStopped_def SocketClientImpl_Have_def SocketClientImpl_Status_def)
  have "\<exists>s'. SocketWorker_Loop env CwEvent s = Some (Inr (True, s')) \<and> sk_client (ap_con s') = sk_client (ap_con s) \<and>
     sk_eventQueue (ap_con s') = [] \<and> sk_jobber (ap_con s') = [ae_now env + k * 5] \<and> sk_ticker (ap_con s') \<and>
     rec_get rtConnected (ap_con s') = rec_get rtConnected (ap_con s) \<and> rec_get rtReConnect (ap_con s') = ae_now env"
    using assms(2-4) run by (simp add: SocketWorker_Loop_def SocketWorker_dispatch_def NewEvent_def ev_defs SocketWorker_reconnect_def
        SocketWorker_isStopped_def SocketWorker_sleepIdle_def SocketWorker_sleepNow_def k_def prog_defs SafeStrInt64_Get_Add SafeStrInt64_Get_Set rt_defs)
  with d that show thesis by blast
qed

lemma tick_connects:
  assumes "lost a s" and "sk_eventQueue (ap_con s) = []" and "sk_jobber (ap_con s) = [j]" and "sk_ticker (ap_con s)"
    and "sint j \<le> sint (ae_now env)" and "sint (rec_get rtConnected (ap_con s)) < sint (rec_get rtReConnect (ap_con s))"
    and "ae_dial env a = Inr k"
  obtains s' where "SocketWorker_Loop env CwTicker s = Some (Inr (True, s'))" and "con_wire s' = Some k"
    and "NewEvent (ae_now env) EvSocConed ''from socket'' \<in> set (sk_eventQueue (ap_con s'))"
proof -
  obtain u where u: "SocketWorker_checkAlive env s = Some (Inr ((), u))" "u = s \<or> u = with_event env EvSocRecon ''from alive check'' s"
    using assms(2) that by (cases "dead env s") (simp_all add: checkAlive_eq)
  have lu: "lost a u" using u(2) assms(1) by (auto simp: lost_def with_event_def)
  obtain v where v: "SocketWorker_keepAlive env u = Some (Inr ((), v))" "lost a v" "con_rest v = con_rest u" using keepAlive_lost [OF lu] .
  have rest: "length (sk_eventQueue (ap_con v)) < 32" "sk_jobber (ap_con v) = [j]" "sk_record (ap_con v) = sk_record (ap_con s)"
    using v(3) u(2) assms(2,3) by (auto simp: con_rest_def with_event_def)
  obtain w where w: "SocketWorker_connect env v = Some (Inr (None, w))" "con_wire w = Some k"
    "sk_eventQueue (ap_con w) = sk_eventQueue (ap_con v) @ [NewEvent (ae_now env) EvSocConed ''from socket'']"
    using connect_lost [OF v(2) assms(7) rest(1)] .
  have job: "reconnect_job env v = Some (Inr (None, w))" using w(1) rest(3) assms(6) by (simp add: reconnect_job_def bnd_def gets_def)
  let ?s = "w\<lparr>ap_con := (ap_con w)\<lparr>sk_jobber := []\<rparr>\<rparr>"
  have "SocketWorker_checkJobber env v = Some (Inr ((), ?s))"
    using rest(2) assms(5) job by (simp add: SocketWorker_checkJobber_def andthen_def bnd_def gets_def ret_def modify_def)
  then have "SocketWorker_Loop env CwTicker s = Some (Inr (True, ?s))"
    using assms(4) u(1) v(1) by (simp add: SocketWorker_Loop_def SocketWorker_doTicker_def andthen_def bnd_def gets_def ret_def)
  then show thesis using that [of ?s] w(2,3) by (simp add: con_wire_def)
qed


section \<open>The loop can block itself\<close>

lemma run_bnd:
  "m s = Some (Inr (a, t)) \<Longrightarrow> bnd m f s = f a t" "m s = None \<Longrightarrow> bnd m f s = None"
  "n s = Some (Inr ((), t)) \<Longrightarrow> andthen n k s = k t" "n s = None \<Longrightarrow> andthen n k s = None"
  by (simp_all add: bnd_def andthen_def)

lemma DoWrite_dead:
  assumes "dead env s" and "\<not> con_auth s" and "length (sk_eventQueue (ap_con s)) < 32"
  shows "\<exists>e. SocketWorker_DoWrite env f s = Some (Inr (e, with_event env EvSocRecon ''from alive check'' s))"
  using assms by (auto simp: SocketWorker_DoWrite_def DoWrite_con_check_def checkAlive_eq andthen_def bnd_def gets_def ret_def with_event_def
      con_auth_def SocketClientImpl_Have_def SocketClientImpl_Status_def split: option.splits)

text \<open>C38. The loop of the socket worker takes the events itself, and every frame it writes while the switch is silent adds an event:
  when it takes frames only, the thirty-third frame finds the queue of 32 events full and the loop waits for itself for ever.\<close>

theorem write_burst_blocks_loop:
  assumes "dead env s" and "\<not> con_auth s" and "32 < length (sk_eventQueue (ap_con s)) + length fs"
    and "length (sk_eventQueue (ap_con s)) \<le> 32"
  shows "foreach fs (\<lambda>f. bnd (SocketWorker_DoWrite env f) (\<lambda>_. ret ())) s = None"
  using assms
proof (induction fs arbitrary: s)
  case (Cons f fs)
  show ?case
  proof (cases "length (sk_eventQueue (ap_con s)) < 32")
    case True
    let ?s = "with_event env EvSocRecon ''from alive check'' s"
    obtain e where "SocketWorker_DoWrite env f s = Some (Inr (e, ?s))" using DoWrite_dead [OF Cons.prems(1,2) True] by blast
    moreover have "foreach fs (\<lambda>f. bnd (SocketWorker_DoWrite env f) (\<lambda>_. ret ())) ?s = None"
      using Cons.prems True by (intro Cons.IH) (simp_all add: dead_def with_event_def con_auth_def)
    moreover have "ret () ?s = Some (Inr ((), ?s))" by simp
    ultimately show ?thesis by (simp only: foreach.simps run_bnd)
  next
    case False
    then have "SocketWorker_DoWrite env f s = None" using Cons.prems(1)
      by (simp add: andthen_def bnd_def SocketWorker_DoWrite_def DoWrite_con_check_def checkAlive_eq)
    then show ?thesis by (simp only: foreach.simps run_bnd)
  qed
qed simp

section \<open>Examples\<close>

text \<open>A point whose connection is gone, with frames of its device in the queue.\<close>

definition lost_demo :: "unit ap" where
  "lost_demo = (let s = ap_demo [2, 0, 0, 0, 0, 1] [10, 0, 0, 1];
       c = (NewTcpClient 0 ''h'' ex_cfg)\<lparr>sc_status := ClClosed, sc_listener := \<lparr>cl_OnClose = True, cl_OnConnected = True, cl_OnStatus = False\<rparr>\<rparr>
     in s\<lparr>ap_con := (ap_con s)\<lparr>sk_client := Some c, sk_writeQueue := [ex_frame [1, 2]]\<rparr>\<rparr>)"

lemma lost_demo_facts:
  "lost ''h'' lost_demo" "\<not> con_auth lost_demo" "con_sleeps lost_demo = 0" "sk_eventQueue (ap_con lost_demo) = []"
  "sk_jobber (ap_con lost_demo) = []" "sk_ticker (ap_con lost_demo)" "rec_get k (ap_con lost_demo) = 0" "dead (ae_demo\<lparr>ae_now := 200\<rparr>) lost_demo"
  "sk_record (ap_con lost_demo) = NewSafeStrInt64" "\<not> SocketWorker_isStopped (ap_con lost_demo)"
  by (simp_all add: lost_demo_def ap_demo_def Let_def lost_def con_auth_def con_sleeps_def NewSafeStrInt64_def SafeStrInt64_Get_def
      NewTcpClient_def NewSocketClient_def dead_def cp_demo_def ae_demo_def SocketWorker_isStopped_def SocketClientImpl_Have_def SocketClientImpl_Status_def)

theorem point_auth_only_by_okay_witness:
  "\<exists>s'. con_step (CLoop CwWrite) lost_demo s' \<and> sk_writeQueue (ap_con s') = [] \<and> \<not> con_auth s' \<and> con_wire s' = con_wire lost_demo"
proof -
  let ?s = "lost_demo\<lparr>ap_con := (ap_con lost_demo)\<lparr>sk_writeQueue := []\<rparr>\<rparr>"
  let ?t = "with_event (ae_demo\<lparr>ae_now := 200\<rparr>) EvSocRecon ''from alive check'' ?s"
  have q: "sk_writeQueue (ap_con lost_demo) = [ex_frame [1, 2]]" by (simp add: lost_demo_def Let_def)
  have "dead (ae_demo\<lparr>ae_now := 200\<rparr>) ?s" "\<not> con_auth ?s" "length (sk_eventQueue (ap_con ?s)) < 32"
    using lost_demo_facts(2,4,8) by (simp_all add: dead_def con_auth_def)
  from DoWrite_dead [OF this, of "ex_frame [1, 2]"] obtain e where
    "SocketWorker_DoWrite (ae_demo\<lparr>ae_now := 200\<rparr>) (ex_frame [1, 2]) ?s = Some (Inr (e, ?t))" by blast
  then have "SocketWorker_Loop (ae_demo\<lparr>ae_now := 200\<rparr>) CwWrite lost_demo = Some (Inr (True, ?t))"
    using q by (simp add: SocketWorker_Loop_def andthen_def bnd_def gets_def modify_def ret_def)
  then have step: "con_step (CLoop CwWrite) lost_demo ?t" by (rule con_step.loops)
  from point_auth_only_by_okay [OF this lost_demo_facts(2)] step show ?thesis
    by (intro exI [of _ ?t]) (simp add: with_event_def)
qed



theorem write_burst_blocks_loop_witness:
  "foreach (replicate 33 (ex_frame [1, 2])) (\<lambda>f. bnd (SocketWorker_DoWrite (ae_demo\<lparr>ae_now := 200\<rparr>) f) (\<lambda>_. ret ())) lost_demo = None"
  by (rule write_burst_blocks_loop [OF lost_demo_facts(8,2)]) (simp_all add: lost_demo_facts(4))

end
