(* ===== verification/Handshake.thy ===== *)
theory Handshake
  imports Isolation ApSocket
begin

text \<open>The login, across the access point and the switch: the frame the point sends is the one the switch decodes, an accepted login
  is answered on the connection of its client and nothing else of the client changes, and the answer authenticates the client of
  the point. The handlers are shown to return, by the rules for \<open>returns\<close> of the theory \<open>Prog\<close>.\<close>

section \<open>The switch\<close>

definition off_room :: "nat \<Rightarrow> ('c, 'l) state \<Rightarrow> bool" where
  "off_room k s \<longleftrightarrow> length (srv_offClients (sys_srv (st_sys s))) + k \<le> 1024"

definition heap_at :: "('c, 'l) state \<Rightarrow> nat \<Rightarrow> ('c, nat) SocketClientImpl option" where
  "heap_at s i = sys_heap (st_sys s) i"

lemma client_get_returns [simp]: "heap_at s i = Some c \<Longrightarrow> returns (client_get i) s Q \<longleftrightarrow> Q c s"
  by (simp add: client_get_def heap_at_def)

lemma client_put_returns [simp]:
  "returns (client_put i c) s Q \<longleftrightarrow> Q () (s\<lparr>st_sys := (st_sys s)\<lparr>sys_heap := (sys_heap (st_sys s))(i \<mapsto> c)\<rparr>\<rparr>)"
  by (simp add: client_put_def)

lemma OffClient_returns:
  "off_room (Suc k) s \<Longrightarrow> returns (Switch_OffClient j) s (\<lambda>_ t. heap_at t = heap_at s \<and> off_room k t)"
  by (simp add: Switch_OffClient_def SocketServerImpl_OffClient_def off_room_def heap_at_def fun_eq_iff)

lemma NewTap_returns: "returns (Switch_NewTap v tenant) s (\<lambda>_ t. st_sys t = st_sys s)"
  by (auto simp: Switch_NewTap_def Let_def split: sum.split prod.split)

lemma OffClient_opt_returns:
  assumes "off_room (Suc k) s" and "heap_at s i = Some c"
  shows "returns (case om of None \<Rightarrow> ret () | Some j \<Rightarrow> whenever b (Switch_OffClient (f j))) s (\<lambda>_ t. heap_at t i = Some c \<and> off_room k t)"
proof (cases "om = None \<or> \<not> b")
  case True
  then show ?thesis using assms by (auto simp: off_room_def split: option.split)
next
  case False
  then obtain j where "om = Some j" b by auto
  with OffClient_returns [OF assms(1), of "f j"] show ?thesis using assms(2) by (auto elim!: returns_mono)
qed

lemmas OffClient_case_returns = OffClient_opt_returns [where b = True, unfolded whenever_def if_True]

lemma heap_at_simps [simp]:
  "heap_at (s\<lparr>st_point := p\<rparr>) = heap_at s" "heap_at (s\<lparr>st_user := u\<rparr>) = heap_at s" "heap_at (s\<lparr>st_access := a\<rparr>) = heap_at s"
  "heap_at (s\<lparr>st_readers := r\<rparr>) = heap_at s"
  "heap_at (s\<lparr>st_sys := (st_sys s)\<lparr>sys_heap := h\<rparr>\<rparr>) = h"
  "off_room k (s\<lparr>st_point := p\<rparr>) = off_room k s" "off_room k (s\<lparr>st_user := u\<rparr>) = off_room k s" "off_room k (s\<lparr>st_access := a\<rparr>) = off_room k s"
  "off_room k (s\<lparr>st_sys := (st_sys s)\<lparr>sys_heap := h\<rparr>\<rparr>) = off_room k s"
  by (simp_all add: heap_at_def fun_eq_iff off_room_def)

lemma attach_returns:
  assumes "off_room (Suc 0) s" and "heap_at s i = Some c"
  shows "returns (Access_attach env (Switch_Master v) i user cl dev) s (\<lambda>_ t. \<exists>p. heap_at t i = Some (c\<lparr>sc_private := p\<rparr>))"
  using assms unfolding Access_attach_def Let_def Switch_Master_simps
  by (auto simp: client_SetPrivate_def Switch_ReadTap_def SocketClientImpl_SetPrivate_def split: prod.split
      intro!: returns_mono [OF OffClient_case_returns [where k = 0 and i = i and c = c]])

lemma onAuth_returns:
  assumes "off_room (Suc 0) s" and "heap_at s i = Some c" and "sc_status c = ClAuth"
  shows "returns (Access_onAuth env (Switch_Master v) i user) s (\<lambda>_ t. \<exists>p. heap_at t i = Some (c\<lparr>sc_private := p\<rparr>))"
proof -
  have tap: "returns (case r of Inl err \<Rightarrow> ret (Some err) | Inr dev \<Rightarrow> Access_attach env (Switch_Master v) i user c dev) t
      (\<lambda>_ t. \<exists>p. heap_at t i = Some (c\<lparr>sc_private := p\<rparr>))" if "st_sys t = st_sys s" for r t
  proof (cases r)
    case (Inl e)
    have "heap_at t i = Some (c\<lparr>sc_private := sc_private c\<rparr>)" using that assms(2) by (simp add: heap_at_def)
    then show ?thesis unfolding Inl by (simp only: sum.case returns_simps) (rule exI [of _ "sc_private c"], simp)
  next
    case (Inr dev)
    then show ?thesis using that assms(1,2) attach_returns [of t i c] by (simp add: off_room_def heap_at_def)
  qed
  show ?thesis
    unfolding Access_onAuth_def using assms(2,3)
    by (simp add: SocketClientImpl_Have_def SocketClientImpl_Status_def) (rule returns_mono [OF NewTap_returns], rule tap)
qed


lemma handleLogin_returns:
  assumes "off_room 2 s" and "heap_at s i = Some c" and "sc_status c \<noteq> ClAuth" and "login_accepted env data s"
  shows "returns (Access_handleLogin env (Switch_Master v) i data) s
    (\<lambda>r t. r = None \<and> (\<exists>p. heap_at t i = Some (c\<lparr>sc_status := ClAuth, sc_private := p\<rparr>)))"
proof -
  obtain user users j where user: "en_User env data = Some user"
    "user_Check (en_ldap env) (en_year env) (en_now env) (User_Update (en_now env) user) (st_user s) = (users, Inr j)"
    using assms(4) unfolding login_accepted_def by (metis prod.collapse)
  have off: "returns (case us_Last (ur_heap users j) of None \<Rightarrow> ret () | Some l \<Rightarrow> whenever b (Switch_OffClient l))
      (s\<lparr>st_user := users\<rparr>) (\<lambda>_ t. heap_at t i = Some c \<and> off_room (Suc 0) t)" for b
    using OffClient_opt_returns [where k = "Suc 0" and s = "s\<lparr>st_user := users\<rparr>" and i = i and c = c and b = b and f = "\<lambda>l. l"] assms(1,2) by (simp add: numeral_2_eq_2)
  have auth: "fst (TcpClient_SetStatus ClAuth c) = c\<lparr>sc_status := ClAuth\<rparr>" using assms(3) by (simp add: TcpClient_SetStatus_def)
  have rest: "returns (client_SetStatus ClAuth i) t (\<lambda>_ t. returns (Access_onAuth env (Switch_Master v) i u) t
      (\<lambda>_ t. \<exists>p. heap_at t i = Some (c\<lparr>sc_status := ClAuth, sc_private := p\<rparr>)))"
    if "heap_at t i = Some c" "off_room (Suc 0) t" for t u
    using that auth by (simp add: client_SetStatus_def) (rule returns_mono [OF onAuth_returns], simp_all)
  show ?thesis
    unfolding Access_handleLogin_def Let_def Switch_Master_simps using assms(2,3) user
    by (simp add: SocketClientImpl_Have_def SocketClientImpl_Status_def) (rule returns_mono [OF off], simp add: rest)
qed


text \<open>The handlers after \<open>Access\<close> pass a login on.\<close>

lemma later_hooks_login: "login_frame frame \<Longrightarrow> HAccess \<notin> set hs \<Longrightarrow> onFrame_loop env master i frame hs = ret None"
proof (induction hs)
  case (Cons h hs)
  then have "run_hook env master i frame h = ret None"
    by (cases h) (auto simp: login_frame_def Request_OnFrame_def Neighbors_OnFrame_def Online_OnFrame_def FrameMessage_IsControl_def
        FrameMessage_IsEthernet_def FrameMessage_CmdAndParams_def Let_def andthen_def NeighborReq_def IpAddrReq_def LeftReq_def LoginReq_def)
  with Cons show ?case by simp
qed simp

lemma login_answered:
  fixes env :: "('c, 'l) env" and c :: "('c, nat) SocketClientImpl"
  assumes "sw_hooks v = []" and "off_room 2 s" and "heap_at s i = Some c" and "sc_status c \<noteq> ClAuth"
    and "login_frame (fst (FrameMessage_Decode frame))" and "login_accepted env (fm_params (fst (FrameMessage_Decode frame))) s"
    and "NewControlFrame LoginResp (bytes_of ''okay'') = Inr g" and "\<And>c :: ('c, nat) SocketClientImpl. StreamSocket_WriteMsg (en_ops env) g c \<noteq> None"
  shows "returns (Switch_ReadClient env (Switch_preApps v) i frame) s (\<lambda>r t. r = None \<and>
    (\<exists>p c' e. StreamSocket_WriteMsg (en_ops env) g (c\<lparr>sc_status := ClAuth, sc_private := p\<rparr>) = Some (c', e) \<and> heap_at t i = Some c'))"
proof -
  let ?f = "fst (FrameMessage_Decode frame)"
  let ?Q = "\<lambda>t. \<exists>p c' e. StreamSocket_WriteMsg (en_ops env) g (c\<lparr>sc_status := ClAuth, sc_private := p\<rparr>) = Some (c', e) \<and> heap_at t i = Some c'"
  obtain hs where hs: "sw_hooks (Switch_preApps v) = HAccess # hs" "HAccess \<notin> set hs" by (rule preApps_hooks [OF assms(1)])
  have ctl: "FrameMessage_IsControl ?f" "FrameMessage_CmdAndParams ?f = (LoginReq, fm_params ?f)"
    using assms(5) by (simp_all add: login_frame_def FrameMessage_IsControl_def FrameMessage_CmdAndParams_def)
  have wr: "returns (andthen (write_control env LoginResp (bytes_of ''okay'') i) (Access_check i)) t (\<lambda>r t. r = None \<and> ?Q t)"
    if at: "heap_at t i = Some (c\<lparr>sc_status := ClAuth, sc_private := p\<rparr>)" for t p
  proof -
    obtain c' e where w: "StreamSocket_WriteMsg (en_ops env) g (c\<lparr>sc_status := ClAuth, sc_private := p\<rparr>) = Some (c', e)"
      using assms(8) by (metis option.exhaust surj_pair)
    with WriteMsg_auth [OF w] at show ?thesis
      by (auto simp: write_control_def client_WriteMsg_def Access_check_def assms(7) SocketClientImpl_Have_def SocketClientImpl_Status_def)
  qed
  have "returns (Access_OnFrame env (Switch_Master (Switch_preApps v)) i ?f) s (\<lambda>r t. r = None \<and> ?Q t)"
    unfolding Access_OnFrame_def using ctl
    by (simp, intro returns_mono [OF handleLogin_returns [OF assms(2,3,4,6)]]) (use wr in auto)
  then have "returns (Switch_onFrame env (Switch_preApps v) i ?f) s (\<lambda>r t. r = None \<and> ?Q t)"
    unfolding Switch_onFrame_def hs(1) by (simp only: onFrame_loop.simps run_hook.simps returns_bnd)
      (erule returns_mono, simp add: later_hooks_login [OF assms(5) hs(2)])
  then show ?thesis
    unfolding Switch_ReadClient_def Let_def by (simp only: returns_bnd) (erule returns_mono, simp add: ctl)
qed


section \<open>The point\<close>

lemma control_carried:
  assumes "length action = 6"
  obtains f h where "NewControlFrame action body = Inr f" and "fst (FrameMessage_Decode (carried f)) = h" and "fm_control h"
    and "fm_action h = action" and "fm_params h = body" and "0 < FrameMessage_Size (carried f)"
proof -
  let ?w = "EthZero @ bytes_of action @ body"
  obtain f where f: "NewControlFrame action body = Inr f" "payload f = ?w"
    using NewControlFrame_eq [OF assms, of body] assms
    by (simp add: payload_def FrameMessage_Frame_def slice_def EthZero_def nat_add_distrib)
  have "FrameMessage_Decode (carried f) = ((carried f)\<lparr>fm_control := True, fm_action := action, fm_params := body\<rparr>, True)"
    using FrameMessage_Decode_control [of "carried f" action body] f(2) assms by simp
  moreover have "0 < FrameMessage_Size (carried f)"
    by (simp add: carried_def NewFrameMessageFromBytes_def f(2) FrameMessage_Size_def EthZero_def)
  ultimately show thesis using that f(1) by simp
qed

lemma onLogin_okay:
  assumes "sk_client (ap_con p) = Some pc" and "sc_status pc \<noteq> ClAuth" and "length (sk_eventQueue (ap_con p)) < 32" and "okay resp"
  shows "returns (SocketWorker_onLogin pe resp) p (\<lambda>_ t. con_auth t \<and>
    sk_eventQueue (ap_con t) = sk_eventQueue (ap_con p) @ [NewEvent (ae_now pe) EvSocSuccess ''from login''])"
  using assms
  by (simp add: SocketWorker_onLogin_def con_Have_def con_client_def SocketClientImpl_Have_def SocketClientImpl_Status_def
      con_SetStatus_def TcpClient_SetStatus_def con_callback_def Worker_OnSuccess_def con_event_def con_auth_def)
section \<open>The login\<close>

text \<open>C4. The login works from end to end. The point sends its user in a frame; when the user cache of the switch accepts what this
  frame decodes to, the handler of the switch returns, the client is authenticated, and all that happened to it is that its
  status and its private data were set and one answer was written to its connection. The point that reads this answer takes its
  client as authenticated and queues the event that asks for an address.\<close>

theorem login_handshake:
  fixes env :: "('c, 'l) env" and c :: "('c, nat) SocketClientImpl" and p :: "'d ap"
  assumes "sw_hooks v = []" and "off_room 2 st" and "heap_at st i = Some c" and "sc_status c \<noteq> ClAuth"
    and "\<And>g (c :: ('c, nat) SocketClientImpl). StreamSocket_WriteMsg (en_ops env) g c \<noteq> None"
    and "sk_client (ap_con p) \<noteq> None" and "ae_putUser pe (sk_user (ap_con p)) = Some body" and "login_accepted env body st"
    and "sk_client (ap_con q) = Some qc" and "sc_status qc \<noteq> ClAuth" and "length (sk_eventQueue (ap_con q)) < 32"
  shows "\<exists>f g st' c' q'. SocketWorker_sendLogin pe p = con_WriteMsg pe f p \<and>
    Switch_ReadClient env (Switch_preApps v) i (carried f) st = Some (Inr (None, st')) \<and> heap_at st' i = Some c' \<and> sc_status c' = ClAuth \<and>
    (\<exists>x e. StreamSocket_WriteMsg (en_ops env) g (c\<lparr>sc_status := ClAuth, sc_private := x\<rparr>) = Some (c', e)) \<and>
    read_frame qe (carried g) q = Some (Inr (True, q')) \<and> con_auth q' \<and>
    sk_eventQueue (ap_con q') = sk_eventQueue (ap_con q) @ [NewEvent (ae_now qe) EvSocSuccess ''from login'']"
proof -
  obtain f h where f: "NewControlFrame LoginReq body = Inr f" "fst (FrameMessage_Decode (carried f)) = h" "fm_control h"
    "fm_action h = LoginReq" "fm_params h = body"
    by (rule control_carried [of LoginReq body]) (simp_all add: LoginReq_def)
  obtain g k where g: "NewControlFrame LoginResp (bytes_of ''okay'') = Inr g" "fst (FrameMessage_Decode (carried g)) = k" "fm_control k"
    "fm_action k = LoginResp" "fm_params k = bytes_of ''okay''" "0 < FrameMessage_Size (carried g)"
    by (rule control_carried [of LoginResp "bytes_of ''okay''"]) (simp_all add: LoginResp_def)
  have "login_frame (fst (FrameMessage_Decode (carried f)))" "login_accepted env (fm_params (fst (FrameMessage_Decode (carried f)))) st"
    using f assms(8) by (simp_all add: login_frame_def)
  from login_answered [OF assms(1-4) this g(1) assms(5)] obtain st' c' x e where st:
    "Switch_ReadClient env (Switch_preApps v) i (carried f) st = Some (Inr (None, st'))" "heap_at st' i = Some c'"
    "StreamSocket_WriteMsg (en_ops env) g (c\<lparr>sc_status := ClAuth, sc_private := x\<rparr>) = Some (c', e)"
    by (elim returnsE) auto
  have send: "SocketWorker_sendLogin pe p = con_WriteMsg pe f p"
    using assms(6,7) f(1) by (auto simp: SocketWorker_sendLogin_def send_control_def bnd_def gets_def)
  have "okay (bytes_of ''okay'')" by (simp add: okay_def)
  from onLogin_okay [OF assms(9-11) this, of qe]
  have "returns (read_frame qe (carried g)) q (\<lambda>b t. b \<and> con_auth t \<and>
      sk_eventQueue (ap_con t) = sk_eventQueue (ap_con q) @ [NewEvent (ae_now qe) EvSocSuccess ''from login''])"
    using g by (simp add: read_frame_def FrameMessage_IsControl_def SocketWorker_onInstruct_def FrameMessage_CmdAndParams_def)
  then obtain q' where "read_frame qe (carried g) q = Some (Inr (True, q'))" "con_auth q'"
    "sk_eventQueue (ap_con q') = sk_eventQueue (ap_con q) @ [NewEvent (ae_now qe) EvSocSuccess ''from login'']"
    by (elim returnsE) auto
  with send st WriteMsg_auth [OF st(3)] show ?thesis by (intro exI conjI) (assumption | simp)+
qed
section \<open>An example\<close>

lemma conn_demo_writes:
  fixes c :: "(unit, nat) SocketClientImpl"
  shows "StreamSocket_WriteMsg (en_ops env_demo) g c \<noteq> None"
proof -
  have ops: "en_ops env_demo = conn_demo" by (simp add: env_demo_def)
  have wr: "StreamMessagerImpl_write conn_demo s b k = (k, Inr (int (length b)))" for s b k
    by (simp add: StreamMessagerImpl_write_def conn_demo_def)
  have "\<exists>r. writeX_loop conn_demo s buf 0 k = Some r" for s buf k
  proof (cases "buf = []")
    case True
    then show ?thesis by (subst writeX_loop.simps) simp
  next
    case False
    have r: "reslice_from 0 buf = Inr buf" by (simp add: reslice_from_Inr)
    from False have "writeX_loop conn_demo s buf 0 k = writeX_loop conn_demo s buf (int (length buf)) k"
      by (subst writeX_loop.simps) (simp add: r wr)
    moreover have "writeX_loop conn_demo s buf (int (length buf)) k = Some (k, None)" by (subst writeX_loop.simps) simp
    ultimately show ?thesis by simp
  qed
  then have st: "\<exists>r. StreamMessagerImpl_Send conn_demo m g k = Some r" for m k
    by (auto simp: StreamMessagerImpl_Send_def StreamMessagerImpl_writeX_def Let_def split: sum.split option.splits prod.split)
      (metis option.distinct(1))
  have send: "\<exists>r. Messager_Send conn_demo m g k = Some r" for m k
  proof (cases m)
    case (Packet x)
    then show ?thesis by (cases "PacketMessagerImpl_Send conn_demo x g k") simp
  qed (use st in simp)
  show ?thesis
  proof (cases "ss_connection c")
    case (Some k)
    obtain k' r where "Messager_Send conn_demo (case ss_message c of None \<Rightarrow> Stream zero_stream | Some msg \<Rightarrow> msg) g k = Some (k', r)"
      using send by (metis surj_pair)
    then show ?thesis unfolding ops StreamSocket_WriteMsg_def Some Let_def by (cases r) (simp_all only: option.case prod.case sum.case, simp_all)
  qed (simp add: StreamSocket_WriteMsg_def)
qed

theorem login_handshake_witness:
  "\<exists>f g st' q'. Switch_ReadClient env_demo (Switch_preApps sw_demo) 0 (carried f) state_demo = Some (Inr (None, st')) \<and>
     read_frame ae_demo (carried g) lost_demo = Some (Inr (True, q')) \<and> con_auth q'"
proof -
  have "off_room 2 state_demo" "heap_at state_demo 0 = Some (client_demo ''a'')"
    using demo_facts(2) by (simp_all add: off_room_def state_demo_def NewSocketServer_def heap_at_def)
  moreover have "login_accepted env_demo [] state_demo"
  proof -
    have "(case en_User env_demo [] of None \<Rightarrow> False | Some user \<Rightarrow>
        \<not> isl (snd (user_Check (en_ldap env_demo) (en_year env_demo) (en_now env_demo) (User_Update (en_now env_demo) user) users_demo)))"
      by code_simp
    then show ?thesis unfolding login_accepted_def by (auto simp: state_demo_def split: option.splits) (metis sum.collapse(2))
  qed
  moreover have "sk_client (ap_con lost_demo) \<noteq> None" "ae_putUser ae_demo (sk_user (ap_con lost_demo)) = Some []"
    by (simp_all add: lost_demo_def Let_def ae_demo_def)
  moreover obtain qc where "sk_client (ap_con lost_demo) = Some qc" "sc_status qc \<noteq> ClAuth"
    using lost_demo_facts(2) calculation(4) by (auto simp: con_auth_def)
  ultimately show ?thesis
    using login_handshake [OF demo_facts(1) _ _ demo_facts(3) conn_demo_writes, of state_demo 0 "''a''" lost_demo ae_demo "[]" lost_demo qc ae_demo]
      lost_demo_facts(4) by auto
qed

end
