(* ===== verification/Spec2Isabelle.thy ===== *)
theory Spec2Isabelle
  imports Safe Message Socket Bridge Firewall Isolation Rules FabricNet Http ApReset Handshake
begin

text \<open>
  A verification of OpenLAN (\<^verbatim>\<open>src/pkg\<close>), an overlay network: access points connect to a switch, log in as users of a tenant network,
  get an address, and exchange Ethernet frames through the virtual bridge of their network.

  \<^bold>\<open>The program.\<close> An access point (\<^verbatim>\<open>olap\<close>) has a tap worker, which reads frames from a device of the host, and a socket worker, which
  carries them over a connection (\<^verbatim>\<open>libol/socket.go\<close> and the transports) as messages (\<^verbatim>\<open>libol/message.go\<close>). The server of the switch
  accepts connections and hands every frame to \<^verbatim>\<open>Switch.ReadClient\<close> (\<^verbatim>\<open>olsw/switch.go\<close>), which passes it through a chain of handlers
  (\<^verbatim>\<open>olsw/app\<close>): access, requests, neighbors, flows. They keep users, points, networks and leases in caches (\<^verbatim>\<open>olsw/cache\<close>). Frames of an
  authenticated client go to its tap, a port of the bridge of its network (\<^verbatim>\<open>network\<close>), and from there to other clients. When it
  starts, the switch corrects its configuration (\<^verbatim>\<open>config\<close>), fills the caches and installs a firewall (\<^verbatim>\<open>network/firewall.go\<close>).

  \<^bold>\<open>The theories\<close>, from the bottom; definitions keep the names of the source, a method \<open>T.m\<close> is \<open>T_m\<close>:
  \<^item> \<open>Prelude\<close>: integers at their width, slices that panic out of range, results; \<open>Prog\<close>: handlers as state transformers that
    block, panic or return, with the locale \<open>kept_relation\<close> for what every handler keeps and \<open>returns\<close> for total correctness.
  \<^item> \<open>Safe\<close> (\<^verbatim>\<open>libol/safe.go\<close>): the locked containers. \<open>SafeStrMap\<close> refines a bounded map, counters are exact.
  \<^item> \<open>Protocol\<close> (\<^verbatim>\<open>libol/protocol.go\<close>): the packet headers. Their decoders and encoders are instances of one codec locale.
  \<^item> \<open>Message\<close> (\<^verbatim>\<open>libol/message.go\<close>): the decoder of whole frames, frames and control messages, the messagers of streams and packets.
    Decoding never panics, sending and receiving are inverse for every segmentation of the stream.
  \<^item> \<open>Socket\<close> (\<^verbatim>\<open>libol/socket.go\<close>, \<^verbatim>\<open>tcpsocket.go\<close>, \<^verbatim>\<open>udpsocket.go\<close>, \<^verbatim>\<open>kcpsocket.go\<close>, \<^verbatim>\<open>websocket.go\<close>, \<^verbatim>\<open>promise.go\<close>): clients with their
    status and connection; the server as a transition system over its goroutines, with the invariant of the admission.
  \<^item> \<open>Tap\<close>, \<open>Bridge\<close> (\<^verbatim>\<open>network/tap_virtual.go\<close>, \<^verbatim>\<open>bridge_virtual.go\<close>): bounded queues; learning, unicast, flooding, expiry.
  \<^item> \<open>Firewall\<close> (\<^verbatim>\<open>network/iptables.go\<close>, \<^verbatim>\<open>firewall.go\<close>): rules and chains over any library that behaves like iptables.
  \<^item> \<open>Models\<close>, \<open>Cidr\<close>, \<open>Lease\<close>, \<open>Cache\<close> (\<^verbatim>\<open>models\<close>, \<^verbatim>\<open>libol/utils.go\<close>, \<^verbatim>\<open>olsw/cache\<close>): data, addresses and prefixes, leases (unique among
    clients, first free address), the user cache with its file.
  \<^item> \<open>App\<close>, \<open>Switch\<close> (\<^verbatim>\<open>olsw/app\<close>, \<^verbatim>\<open>olsw/switch.go\<close>): the handlers, whose \<open>Master\<close> is a record of operations with a contract, and the
    switch that implements it; \<open>Isolation\<close>: no effect without a login, no login without the user cache, no tenant sees another.
  \<^item> \<open>Config\<close>, \<open>Rules\<close>, \<open>OpenLan\<close> (\<^verbatim>\<open>config\<close>, \<^verbatim>\<open>olsw/switch.go\<close>, \<^verbatim>\<open>olsw/openlan.go\<close>): defaults are complete and stable, the firewall the
    configuration leads to is installed and forwards the routes, configured users can log in.
  \<^item> \<open>Fabric\<close> (\<^verbatim>\<open>olsw/fabric.go\<close>): the worker of a fabric network, as the commands it gives to Open vSwitch. \<open>FabricNet\<close>: on every switch with
    the documented behaviour (the locale \<open>openflow\<close>) its flow tables refine one learning switch per network, and networks are isolated.
  \<^item> \<open>Netlink\<close> (\<^verbatim>\<open>network/brctl_linux.go\<close>, \<^verbatim>\<open>bridge_linux.go\<close>): calls of the kernel, and bridges of the kernel on them.
  \<^item> \<open>Esp\<close> (\<^verbatim>\<open>olsw/esp.go\<close>, \<^verbatim>\<open>olsw/cache/esp.go\<close>): the worker of an ESP network, as its calls of the kernel. What is installed is
    what the specification says, over start, reloads and stop; the two ends of a tunnel agree.
  \<^item> \<open>OpenVpn\<close> (\<^verbatim>\<open>olsw/openvpn.go\<close>, \<^verbatim>\<open>olsw/cache/openvpn.go\<close>): servers with their files and templates, and the cache that reads them. Profiles
    lead to the server, the status is read as it was written.
  \<^item> \<open>Workers\<close> (\<^verbatim>\<open>olsw/link.go\<close>, \<^verbatim>\<open>openlan.go\<close>, \<^verbatim>\<open>vxlan.go\<close>, \<^verbatim>\<open>network.go\<close>, \<^verbatim>\<open>switch.go\<close>): the processes of links, the whole worker of a network, with
    goroutines as jobs that take turns in any order, and all workers of a switch. Stopping takes back routes and processes, a reload
    leaves exactly the configured states in the cache. \<open>Schema\<close> (\<^verbatim>\<open>schema\<close>, \<^verbatim>\<open>models/schema.go\<close>): the types of the HTTP interface.
  \<^item> \<open>Http\<close> (\<^verbatim>\<open>olsw/http.go\<close>, \<^verbatim>\<open>olsw/api\<close>): every handler, the table of routes, the tokens, and the router in front. Only the administrator
    changes the switch; a user that is posted can log in until it is deleted; lists are stable sorts of the caches.
  \<^item> \<open>ApWorker\<close>, \<open>ApTap\<close>, \<open>ApSocket\<close> (\<^verbatim>\<open>olap/worker.go\<close>, \<^verbatim>\<open>neighbor.go\<close>, \<^verbatim>\<open>tap.go\<close>, \<^verbatim>\<open>socket.go\<close>): the access point. A packet crosses two tun
    devices unchanged, only an accepted login authenticates, a lost connection comes back, delays are bounded. \<open>ApReset\<close> and the end
    of \<open>ApSocket\<close> show three ways in which the point stops working. \<open>Handshake\<close> joins point and switch: the login from end to end.

  \<^bold>\<open>State and effects.\<close> Structures are records, objects shared through pointers live in stores by number, a goroutine is a step of a
  relation between the points where it takes a lock or waits. A loop that may not end is a partial function, with \<open>None\<close> for not
  returning; then the theorems say that it returns. A handler runs without interruption by others of its kind, as the locks of
  the source have it; where a lock is released in between, the model has two steps (\<open>DoWrite\<close>, the reader of a tap). Channel
  capacities are those of the source (1024 clients to close, 32 events, queues from the configuration). The only bound is the depth of
  resubmissions of a flow table: the theorems hold for every depth from eight on, and Open vSwitch allows 64.
  Operations of the host, the clock, random numbers, JSON, LDAP, ciphers, the iptables command and connections are parameters: fields
  of the environments \<open>env\<close>, \<open>apenv\<close>, \<open>wenv\<close>, \<open>henv\<close>, \<open>host\<close>, \<open>kernel\<close>, \<open>conn\<close>, \<open>crypt\<close>, \<open>ldap\<close>, \<open>iptables\<close>. What a theorem needs of them is a hypothesis
  (\<open>crypt_ok\<close>, \<open>write_ok\<close>, \<open>ipt_ok\<close>, \<open>openflow\<close>, \<open>kernel_ok\<close>), which holds of the instances in the witnesses.

  \<^bold>\<open>Findings.\<close> Some theorems show behaviour that the code can hardly intend: a receiver that never returns, a third close that blocks,
  an allocation that wraps around, a rule whose removal panics, and the three of the access point.

  \<^bold>\<open>Not modelled.\<close> Commands (they print what the HTTP interface answers), kernel taps and the front ends of the point (system calls), the
  configuration daemon and its database (clients of a third-party server), proxies, logging. Of the HTTP interface, listening and TLS; of the
  configuration, flags and decoding of files.
\<close>

end
